(* ===== verification/Prelude.thy ===== *)
theory Prelude
  imports Main "HOL-Library.Word" "HOL-Library.AList" "HOL-Library.Multiset"
begin

text \<open>
  Shared vocabulary of the development: the outcome of a Go function that may
  return an error or panic, byte and string conversions, bounds-checked slice
  reads, Go maps as association lists with distinct keys, and a locale for
  invariants of interleaved step relations.
\<close>

unbundle bit_operations_syntax

named_theorems go_simps \<open>evaluation rules of the Go primitives\<close>
named_theorems gm_simps \<open>lookup laws of Go maps\<close>
named_theorems inv_intros \<open>preservation of component invariants\<close>

subsection \<open>Outcomes of Go functions\<close>

text \<open>
  A function with result type \<open>(T, error)\<close> either returns a value, returns an
  error, or panics (an out-of-range index, a closed channel, an explicit
  \<open>panic\<close>).
\<close>

datatype ('a, 'e) outcome = Ok 'a | Err 'e | Panic

primrec obind :: "('a, 'e) outcome \<Rightarrow> ('a \<Rightarrow> ('b, 'e) outcome) \<Rightarrow> ('b, 'e) outcome" where
  "obind (Ok x) k = k x"
| "obind (Err e) k = Err e"
| "obind Panic k = Panic"

primrec is_ok :: "('a, 'e) outcome \<Rightarrow> bool" where
  "is_ok (Ok _) = True"
| "is_ok (Err _) = False"
| "is_ok Panic = False"

lemma obind_assoc: "obind (obind m f) g = obind m (\<lambda>x. obind (f x) g)"
  by (cases m) simp_all

lemma obind_eq_Ok: "(obind m k = Ok y) \<longleftrightarrow> (\<exists>x. m = Ok x \<and> k x = Ok y)"
  by (cases m) simp_all

text \<open>
  \<open>safe m Q\<close>: the computation does not panic, and a value it returns satisfies
  \<open>Q\<close>.  The rules below walk through a sequence of reads.
\<close>

definition safe :: "('a, 'e) outcome \<Rightarrow> ('a \<Rightarrow> bool) \<Rightarrow> bool" where
  "safe m Q \<longleftrightarrow> m \<noteq> Panic \<and> (\<forall>x. m = Ok x \<longrightarrow> Q x)"

lemma safe_simps [simp]: "safe (Ok x) Q = Q x" "safe (Err e) Q" "\<not> safe Panic Q"
  by (simp_all add: safe_def)

lemma safe_bindI: "\<lbrakk>safe m P; \<And>x. P x \<Longrightarrow> safe (k x) Q\<rbrakk> \<Longrightarrow> safe (obind m k) Q"
  by (cases m) simp_all

lemma safe_ifI: "\<lbrakk>c \<Longrightarrow> safe m Q; \<not> c \<Longrightarrow> safe n Q\<rbrakk> \<Longrightarrow> safe (if c then m else n) Q"
  by simp

lemma is_ok_iff: "is_ok m \<longleftrightarrow> (\<exists>x. m = Ok x)"
  by (cases m) simp_all

subsection \<open>Bytes, strings and slices\<close>

type_synonym byte = "8 word"
type_synonym bytes = "byte list"
type_synonym gostring = string

definition byte_of_char :: "char \<Rightarrow> byte" where
  "byte_of_char c = word_of_nat (of_char c)"

definition char_of_byte :: "byte \<Rightarrow> char" where
  "char_of_byte b = char_of (unat b)"

definition str_bytes :: "gostring \<Rightarrow> bytes" where
  "str_bytes s = map byte_of_char s"

definition bytes_str :: "bytes \<Rightarrow> gostring" where
  "bytes_str bs = map char_of_byte bs"

lemma of_char_less_256: "(of_char c :: nat) < 256"
  by (metis char_of_eq_iff of_char_of of_char_mod_256 mod_less_divisor zero_less_numeral)

lemma char_of_byte_of_char [simp]: "char_of_byte (byte_of_char c) = c"
  by (simp add: char_of_byte_def byte_of_char_def unat_of_nat of_char_less_256)

lemma unat_byte_less: "unat (b :: byte) < 256"
  using unsigned_less [of b] by simp

lemma byte_of_char_of_byte [simp]: "byte_of_char (char_of_byte b) = b"
  using unat_byte_less [of b] by (simp add: char_of_byte_def byte_of_char_def)

lemma bytes_str_str_bytes [simp]: "bytes_str (str_bytes s) = s"
  by (simp add: bytes_str_def str_bytes_def comp_def)

lemma str_bytes_bytes_str [simp]: "str_bytes (bytes_str bs) = bs"
  by (simp add: bytes_str_def str_bytes_def comp_def)

lemma length_str_bytes [simp]: "length (str_bytes s) = length s"
  by (simp add: str_bytes_def)

lemma length_bytes_str [simp]: "length (bytes_str bs) = length bs"
  by (simp add: bytes_str_def)

lemma bytes_str_eq_Nil [simp]: "bytes_str bs = [] \<longleftrightarrow> bs = []"
  by (simp add: bytes_str_def)

lemma str_bytes_eq_Nil [simp]: "str_bytes s = [] \<longleftrightarrow> s = []"
  by (simp add: str_bytes_def)

text \<open>Indexing and slicing panic out of range, as the Go runtime does.\<close>

definition index_at :: "'a list \<Rightarrow> nat \<Rightarrow> ('a, 'e) outcome" where
  "index_at xs i = (if i < length xs then Ok (xs ! i) else Panic)"

definition slice_of :: "'a list \<Rightarrow> nat \<Rightarrow> nat \<Rightarrow> ('a list, 'e) outcome" where
  "slice_of xs i j = (if i \<le> j \<and> j \<le> length xs then Ok (take (j - i) (drop i xs)) else Panic)"

lemma index_at_Ok [go_simps]: "i < length xs \<Longrightarrow> index_at xs i = Ok (xs ! i)"
  by (simp add: index_at_def)

lemma slice_of_Ok [go_simps]:
  "\<lbrakk>i \<le> j; j \<le> length xs\<rbrakk> \<Longrightarrow> slice_of xs i j = Ok (take (j - i) (drop i xs))"
  by (simp add: slice_of_def)

lemma index_at_safe: "i < length xs \<Longrightarrow> safe (index_at xs i) (\<lambda>x. x = xs ! i)"
  by (simp add: index_at_def)

lemma slice_of_safe:
  "\<lbrakk>i \<le> j; j \<le> length xs\<rbrakk> \<Longrightarrow> safe (slice_of xs i j) (\<lambda>ys. length ys = j - i)"
  by (simp add: slice_of_def)

text \<open>Two bytes read back in big-endian order.\<close>

lemma be16_or:
  fixes a b :: nat
  assumes "b < 256"
  shows "push_bit 8 a OR b = 256 * a + b"
proof -
  have "push_bit 8 a AND b = 0"
  proof (rule bit_eqI)
    fix n
    show "bit (push_bit 8 a AND b) n \<longleftrightarrow> bit (0::nat) n"
    proof (cases "n < 8")
      case True
      then show ?thesis by (simp add: bit_and_iff bit_push_bit_iff)
    next
      case False
      have "b < 2 ^ n"
        using assms False power_increasing [of 8 n "2::nat"] by simp
      then have "\<not> bit b n"
        by (simp add: bit_iff_odd)
      then show ?thesis by (simp add: bit_and_iff)
    qed
  qed
  then have "push_bit 8 a OR b = push_bit 8 a + b"
    by (simp add: disjunctive_add_eq_or)
  then show ?thesis
    by (simp add: push_bit_eq_mult)
qed

subsection \<open>Go maps\<close>

text \<open>
  A Go map is an association list with distinct keys.  Iteration order is
  unspecified in Go; results that depend on it are stated as sets or multisets.
\<close>

type_synonym ('k, 'v) gomap = "('k \<times> 'v) list"

definition gm_get :: "('k, 'v) gomap \<Rightarrow> 'k \<Rightarrow> 'v option" where
  "gm_get m k = map_of m k"

definition gm_put :: "'k \<Rightarrow> 'v \<Rightarrow> ('k, 'v) gomap \<Rightarrow> ('k, 'v) gomap" where
  "gm_put k v m = AList.update k v m"

definition gm_del :: "'k \<Rightarrow> ('k, 'v) gomap \<Rightarrow> ('k, 'v) gomap" where
  "gm_del k m = AList.delete k m"

definition gm_keys :: "('k, 'v) gomap \<Rightarrow> 'k list" where
  "gm_keys m = map fst m"

definition gm_vals :: "('k, 'v) gomap \<Rightarrow> 'v list" where
  "gm_vals m = map snd m"

definition gm_has :: "('k, 'v) gomap \<Rightarrow> 'k \<Rightarrow> bool" where
  "gm_has m k = (gm_get m k \<noteq> None)"

definition gm_inv :: "('k, 'v) gomap \<Rightarrow> bool" where
  "gm_inv m = distinct (map fst m)"

lemma gm_get_Nil [simp, gm_simps]: "gm_get [] k = None"
  by (simp add: gm_get_def)

lemma gm_get_put [simp, gm_simps]: "gm_get (gm_put k v m) k' = (if k' = k then Some v else gm_get m k')"
  by (simp add: gm_get_def gm_put_def update_conv')

lemma gm_get_del [simp, gm_simps]: "gm_get (gm_del k m) k' = (if k' = k then None else gm_get m k')"
  by (simp add: gm_get_def gm_del_def delete_conv')

lemma gm_inv_Nil [simp]: "gm_inv []"
  by (simp add: gm_inv_def)

lemma gm_inv_put [simp]: "gm_inv m \<Longrightarrow> gm_inv (gm_put k v m)"
  by (simp add: gm_inv_def gm_put_def distinct_update)

lemma gm_inv_del [simp]: "gm_inv m \<Longrightarrow> gm_inv (gm_del k m)"
  by (simp add: gm_inv_def gm_del_def distinct_delete)

lemma gm_get_iff: "gm_inv m \<Longrightarrow> gm_get m k = Some v \<longleftrightarrow> (k, v) \<in> set m"
  by (simp add: gm_inv_def gm_get_def)

lemma set_gm_keys: "set (gm_keys m) = {k. gm_get m k \<noteq> None}"
  by (auto simp: gm_keys_def gm_get_def map_of_eq_None_iff)

lemma set_gm_vals: "gm_inv m \<Longrightarrow> set (gm_vals m) = {v. \<exists>k. gm_get m k = Some v}"
  by (force simp: gm_vals_def gm_get_iff)

lemma distinct_gm_keys: "gm_inv m \<Longrightarrow> distinct (gm_keys m)"
  by (simp add: gm_inv_def gm_keys_def)

lemma gm_empty_iff: "m = [] \<longleftrightarrow> (\<forall>k. gm_get m k = None)"
  by (cases m) (auto simp: gm_get_def split: if_splits)

lemma gm_put_not_Nil [simp]: "gm_put k v m \<noteq> []"
  by (simp add: gm_empty_iff) (rule exI [of _ k], simp)

lemma gm_put_idem: "gm_get m k = Some v \<Longrightarrow> gm_put k v m = m"
  by (induction m) (auto simp: gm_get_def gm_put_def split: if_splits)

lemma set_gm_vals_put: "set (gm_vals (gm_put k v m)) \<subseteq> insert v (set (gm_vals m))"
  by (induction m) (auto simp: gm_vals_def gm_put_def)

lemma distinct_gm_vals_put:
  "\<lbrakk>distinct (gm_vals m); v \<notin> set (gm_vals m)\<rbrakk> \<Longrightarrow> distinct (gm_vals (gm_put k v m))"
proof (induction m)
  case (Cons p m)
  then show ?case using set_gm_vals_put [of k v m] by (auto simp: gm_vals_def gm_put_def)
qed (simp add: gm_vals_def gm_put_def)

lemma gm_del_filter: "gm_del k m = filter (\<lambda>p. fst p \<noteq> k) m"
  unfolding gm_del_def AList.delete_eq by (rule filter_cong) auto

lemma set_gm_vals_del: "set (gm_vals (gm_del k m)) \<subseteq> set (gm_vals m)"
  by (auto simp: gm_vals_def gm_del_filter)

lemma distinct_gm_vals_del: "distinct (gm_vals m) \<Longrightarrow> distinct (gm_vals (gm_del k m))"
  unfolding gm_vals_def gm_del_filter by (rule distinct_map_filter)

lemma gm_get_in_vals: "gm_get m k = Some v \<Longrightarrow> v \<in> set (gm_vals m)"
  by (auto simp: gm_get_def gm_vals_def dest!: map_of_SomeD intro: rev_image_eqI)

lemma gm_vals_del_notin:
  "\<lbrakk>gm_get m k = Some v; distinct (gm_vals m)\<rbrakk> \<Longrightarrow> v \<notin> set (gm_vals (gm_del k m))"
proof (induction m)
  case (Cons p m)
  have "gm_get m k = Some v \<Longrightarrow> snd p \<noteq> v"
    using Cons.prems(2) gm_get_in_vals [of m k v] by (auto simp: gm_vals_def)
  moreover have "fst p = k \<Longrightarrow> v \<notin> set (gm_vals (gm_del k m))"
    using Cons.prems set_gm_vals_del [of k m] by (auto simp: gm_get_def gm_vals_def)
  ultimately show ?case using Cons
    by (auto simp: gm_get_def gm_vals_def gm_del_filter split: if_splits)
qed simp

text \<open>The contract of a map that the components rely on.\<close>

locale go_map =
  fixes get :: "'m \<Rightarrow> 'k \<Rightarrow> 'v option"
    and put :: "'k \<Rightarrow> 'v \<Rightarrow> 'm \<Rightarrow> 'm"
    and del :: "'k \<Rightarrow> 'm \<Rightarrow> 'm"
    and invar :: "'m \<Rightarrow> bool"
    and emp :: 'm
  assumes get_emp: "get emp k = None"
    and get_put: "invar m \<Longrightarrow> get (put k v m) k' = (if k' = k then Some v else get m k')"
    and get_del: "invar m \<Longrightarrow> get (del k m) k' = (if k' = k then None else get m k')"
    and invar_emp: "invar emp"
    and invar_put: "invar m \<Longrightarrow> invar (put k v m)"
    and invar_del: "invar m \<Longrightarrow> invar (del k m)"
begin

lemma get_del_put: "invar m \<Longrightarrow> get (del k (put k v m)) = get (del k m)"
  by (rule ext) (simp add: get_put get_del invar_put)

lemma get_put_put: "invar m \<Longrightarrow> get (put k v (put k w m)) = get (put k v m)"
  by (rule ext) (simp add: get_put invar_put)

lemma invar_fold_put: "invar m \<Longrightarrow> invar (fold (\<lambda>(k, v). put k v) kvs m)"
  by (induction kvs arbitrary: m) (auto simp: invar_put)

lemma invar_fold_del: "invar m \<Longrightarrow> invar (fold del ks m)"
  by (induction ks arbitrary: m) (auto simp: invar_del)

lemma get_fold_del: "invar m \<Longrightarrow> get (fold del ks m) k = (if k \<in> set ks then None else get m k)"
  by (induction ks arbitrary: m) (auto simp: invar_del get_del)

end

interpretation gm: go_map gm_get gm_put gm_del gm_inv "[]"
  by unfold_locales simp_all

subsection \<open>Two-level Go maps\<close>

text \<open>
  Maps of maps, with inner maps created on demand and removed when they become
  empty, as the registries of the source do.
\<close>

type_synonym 'v nmap = "(gostring, (gostring, 'v) gomap) gomap"

definition nm_inner :: "'v nmap \<Rightarrow> gostring \<Rightarrow> (gostring, 'v) gomap" where
  "nm_inner m u = (case gm_get m u of Some inner \<Rightarrow> inner | None \<Rightarrow> [])"

definition nm_get :: "'v nmap \<Rightarrow> gostring \<Rightarrow> gostring \<Rightarrow> 'v option" where
  "nm_get m u i = (case gm_get m u of Some inner \<Rightarrow> gm_get inner i | None \<Rightarrow> None)"

definition nm_put :: "gostring \<Rightarrow> gostring \<Rightarrow> 'v \<Rightarrow> 'v nmap \<Rightarrow> 'v nmap" where
  "nm_put u i v m = gm_put u (gm_put i v (nm_inner m u)) m"

definition nm_del :: "gostring \<Rightarrow> gostring \<Rightarrow> 'v nmap \<Rightarrow> 'v nmap" where
  "nm_del u i m =
     (case gm_get m u of
        None \<Rightarrow> m
      | Some inner \<Rightarrow>
          let inner = gm_del i inner in
          if length inner = 0 then gm_del u m else gm_put u inner m)"

definition nm_inv :: "'v nmap \<Rightarrow> bool" where
  "nm_inv m \<longleftrightarrow> gm_inv m \<and> (\<forall>u inner. gm_get m u = Some inner \<longrightarrow> inner \<noteq> [] \<and> gm_inv inner)"

lemma nm_get_inner: "nm_get m u i = gm_get (nm_inner m u) i"
  by (simp add: nm_get_def nm_inner_def split: option.split)

lemma nm_get_Nil [simp]: "nm_get [] u i = None"
  by (simp add: nm_get_def)

lemma nm_get_put [simp]:
  "nm_get (nm_put u i v m) u' i' = (if u' = u \<and> i' = i then Some v else nm_get m u' i')"
  by (simp add: nm_get_def nm_put_def nm_inner_def split: option.split)

lemma nm_get_del [simp]:
  "nm_get (nm_del u i m) u' i' = (if u' = u \<and> i' = i then None else nm_get m u' i')"
proof (cases "gm_get m u")
  case None
  then show ?thesis by (simp add: nm_get_def nm_del_def)
next
  case (Some inner)
  have "gm_del i inner = [] \<Longrightarrow> i' \<noteq> i \<Longrightarrow> gm_get inner i' = None"
    using gm_get_del [of i inner i'] by simp
  then show ?thesis using Some by (simp add: nm_get_def nm_del_def Let_def)
qed

lemma nm_inv_Nil [simp]: "nm_inv []"
  by (simp add: nm_inv_def)

lemma nm_inv_inner: "nm_inv m \<Longrightarrow> gm_inv (nm_inner m u)"
  by (simp add: nm_inv_def nm_inner_def split: option.split)

lemma nm_inv_put [simp]: "nm_inv m \<Longrightarrow> nm_inv (nm_put u i v m)"
  using nm_inv_inner [of m u] by (simp add: nm_inv_def nm_put_def)

lemma nm_inv_del [simp]: "nm_inv m \<Longrightarrow> nm_inv (nm_del u i m)"
  by (simp add: nm_inv_def nm_del_def Let_def split: option.split)

lemma nm_inner_keys: "set (gm_keys (nm_inner m u)) = {i. nm_get m u i \<noteq> None}"
  by (simp add: set_gm_keys nm_get_inner)

lemma nm_entries:
  "nm_inv m \<Longrightarrow> (u, i, v) \<in> set (concat (map (\<lambda>(u, inner). map (\<lambda>(i, v). (u, i, v)) inner) m)) \<longleftrightarrow>
     nm_get m u i = Some v"
proof -
  assume inv: "nm_inv m"
  have "(u, i, v) \<in> set (concat (map (\<lambda>(u, inner). map (\<lambda>(i, v). (u, i, v)) inner) m)) \<longleftrightarrow>
      (\<exists>inner. (u, inner) \<in> set m \<and> (i, v) \<in> set inner)" by force
  also have "\<dots> \<longleftrightarrow> (\<exists>inner. gm_get m u = Some inner \<and> gm_get inner i = Some v)"
    using inv by (metis gm_get_iff nm_inv_def)
  finally show ?thesis by (simp add: nm_get_def split: option.split)
qed

subsection \<open>Durations\<close>

text \<open>Durations and instants are in nanoseconds, as \<open>time.Duration\<close>.\<close>

definition second :: int where
  "second = 1000000000"

text \<open>Times are nanoseconds since 1970; the zero time is the start of year 1.\<close>

definition zero_time :: int where "zero_time = -62135596800 * second"

subsection \<open>Interleaved steps\<close>

text \<open>
  States reachable by interleaving the atomic steps of concurrent callers, and
  the rule that a predicate kept by every step holds in all of them.
\<close>

inductive reachable :: "('s \<Rightarrow> bool) \<Rightarrow> ('s \<Rightarrow> 's \<Rightarrow> bool) \<Rightarrow> 's \<Rightarrow> bool"
  for init :: "'s \<Rightarrow> bool" and step :: "'s \<Rightarrow> 's \<Rightarrow> bool" where
  reach_init: "init s \<Longrightarrow> reachable init step s"
| reach_step: "\<lbrakk>reachable init step s; step s s'\<rbrakk> \<Longrightarrow> reachable init step s'"

locale step_invariant =
  fixes init :: "'s \<Rightarrow> bool"
    and step :: "'s \<Rightarrow> 's \<Rightarrow> bool"
    and invar :: "'s \<Rightarrow> bool"
  assumes init_invar: "init s \<Longrightarrow> invar s"
    and step_invar: "\<lbrakk>invar s; step s s'\<rbrakk> \<Longrightarrow> invar s'"
begin

lemma reachable_invar: "reachable init step s \<Longrightarrow> invar s"
  by (induction rule: reachable.induct) (auto intro: init_invar step_invar)

lemma rtranclp_invar: "\<lbrakk>step\<^sup>*\<^sup>* s s'; invar s\<rbrakk> \<Longrightarrow> invar s'"
  by (induction rule: rtranclp_induct) (auto intro: step_invar)

end

end
