(* ===== verification/Wire.thy ===== *)
theory Wire
  imports Prelude
begin

text \<open>
  The v1 binary envelope of \<open>core/service/websocket/wire\<close>: the frame record,
  the encoder and the bounds-checked decoder.  Proved here: the decoder never
  panics on any input, encoding then decoding gives the frame back, every
  decoded frame can be encoded again without growing, and the encoder's size
  computation is exact.
\<close>

subsection \<open>Constants, errors and the frame (frame.go)\<close>

definition Version :: byte where "Version = 0x1"
definition ControlHeartbeat :: byte where "ControlHeartbeat = 0xCA"
definition ControlAck :: byte where "ControlAck = 0xCB"
definition FlagID :: byte where "FlagID = 0x10"
definition FlagResponseToID :: byte where "FlagResponseToID = 0x20"
definition FlagAckID :: byte where "FlagAckID = 0x40"
definition FlagError :: byte where "FlagError = 0x80"
definition MaxShortField :: nat where "MaxShortField = 255"
definition MaxErrorLen :: nat where "MaxErrorLen = 65535"

lemmas wire_consts = Version_def ControlHeartbeat_def ControlAck_def FlagID_def
  FlagResponseToID_def FlagAckID_def FlagError_def MaxShortField_def MaxErrorLen_def

datatype wire_error = ErrFieldTooLong | ErrMalformed | ErrVersion

record Frame =
  frMsgType :: gostring
  frControlCode :: byte
  frID :: gostring
  frResponseToID :: gostring
  frAckID :: gostring
  frError :: gostring
  frBinary :: bytes

definition emptyFrame :: Frame where
  "emptyFrame = \<lparr>frMsgType = [], frControlCode = 0, frID = [], frResponseToID = [],
     frAckID = [], frError = [], frBinary = []\<rparr>"

subsection \<open>Encode (encode.go)\<close>

definition encode_flags :: "Frame \<Rightarrow> byte" where
  "encode_flags f =
     (if frID f \<noteq> [] then FlagID else 0) OR
     (if frResponseToID f \<noteq> [] then FlagResponseToID else 0) OR
     (if frAckID f \<noteq> [] then FlagAckID else 0) OR
     (if frError f \<noteq> [] then FlagError else 0)"

definition encode_size :: "Frame \<Rightarrow> nat" where
  "encode_size f =
     (if frMsgType f = [] then 3 + length (frBinary f)
      else 2 + length (frMsgType f) + length (frBinary f)) +
     (if frID f \<noteq> [] then 1 + length (frID f) else 0) +
     (if frResponseToID f \<noteq> [] then 1 + length (frResponseToID f) else 0) +
     (if frAckID f \<noteq> [] then 1 + length (frAckID f) else 0) +
     (if frError f \<noteq> [] then 2 + length (frError f) else 0)"

definition put_short :: "gostring \<Rightarrow> bytes" where
  "put_short s = (if s \<noteq> [] then word_of_nat (length s) # str_bytes s else [])"

definition put_error :: "gostring \<Rightarrow> bytes" where
  "put_error s =
     (if s \<noteq> [] then word_of_nat (drop_bit 8 (length s)) # word_of_nat (length s) # str_bytes s
      else [])"

definition put_msgtype :: "Frame \<Rightarrow> bytes" where
  "put_msgtype f =
     (if frMsgType f = [] then [0, frControlCode f]
      else word_of_nat (length (frMsgType f)) # str_bytes (frMsgType f))"

definition Encode :: "Frame \<Rightarrow> (bytes, wire_error) outcome" where
  "Encode f =
     (if length (frMsgType f) > MaxShortField \<or> length (frID f) > MaxShortField \<or>
         length (frResponseToID f) > MaxShortField \<or> length (frAckID f) > MaxShortField
      then Err ErrFieldTooLong
      else if length (frError f) > MaxErrorLen then Err ErrFieldTooLong
      else Ok ([Version OR encode_flags f] @ put_msgtype f @ put_short (frID f) @
               put_short (frResponseToID f) @ put_short (frAckID f) @ put_error (frError f) @
               frBinary f))"

subsection \<open>Decode (decode.go)\<close>

text \<open>
  The closure \<open>readShort\<close> reads a length byte and that many bytes at the cursor;
  it returns the string and whether the read succeeded, with the new cursor.
\<close>

definition readShort :: "bytes \<Rightarrow> nat \<Rightarrow> (gostring \<times> bool \<times> nat, wire_error) outcome" where
  "readShort data pos =
     (if pos \<ge> length data then Ok ([], False, pos)
      else obind (index_at data pos) (\<lambda>b.
        let n = unat b; pos = pos + 1 in
        if pos + n > length data then Ok ([], False, pos)
        else obind (slice_of data pos (pos + n)) (\<lambda>s. Ok (bytes_str s, True, pos + n))))"

definition decode_msgtype :: "bytes \<Rightarrow> nat \<Rightarrow> (gostring \<times> byte \<times> nat, wire_error) outcome" where
  "decode_msgtype data pos =
     obind (index_at data pos) (\<lambda>b.
       let msgTypeLen = unat b; pos = pos + 1 in
       if msgTypeLen = 0 then
         (if pos \<ge> length data then Err ErrMalformed
          else obind (index_at data pos) (\<lambda>c. Ok ([], c, pos + 1)))
       else
         (if pos + msgTypeLen > length data then Err ErrMalformed
          else obind (slice_of data pos (pos + msgTypeLen)) (\<lambda>s.
                 Ok (bytes_str s, 0, pos + msgTypeLen))))"

definition decode_short :: "byte \<Rightarrow> byte \<Rightarrow> bytes \<Rightarrow> nat \<Rightarrow> (gostring \<times> nat, wire_error) outcome" where
  "decode_short flags flag data pos =
     (if flags AND flag \<noteq> 0 then
        obind (readShort data pos) (\<lambda>(s, ok, pos).
          if \<not> ok then Err ErrMalformed else Ok (s, pos))
      else Ok ([], pos))"

definition decode_error :: "byte \<Rightarrow> bytes \<Rightarrow> nat \<Rightarrow> (gostring \<times> nat, wire_error) outcome" where
  "decode_error flags data pos =
     (if flags AND FlagError \<noteq> 0 then
        (if pos + 2 > length data then Err ErrMalformed
         else obind (index_at data pos) (\<lambda>hi.
              obind (index_at data (pos + 1)) (\<lambda>lo.
                let n = push_bit 8 (unat hi) OR unat lo; pos = pos + 2 in
                if pos + n > length data then Err ErrMalformed
                else obind (slice_of data pos (pos + n)) (\<lambda>s. Ok (bytes_str s, pos + n)))))
      else Ok ([], pos))"

definition Decode :: "bytes \<Rightarrow> (Frame, wire_error) outcome" where
  "Decode data =
     (if length data < 2 then Err ErrMalformed
      else obind (index_at data 0) (\<lambda>b0.
        if b0 AND 0x0F \<noteq> Version then Err ErrVersion
        else let flags = b0 AND 0xF0 in
          obind (decode_msgtype data 1) (\<lambda>(msgType, code, pos).
          obind (decode_short flags FlagID data pos) (\<lambda>(id, pos).
          obind (decode_short flags FlagResponseToID data pos) (\<lambda>(responseToID, pos).
          obind (decode_short flags FlagAckID data pos) (\<lambda>(ackID, pos).
          obind (decode_error flags data pos) (\<lambda>(err, pos).
          obind (slice_of data pos (length data)) (\<lambda>binary.
            Ok \<lparr>frMsgType = msgType, frControlCode = code, frID = id,
                frResponseToID = responseToID, frAckID = ackID, frError = err,
                frBinary = binary\<rparr>))))))))"

text \<open>
  The specification side: the frame a peer reads when \<open>f\<close> was sent (the control
  code travels only in control frames), and the frames the format can carry.
\<close>

definition canonical :: "Frame \<Rightarrow> Frame" where
  "canonical f = (if frMsgType f = [] then f else f\<lparr>frControlCode := 0\<rparr>)"

definition encodable :: "Frame \<Rightarrow> bool" where
  "encodable f \<longleftrightarrow> length (frMsgType f) \<le> 255 \<and> length (frID f) \<le> 255 \<and>
     length (frResponseToID f) \<le> 255 \<and> length (frAckID f) \<le> 255 \<and> length (frError f) \<le> 65535"

definition layout :: "Frame \<Rightarrow> bytes" where
  "layout f = [Version OR encode_flags f] @ put_msgtype f @ put_short (frID f) @
     put_short (frResponseToID f) @ put_short (frAckID f) @ put_error (frError f) @ frBinary f"

subsection \<open>The pieces of the decoder\<close>

text \<open>Each piece keeps the cursor inside the input and does not panic.\<close>

lemma readShort_cases:
  "pos \<le> length data \<Longrightarrow>
   (\<exists>pos'. readShort data pos = Ok ([], False, pos')) \<or>
   (\<exists>s. readShort data pos = Ok (s, True, pos + 1 + length s) \<and> pos + 1 + length s \<le> length data \<and>
      length s \<le> 255)"
  using unat_byte_less [of "data ! pos"]
  by (auto simp: readShort_def index_at_def slice_of_def Let_def)

lemma decode_short_safe:
  "pos \<le> length data \<Longrightarrow> safe (decode_short flags flag data pos)
     (\<lambda>(s, pos'). pos' \<le> length data \<and> length s \<le> 255 \<and> pos + length (put_short s) \<le> pos')"
  using readShort_cases [of pos data] by (auto simp: decode_short_def put_short_def)

lemma be16_bound: "push_bit 8 (unat (hi :: byte)) OR unat (lo :: byte) \<le> 65535"
  using unat_byte_less [of hi] unat_byte_less [of lo] by (simp add: be16_or)

lemma decode_error_safe:
  "pos \<le> length data \<Longrightarrow> safe (decode_error flags data pos)
     (\<lambda>(s, pos'). pos' \<le> length data \<and> length s \<le> 65535 \<and> pos + length (put_error s) \<le> pos')"
  using be16_bound by (auto simp: decode_error_def put_error_def index_at_def slice_of_def Let_def)

lemma decode_msgtype_safe:
  "pos < length data \<Longrightarrow> safe (decode_msgtype data pos)
     (\<lambda>(s, c, pos'). pos' \<le> length data \<and> length s \<le> 255 \<and> (s \<noteq> [] \<longrightarrow> c = 0) \<and>
        pos' = pos + (if s = [] then 2 else 1 + length s))"
  using unat_byte_less [of "data ! pos"]
  by (auto simp: decode_msgtype_def index_at_def slice_of_def Let_def)

text \<open>Reading back what the encoder appended.\<close>

lemma decode_short_put:
  assumes "length s \<le> MaxShortField" "flags AND flag \<noteq> 0 \<longleftrightarrow> s \<noteq> []"
  shows "decode_short flags flag (pre @ put_short s @ post) (length pre) =
    Ok (s, length pre + length (put_short s))"
proof (cases "s = []")
  case True
  then show ?thesis using assms by (simp add: decode_short_def put_short_def)
next
  case False
  have "unat (word_of_nat (length s) :: byte) = length s"
    using assms by (simp add: unat_of_nat MaxShortField_def)
  then show ?thesis using assms False
    by (simp add: decode_short_def put_short_def readShort_def index_at_def slice_of_def Let_def
        nth_append)
qed

lemma decode_error_put:
  assumes "length s \<le> MaxErrorLen" "flags AND FlagError \<noteq> 0 \<longleftrightarrow> s \<noteq> []"
  shows "decode_error flags (pre @ put_error s @ post) (length pre) =
    Ok (s, length pre + length (put_error s))"
proof (cases "s = []")
  case True
  then show ?thesis using assms by (simp add: decode_error_def put_error_def)
next
  case False
  have "length s div 256 < 256" using assms by (simp add: MaxErrorLen_def)
  then have "unat (word_of_nat (drop_bit 8 (length s)) :: byte) = length s div 256"
    by (simp add: unat_of_nat drop_bit_eq_div)
  moreover have "unat (word_of_nat (length s) :: byte) = length s mod 256"
    by (simp add: unat_of_nat)
  moreover have "push_bit 8 (length s div 256) OR length s mod 256 = length s"
    by (simp add: be16_or)
  ultimately show ?thesis using assms False
    by (simp add: decode_error_def put_error_def index_at_def slice_of_def Let_def nth_append)
qed

lemma decode_msgtype_put:
  assumes "length (frMsgType f) \<le> MaxShortField"
  shows "decode_msgtype (b # put_msgtype f @ post) 1 =
    Ok (frMsgType f, if frMsgType f = [] then frControlCode f else 0, 1 + length (put_msgtype f))"
proof (cases "frMsgType f = []")
  case True
  then show ?thesis by (simp add: decode_msgtype_def put_msgtype_def index_at_def Let_def)
next
  case False
  have "unat (word_of_nat (length (frMsgType f)) :: byte) = length (frMsgType f)"
    using assms by (simp add: unat_of_nat MaxShortField_def)
  then show ?thesis using False
    by (simp add: decode_msgtype_def put_msgtype_def index_at_def slice_of_def Let_def)
qed

text \<open>The version nibble and the four flag bits are read back unchanged.\<close>

lemma version_nibble: "(Version OR encode_flags f) AND 0x0F = Version"
  by (cases "frID f = []"; cases "frResponseToID f = []"; cases "frAckID f = []";
      cases "frError f = []") (simp_all add: encode_flags_def wire_consts)

lemma flag_bits:
  "((Version OR encode_flags f) AND 0xF0) AND FlagID \<noteq> 0 \<longleftrightarrow> frID f \<noteq> []"
  "((Version OR encode_flags f) AND 0xF0) AND FlagResponseToID \<noteq> 0 \<longleftrightarrow> frResponseToID f \<noteq> []"
  "((Version OR encode_flags f) AND 0xF0) AND FlagAckID \<noteq> 0 \<longleftrightarrow> frAckID f \<noteq> []"
  "((Version OR encode_flags f) AND 0xF0) AND FlagError \<noteq> 0 \<longleftrightarrow> frError f \<noteq> []"
  by (cases "frID f = []"; cases "frResponseToID f = []"; cases "frAckID f = []";
      cases "frError f = []"; simp add: encode_flags_def wire_consts)+

lemma Encode_encodable: "Encode f = (if encodable f then Ok (layout f) else Err ErrFieldTooLong)"
  by (auto simp: Encode_def encodable_def layout_def MaxShortField_def MaxErrorLen_def)

lemma length_put_msgtype: "length (put_msgtype f) = (if frMsgType f = [] then 2 else 1 + length (frMsgType f))"
  by (simp add: put_msgtype_def)

lemma length_put_short: "length (put_short s) = (if s = [] then 0 else 1 + length s)"
  by (simp add: put_short_def)

lemma length_put_error: "length (put_error s) = (if s = [] then 0 else 2 + length s)"
  by (simp add: put_error_def)

lemmas length_puts = length_put_msgtype length_put_short length_put_error

lemma encode_size_puts:
  "encode_size f = 1 + length (put_msgtype f) + length (put_short (frID f)) +
     length (put_short (frResponseToID f)) + length (put_short (frAckID f)) +
     length (put_error (frError f)) + length (frBinary f)"
  by (simp add: encode_size_def length_puts)

lemma length_layout: "length (layout f) = encode_size f"
  by (simp add: layout_def encode_size_puts)

lemma Decode_layout:
  assumes "encodable f"
  shows "Decode (layout f) = Ok (canonical f)"
proof -
  let ?b = "Version OR encode_flags f"
  let ?fl = "?b AND 0xF0"
  let ?m = "put_msgtype f" and ?i = "put_short (frID f)" and ?r = "put_short (frResponseToID f)"
  let ?a = "put_short (frAckID f)" and ?e = "put_error (frError f)"
  have m: "decode_msgtype (layout f) 1 = Ok (frMsgType f,
      if frMsgType f = [] then frControlCode f else 0, 1 + length ?m)"
    using decode_msgtype_put [of f ?b] assms
    by (simp add: layout_def encodable_def MaxShortField_def)
  have i: "decode_short ?fl FlagID (layout f) (1 + length ?m) = Ok (frID f, 1 + length ?m + length ?i)"
    using decode_short_put [of "frID f" ?fl FlagID "?b # ?m" "?r @ ?a @ ?e @ frBinary f"] assms
    by (simp add: layout_def encodable_def MaxShortField_def flag_bits)
  have r: "decode_short ?fl FlagResponseToID (layout f) (1 + length ?m + length ?i) =
      Ok (frResponseToID f, 1 + length ?m + length ?i + length ?r)"
    using decode_short_put [of "frResponseToID f" ?fl FlagResponseToID "?b # ?m @ ?i"
        "?a @ ?e @ frBinary f"] assms
    by (simp add: layout_def encodable_def MaxShortField_def flag_bits)
  have a: "decode_short ?fl FlagAckID (layout f) (1 + length ?m + length ?i + length ?r) =
      Ok (frAckID f, 1 + length ?m + length ?i + length ?r + length ?a)"
    using decode_short_put [of "frAckID f" ?fl FlagAckID "?b # ?m @ ?i @ ?r" "?e @ frBinary f"] assms
    by (simp add: layout_def encodable_def MaxShortField_def flag_bits add.assoc)
  have e: "decode_error ?fl (layout f) (1 + length ?m + length ?i + length ?r + length ?a) =
      Ok (frError f, 1 + length ?m + length ?i + length ?r + length ?a + length ?e)"
    using decode_error_put [of "frError f" ?fl "?b # ?m @ ?i @ ?r @ ?a" "frBinary f"] assms
    by (simp add: layout_def encodable_def MaxErrorLen_def flag_bits add.assoc)
  have s: "(slice_of (layout f) (1 + length ?m + length ?i + length ?r + length ?a + length ?e)
      (length (layout f)) :: (bytes, wire_error) outcome) = Ok (frBinary f)"
    by (simp add: layout_def slice_of_def)
  have "\<not> length (layout f) < 2" "(index_at (layout f) 0 :: (byte, wire_error) outcome) = Ok ?b"
    by (simp_all add: length_layout encode_size_puts length_put_msgtype index_at_def) (simp add: layout_def)
  then show ?thesis
    by (simp add: Decode_def Let_def version_nibble m i r a e s canonical_def del: One_nat_def)
qed

text \<open>
  The decoder does not panic, and a frame it returns is within the limits, in
  canonical form and no longer than the input.
\<close>

lemma Decode_safe:
  "safe (Decode data) (\<lambda>f. encodable f \<and> canonical f = f \<and> encode_size f \<le> length data)"
  unfolding Decode_def Let_def
  apply (rule safe_ifI, simp)
  apply (rule safe_bindI [OF index_at_safe], linarith)
  apply (rule safe_ifI, simp, simp only: not_not)
  apply (rule safe_bindI [OF decode_msgtype_safe], simp, clarify)
  apply (rule safe_bindI [OF decode_short_safe], assumption, clarify)
  apply (rule safe_bindI [OF decode_short_safe], assumption, clarify)
  apply (rule safe_bindI [OF decode_short_safe], assumption, clarify)
  apply (rule safe_bindI [OF decode_error_safe], assumption, clarify)
  apply (rule safe_bindI [OF slice_of_safe], assumption, simp)
  apply (simp add: encodable_def canonical_def encode_size_puts length_put_msgtype split: if_splits)
  done

subsection \<open>Properties of the envelope\<close>

text \<open>A frame that uses every field, and what it looks like on the wire.\<close>

definition ex_frame :: Frame where
  "ex_frame = \<lparr>frMsgType = ''chat'', frControlCode = 0xCA, frID = ''1'', frResponseToID = ''2'',
     frAckID = ''3'', frError = ''no'', frBinary = [7, 8]\<rparr>"

definition ex_wire :: bytes where
  "ex_wire = [0xF1, 4, 99, 104, 97, 116, 1, 49, 1, 50, 1, 51, 0, 2, 110, 111, 7, 8]"

lemma length_ex_wire: "length ex_wire = 18"
  by (simp add: ex_wire_def)

lemma ex_encodable: "encodable ex_frame"
  by (simp add: encodable_def ex_frame_def)

lemma ex_layout: "layout ex_frame = ex_wire"
  by (simp add: layout_def ex_frame_def ex_wire_def encode_flags_def put_msgtype_def put_short_def
      put_error_def str_bytes_def byte_of_char_def wire_consts drop_bit_eq_div)

lemma ex_Encode: "Encode ex_frame = Ok ex_wire"
  by (simp add: Encode_encodable ex_encodable ex_layout)

lemma ex_Decode: "Decode ex_wire = Ok (canonical ex_frame)"
  using Decode_layout [OF ex_encodable] by (simp add: ex_layout)

text \<open>C11: a frame that \<open>Encode\<close> accepts is read back by \<open>Decode\<close> exactly, except that
  the control code of a frame with a message type is not transmitted.
\<close>

theorem Decode_Encode: "Encode f = Ok data \<Longrightarrow> Decode data = Ok (canonical f)"
  by (auto simp: Encode_encodable Decode_layout split: if_splits)

theorem Decode_Encode_witness: "Decode ex_wire = Ok (canonical ex_frame) \<and> frControlCode (canonical ex_frame) = 0"
  using Decode_Encode [OF ex_Encode] by (simp add: canonical_def ex_frame_def)

text \<open>\<open>Decode\<close> never panics, whatever bytes an untrusted client sends: every
  index and slice expression of the decoder is within bounds.
\<close>

theorem Decode_no_panic: "Decode data \<noteq> Panic"
  using Decode_safe [of data] by (simp add: safe_def)

text \<open>every frame \<open>Decode\<close> accepts can be encoded again, in at most as many bytes
  as were received, and decodes to the same frame.
\<close>

theorem Decode_reencode:
  "Decode data = Ok f \<Longrightarrow> \<exists>d. Encode f = Ok d \<and> length d \<le> length data \<and> Decode d = Ok f"
  using Decode_safe [of data] by (auto simp: safe_def Encode_encodable Decode_layout length_layout)

theorem Decode_reencode_witness:
  "\<exists>d. Encode (canonical ex_frame) = Ok d \<and> length d \<le> 18 \<and> Decode d = Ok (canonical ex_frame)"
  using Decode_reencode [OF ex_Decode] unfolding length_ex_wire .

text \<open>the buffer capacity computed before encoding is exactly the length of the
  encoded frame, so appending never reallocates.
\<close>

theorem Encode_size_exact: "Encode f = Ok data \<Longrightarrow> length data = encode_size f"
  by (auto simp: Encode_encodable length_layout split: if_splits)

theorem Encode_size_exact_witness: "encode_size ex_frame = 18"
  using Encode_size_exact [OF ex_Encode] by (simp only: length_ex_wire)

end
