(* ===== verification/Message.thy ===== *)
theory Message
  imports Wire
begin

text \<open>
  The messages carried by the envelope (\<open>0.message_type.go\<close>, \<open>6.helper.go\<close>):
  message types, the mapping of control types to control frames, and the
  marshalling of responses and requests.
\<close>

subsection \<open>Message types\<close>

type_synonym MessageType = gostring

definition MessageTypeHeartbeat :: MessageType where
  "MessageTypeHeartbeat = CHR 0x00 # ''hb''"

definition MessageTypeAck :: MessageType where
  "MessageTypeAck = CHR 0x00 # ''ack''"

definition MessageTypeError :: MessageType where
  "MessageTypeError = ''error''"

lemmas msgtype_defs = MessageTypeHeartbeat_def MessageTypeAck_def MessageTypeError_def

definition controlCodeFor :: "MessageType \<Rightarrow> byte \<times> bool" where
  "controlCodeFor mt =
     (if mt = MessageTypeHeartbeat then (ControlHeartbeat, True)
      else if mt = MessageTypeAck then (ControlAck, True)
      else (0, False))"

definition messageTypeFor :: "byte \<Rightarrow> MessageType" where
  "messageTypeFor code =
     (if code = ControlHeartbeat then MessageTypeHeartbeat
      else if code = ControlAck then MessageTypeAck
      else [])"

definition toFrame ::
    "MessageType \<Rightarrow> gostring \<Rightarrow> gostring \<Rightarrow> gostring \<Rightarrow> gostring \<Rightarrow> bytes \<Rightarrow> Frame" where
  "toFrame msgType mid responseToId errStr ackId binary =
     (let f = emptyFrame\<lparr>frID := mid, frResponseToID := responseToId, frError := errStr,
                         frAckID := ackId, frBinary := binary\<rparr>
      in case controlCodeFor msgType of
           (code, True) \<Rightarrow> f\<lparr>frControlCode := code\<rparr>
         | (_, False) \<Rightarrow> f\<lparr>frMsgType := msgType\<rparr>)"

definition msgTypeFromFrame :: "Frame \<Rightarrow> MessageType" where
  "msgTypeFromFrame f =
     (if frMsgType f = [] then messageTypeFor (frControlCode f) else frMsgType f)"

subsection \<open>Responses and requests\<close>

record WebsocketResponse =
  rsId :: gostring
  rsResponseToId :: gostring
  rsMsgType :: MessageType
  rsError :: gostring
  rsBinary :: bytes
  rsAckId :: gostring

definition emptyResponse :: WebsocketResponse where
  "emptyResponse = \<lparr>rsId = [], rsResponseToId = [], rsMsgType = [], rsError = [], rsBinary = [],
     rsAckId = []\<rparr>"

definition response_frame :: "WebsocketResponse \<Rightarrow> Frame" where
  "response_frame r = toFrame (rsMsgType r) (rsId r) (rsResponseToId r) (rsError r) (rsAckId r) (rsBinary r)"

definition Response_Marshall :: "WebsocketResponse \<Rightarrow> bytes" where
  "Response_Marshall wsRes = (case Encode (response_frame wsRes) of Ok data \<Rightarrow> data | _ \<Rightarrow> [])"

definition Response_Unmarshall :: "bytes \<Rightarrow> (WebsocketResponse, wire_error) outcome" where
  "Response_Unmarshall data =
     obind (Decode data) (\<lambda>f.
       Ok \<lparr>rsId = frID f, rsResponseToId = frResponseToID f, rsMsgType = msgTypeFromFrame f,
           rsError = frError f, rsBinary = frBinary f, rsAckId = frAckID f\<rparr>)"

record WebsocketResquest =
  rqId :: gostring
  rqMsgType :: MessageType
  rqBinary :: bytes

definition Request_Marshall :: "WebsocketResquest \<Rightarrow> bytes" where
  "Request_Marshall wsReq =
     (case Encode (toFrame (rqMsgType wsReq) (rqId wsReq) [] [] [] (rqBinary wsReq)) of
        Ok data \<Rightarrow> data | _ \<Rightarrow> [])"

definition Request_Unmarshall :: "bytes \<Rightarrow> (WebsocketResquest, wire_error) outcome" where
  "Request_Unmarshall data =
     obind (Decode data) (\<lambda>f.
       Ok \<lparr>rqId = frID f, rqMsgType = msgTypeFromFrame f, rqBinary = frBinary f\<rparr>)"

definition WrapperBytesToWebsocketResponse ::
    "gostring \<Rightarrow> gostring \<Rightarrow> MessageType \<Rightarrow> bytes \<Rightarrow> bytes" where
  "WrapperBytesToWebsocketResponse mid responseToId msgType data =
     Response_Marshall (emptyResponse\<lparr>rsId := mid, rsResponseToId := responseToId,
       rsMsgType := msgType, rsBinary := data\<rparr>)"

definition WrapperErrorToWebsocketResponse ::
    "gostring \<Rightarrow> gostring \<Rightarrow> MessageType \<Rightarrow> gostring \<Rightarrow> bytes" where
  "WrapperErrorToWebsocketResponse mid responseToId msgType err =
     Response_Marshall (emptyResponse\<lparr>rsId := mid, rsResponseToId := responseToId,
       rsMsgType := msgType, rsError := err\<rparr>)"

subsection \<open>Facts about frames and messages\<close>

lemma messageTypeFor_controlCodeFor:
  "controlCodeFor mt = (code, True) \<Longrightarrow> messageTypeFor code = mt"
  by (auto simp: controlCodeFor_def messageTypeFor_def wire_consts split: if_splits)

lemma toFrame_fields [simp]:
  "frID (toFrame mt i r e a b) = i" "frResponseToID (toFrame mt i r e a b) = r"
  "frError (toFrame mt i r e a b) = e" "frAckID (toFrame mt i r e a b) = a"
  "frBinary (toFrame mt i r e a b) = b"
  by (simp_all add: toFrame_def Let_def split: prod.splits bool.splits)

lemma canonical_fields [simp]:
  "frID (canonical f) = frID f" "frResponseToID (canonical f) = frResponseToID f"
  "frError (canonical f) = frError f" "frAckID (canonical f) = frAckID f"
  "frBinary (canonical f) = frBinary f" "frMsgType (canonical f) = frMsgType f"
  by (simp_all add: canonical_def)

lemma msgTypeFromFrame_toFrame [simp]: "msgTypeFromFrame (canonical (toFrame mt i r e a b)) = mt"
  by (auto simp: toFrame_def Let_def msgTypeFromFrame_def canonical_def emptyFrame_def
      controlCodeFor_def messageTypeFor_def wire_consts)

text \<open>A message fits the envelope when its fields are within the wire limits.\<close>

definition message_fits :: "MessageType \<Rightarrow> gostring \<Rightarrow> gostring \<Rightarrow> gostring \<Rightarrow> gostring \<Rightarrow> bool" where
  "message_fits mt i r e a \<longleftrightarrow> length mt \<le> 255 \<and> length i \<le> 255 \<and> length r \<le> 255 \<and>
     length e \<le> 65535 \<and> length a \<le> 255"

lemma encodable_toFrame: "encodable (toFrame mt i r e a b) \<longleftrightarrow> message_fits mt i r e a"
  by (auto simp: encodable_def message_fits_def toFrame_def Let_def controlCodeFor_def
      emptyFrame_def msgtype_defs)

lemma layout_not_Nil [simp]: "layout f \<noteq> []"
  by (simp add: layout_def)

lemma Response_Marshall_fits:
  "Response_Marshall r =
     (if message_fits (rsMsgType r) (rsId r) (rsResponseToId r) (rsError r) (rsAckId r)
      then layout (response_frame r) else [])"
  by (simp add: Response_Marshall_def response_frame_def Encode_encodable encodable_toFrame)

lemma Response_Marshall_decodes:
  "Response_Marshall r \<noteq> [] \<Longrightarrow> Response_Unmarshall (Response_Marshall r) = Ok r"
  by (auto simp: Response_Marshall_fits Response_Unmarshall_def Decode_layout encodable_toFrame
      response_frame_def split: if_splits)

text \<open>marshalling a response whose fields are within the wire limits and
  unmarshalling it gives the same response back, for every message type: control
  types travel as control frames and come back as themselves.
\<close>

theorem Response_roundtrip:
  "message_fits (rsMsgType r) (rsId r) (rsResponseToId r) (rsError r) (rsAckId r) \<Longrightarrow>
   Response_Unmarshall (Response_Marshall r) = Ok r"
  by (rule Response_Marshall_decodes) (simp add: Response_Marshall_fits)

theorem Response_roundtrip_witness:
  "Response_Unmarshall (Response_Marshall (emptyResponse\<lparr>rsMsgType := MessageTypeAck, rsAckId := ''a''\<rparr>)) =
   Ok (emptyResponse\<lparr>rsMsgType := MessageTypeAck, rsAckId := ''a''\<rparr>)"
  by (rule Response_roundtrip) (simp add: message_fits_def emptyResponse_def msgtype_defs)

text \<open>\<open>Marshall\<close> returns nil exactly when some field exceeds its limit; otherwise
  it produces a non-empty frame.
\<close>

theorem Response_Marshall_nil:
  "Response_Marshall r = [] \<longleftrightarrow>
   length (rsMsgType r) > 255 \<or> length (rsId r) > 255 \<or> length (rsResponseToId r) > 255 \<or>
   length (rsError r) > 65535 \<or> length (rsAckId r) > 255"
  by (auto simp: Response_Marshall_fits message_fits_def)

text \<open>a request with an id and a type within limits round-trips.
\<close>

theorem Request_roundtrip:
  "\<lbrakk>length (rqMsgType q) \<le> 255; length (rqId q) \<le> 255\<rbrakk> \<Longrightarrow>
   Request_Unmarshall (Request_Marshall q) = Ok q"
  by (simp add: Request_Marshall_def Request_Unmarshall_def Encode_encodable Decode_layout
      encodable_toFrame message_fits_def)

theorem Request_roundtrip_witness:
  "Request_Unmarshall (Request_Marshall \<lparr>rqId = ''7'', rqMsgType = MessageTypeHeartbeat, rqBinary = [1]\<rparr>) =
   Ok \<lparr>rqId = ''7'', rqMsgType = MessageTypeHeartbeat, rqBinary = [1]\<rparr>"
  by (rule Request_roundtrip) (simp_all add: msgtype_defs)

text \<open>a client can have its request read as a heartbeat without sending a control
  frame: a frame whose message-type bytes spell the sentinel string decodes to the
  heartbeat type although its message type is not empty on the wire.
\<close>

theorem sentinel_spoof:
  "\<exists>data f q. Decode data = Ok f \<and> frMsgType f \<noteq> [] \<and>
     Request_Unmarshall data = Ok q \<and> rqMsgType q = MessageTypeHeartbeat"
proof -
  let ?f = "emptyFrame\<lparr>frMsgType := MessageTypeHeartbeat\<rparr>"
  let ?q = "\<lparr>rqId = [], rqMsgType = MessageTypeHeartbeat, rqBinary = []\<rparr>"
  have "encodable ?f" by (simp add: encodable_def emptyFrame_def msgtype_defs)
  then have d: "Decode (layout ?f) = Ok (canonical ?f)" by (rule Decode_layout)
  moreover from d have "Request_Unmarshall (layout ?f) = Ok ?q"
    by (simp add: Request_Unmarshall_def msgTypeFromFrame_def emptyFrame_def msgtype_defs)
  moreover have "frMsgType (canonical ?f) \<noteq> []" "rqMsgType ?q = MessageTypeHeartbeat"
    by (simp_all add: msgtype_defs)
  ultimately show ?thesis by blast
qed

end
