(* ===== verification/Auth.thy ===== *)
theory Auth
  imports Prelude
begin

text \<open>
  The value objects of \<open>core/domain/value-object\<close> and \<open>export/types/auth.go\<close>:
  the identity of a websocket session, its factories, and the status and
  transport enumerations.  A connection handle is the interface value
  \<open>WebsocketConn\<close>: its identity, its auth and its transport.
\<close>

record WebsocketAuth =
  auUserID :: gostring
  auInstanceID :: gostring
  auMetadata :: "(gostring, gostring) gomap"

definition IsAnonymous :: "WebsocketAuth \<Rightarrow> bool" where
  "IsAnonymous ws \<longleftrightarrow> auUserID ws = []"

definition UserWebsocketAuth :: "gostring \<Rightarrow> gostring \<Rightarrow> (WebsocketAuth, unit) outcome" where
  "UserWebsocketAuth userID instanceID =
     (if userID = [] \<or> instanceID = [] then Panic
      else Ok \<lparr>auUserID = userID, auInstanceID = instanceID, auMetadata = []\<rparr>)"

definition AnonymousUserWebsocketAuth :: "gostring \<Rightarrow> (WebsocketAuth, unit) outcome" where
  "AnonymousUserWebsocketAuth instanceID =
     (if instanceID = [] then Panic
      else Ok \<lparr>auUserID = [], auInstanceID = instanceID, auMetadata = []\<rparr>)"

definition UserWebsocketAuthWithMetadata ::
    "gostring \<Rightarrow> gostring \<Rightarrow> (gostring, gostring) gomap \<Rightarrow> (WebsocketAuth, unit) outcome" where
  "UserWebsocketAuthWithMetadata userID instanceID metadata =
     (if userID = [] \<or> instanceID = [] then Panic
      else Ok \<lparr>auUserID = userID, auInstanceID = instanceID, auMetadata = metadata\<rparr>)"

definition AnonymousUserWebsocketAuthWithMetadata ::
    "gostring \<Rightarrow> (gostring, gostring) gomap \<Rightarrow> (WebsocketAuth, unit) outcome" where
  "AnonymousUserWebsocketAuthWithMetadata instanceID metadata =
     (if instanceID = [] then Panic
      else Ok \<lparr>auUserID = [], auInstanceID = instanceID, auMetadata = metadata\<rparr>)"

datatype WsCoreType = WsCoreGobwas | WsCoreLongPolling | WsCoreOther int

fun WsCoreType_String :: "WsCoreType \<Rightarrow> gostring" where
  "WsCoreType_String WsCoreGobwas = ''gobwas''"
| "WsCoreType_String WsCoreLongPolling = ''long_polling''"
| "WsCoreType_String (WsCoreOther _) = ''unknown''"

datatype WsStatus = WsStatusConnected | WsStatusTempDisconnected | WsStatusTransferring | WsStatusOther int

fun WsStatus_String :: "WsStatus \<Rightarrow> gostring" where
  "WsStatus_String WsStatusConnected = ''connected''"
| "WsStatus_String WsStatusTempDisconnected = ''temp_disconnected''"
| "WsStatus_String WsStatusTransferring = ''transferring''"
| "WsStatus_String (WsStatusOther _) = ''unknown''"

record WebsocketConn =
  wcId :: nat
  wcAuth :: WebsocketAuth
  wcCore :: WsCoreType

text \<open>The pair that identifies a session, and the auths a factory can build.\<close>

definition auth_key :: "WebsocketAuth \<Rightarrow> gostring \<times> gostring" where
  "auth_key a = (auUserID a, auInstanceID a)"

definition auth_wf :: "WebsocketAuth \<Rightarrow> bool" where
  "auth_wf a \<longleftrightarrow> auInstanceID a \<noteq> []"

lemma factories_wf:
  "UserWebsocketAuth u i = Ok a \<Longrightarrow> auth_wf a \<and> \<not> IsAnonymous a \<and> auth_key a = (u, i)"
  "AnonymousUserWebsocketAuth i = Ok a \<Longrightarrow> auth_wf a \<and> IsAnonymous a \<and> auth_key a = ([], i)"
  "UserWebsocketAuthWithMetadata u i md = Ok a \<Longrightarrow> auth_wf a \<and> \<not> IsAnonymous a \<and> auth_key a = (u, i)"
  "AnonymousUserWebsocketAuthWithMetadata i md = Ok a \<Longrightarrow> auth_wf a \<and> IsAnonymous a \<and> auth_key a = ([], i)"
  by (auto simp: UserWebsocketAuth_def AnonymousUserWebsocketAuth_def
      UserWebsocketAuthWithMetadata_def AnonymousUserWebsocketAuthWithMetadata_def
      auth_wf_def IsAnonymous_def auth_key_def split: if_splits)

end
