(* ===== verification/ConnManager.thy ===== *)
theory ConnManager
  imports Auth
begin

text \<open>
  The in-memory connection manager
  (\<open>connection-manager/connection_mamanger.go\<close>): authenticated sessions in a
  two-level map by user and instance, anonymous sessions by instance.  The nested
  maps are shown to implement one flat map from session keys to connections; the
  locale \<open>conn_store\<close> states that contract for the components that route
  messages.
\<close>

subsection \<open>State and operations\<close>

record connectionMap =
  userConn :: "(gostring, (gostring, WebsocketConn) gomap) gomap"
  anonymousConn :: "(gostring, WebsocketConn) gomap"

definition NewConnectionMap :: connectionMap where
  "NewConnectionMap = \<lparr>userConn = [], anonymousConn = []\<rparr>"

definition AddConnection :: "WebsocketConn \<Rightarrow> connectionMap \<Rightarrow> connectionMap" where
  "AddConnection connection m =
     (let auth = wcAuth connection in
      if IsAnonymous auth then
        m\<lparr>anonymousConn := gm_put (auInstanceID auth) connection (anonymousConn m)\<rparr>
      else
        let outer = (case gm_get (userConn m) (auUserID auth) of
                       None \<Rightarrow> gm_put (auUserID auth) [] (userConn m)
                     | Some _ \<Rightarrow> userConn m);
            inner = (case gm_get outer (auUserID auth) of None \<Rightarrow> [] | Some c \<Rightarrow> c)
        in m\<lparr>userConn := gm_put (auUserID auth) (gm_put (auInstanceID auth) connection inner) outer\<rparr>)"

definition RemoveConnection :: "WebsocketAuth \<Rightarrow> connectionMap \<Rightarrow> connectionMap" where
  "RemoveConnection auth m =
     (if IsAnonymous auth then
        m\<lparr>anonymousConn := gm_del (auInstanceID auth) (anonymousConn m)\<rparr>
      else case gm_get (userConn m) (auUserID auth) of
        None \<Rightarrow> m
      | Some userClients \<Rightarrow>
          let userClients = gm_del (auInstanceID auth) userClients in
          if length userClients = 0 then m\<lparr>userConn := gm_del (auUserID auth) (userConn m)\<rparr>
          else m\<lparr>userConn := gm_put (auUserID auth) userClients (userConn m)\<rparr>)"

definition GetConnection :: "connectionMap \<Rightarrow> WebsocketAuth \<Rightarrow> WebsocketConn option" where
  "GetConnection m auth =
     (if IsAnonymous auth then gm_get (anonymousConn m) (auInstanceID auth)
      else case gm_get (userConn m) (auUserID auth) of
        Some userClients \<Rightarrow> gm_get userClients (auInstanceID auth)
      | None \<Rightarrow> None)"

definition GetAllUserConn :: "connectionMap \<Rightarrow> gostring \<Rightarrow> WebsocketConn list" where
  "GetAllUserConn m userID =
     (case gm_get (userConn m) userID of
        Some userClients \<Rightarrow> gm_vals userClients
      | None \<Rightarrow> [])"

definition GetAllAnonymousConn :: "connectionMap \<Rightarrow> WebsocketConn list" where
  "GetAllAnonymousConn m = gm_vals (anonymousConn m)"

definition GetAllAuthenticatedConn :: "connectionMap \<Rightarrow> WebsocketConn list" where
  "GetAllAuthenticatedConn m = concat (map gm_vals (gm_vals (userConn m)))"

definition GetAllConnections :: "connectionMap \<Rightarrow> WebsocketConn list" where
  "GetAllConnections m = concat (map gm_vals (gm_vals (userConn m))) @ gm_vals (anonymousConn m)"

subsection \<open>Invariant\<close>

text \<open>
  Both levels have distinct keys, no user has an empty inner map, and every
  connection is filed under the identity it carries.
\<close>

definition cm_inv :: "connectionMap \<Rightarrow> bool" where
  "cm_inv m \<longleftrightarrow> gm_inv (userConn m) \<and> gm_inv (anonymousConn m) \<and>
     (\<forall>u ic. gm_get (userConn m) u = Some ic \<longrightarrow> u \<noteq> [] \<and> ic \<noteq> [] \<and> gm_inv ic \<and>
        (\<forall>i c. gm_get ic i = Some c \<longrightarrow> auth_key (wcAuth c) = (u, i))) \<and>
     (\<forall>i c. gm_get (anonymousConn m) i = Some c \<longrightarrow> auth_key (wcAuth c) = ([], i))"

text \<open>The flat map from session keys that the two maps implement.\<close>

definition cm_abs :: "connectionMap \<Rightarrow> gostring \<times> gostring \<Rightarrow> WebsocketConn option" where
  "cm_abs m k =
     (if fst k = [] then gm_get (anonymousConn m) (snd k)
      else case gm_get (userConn m) (fst k) of Some ic \<Rightarrow> gm_get ic (snd k) | None \<Rightarrow> None)"

lemma cm_inv_New [inv_intros]: "cm_inv NewConnectionMap"
  by (simp add: cm_inv_def NewConnectionMap_def)

lemma cm_inv_Add [inv_intros]:
  assumes "cm_inv m"
  shows "cm_inv (AddConnection c m)"
proof (cases "IsAnonymous (wcAuth c)")
  case True
  then show ?thesis using assms
    by (simp add: cm_inv_def AddConnection_def IsAnonymous_def auth_key_def)
next
  case False
  then show ?thesis using assms
    by (cases "gm_get (userConn m) (auUserID (wcAuth c))")
      (simp_all add: cm_inv_def AddConnection_def IsAnonymous_def auth_key_def Let_def)
qed

lemma cm_inv_Remove [inv_intros]:
  assumes "cm_inv m"
  shows "cm_inv (RemoveConnection a m)"
  using assms unfolding cm_inv_def RemoveConnection_def
  by (auto simp: Let_def split: option.splits if_splits)

lemma GetConnection_abs: "GetConnection m a = cm_abs m (auth_key a)"
  by (simp add: GetConnection_def cm_abs_def auth_key_def IsAnonymous_def split: option.split)

lemma cm_abs_New [simp]: "cm_abs NewConnectionMap k = None"
  by (simp add: cm_abs_def NewConnectionMap_def)

lemma cm_abs_Add:
  "cm_abs (AddConnection c m) = (cm_abs m)(auth_key (wcAuth c) \<mapsto> c)"
  by (rule ext) (auto simp: cm_abs_def AddConnection_def IsAnonymous_def auth_key_def Let_def
      prod_eq_iff split: option.splits)

lemma cm_abs_Remove:
  "cm_abs (RemoveConnection a m) = (cm_abs m)(auth_key a := None)"
proof (rule ext)
  fix k :: "gostring \<times> gostring"
  show "cm_abs (RemoveConnection a m) k = ((cm_abs m)(auth_key a := None)) k"
  proof (cases "gm_get (userConn m) (auUserID a)")
    case None
    then show ?thesis
      by (auto simp: cm_abs_def RemoveConnection_def IsAnonymous_def auth_key_def prod_eq_iff)
  next
    case (Some ic)
    have e: "gm_del (auInstanceID a) ic = [] \<Longrightarrow> i \<noteq> auInstanceID a \<Longrightarrow> gm_get ic i = None" for i
      using gm_get_del [of "auInstanceID a" ic i] by simp
    show ?thesis using Some
      by (auto simp: cm_abs_def RemoveConnection_def IsAnonymous_def auth_key_def prod_eq_iff Let_def
          dest: e)
  qed
qed

lemma cm_abs_key: "\<lbrakk>cm_inv m; cm_abs m k = Some c\<rbrakk> \<Longrightarrow> auth_key (wcAuth c) = k"
  unfolding cm_inv_def cm_abs_def
  by (cases k) (auto split: if_splits option.splits)

lemma cm_abs_user:
  "u \<noteq> [] \<and> cm_abs m (u, i) = Some c \<longleftrightarrow>
   u \<noteq> [] \<and> (\<exists>ic. gm_get (userConn m) u = Some ic \<and> gm_get ic i = Some c)"
  by (auto simp: cm_abs_def split: option.splits)

subsection \<open>The listings\<close>

lemma set_GetAllAuthenticatedConn:
  assumes "cm_inv m"
  shows "set (GetAllAuthenticatedConn m) = {c. \<exists>u i. u \<noteq> [] \<and> cm_abs m (u, i) = Some c}"
proof -
  have ic: "u \<noteq> [] \<and> gm_inv ic" if "gm_get (userConn m) u = Some ic" for u ic
    using assms that unfolding cm_inv_def by blast
  have "set (GetAllAuthenticatedConn m) = (\<Union>ic \<in> {ic. \<exists>u. gm_get (userConn m) u = Some ic}. set (gm_vals ic))"
    using assms by (simp add: cm_inv_def GetAllAuthenticatedConn_def set_gm_vals)
  also have "\<dots> = {c. \<exists>u ic i. gm_get (userConn m) u = Some ic \<and> gm_get ic i = Some c}"
    using set_gm_vals [OF conjunct2 [OF ic]] by (intro set_eqI) blast
  also have "\<dots> = {c. \<exists>u i. u \<noteq> [] \<and> cm_abs m (u, i) = Some c}"
    using ic by (intro set_eqI) (simp only: mem_Collect_eq cm_abs_user, blast)
  finally show ?thesis .
qed

lemma set_GetAllAnonymousConn:
  "cm_inv m \<Longrightarrow> set (GetAllAnonymousConn m) = {c. \<exists>i. cm_abs m ([], i) = Some c}"
  by (simp add: cm_inv_def GetAllAnonymousConn_def set_gm_vals cm_abs_def)

lemma set_GetAllUserConn:
  assumes "cm_inv m" "u \<noteq> []"
  shows "set (GetAllUserConn m u) = {c. \<exists>i. cm_abs m (u, i) = Some c}"
proof (cases "gm_get (userConn m) u")
  case None
  then show ?thesis using assms by (simp add: GetAllUserConn_def cm_abs_def)
next
  case (Some ic)
  then have "gm_inv ic" using assms by (simp add: cm_inv_def)
  then show ?thesis using Some assms by (simp add: GetAllUserConn_def cm_abs_def set_gm_vals)
qed

lemma GetAllConnections_split:
  "GetAllConnections m = GetAllAuthenticatedConn m @ GetAllAnonymousConn m"
  by (simp add: GetAllConnections_def GetAllAuthenticatedConn_def GetAllAnonymousConn_def)

lemma ex_key_split: "(\<exists>k. P k) \<longleftrightarrow> (\<exists>u i. u \<noteq> [] \<and> P (u, i)) \<or> (\<exists>i. P ([], i))"
proof
  assume "\<exists>k. P k"
  then obtain u i where "P (u, i)" by (metis surj_pair)
  then show "(\<exists>u i. u \<noteq> [] \<and> P (u, i)) \<or> (\<exists>i. P ([], i))" by (cases "u = []") auto
qed auto

lemma set_GetAllConnections:
  assumes "cm_inv m"
  shows "set (GetAllConnections m) = ran (cm_abs m)"
proof -
  have "c \<in> ran (cm_abs m) \<longleftrightarrow>
      (\<exists>u i. u \<noteq> [] \<and> cm_abs m (u, i) = Some c) \<or> (\<exists>i. cm_abs m ([], i) = Some c)" for c
    unfolding ran_def mem_Collect_eq by (rule ex_key_split)
  then show ?thesis
    using assms by (auto simp: GetAllConnections_split set_GetAllAuthenticatedConn set_GetAllAnonymousConn)
qed

text \<open>No listing contains two connections of the same session.\<close>

lemma inner_keys:
  assumes "\<forall>i c. gm_get ic i = Some c \<longrightarrow> auth_key (wcAuth c) = (u, i)" "gm_inv ic"
  shows "map (\<lambda>c. auth_key (wcAuth c)) (gm_vals ic) = map (Pair u) (gm_keys ic)"
proof -
  have "auth_key (wcAuth (snd p)) = (u, fst p)" if "p \<in> set ic" for p
    using assms that by (cases p) (simp add: gm_get_iff)
  then show ?thesis by (simp add: gm_vals_def gm_keys_def)
qed

lemma distinct_pairs:
  "\<lbrakk>distinct (map fst uc); \<forall>(u, ic) \<in> set uc. distinct (gm_keys ic)\<rbrakk> \<Longrightarrow>
   distinct (concat (map (\<lambda>(u, ic). map (Pair u) (gm_keys ic)) uc))"
proof (induction uc)
  case (Cons p uc)
  obtain u ic where "p = (u, ic)" by (cases p)
  then show ?case using Cons by (auto simp: distinct_map inj_on_def rev_image_eqI)
qed simp

lemma keys_GetAllAuthenticatedConn:
  assumes "cm_inv m"
  shows "map (\<lambda>c. auth_key (wcAuth c)) (GetAllAuthenticatedConn m) =
    concat (map (\<lambda>(u, ic). map (Pair u) (gm_keys ic)) (userConn m))"
proof -
  have "map (\<lambda>c. auth_key (wcAuth c)) (gm_vals (snd p)) = map (Pair (fst p)) (gm_keys (snd p))"
    if "p \<in> set (userConn m)" for p
  proof -
    have "gm_get (userConn m) (fst p) = Some (snd p)"
      using that assms by (simp add: cm_inv_def gm_get_iff)
    then show ?thesis using assms by (intro inner_keys) (auto simp: cm_inv_def)
  qed
  then show ?thesis
    unfolding GetAllAuthenticatedConn_def map_concat gm_vals_def [of "userConn m"] map_map
    by (intro arg_cong [of _ _ concat] map_cong) (simp_all add: comp_def case_prod_beta)
qed

lemma keys_GetAllAnonymousConn:
  "cm_inv m \<Longrightarrow> map (\<lambda>c. auth_key (wcAuth c)) (GetAllAnonymousConn m) =
     map (Pair []) (gm_keys (anonymousConn m))"
  unfolding GetAllAnonymousConn_def by (rule inner_keys) (simp_all add: cm_inv_def)

lemma userConn_entry:
  assumes "cm_inv m" "(u, ic) \<in> set (userConn m)"
  shows "u \<noteq> [] \<and> distinct (gm_keys ic)"
proof -
  have "gm_get (userConn m) u = Some ic" using assms by (simp add: cm_inv_def gm_get_iff)
  then show ?thesis using assms(1) unfolding cm_inv_def by (simp add: distinct_gm_keys)
qed

lemma pairs_fst:
  "k \<in> set (concat (map (\<lambda>(u, ic). map (Pair u) (gm_keys ic)) uc)) \<Longrightarrow> \<exists>ic. (fst k, ic) \<in> set uc"
  by (induction uc) auto

lemma distinct_GetAllConnections:
  assumes "cm_inv m"
  shows "distinct (map (\<lambda>c. auth_key (wcAuth c)) (GetAllConnections m))"
proof -
  let ?us = "concat (map (\<lambda>(u, ic). map (Pair u) (gm_keys ic)) (userConn m))"
  let ?as = "map (Pair []) (gm_keys (anonymousConn m))"
  have "distinct ?us"
    using assms by (intro distinct_pairs ballI) (auto simp: cm_inv_def gm_inv_def dest: userConn_entry [OF assms])
  moreover have "distinct ?as"
    using assms by (simp add: distinct_map inj_on_def cm_inv_def distinct_gm_keys)
  moreover have "set ?us \<inter> set ?as = {}"
  proof (rule equals0I)
    fix k assume k: "k \<in> set ?us \<inter> set ?as"
    then have "fst k = []" by auto
    moreover have "\<exists>ic. (fst k, ic) \<in> set (userConn m)" by (rule pairs_fst) (rule IntD1 [OF k])
    ultimately show False using userConn_entry [OF assms] by metis
  qed
  ultimately have "distinct (?us @ ?as)"
    by (simp only: distinct_append simp_thms)
  then show ?thesis
    unfolding GetAllConnections_split map_append keys_GetAllAuthenticatedConn [OF assms]
      keys_GetAllAnonymousConn [OF assms] .
qed

subsection \<open>The contract of a connection store\<close>

text \<open>
  What the message handlers rely on: a store of connections by session, with a
  listing of all of them and of those of a user.
\<close>

locale conn_store =
  fixes get :: "'m \<Rightarrow> WebsocketAuth \<Rightarrow> WebsocketConn option"
    and add :: "WebsocketConn \<Rightarrow> 'm \<Rightarrow> 'm"
    and rem :: "WebsocketAuth \<Rightarrow> 'm \<Rightarrow> 'm"
    and all_conns :: "'m \<Rightarrow> WebsocketConn list"
    and user_conns :: "'m \<Rightarrow> gostring \<Rightarrow> WebsocketConn list"
    and invar :: "'m \<Rightarrow> bool"
  assumes get_add: "invar m \<Longrightarrow>
      get (add c m) a = (if auth_key a = auth_key (wcAuth c) then Some c else get m a)"
    and get_rem: "invar m \<Longrightarrow> get (rem b m) a = (if auth_key a = auth_key b then None else get m a)"
    and get_key: "\<lbrakk>invar m; get m a = Some c\<rbrakk> \<Longrightarrow> auth_key (wcAuth c) = auth_key a"
    and get_cong: "auth_key a = auth_key b \<Longrightarrow> get m a = get m b"
    and set_all: "invar m \<Longrightarrow> set (all_conns m) = {c. get m (wcAuth c) = Some c}"
    and distinct_all: "invar m \<Longrightarrow> distinct (map (\<lambda>c. auth_key (wcAuth c)) (all_conns m))"
    and set_user: "\<lbrakk>invar m; u \<noteq> []\<rbrakk> \<Longrightarrow>
      set (user_conns m u) = {c. auUserID (wcAuth c) = u \<and> get m (wcAuth c) = Some c}"
    and invar_add: "invar m \<Longrightarrow> invar (add c m)"
    and invar_rem: "invar m \<Longrightarrow> invar (rem a m)"
begin

lemma set_all_add:
  "invar m \<Longrightarrow> set (all_conns (add c m)) =
     insert c {c' \<in> set (all_conns m). auth_key (wcAuth c') \<noteq> auth_key (wcAuth c)}"
  by (auto simp: set_all invar_add get_add split: if_splits)

lemma set_all_rem:
  "invar m \<Longrightarrow> set (all_conns (rem a m)) =
     {c' \<in> set (all_conns m). auth_key (wcAuth c') \<noteq> auth_key a}"
  by (auto simp: set_all invar_rem get_rem split: if_splits)

lemma user_subset_all:
  "\<lbrakk>invar m; u \<noteq> []\<rbrakk> \<Longrightarrow>
   set (user_conns m u) = {c \<in> set (all_conns m). auUserID (wcAuth c) = u}"
  by (auto simp: set_user set_all)

lemma get_iff_all:
  "invar m \<Longrightarrow> get m a = Some c \<longleftrightarrow> c \<in> set (all_conns m) \<and> auth_key (wcAuth c) = auth_key a"
  using get_key [of m a c] get_cong [of "wcAuth c" a m] by (auto simp: set_all)

lemma reconnect_replaces:
  "\<lbrakk>invar m; auth_key (wcAuth c) = auth_key (wcAuth d)\<rbrakk> \<Longrightarrow>
   get (add d (add c m)) (wcAuth c) = Some d \<and> (c \<noteq> d \<longrightarrow> c \<notin> set (all_conns (add d (add c m))))"
  by (auto simp: get_add invar_add set_all_add)

end

lemma cm_abs_ran: "cm_inv m \<Longrightarrow> (\<exists>k. P k \<and> cm_abs m k = Some c) \<longleftrightarrow>
    P (auth_key (wcAuth c)) \<and> cm_abs m (auth_key (wcAuth c)) = Some c"
  using cm_abs_key by blast

lemma cm_abs_ran_user: "cm_inv m \<Longrightarrow> (\<exists>i. cm_abs m (u, i) = Some c) \<longleftrightarrow>
    auUserID (wcAuth c) = u \<and> cm_abs m (auth_key (wcAuth c)) = Some c"
  using cm_abs_key [of m _ c] by (auto simp: auth_key_def)

interpretation cm: conn_store GetConnection AddConnection RemoveConnection GetAllConnections
  GetAllUserConn cm_inv
proof unfold_locales
  fix m :: connectionMap
  assume inv: "cm_inv m"
  show "set (GetAllConnections m) = {c. GetConnection m (wcAuth c) = Some c}"
    using cm_abs_ran [OF inv, of "\<lambda>_. True"]
    by (simp add: set_GetAllConnections inv GetConnection_abs ran_def)
  fix u :: gostring
  assume u: "u \<noteq> []"
  show "set (GetAllUserConn m u) = {c. auUserID (wcAuth c) = u \<and> GetConnection m (wcAuth c) = Some c}"
    by (simp add: set_GetAllUserConn inv u GetConnection_abs cm_abs_ran_user)
next
  show "auth_key (wcAuth c) = auth_key a" if "cm_inv m" "GetConnection m a = Some c" for m a c
    using that cm_abs_key unfolding GetConnection_abs by blast
qed (simp_all add: GetConnection_abs cm_abs_Add cm_abs_Remove distinct_GetAllConnections
    cm_inv_Add cm_inv_Remove)

subsection \<open>Properties\<close>

definition ex_conn :: "nat \<Rightarrow> gostring \<Rightarrow> gostring \<Rightarrow> WebsocketConn" where
  "ex_conn n u i = \<lparr>wcId = n, wcAuth = \<lparr>auUserID = u, auInstanceID = i, auMetadata = []\<rparr>, wcCore = WsCoreGobwas\<rparr>"

text \<open>C31: adding a connection makes exactly that connection retrievable under its
  session, replaces an earlier connection of the same session, and leaves all
  other sessions alone; removing one forgets exactly its session.
\<close>

theorem connection_manager_map_laws:
  "cm_inv m \<Longrightarrow>
   GetConnection (AddConnection c m) a =
     (if auth_key a = auth_key (wcAuth c) then Some c else GetConnection m a) \<and>
   GetConnection (RemoveConnection b m) a =
     (if auth_key a = auth_key b then None else GetConnection m a) \<and>
   cm_inv (AddConnection c m) \<and> cm_inv (RemoveConnection b m)"
  by (simp add: cm.get_add cm.get_rem cm.invar_add cm.invar_rem)

theorem connection_manager_map_laws_witness:
  "GetConnection (AddConnection (ex_conn 1 ''u'' ''i'') NewConnectionMap) (wcAuth (ex_conn 2 ''u'' ''i'')) =
   Some (ex_conn 1 ''u'' ''i'')"
  using connection_manager_map_laws [OF cm_inv_New, of "ex_conn 1 ''u'' ''i''" "wcAuth (ex_conn 2 ''u'' ''i'')"]
  by (simp add: ex_conn_def auth_key_def)

text \<open>the listing of all connections contains every retrievable connection once
  per session and nothing else, the listing of a user is its restriction to that
  user, and the authenticated and anonymous listings partition it.
\<close>

theorem connection_listings_exact:
  assumes inv: "cm_inv m" and u: "u \<noteq> []"
  shows "set (GetAllConnections m) = {c. GetConnection m (wcAuth c) = Some c} \<and>
   distinct (map (\<lambda>c. auth_key (wcAuth c)) (GetAllConnections m)) \<and>
   mset (GetAllConnections m) = mset (GetAllAuthenticatedConn m) + mset (GetAllAnonymousConn m) \<and>
   set (GetAllUserConn m u) = {c \<in> set (GetAllConnections m). auUserID (wcAuth c) = u}"
  using cm.set_all [OF inv] cm.distinct_all [OF inv] cm.user_subset_all [OF inv u]
  unfolding GetAllConnections_split mset_append by blast

theorem connection_listings_exact_witness:
  "set (GetAllUserConn (AddConnection (ex_conn 1 ''u'' ''i'') NewConnectionMap) ''u'') =
   {c \<in> set (GetAllConnections (AddConnection (ex_conn 1 ''u'' ''i'') NewConnectionMap)). auUserID (wcAuth c) = ''u''}"
  using connection_listings_exact [OF cm_inv_Add [OF cm_inv_New], of "''u''" "ex_conn 1 ''u'' ''i''"] by simp

end
