(* ===== verification/RateLimiter.thy ===== *)
theory RateLimiter
  imports Auth
begin

text \<open>
  The per-session rate limiters (\<open>rate-limiter/rate_limiter.go\<close>).  A limiter is a
  heap object of \<open>golang.org/x/time/rate\<close>: here its identity and the rate and burst
  it was created with.  All sessions of a user share one limiter, which lives as
  long as one of them is registered.
\<close>

subsection \<open>State and operations\<close>

record RateLimiterT =
  UserRate :: int
  UserBurst :: int
  AnonymousRate :: int
  AnonymousBurst :: int

record Limiter =
  lmId :: nat
  lmRate :: int
  lmBurst :: int

record rateLimiter =
  rlCfg :: RateLimiterT
  userLimiter :: "(gostring, Limiter) gomap"
  userSessions :: "(gostring, (gostring, unit) gomap) gomap"
  anonymousLimiter :: "(gostring, Limiter) gomap"
  rlNext :: nat

definition NewRateLimiter :: "RateLimiterT \<Rightarrow> rateLimiter" where
  "NewRateLimiter c = \<lparr>rlCfg = c, userLimiter = [], userSessions = [], anonymousLimiter = [],
     rlNext = 0\<rparr>"

text \<open>\<open>rate.NewLimiter\<close> allocates a fresh object.\<close>

definition NewLimiter :: "int \<Rightarrow> int \<Rightarrow> rateLimiter \<Rightarrow> Limiter \<times> rateLimiter" where
  "NewLimiter r b s = (\<lparr>lmId = rlNext s, lmRate = r, lmBurst = b\<rparr>, s\<lparr>rlNext := rlNext s + 1\<rparr>)"

definition Limiter_New :: "WebsocketAuth \<Rightarrow> rateLimiter \<Rightarrow> Limiter \<times> rateLimiter" where
  "Limiter_New auth r =
     (if IsAnonymous auth then
        case gm_get (anonymousLimiter r) (auInstanceID auth) of
          Some lim \<Rightarrow> (lim, r)
        | None \<Rightarrow>
            let (lim, r) = NewLimiter (AnonymousRate (rlCfg r)) (AnonymousBurst (rlCfg r)) r
            in (lim, r\<lparr>anonymousLimiter := gm_put (auInstanceID auth) lim (anonymousLimiter r)\<rparr>)
      else
        let (lim, r) = (case gm_get (userLimiter r) (auUserID auth) of
                          Some lim \<Rightarrow> (lim, r)
                        | None \<Rightarrow>
                            let (lim, r) = NewLimiter (UserRate (rlCfg r)) (UserBurst (rlCfg r)) r
                            in (lim, r\<lparr>userLimiter := gm_put (auUserID auth) lim (userLimiter r)\<rparr>));
            sessions = (case gm_get (userSessions r) (auUserID auth) of Some s \<Rightarrow> s | None \<Rightarrow> [])
        in (lim, r\<lparr>userSessions := gm_put (auUserID auth) (gm_put (auInstanceID auth) () sessions)
                     (userSessions r)\<rparr>))"

definition Limiter_Remove :: "WebsocketAuth \<Rightarrow> rateLimiter \<Rightarrow> rateLimiter" where
  "Limiter_Remove auth r =
     (if IsAnonymous auth then
        r\<lparr>anonymousLimiter := gm_del (auInstanceID auth) (anonymousLimiter r)\<rparr>
      else case gm_get (userSessions r) (auUserID auth) of
        None \<Rightarrow> r
      | Some sessions \<Rightarrow>
          let sessions = gm_del (auInstanceID auth) sessions in
          if length sessions = 0 then
            r\<lparr>userSessions := gm_del (auUserID auth) (userSessions r),
              userLimiter := gm_del (auUserID auth) (userLimiter r)\<rparr>
          else r\<lparr>userSessions := gm_put (auUserID auth) sessions (userSessions r)\<rparr>)"

definition Limiter_lookup :: "WebsocketAuth \<Rightarrow> rateLimiter \<Rightarrow> Limiter option" where
  "Limiter_lookup auth r =
     (if IsAnonymous auth then gm_get (anonymousLimiter r) (auInstanceID auth)
      else gm_get (userLimiter r) (auUserID auth))"

text \<open>
  \<open>Get\<close> releases the read lock before \<open>New\<close> takes the write lock; \<open>between\<close> is
  whatever other callers do to the state in that window.
\<close>

definition Limiter_Get :: "WebsocketAuth \<Rightarrow> (rateLimiter \<Rightarrow> rateLimiter) \<Rightarrow> rateLimiter \<Rightarrow> Limiter \<times> rateLimiter" where
  "Limiter_Get auth between r =
     (case Limiter_lookup auth r of
        Some lim \<Rightarrow> (lim, r)
      | None \<Rightarrow> Limiter_New auth (between r))"

subsection \<open>Invariant\<close>

text \<open>
  A history of calls, and the specification: the set of sessions registered and
  not yet removed.
\<close>

datatype rl_op = RNew WebsocketAuth | RRemove WebsocketAuth

fun rl_apply :: "rl_op \<Rightarrow> rateLimiter \<Rightarrow> rateLimiter" where
  "rl_apply (RNew a) r = snd (Limiter_New a r)"
| "rl_apply (RRemove a) r = Limiter_Remove a r"

fun rl_spec :: "rl_op \<Rightarrow> (gostring \<times> gostring) set \<Rightarrow> (gostring \<times> gostring) set" where
  "rl_spec (RNew a) S = insert (auth_key a) S"
| "rl_spec (RRemove a) S = S - {auth_key a}"

text \<open>
  A user has a limiter exactly when it has a registered session; no session set
  is empty; limiters in use are distinct objects.
\<close>

definition rl_sessions :: "rateLimiter \<Rightarrow> (gostring \<times> gostring) set" where
  "rl_sessions r = {k.
     if fst k = [] then gm_get (anonymousLimiter r) (snd k) \<noteq> None
     else case gm_get (userSessions r) (fst k) of
            Some ss \<Rightarrow> gm_get ss (snd k) \<noteq> None | None \<Rightarrow> False}"

definition rl_inv :: "rateLimiter \<Rightarrow> bool" where
  "rl_inv r \<longleftrightarrow>
     (\<forall>u. gm_get (userLimiter r) u \<noteq> None \<longleftrightarrow> gm_get (userSessions r) u \<noteq> None) \<and>
     (\<forall>u ss. gm_get (userSessions r) u = Some ss \<longrightarrow> ss \<noteq> []) \<and>
     (\<forall>u l. gm_get (userLimiter r) u = Some l \<longrightarrow> lmId l < rlNext r \<and>
        lmRate l = UserRate (rlCfg r) \<and> lmBurst l = UserBurst (rlCfg r)) \<and>
     (\<forall>i l. gm_get (anonymousLimiter r) i = Some l \<longrightarrow> lmId l < rlNext r \<and>
        lmRate l = AnonymousRate (rlCfg r) \<and> lmBurst l = AnonymousBurst (rlCfg r))"

lemma rl_inv_init [inv_intros]: "rl_inv (NewRateLimiter c)"
  by (simp add: rl_inv_def NewRateLimiter_def)

text \<open>\<open>New\<close> on each of its branches.\<close>

lemma New_anonymous:
  "IsAnonymous a \<Longrightarrow> Limiter_New a r =
     (case gm_get (anonymousLimiter r) (auInstanceID a) of
        Some lim \<Rightarrow> (lim, r)
      | None \<Rightarrow> let lim = \<lparr>lmId = rlNext r, lmRate = AnonymousRate (rlCfg r), lmBurst = AnonymousBurst (rlCfg r)\<rparr>
          in (lim, r\<lparr>rlNext := Suc (rlNext r),
                anonymousLimiter := gm_put (auInstanceID a) lim (anonymousLimiter r)\<rparr>))"
  by (simp add: Limiter_New_def NewLimiter_def Let_def split: option.splits)

definition user_sessions_of :: "WebsocketAuth \<Rightarrow> rateLimiter \<Rightarrow> (gostring, unit) gomap" where
  "user_sessions_of a r = gm_put (auInstanceID a) ()
     (case gm_get (userSessions r) (auUserID a) of Some s \<Rightarrow> s | None \<Rightarrow> [])"

lemma New_user_existing:
  "\<lbrakk>\<not> IsAnonymous a; gm_get (userLimiter r) (auUserID a) = Some lim\<rbrakk> \<Longrightarrow>
   Limiter_New a r = (lim, r\<lparr>userSessions := gm_put (auUserID a) (user_sessions_of a r) (userSessions r)\<rparr>)"
  by (simp add: Limiter_New_def user_sessions_of_def Let_def)

lemma New_user_fresh:
  "\<lbrakk>\<not> IsAnonymous a; gm_get (userLimiter r) (auUserID a) = None\<rbrakk> \<Longrightarrow>
   Limiter_New a r =
     (let lim = \<lparr>lmId = rlNext r, lmRate = UserRate (rlCfg r), lmBurst = UserBurst (rlCfg r)\<rparr>
      in (lim, r\<lparr>rlNext := Suc (rlNext r), userLimiter := gm_put (auUserID a) lim (userLimiter r),
            userSessions := gm_put (auUserID a) (user_sessions_of a r) (userSessions r)\<rparr>))"
  by (simp add: Limiter_New_def NewLimiter_def user_sessions_of_def Let_def)

lemmas New_branches = New_anonymous New_user_existing New_user_fresh

lemma New_cases:
  obtains (anonymous_existing) lim where "IsAnonymous a"
      "gm_get (anonymousLimiter r) (auInstanceID a) = Some lim"
  | (anonymous_fresh) "IsAnonymous a" "gm_get (anonymousLimiter r) (auInstanceID a) = None"
  | (user_existing) lim where "\<not> IsAnonymous a" "gm_get (userLimiter r) (auUserID a) = Some lim"
  | (user_fresh) "\<not> IsAnonymous a" "gm_get (userLimiter r) (auUserID a) = None"
  by (cases "IsAnonymous a"; cases "gm_get (anonymousLimiter r) (auInstanceID a)";
      cases "gm_get (userLimiter r) (auUserID a)") auto

lemma user_sessions_of_not_Nil [simp]: "user_sessions_of a r \<noteq> []"
  by (simp add: user_sessions_of_def)

lemma rl_inv_New [inv_intros]: "rl_inv r \<Longrightarrow> rl_inv (snd (Limiter_New a r))"
  by (rule New_cases [of a r]) (auto simp: New_branches rl_inv_def Let_def less_Suc_eq)

lemma rl_inv_Remove [inv_intros]: "rl_inv r \<Longrightarrow> rl_inv (Limiter_Remove a r)"
  unfolding rl_inv_def Limiter_Remove_def
  by (simp add: Let_def split: option.split)

lemma Limiter_New_lookup: "Limiter_lookup a (snd (Limiter_New a r)) = Some (fst (Limiter_New a r))"
  by (rule New_cases [of a r]) (simp_all add: New_branches Limiter_lookup_def Let_def)

lemma Limiter_New_existing:
  "Limiter_lookup a r = Some l \<Longrightarrow> fst (Limiter_New a r) = l"
  by (rule New_cases [of a r]) (simp_all add: New_branches Limiter_lookup_def Let_def)

lemma rl_sessions_init [simp]: "rl_sessions (NewRateLimiter c) = {}"
  by (auto simp: rl_sessions_def NewRateLimiter_def)

lemma user_sessions_of_get:
  "gm_get (user_sessions_of a r) i \<noteq> None \<longleftrightarrow>
     i = auInstanceID a \<or> (\<exists>ss. gm_get (userSessions r) (auUserID a) = Some ss \<and> gm_get ss i \<noteq> None)"
  by (simp add: user_sessions_of_def split: option.split)

lemma rl_sessions_iff:
  "(u, i) \<in> rl_sessions r \<longleftrightarrow>
     (if u = [] then gm_get (anonymousLimiter r) i \<noteq> None
      else \<exists>ss. gm_get (userSessions r) u = Some ss \<and> gm_get ss i \<noteq> None)"
  by (simp add: rl_sessions_def split: option.split)

lemma rl_sessions_New: "rl_sessions (snd (Limiter_New a r)) = insert (auth_key a) (rl_sessions r)"
proof (rule set_eqI)
  fix k :: "gostring \<times> gostring"
  obtain u i where "k = (u, i)" by (cases k)
  then show "k \<in> rl_sessions (snd (Limiter_New a r)) \<longleftrightarrow> k \<in> insert (auth_key a) (rl_sessions r)"
    by (rule_tac New_cases [of a r])
      (simp_all add: New_branches rl_sessions_iff Let_def IsAnonymous_def auth_key_def
        user_sessions_of_get del: not_None_eq, auto)
qed

lemma rl_sessions_Remove: "rl_sessions (Limiter_Remove a r) = rl_sessions r - {auth_key a}"
proof (rule set_eqI)
  fix k :: "gostring \<times> gostring"
  obtain u i where k: "k = (u, i)" by (cases k)
  show "k \<in> rl_sessions (Limiter_Remove a r) \<longleftrightarrow> k \<in> rl_sessions r - {auth_key a}"
  proof (cases "gm_get (userSessions r) (auUserID a)")
    case None
    then show ?thesis
      by (auto simp: k rl_sessions_iff Limiter_Remove_def IsAnonymous_def auth_key_def)
  next
    case (Some ss)
    have "gm_del (auInstanceID a) ss = [] \<Longrightarrow> i \<noteq> auInstanceID a \<Longrightarrow> gm_get ss i = None"
      using gm_get_del [of "auInstanceID a" ss i] by simp
    then show ?thesis using Some
      by (auto simp: k rl_sessions_iff Limiter_Remove_def IsAnonymous_def auth_key_def Let_def)
  qed
qed

text \<open>With the invariant, a user has a limiter exactly when it has a session.\<close>

lemma lookup_iff_session:
  assumes "rl_inv r"
  shows "Limiter_lookup a r \<noteq> None \<longleftrightarrow>
    (if IsAnonymous a then auth_key a \<in> rl_sessions r else \<exists>i. (auUserID a, i) \<in> rl_sessions r)"
proof (cases "IsAnonymous a")
  case True
  then show ?thesis by (simp add: Limiter_lookup_def rl_sessions_def IsAnonymous_def auth_key_def)
next
  case False
  have "Limiter_lookup a r \<noteq> None \<longleftrightarrow> (\<exists>ss. gm_get (userSessions r) (auUserID a) = Some ss \<and> ss \<noteq> [])"
    using assms False unfolding rl_inv_def Limiter_lookup_def by auto
  also have "\<dots> \<longleftrightarrow> (\<exists>i. (auUserID a, i) \<in> rl_sessions r)"
    using False by (auto simp: rl_sessions_def IsAnonymous_def gm_empty_iff split: option.splits)
  finally show ?thesis using False by simp
qed

lemma rl_run:
  "rl_inv r \<Longrightarrow> rl_inv (fold rl_apply ops r) \<and>
     rl_sessions (fold rl_apply ops r) = fold rl_spec ops (rl_sessions r)"
proof (induction ops arbitrary: r)
  case (Cons op ops)
  then show ?case
    by (cases op) (simp_all add: rl_inv_New rl_inv_Remove rl_sessions_New rl_sessions_Remove)
qed simp

subsection \<open>Properties\<close>

text \<open>after any history of \<open>New\<close> and \<open>Remove\<close> calls, a limiter is held for an
  anonymous session exactly while that session is registered, and for a user
  exactly while at least one of the user's sessions is registered: limiters are
  neither leaked nor dropped early.
\<close>

theorem limiter_lifetime:
  "Limiter_lookup a (fold rl_apply ops (NewRateLimiter c)) \<noteq> None \<longleftrightarrow>
   (if IsAnonymous a then auth_key a \<in> fold rl_spec ops {}
    else \<exists>i. (auUserID a, i) \<in> fold rl_spec ops {})"
  using rl_run [OF rl_inv_init, of ops c] lookup_iff_session by simp

text \<open>all sessions of a user share one limiter object, and registering a session
  twice returns the same limiter and changes nothing.
\<close>

theorem limiter_shared_idempotent:
  "\<not> IsAnonymous a \<Longrightarrow> auUserID b = auUserID a \<Longrightarrow>
   fst (Limiter_New b (snd (Limiter_New a r))) = fst (Limiter_New a r) \<and>
   Limiter_New a (snd (Limiter_New a r)) = Limiter_New a r"
proof (intro conjI)
  assume "\<not> IsAnonymous a" "auUserID b = auUserID a"
  then show "fst (Limiter_New b (snd (Limiter_New a r))) = fst (Limiter_New a r)"
    using Limiter_New_lookup [of a r]
    by (intro Limiter_New_existing) (simp add: Limiter_lookup_def IsAnonymous_def)
  show "Limiter_New a (snd (Limiter_New a r)) = Limiter_New a r"
    using \<open>\<not> IsAnonymous a\<close> by (rule_tac New_cases [of a r])
      (simp_all add: New_branches Let_def gm_put_idem user_sessions_of_def)
qed

theorem limiter_shared_idempotent_witness:
  "let a = \<lparr>auUserID = ''u'', auInstanceID = ''i'', auMetadata = []\<rparr>;
       b = \<lparr>auUserID = ''u'', auInstanceID = ''j'', auMetadata = []\<rparr>;
       r = NewRateLimiter \<lparr>UserRate = 5, UserBurst = 9, AnonymousRate = 1, AnonymousBurst = 2\<rparr>
   in \<not> IsAnonymous a \<and> auUserID b = auUserID a \<and>
      fst (Limiter_New b (snd (Limiter_New a r))) = fst (Limiter_New a r) \<and>
      Limiter_New a (snd (Limiter_New a r)) = Limiter_New a r"
  unfolding Let_def
  using limiter_shared_idempotent [of "\<lparr>auUserID = ''u'', auInstanceID = ''i'', auMetadata = []\<rparr>"
      "\<lparr>auUserID = ''u'', auInstanceID = ''j'', auMetadata = []\<rparr>"]
  by (simp add: IsAnonymous_def)

end
