(* ===== verification/AckManager.thy ===== *)
theory AckManager
  imports Auth
begin

text \<open>
  The acknowledgement manager (\<open>ack-manager/ack_manager.go\<close>).  A channel is an
  address; closing it twice panics.  \<open>ResolveAck\<close> takes a channel out of the map
  under the lock and closes it after releasing the lock, so the interleaving of
  callers is a step relation in which these are two steps.
\<close>

subsection \<open>State and operations\<close>

type_synonym chan_id = nat

record AckManager =
  pending :: "(gostring, chan_id) gomap"
  remoteAcks :: "(gostring, gostring) gomap"
  chClosed :: "chan_id list"
  chNext :: chan_id

definition NewAckManager :: AckManager where
  "NewAckManager = \<lparr>pending = [], remoteAcks = [], chClosed = [], chNext = 0\<rparr>"

definition close_chan :: "chan_id \<Rightarrow> AckManager \<Rightarrow> (AckManager, unit) outcome" where
  "close_chan ch a = (if ch \<in> set (chClosed a) then Panic else Ok (a\<lparr>chClosed := ch # chClosed a\<rparr>))"

text \<open>\<open>nanoID\<close> is the random suffix drawn by \<open>fn.NewNanoID(18)\<close>.\<close>

definition CreateAck :: "gostring \<Rightarrow> AckManager \<Rightarrow> gostring \<times> chan_id \<times> AckManager" where
  "CreateAck nanoID a =
     (let ackID = ''ack_'' @ nanoID; ch = chNext a in
      (ackID, ch, a\<lparr>pending := gm_put ackID ch (pending a), chNext := chNext a + 1\<rparr>))"

text \<open>The critical section of \<open>ResolveAck\<close>, and the whole call.\<close>

definition ResolveAck_take :: "gostring \<Rightarrow> AckManager \<Rightarrow> chan_id option \<times> AckManager" where
  "ResolveAck_take ackID a =
     (case gm_get (pending a) ackID of
        Some ch \<Rightarrow> (Some ch, a\<lparr>pending := gm_del ackID (pending a)\<rparr>)
      | None \<Rightarrow> (None, a))"

definition ResolveAck :: "gostring \<Rightarrow> AckManager \<Rightarrow> (bool \<times> AckManager, unit) outcome" where
  "ResolveAck ackID a =
     (case ResolveAck_take ackID a of
        (Some ch, a) \<Rightarrow> obind (close_chan ch a) (\<lambda>a. Ok (True, a))
      | (None, a) \<Rightarrow> Ok (False, a))"

text \<open>
  \<open>WaitForAck\<close> selects between the channel and the timer.  The channel is ready once it is
  closed; \<open>ev\<close> is the branch taken when both are ready, and on an open channel only the timer
  ends the wait.
\<close>

datatype wait_event = ChanReady | TimerFired

definition WaitForAck :: "gostring \<Rightarrow> chan_id \<Rightarrow> wait_event \<Rightarrow> AckManager \<Rightarrow> bool \<times> AckManager" where
  "WaitForAck ackID ch ev a =
     (if ev = ChanReady \<and> ch \<in> set (chClosed a) then (True, a)
      else (False, a\<lparr>pending := gm_del ackID (pending a)\<rparr>))"

definition RegisterRemoteAck :: "gostring \<Rightarrow> gostring \<Rightarrow> AckManager \<Rightarrow> AckManager" where
  "RegisterRemoteAck ackID sourceContainerID a =
     a\<lparr>remoteAcks := gm_put ackID sourceContainerID (remoteAcks a)\<rparr>"

definition ResolveRemoteAck :: "gostring \<Rightarrow> AckManager \<Rightarrow> gostring option \<times> AckManager" where
  "ResolveRemoteAck ackID a =
     (case gm_get (remoteAcks a) ackID of
        Some src \<Rightarrow> (Some src, a\<lparr>remoteAcks := gm_del ackID (remoteAcks a)\<rparr>)
      | None \<Rightarrow> (None, a))"

primrec shutdown_pending :: "(gostring \<times> chan_id) list \<Rightarrow> AckManager \<Rightarrow> (AckManager, unit) outcome" where
  "shutdown_pending [] a = Ok a"
| "shutdown_pending (e # es) a =
     obind (close_chan (snd e) a) (\<lambda>a.
       shutdown_pending es (a\<lparr>pending := gm_del (fst e) (pending a)\<rparr>))"

definition Ack_Shutdown :: "AckManager \<Rightarrow> (AckManager, unit) outcome" where
  "Ack_Shutdown a =
     obind (shutdown_pending (pending a) a) (\<lambda>a.
       Ok (a\<lparr>remoteAcks := fold gm_del (gm_keys (remoteAcks a)) (remoteAcks a)\<rparr>))"

subsection \<open>Interleaved callers\<close>

text \<open>
  \<open>closing\<close> holds the channels taken by \<open>ResolveAck\<close> calls that have released the
  lock and not yet closed them; \<open>None\<close> is a panicked process.
\<close>

type_synonym ack_sys = "(AckManager \<times> chan_id list) option"

inductive ack_step :: "ack_sys \<Rightarrow> ack_sys \<Rightarrow> bool" where
  create: "CreateAck n a = (i, ch, a') \<Longrightarrow> ack_step (Some (a, cl)) (Some (a', cl))"
| resolve_take: "ResolveAck_take i a = (Some ch, a') \<Longrightarrow> ack_step (Some (a, cl)) (Some (a', ch # cl))"
| resolve_miss: "ResolveAck_take i a = (None, a') \<Longrightarrow> ack_step (Some (a, cl)) (Some (a', cl))"
| resolve_close: "\<lbrakk>ch \<in> set cl; close_chan ch a = Ok a'\<rbrakk> \<Longrightarrow>
    ack_step (Some (a, cl)) (Some (a', remove1 ch cl))"
| resolve_panic: "\<lbrakk>ch \<in> set cl; close_chan ch a = Panic\<rbrakk> \<Longrightarrow> ack_step (Some (a, cl)) None"
| wait: "WaitForAck i ch ev a = (b, a') \<Longrightarrow> ack_step (Some (a, cl)) (Some (a', cl))"
| remote: "ack_step (Some (a, cl)) (Some (RegisterRemoteAck i s a, cl))"
| remote_resolve: "ResolveRemoteAck i a = (r, a') \<Longrightarrow> ack_step (Some (a, cl)) (Some (a', cl))"
| shutdown: "Ack_Shutdown a = Ok a' \<Longrightarrow> ack_step (Some (a, cl)) (Some (a', cl))"
| shutdown_panic: "Ack_Shutdown a = Panic \<Longrightarrow> ack_step (Some (a, cl)) None"

inductive_cases ack_stepE: "ack_step s t"

definition ack_init :: "ack_sys \<Rightarrow> bool" where
  "ack_init s \<longleftrightarrow> s = Some (NewAckManager, [])"

text \<open>
  The channels that can still be closed: those in the map and those in flight.
  They are distinct, allocated and open.
\<close>

definition ack_inv :: "ack_sys \<Rightarrow> bool" where
  "ack_inv s \<longleftrightarrow> (case s of None \<Rightarrow> False | Some (a, cl) \<Rightarrow>
     gm_inv (pending a) \<and> distinct (gm_vals (pending a) @ cl) \<and>
     set (gm_vals (pending a) @ cl) \<inter> set (chClosed a) = {} \<and>
     (\<forall>ch \<in> set (gm_vals (pending a) @ cl) \<union> set (chClosed a). ch < chNext a) \<and>
     gm_inv (remoteAcks a))"

subsection \<open>The invariant is kept\<close>

lemma ack_invI:
  "\<lbrakk>gm_inv (pending a); distinct (gm_vals (pending a)); distinct cl;
    set (gm_vals (pending a)) \<inter> set cl = {}; set (gm_vals (pending a)) \<inter> set (chClosed a) = {};
    set cl \<inter> set (chClosed a) = {}; \<forall>ch \<in> set (gm_vals (pending a)). ch < chNext a;
    \<forall>ch \<in> set cl. ch < chNext a; \<forall>ch \<in> set (chClosed a). ch < chNext a;
    gm_inv (remoteAcks a)\<rbrakk> \<Longrightarrow> ack_inv (Some (a, cl))"
  by (auto simp: ack_inv_def)

lemma ack_invD:
  assumes "ack_inv (Some (a, cl))"
  shows "gm_inv (pending a)" "distinct (gm_vals (pending a))" "distinct cl"
    "set (gm_vals (pending a)) \<inter> set cl = {}" "set (gm_vals (pending a)) \<inter> set (chClosed a) = {}"
    "set cl \<inter> set (chClosed a) = {}" "\<forall>ch \<in> set (gm_vals (pending a)). ch < chNext a"
    "\<forall>ch \<in> set cl. ch < chNext a" "\<forall>ch \<in> set (chClosed a). ch < chNext a" "gm_inv (remoteAcks a)"
  using assms by (auto simp: ack_inv_def)

lemma ack_inv_put:
  assumes "ack_inv (Some (a, cl))"
  shows "ack_inv (Some (a\<lparr>pending := gm_put k (chNext a) (pending a), chNext := Suc (chNext a)\<rparr>, cl))"
proof -
  note D = ack_invD [OF assms]
  have new: "chNext a \<notin> set (gm_vals (pending a))" "chNext a \<notin> set cl" "chNext a \<notin> set (chClosed a)"
    using D(7,8,9) by auto
  show ?thesis
    using D new set_gm_vals_put [of k "chNext a" "pending a"] distinct_gm_vals_put [OF D(2) new(1), of k]
    by (intro ack_invI) (auto simp: less_Suc_eq)
qed

lemma ack_inv_create:
  "\<lbrakk>ack_inv (Some (a, cl)); CreateAck n a = (i, ch, a')\<rbrakk> \<Longrightarrow> ack_inv (Some (a', cl))"
  using ack_inv_put [of a cl "''ack_'' @ n"] by (auto simp: CreateAck_def Let_def)

lemma ack_inv_drop:
  assumes "ack_inv (Some (a, cl))"
  shows "ack_inv (Some (a\<lparr>pending := gm_del i (pending a)\<rparr>, cl))"
  using ack_invD [OF assms] set_gm_vals_del [of i "pending a"]
  by (intro ack_invI) (auto simp: distinct_gm_vals_del)

lemma ack_inv_take:
  assumes "ack_inv (Some (a, cl))" "gm_get (pending a) i = Some ch"
  shows "ack_inv (Some (a\<lparr>pending := gm_del i (pending a)\<rparr>, ch # cl))"
  using ack_invD [OF assms(1)] set_gm_vals_del [of i "pending a"] gm_get_in_vals [OF assms(2)]
    gm_vals_del_notin [OF assms(2)]
  by (intro ack_invI) (auto simp: distinct_gm_vals_del)

lemma ack_inv_close:
  assumes "ack_inv (Some (a, cl))" "ch \<in> set cl"
  shows "close_chan ch a = Ok (a\<lparr>chClosed := ch # chClosed a\<rparr>) \<and>
    ack_inv (Some (a\<lparr>chClosed := ch # chClosed a\<rparr>, remove1 ch cl))"
proof
  note D = ack_invD [OF assms(1)]
  show "close_chan ch a = Ok (a\<lparr>chClosed := ch # chClosed a\<rparr>)"
    using D(6) assms(2) by (auto simp: close_chan_def)
  show "ack_inv (Some (a\<lparr>chClosed := ch # chClosed a\<rparr>, remove1 ch cl))"
    using D assms(2) by (intro ack_invI) auto
qed

lemma shutdown_pending_Ok:
  "\<lbrakk>distinct (map snd es); set (map snd es) \<inter> set (chClosed a) = {}\<rbrakk> \<Longrightarrow>
   shutdown_pending es a = Ok (a\<lparr>pending := fold gm_del (map fst es) (pending a),
     chClosed := rev (map snd es) @ chClosed a\<rparr>)"
  by (induction es arbitrary: a) (auto simp: close_chan_def)

lemma Ack_Shutdown_Ok:
  assumes "ack_inv (Some (a, cl))"
  shows "Ack_Shutdown a = Ok (a\<lparr>pending := [], remoteAcks := [],
    chClosed := rev (gm_vals (pending a)) @ chClosed a\<rparr>)"
proof -
  note D = ack_invD [OF assms]
  have "fold gm_del (map fst (pending a)) (pending a) = []"
    using D(1) gm.get_fold_del [of "pending a" "gm_keys (pending a)"]
    by (auto simp: gm_empty_iff set_gm_keys gm_keys_def [symmetric])
  moreover have "fold gm_del (gm_keys (remoteAcks a)) (remoteAcks a) = []"
    using D(10) gm.get_fold_del [of "remoteAcks a" "gm_keys (remoteAcks a)"]
    by (auto simp: gm_empty_iff set_gm_keys)
  ultimately show ?thesis
    using D(2,5) by (simp add: Ack_Shutdown_def shutdown_pending_Ok gm_vals_def)
qed

lemma ack_inv_shutdown:
  assumes "ack_inv (Some (a, cl))"
  shows "ack_inv (Some (a\<lparr>pending := [], remoteAcks := [],
    chClosed := rev (gm_vals (pending a)) @ chClosed a\<rparr>, cl))"
  using ack_invD [OF assms] by (intro ack_invI) (auto simp: gm_vals_def)

lemma ack_inv_remote:
  assumes "ack_inv (Some (a, cl))"
  shows "ack_inv (Some (RegisterRemoteAck i s a, cl))"
  using assms by (simp add: ack_inv_def RegisterRemoteAck_def)

lemma ack_inv_remote_resolve:
  assumes "ack_inv (Some (a, cl))" "ResolveRemoteAck i a = (r, a')"
  shows "ack_inv (Some (a', cl))"
  using assms by (auto simp: ack_inv_def ResolveRemoteAck_def split: option.splits)

lemma ack_inv_step: "\<lbrakk>ack_inv s; ack_step s t\<rbrakk> \<Longrightarrow> ack_inv t"
  by (erule ack_stepE)
    (auto simp: ResolveAck_take_def WaitForAck_def Ack_Shutdown_Ok
      intro: ack_inv_create ack_inv_take ack_inv_drop ack_inv_remote ack_inv_remote_resolve
        ack_inv_shutdown dest: ack_inv_close split: option.splits if_splits)

lemma ResolveAck_inv:
  assumes "ack_inv (Some (a, cl))"
  shows "\<exists>b a'. ResolveAck i a = Ok (b, a') \<and> ack_inv (Some (a', cl))"
proof (cases "gm_get (pending a) i")
  case None
  then show ?thesis using assms by (auto simp: ResolveAck_def ResolveAck_take_def)
next
  case (Some ch)
  from ack_inv_close [OF ack_inv_take [OF assms Some], of ch] show ?thesis
    using Some by (auto simp: ResolveAck_def ResolveAck_take_def)
qed

interpretation ack: step_invariant ack_init ack_step ack_inv
proof unfold_locales
  show "ack_init s \<Longrightarrow> ack_inv s" for s
    by (simp add: ack_init_def ack_inv_def NewAckManager_def gm_vals_def)
qed (rule ack_inv_step)

subsection \<open>Properties\<close>

text \<open>C10: no interleaving of \<open>CreateAck\<close>, \<open>ResolveAck\<close>, \<open>WaitForAck\<close>, the remote-ack
  calls and \<open>Shutdown\<close> ever closes a channel twice: the process never panics, even
  if two acks draw the same identifier.
\<close>

theorem ack_no_double_close: "reachable ack_init ack_step s \<Longrightarrow> s \<noteq> None"
  using ack.reachable_invar [of s] by (cases s) (simp_all add: ack_inv_def)

theorem ack_no_double_close_witness:
  "\<exists>a. reachable ack_init ack_step (Some (a, [])) \<and> chClosed a = [0] \<and> gm_get (pending a) ''ack_x'' = None \<and>
     (Some (a, []) :: ack_sys) \<noteq> None"
proof -
  let ?a0 = "NewAckManager" and ?i = "''ack_x''"
  let ?a1 = "?a0\<lparr>pending := gm_put ?i 0 [], chNext := 1\<rparr>"
  let ?a2 = "?a1\<lparr>pending := gm_del ?i (pending ?a1)\<rparr>"
  let ?a3 = "?a2\<lparr>chClosed := [0]\<rparr>"
  have "reachable ack_init ack_step (Some (?a0, []))" by (rule reach_init) (simp add: ack_init_def)
  then have "reachable ack_init ack_step (Some (?a1, []))"
    by (rule reach_step) (rule ack_step.create [of "''x''" _ ?i 0], simp add: CreateAck_def NewAckManager_def Let_def)
  then have "reachable ack_init ack_step (Some (?a2, [0]))"
    by (rule reach_step) (rule ack_step.resolve_take [of ?i], simp add: ResolveAck_take_def)
  then have "reachable ack_init ack_step (Some (?a3, remove1 0 [0]))"
    by (rule reach_step) (rule ack_step.resolve_close, simp, simp add: close_chan_def NewAckManager_def)
  then have r: "reachable ack_init ack_step (Some (?a3, []))" by simp
  from ack_no_double_close [OF r] r show ?thesis by (intro exI [of _ ?a3]) simp
qed

text \<open>an acknowledgement is resolved exactly once: right after \<open>CreateAck\<close> the first
  \<open>ResolveAck\<close> closes its channel and reports true and a second one reports false;
  after a timeout \<open>ResolveAck\<close> reports false and the channel stays open.
\<close>

theorem ack_resolved_once:
  assumes "ack_inv (Some (a, cl))" "CreateAck n a = (i, ch, a1)"
  shows "(\<exists>a2. ResolveAck i a1 = Ok (True, a2) \<and> ch \<in> set (chClosed a2) \<and>
            ResolveAck i a2 = Ok (False, a2)) \<and>
         (\<exists>a3. WaitForAck i ch TimerFired a1 = (False, a3) \<and> ResolveAck i a3 = Ok (False, a3) \<and>
            ch \<notin> set (chClosed a3))"
proof -
  have a1: "i = ''ack_'' @ n" "ch = chNext a"
    "a1 = a\<lparr>pending := gm_put i ch (pending a), chNext := chNext a + 1\<rparr>"
    using assms(2) by (auto simp: CreateAck_def Let_def)
  have "ch \<notin> set (chClosed a)" using ack_invD(9) [OF assms(1)] a1(2) by auto
  then show ?thesis
    by (simp add: a1(3) ResolveAck_def ResolveAck_take_def close_chan_def WaitForAck_def)
qed

theorem ack_resolved_once_witness:
  "ack_inv (Some (NewAckManager, [])) \<and>
   (\<exists>i ch a1 a2. CreateAck ''x'' NewAckManager = (i, ch, a1) \<and> ResolveAck i a1 = Ok (True, a2) \<and>
      ch \<in> set (chClosed a2))"
proof -
  have inv: "ack_inv (Some (NewAckManager, []))"
    by (simp add: ack_inv_def NewAckManager_def gm_vals_def)
  obtain i ch a1 where c: "CreateAck ''x'' NewAckManager = (i, ch, a1)"
    by (cases "CreateAck ''x'' NewAckManager") blast
  from ack_resolved_once [OF inv c] inv c show ?thesis by blast
qed

text \<open>after \<open>Shutdown\<close> every waiter is unblocked through the channel branch, so its
  \<open>WaitForAck\<close> reports a received acknowledgement although none arrived.
\<close>

theorem shutdown_reports_acked:
  assumes "ack_inv (Some (a, cl))" "gm_get (pending a) i = Some ch"
  shows "\<exists>a'. Ack_Shutdown a = Ok a' \<and> fst (WaitForAck i ch ChanReady a') = True \<and> ch \<notin> set (chClosed a)"
proof -
  have "ch \<in> set (gm_vals (pending a))" using assms(2) by (rule gm_get_in_vals)
  then show ?thesis
    using ack_invD(5) [OF assms(1)]
    by (auto simp: Ack_Shutdown_Ok [OF assms(1)] WaitForAck_def)
qed

theorem shutdown_reports_acked_witness:
  "\<exists>a i ch. ack_inv (Some (a, [])) \<and> gm_get (pending a) i = Some ch \<and>
     (\<exists>a'. Ack_Shutdown a = Ok a' \<and> fst (WaitForAck i ch ChanReady a') = True)"
proof -
  let ?a = "NewAckManager\<lparr>pending := [(''ack_x'', 0)], chNext := 1\<rparr>"
  have inv: "ack_inv (Some (?a, []))" and get: "gm_get (pending ?a) ''ack_x'' = Some 0"
    by (simp_all add: ack_inv_def NewAckManager_def gm_vals_def gm_inv_def gm_get_def)
  from shutdown_reports_acked [OF inv get] inv get show ?thesis by blast
qed

end
