(* ===== verification/Aerror.thy ===== *)
theory Aerror
  imports Prelude
begin

text \<open>
  The error codes of \<open>shared/aerror/0_error_code.go\<close>: numbered blocks, one per HTTP
  status, and the status derived from the block a code lies in.
\<close>

type_synonym ErrorCode = int

text \<open>\<open>iota_code base k\<close> is the k-th constant of a block that starts at \<open>base\<close>.\<close>

definition iota_code :: "int \<Rightarrow> nat \<Rightarrow> ErrorCode" where
  "iota_code base k = base + int k"

definition ErrOrigin :: ErrorCode where "ErrOrigin = iota_code 1 0"

definition start400 :: ErrorCode where "start400 = iota_code 10 0"
definition ErrInvalidInput :: ErrorCode where "ErrInvalidInput = iota_code 10 1"
definition ErrValidateUUID :: ErrorCode where "ErrValidateUUID = iota_code 10 20"
definition end400 :: ErrorCode where "end400 = iota_code 10 21"

definition start401 :: ErrorCode where "start401 = iota_code 2000 0"
definition SessionExceededMaxAge :: ErrorCode where "SessionExceededMaxAge = iota_code 2000 1"
definition LogicErrMissingAuthHeader :: ErrorCode where "LogicErrMissingAuthHeader = iota_code 2000 8"
definition LogicErrAccessTokenVerifyFail :: ErrorCode where
  "LogicErrAccessTokenVerifyFail = iota_code 2000 9"
definition ErrEmailUserAlreadyExists :: ErrorCode where "ErrEmailUserAlreadyExists = iota_code 2000 18"
definition end401 :: ErrorCode where "end401 = iota_code 2000 19"

definition start403 :: ErrorCode where "start403 = iota_code 4000 0"
definition LogicErrRefreshTokenIsExpired :: ErrorCode where "LogicErrRefreshTokenIsExpired = iota_code 4000 1"
definition RateLimitExceeded :: ErrorCode where "RateLimitExceeded = iota_code 4000 7"
definition InvalidInputSchema :: ErrorCode where "InvalidInputSchema = iota_code 4000 8"
definition end403 :: ErrorCode where "end403 = iota_code 4000 9"

definition start404 :: ErrorCode where "start404 = iota_code 3000 0"
definition RecordNotFound :: ErrorCode where "RecordNotFound = iota_code 3000 1"
definition ErrDdbDuplicatedItem :: ErrorCode where "ErrDdbDuplicatedItem = iota_code 3000 2"
definition end404 :: ErrorCode where "end404 = iota_code 3000 3"

definition start500 :: ErrorCode where "start500 = iota_code 6000 0"
definition ErrUnmarshal :: ErrorCode where "ErrUnmarshal = iota_code 6000 1"
definition ErrUnexpectedInput :: ErrorCode where "ErrUnexpectedInput = iota_code 6000 3"
definition ErrUnexpectedRedis :: ErrorCode where "ErrUnexpectedRedis = iota_code 6000 7"
definition ErrUnexpectedDatabase :: ErrorCode where "ErrUnexpectedDatabase = iota_code 6000 8"
definition ErrUnexpectedDynamoDB :: ErrorCode where "ErrUnexpectedDynamoDB = iota_code 6000 9"
definition ErrUnexpectedBussiness :: ErrorCode where "ErrUnexpectedBussiness = iota_code 6000 10"
definition ErrUnexpectedSyscall :: ErrorCode where "ErrUnexpectedSyscall = iota_code 6000 12"
definition ErrUnexpectedCodeLogic :: ErrorCode where "ErrUnexpectedCodeLogic = iota_code 6000 13"
definition ErrUnexpectedPubsub :: ErrorCode where "ErrUnexpectedPubsub = iota_code 6000 19"
definition ErrServerIsShuttingDown :: ErrorCode where "ErrServerIsShuttingDown = iota_code 6000 20"
definition ErrServerAtCapacity :: ErrorCode where "ErrServerAtCapacity = iota_code 6000 21"
definition end500 :: ErrorCode where "end500 = iota_code 6000 22"

definition start500NoTrace :: ErrorCode where "start500NoTrace = iota_code 8000 0"
definition ErrPermissionDenied :: ErrorCode where "ErrPermissionDenied = iota_code 8000 1"
definition ActionNotAllowed :: ErrorCode where "ActionNotAllowed = iota_code 8000 2"
definition end500NoTrace :: ErrorCode where "end500NoTrace = iota_code 8000 3"

lemmas aerror_codes = iota_code_def ErrOrigin_def start400_def ErrInvalidInput_def ErrValidateUUID_def
  end400_def start401_def SessionExceededMaxAge_def LogicErrAccessTokenVerifyFail_def
  ErrEmailUserAlreadyExists_def end401_def start403_def LogicErrRefreshTokenIsExpired_def
  RateLimitExceeded_def InvalidInputSchema_def end403_def start404_def RecordNotFound_def
  ErrDdbDuplicatedItem_def end404_def start500_def ErrUnmarshal_def ErrUnexpectedInput_def
  ErrUnexpectedRedis_def ErrUnexpectedDatabase_def ErrUnexpectedDynamoDB_def
  ErrUnexpectedBussiness_def LogicErrMissingAuthHeader_def ErrUnexpectedSyscall_def ErrUnexpectedCodeLogic_def ErrUnexpectedPubsub_def ErrServerIsShuttingDown_def
  ErrServerAtCapacity_def end500_def start500NoTrace_def ErrPermissionDenied_def
  ActionNotAllowed_def end500NoTrace_def

text \<open>The declaration blocks in full: each constant has the value of its position.\<close>

definition code_block :: "int \<Rightarrow> gostring list \<Rightarrow> (gostring \<times> ErrorCode) list" where
  "code_block base names = map (\<lambda>(k, n). (n, iota_code base k)) (enumerate 0 names)"

definition codes400 :: "(gostring \<times> ErrorCode) list" where
  "codes400 = code_block 10
     [''start400'', ''ErrInvalidInput'', ''ErrManyValidation'', ''ErrValidateRequired'',
      ''ErrValidateLen'', ''ErrValidateMin'', ''ErrValidateMax'', ''ErrValidateEq'',
      ''ErrValidateNe'', ''ErrValidateLt'', ''ErrValidateLte'', ''ErrValidateGt'',
      ''ErrValidateGte'', ''ErrValidateOneOf'', ''ErrValidateIndividualNumber'',
      ''ErrValidateImageBase64'', ''ErrValidatePassword'', ''ErrValidateUsername'',
      ''ErrValidateEmail'', ''ErrValidatePhone'', ''ErrValidateUUID'', ''end400'']"

definition codes401 :: "(gostring \<times> ErrorCode) list" where
  "codes401 = code_block 2000
     [''start401'', ''SessionExceededMaxAge'', ''LogicErrSessionExpired'',
      ''LogicErrUserNeedVerified'', ''InvitationTokenInvalid'', ''ConfirmationTokenInvalid'',
      ''ResetPasswordTokenInvalid'', ''RefreshTokenInvalid'', ''LogicErrMissingAuthHeader'',
      ''LogicErrAccessTokenVerifyFail'', ''LogicErrSessionHasBeenRevoked'',
      ''LogicErrWrongPassword'', ''LogicErrAlreadyExistedPassword'',
      ''LogicErrEmailOrPasswordIncorrect'', ''ErrAccessTokenFormat'',
      ''ErrConfirmationTokenFormat'', ''ErrInvitationTokenFormat'',
      ''ErrSignupConfirmTokenInvalid'', ''ErrEmailUserAlreadyExists'', ''end401'']"

definition codes403 :: "(gostring \<times> ErrorCode) list" where
  "codes403 = code_block 4000
     [''start403'', ''LogicErrRefreshTokenIsExpired'', ''LogicErrSessionHasBeenRevokedOrExpired'',
      ''LogicErrSessionIsNotExisted'', ''LogicErrInvalidRefreshToken'', ''LogicErrInvalidToken'',
      ''LogicRefreshTokenMustUseOnlyOnce'', ''RateLimitExceeded'', ''InvalidInputSchema'',
      ''end403'']"

definition codes404 :: "(gostring \<times> ErrorCode) list" where
  "codes404 = code_block 3000
     [''start404'', ''RecordNotFound'', ''ErrDdbDuplicatedItem'', ''end404'']"

definition codes500 :: "(gostring \<times> ErrorCode) list" where
  "codes500 = code_block 6000
     [''start500'', ''ErrUnmarshal'', ''ErrMarshal'', ''ErrUnexpectedInput'',
      ''ErrUnexpectedConfig'', ''ErrUnexpectedTemplate'', ''ErrUnexpectedSES'',
      ''ErrUnexpectedRedis'', ''ErrUnexpectedDatabase'', ''ErrUnexpectedDynamoDB'',
      ''ErrUnexpectedBussiness'', ''ErrUnexpectedNetwork'', ''ErrUnexpectedSyscall'',
      ''ErrUnexpectedCodeLogic'', ''ErrUnexpectedShouldUnreachable'', ''ErrUnexpectedWithMsg'',
      ''LogicErrDuplicateRecord'', ''LogicErrOauth2ClientSecretNotMatch'',
      ''LogicErrOauth2PkceCodeVerifierNotMatch'', ''ErrUnexpectedPubsub'',
      ''ErrServerIsShuttingDown'', ''ErrServerAtCapacity'', ''end500'']"

definition codes500NoTrace :: "(gostring \<times> ErrorCode) list" where
  "codes500NoTrace = code_block 8000
     [''start500NoTrace'', ''ErrPermissionDenied'', ''ActionNotAllowed'', ''end500NoTrace'']"

definition all_codes :: "(gostring \<times> ErrorCode) list" where
  "all_codes = (''ErrOrigin'', ErrOrigin) # codes400 @ codes401 @ codes403 @ codes404 @ codes500 @ codes500NoTrace"

definition proper :: "(gostring \<times> ErrorCode) list \<Rightarrow> ErrorCode list" where
  "proper block = map snd (butlast (tl block))"

definition HttpCode :: "ErrorCode \<Rightarrow> nat" where
  "HttpCode e =
     (if e > start400 \<and> e < end400 then 400
      else if e > start401 \<and> e < end401 then 401
      else if e > start403 \<and> e < end403 then 403
      else if e > start404 \<and> e < end404 then 404
      else if e > start500NoTrace \<and> e < end500NoTrace then 500
      else if e > start500 \<and> e < end500 then 500
      else 505)"

text \<open>Stack traces and error logs are kept for the 5xx block only (\<open>1_init.go\<close>).\<close>

definition StacktraceEnabled :: "ErrorCode \<Rightarrow> bool" where
  "StacktraceEnabled code \<longleftrightarrow> code > start500 \<and> code < end500"

lemmas code_blocks = codes400_def codes401_def codes403_def codes404_def codes500_def codes500NoTrace_def
  code_block_def iota_code_def

text \<open>no two declared codes have the same value, and every code of a block is answered
  with the status of its block.
\<close>

theorem declared_codes_status:
  "distinct (map snd all_codes) \<and>
   map HttpCode (proper codes400) = replicate 20 400 \<and>
   map HttpCode (proper codes401) = replicate 18 401 \<and>
   map HttpCode (proper codes403) = replicate 8 403 \<and>
   map HttpCode (proper codes404) = replicate 2 404 \<and>
   map HttpCode (proper codes500 @ proper codes500NoTrace) = replicate 23 500"
  by (simp add: all_codes_def proper_def code_blocks HttpCode_def aerror_codes numeral_eq_Suc)

text \<open>the blocks do not overlap, so the status of a code is that of its block, for
  every code; the only declared code outside all blocks is \<open>ErrOrigin\<close>, which is
  answered with 505.
\<close>

theorem HttpCode_blocks:
  "(HttpCode e = 400 \<longleftrightarrow> ErrInvalidInput \<le> e \<and> e \<le> ErrValidateUUID) \<and>
   (HttpCode e = 401 \<longleftrightarrow> SessionExceededMaxAge \<le> e \<and> e \<le> ErrEmailUserAlreadyExists) \<and>
   (HttpCode e = 403 \<longleftrightarrow> LogicErrRefreshTokenIsExpired \<le> e \<and> e \<le> InvalidInputSchema) \<and>
   (HttpCode e = 404 \<longleftrightarrow> RecordNotFound \<le> e \<and> e \<le> ErrDdbDuplicatedItem) \<and>
   \<not> (StacktraceEnabled e \<and> HttpCode e \<noteq> 500) \<and>
   HttpCode ErrOrigin = 505"
  by (auto simp: HttpCode_def StacktraceEnabled_def aerror_codes)

end
