(* ===== verification/Repo.thy ===== *)
theory Repo
  imports Auth Aerror
begin

text \<open>
  The Postgres repositories of \<open>core/repository/impl-postgres\<close>.  A table is the list
  of its rows; each SQL statement of the source is the operation it denotes.  What
  the driver reports is an input: a statement can fail, scanning a row can fail, and
  iterating over the rows can stop early with an error that only \<open>rows.Err\<close> shows.
  Times are nanoseconds.
\<close>

subsection \<open>The driver\<close>

datatype db_fault = DbOk | DbFail | ScanFail nat | IterFail nat

definition pg_exec :: "db_fault \<Rightarrow> ('t \<Rightarrow> 't) \<Rightarrow> 't \<Rightarrow> (unit, ErrorCode) outcome \<times> 't" where
  "pg_exec fault stmt tbl =
     (if fault = DbFail then (Err ErrUnexpectedDatabase, tbl) else (Ok (), stmt tbl))"

text \<open>
  The row loop: \<open>checked\<close> says whether the function looks at \<open>rows.Err\<close> after it.
\<close>

definition pg_rows :: "bool \<Rightarrow> db_fault \<Rightarrow> 'r list \<Rightarrow> ('r list, ErrorCode) outcome" where
  "pg_rows checked fault rows =
     (case fault of
        DbOk \<Rightarrow> Ok rows
      | DbFail \<Rightarrow> Err ErrUnexpectedDatabase
      | ScanFail n \<Rightarrow> if n < length rows then Err ErrUnexpectedDatabase else Ok rows
      | IterFail n \<Rightarrow> if checked then Err ErrUnexpectedDatabase else Ok (take n rows))"

definition pg_row :: "db_fault \<Rightarrow> 'r list \<Rightarrow> ('r, ErrorCode) outcome" where
  "pg_row fault rows =
     (if fault \<noteq> DbOk then Err ErrUnexpectedDatabase
      else case rows of [] \<Rightarrow> Err RecordNotFound | r # _ \<Rightarrow> Ok r)"

subsection \<open>Active connections\<close>

record ActiveConnection =
  acUserID :: gostring
  acInstanceID :: gostring
  acHolderID :: gostring
  acConnectionType :: WsCoreType
  acStatus :: WsStatus
  acConnectedAt :: int
  acLastHeartbeat :: int
  acTTL :: int

type_synonym ac_table = "ActiveConnection list"

definition ac_key :: "ActiveConnection \<Rightarrow> gostring \<times> gostring" where
  "ac_key r = (acUserID r, acInstanceID r)"

text \<open>\<open>2 * GlobalHeartbeatRateDuration + time.Second\<close> in nanoseconds.\<close>

definition GlobalHeartbeatRateDuration :: int where "GlobalHeartbeatRateDuration = 30 * second"
definition heartbeat_ttl :: int where "heartbeat_ttl = 2 * GlobalHeartbeatRateDuration + second"

definition ac_upsert :: "ActiveConnection \<Rightarrow> ac_table \<Rightarrow> ac_table" where
  "ac_upsert row t =
     (if \<exists>r \<in> set t. ac_key r = ac_key row then
        map (\<lambda>r. if ac_key r = ac_key row
                 then r\<lparr>acHolderID := acHolderID row, acConnectionType := acConnectionType row,
                        acStatus := acStatus row, acLastHeartbeat := acLastHeartbeat row,
                        acTTL := acTTL row\<rparr>
                 else r) t
      else t @ [row])"

definition AC_AddConnection ::
    "gostring \<Rightarrow> int \<Rightarrow> db_fault \<Rightarrow> gostring \<Rightarrow> gostring \<Rightarrow> WsCoreType \<Rightarrow> ac_table \<Rightarrow>
     (unit, ErrorCode) outcome \<times> ac_table" where
  "AC_AddConnection containerID now fault userID instanceID connectionType t =
     pg_exec fault (ac_upsert \<lparr>acUserID = userID, acInstanceID = instanceID, acHolderID = containerID,
       acConnectionType = connectionType, acStatus = WsStatusConnected, acConnectedAt = now,
       acLastHeartbeat = now, acTTL = now + heartbeat_ttl\<rparr>) t"

definition ac_where :: "gostring \<Rightarrow> gostring \<Rightarrow> (ActiveConnection \<Rightarrow> ActiveConnection) \<Rightarrow> ac_table \<Rightarrow> ac_table" where
  "ac_where u i f t = map (\<lambda>r. if acUserID r = u \<and> acInstanceID r = i then f r else r) t"

definition AC_UpdateStatus ::
    "db_fault \<Rightarrow> gostring \<Rightarrow> gostring \<Rightarrow> WsStatus \<Rightarrow> ac_table \<Rightarrow> (unit, ErrorCode) outcome \<times> ac_table" where
  "AC_UpdateStatus fault userID instanceID status t =
     pg_exec fault (ac_where userID instanceID (\<lambda>r. r\<lparr>acStatus := status\<rparr>)) t"

definition AC_UpdateStatusTransferring ::
    "db_fault \<Rightarrow> gostring \<Rightarrow> gostring \<Rightarrow> ac_table \<Rightarrow> (unit, ErrorCode) outcome \<times> ac_table" where
  "AC_UpdateStatusTransferring fault userID instanceID t =
     pg_exec fault (ac_where userID instanceID
       (\<lambda>r. r\<lparr>acStatus := WsStatusTransferring, acHolderID := []\<rparr>)) t"

definition AC_UpdateHeartBeat ::
    "int \<Rightarrow> db_fault \<Rightarrow> gostring \<Rightarrow> gostring \<Rightarrow> ac_table \<Rightarrow> (unit, ErrorCode) outcome \<times> ac_table" where
  "AC_UpdateHeartBeat now fault userID instanceID t =
     pg_exec fault (ac_where userID instanceID
       (\<lambda>r. r\<lparr>acLastHeartbeat := now, acTTL := now + heartbeat_ttl\<rparr>)) t"

definition AC_RemoveConnection ::
    "db_fault \<Rightarrow> gostring \<Rightarrow> gostring \<Rightarrow> ac_table \<Rightarrow> (unit, ErrorCode) outcome \<times> ac_table" where
  "AC_RemoveConnection fault userID instanceID t =
     pg_exec fault (filter (\<lambda>r. \<not> (acUserID r = userID \<and> acInstanceID r = instanceID))) t"

definition AC_CleanUpExpiredConnections ::
    "int \<Rightarrow> db_fault \<Rightarrow> ac_table \<Rightarrow> (unit, ErrorCode) outcome \<times> ac_table" where
  "AC_CleanUpExpiredConnections now fault t = pg_exec fault (filter (\<lambda>r. \<not> acTTL r < now)) t"

text \<open>Reads consider a connection alive when its heartbeat is newer than the cutoff.\<close>

definition alive :: "int \<Rightarrow> int \<Rightarrow> ActiveConnection \<Rightarrow> bool" where
  "alive heartbeatCutoff now r \<longleftrightarrow> acLastHeartbeat r > now - heartbeatCutoff"

definition AC_GetInstanceConnection ::
    "int \<Rightarrow> int \<Rightarrow> db_fault \<Rightarrow> gostring \<Rightarrow> gostring \<Rightarrow> ac_table \<Rightarrow> (ActiveConnection, ErrorCode) outcome" where
  "AC_GetInstanceConnection cutoff now fault userID instanceID t =
     pg_row fault (filter (\<lambda>r. acUserID r = userID \<and> acInstanceID r = instanceID \<and> alive cutoff now r) t)"

definition AC_GetActiveConnections ::
    "int \<Rightarrow> int \<Rightarrow> db_fault \<Rightarrow> gostring \<Rightarrow> ac_table \<Rightarrow> (ActiveConnection list, ErrorCode) outcome" where
  "AC_GetActiveConnections cutoff now fault userID t =
     pg_rows False fault (filter (\<lambda>r. acUserID r = userID \<and> alive cutoff now r) t)"

definition AC_GetActiveConnectionsByUserIDs ::
    "int \<Rightarrow> int \<Rightarrow> db_fault \<Rightarrow> gostring list \<Rightarrow> ac_table \<Rightarrow> (ActiveConnection list, ErrorCode) outcome" where
  "AC_GetActiveConnectionsByUserIDs cutoff now fault userIDs t =
     pg_rows False fault (filter (\<lambda>r. acUserID r \<in> set userIDs \<and> alive cutoff now r) t)"

definition AC_CountActiveConnections ::
    "int \<Rightarrow> int \<Rightarrow> db_fault \<Rightarrow> gostring \<Rightarrow> ac_table \<Rightarrow> (nat, ErrorCode) outcome" where
  "AC_CountActiveConnections cutoff now fault userID t =
     pg_row fault [length (filter (\<lambda>r. acUserID r = userID \<and> alive cutoff now r) t)]"

definition AC_CountTotalActiveConnections ::
    "int \<Rightarrow> int \<Rightarrow> db_fault \<Rightarrow> ac_table \<Rightarrow> (nat, ErrorCode) outcome" where
  "AC_CountTotalActiveConnections cutoff now fault t =
     pg_row fault [length (filter (alive cutoff now) t)]"

text \<open>The grouped counts of a batch, then a zero for every id that is missing.\<close>

definition group_counts :: "int \<Rightarrow> int \<Rightarrow> gostring list \<Rightarrow> ac_table \<Rightarrow> (gostring \<times> nat) list" where
  "group_counts cutoff now userIDs t =
     (let live = filter (\<lambda>r. acUserID r \<in> set userIDs \<and> alive cutoff now r) t
      in map (\<lambda>u. (u, length (filter (\<lambda>r. acUserID r = u) live))) (remdups (map acUserID live)))"

definition AC_CountActiveConnectionsBatch ::
    "int \<Rightarrow> int \<Rightarrow> db_fault \<Rightarrow> gostring list \<Rightarrow> ac_table \<Rightarrow> ((gostring, nat) gomap, ErrorCode) outcome" where
  "AC_CountActiveConnectionsBatch cutoff now fault userIDs t =
     obind (pg_rows False fault (group_counts cutoff now userIDs t)) (\<lambda>rows.
       let result = fold (\<lambda>(u, n). gm_put u n) rows [] in
       Ok (fold (\<lambda>uid result. if gm_has result uid then result else gm_put uid 0 result) userIDs result))"

subsection \<open>Users\<close>

record User =
  usID :: gostring
  usLastHeartbeat :: int
  usCreatedAt :: int

definition User_Get :: "db_fault \<Rightarrow> gostring \<Rightarrow> User list \<Rightarrow> (User, ErrorCode) outcome" where
  "User_Get fault userID t = pg_row fault (filter (\<lambda>u. usID u = userID) t)"

definition User_Upsert :: "int \<Rightarrow> db_fault \<Rightarrow> gostring \<Rightarrow> User list \<Rightarrow> (unit, ErrorCode) outcome \<times> User list" where
  "User_Upsert now fault userID t =
     pg_exec fault (\<lambda>t.
       if \<exists>u \<in> set t. usID u = userID
       then map (\<lambda>u. if usID u = userID then u\<lparr>usLastHeartbeat := now\<rparr> else u) t
       else t @ [\<lparr>usID = userID, usLastHeartbeat = now, usCreatedAt = now\<rparr>]) t"

definition User_UpdateLastHeartbeat ::
    "int \<Rightarrow> db_fault \<Rightarrow> gostring \<Rightarrow> User list \<Rightarrow> (unit, ErrorCode) outcome \<times> User list" where
  "User_UpdateLastHeartbeat now fault userID t =
     pg_exec fault (map (\<lambda>u. if usID u = userID then u\<lparr>usLastHeartbeat := now\<rparr> else u)) t"

subsection \<open>Properties of the active-connection table\<close>

text \<open>The statements that change the table.\<close>

datatype ac_op =
    OpAdd gostring int gostring gostring WsCoreType
  | OpStatus gostring gostring WsStatus
  | OpTransferring gostring gostring
  | OpHeartBeat int gostring gostring
  | OpRemove gostring gostring
  | OpCleanUp int

fun ac_apply :: "db_fault \<Rightarrow> ac_op \<Rightarrow> ac_table \<Rightarrow> (unit, ErrorCode) outcome \<times> ac_table" where
  "ac_apply f (OpAdd c now u i ct) t = AC_AddConnection c now f u i ct t"
| "ac_apply f (OpStatus u i st) t = AC_UpdateStatus f u i st t"
| "ac_apply f (OpTransferring u i) t = AC_UpdateStatusTransferring f u i t"
| "ac_apply f (OpHeartBeat now u i) t = AC_UpdateHeartBeat now f u i t"
| "ac_apply f (OpRemove u i) t = AC_RemoveConnection f u i t"
| "ac_apply f (OpCleanUp now) t = AC_CleanUpExpiredConnections now f t"

text \<open>The session a statement is about, if it is about a single one.\<close>

fun ac_target :: "ac_op \<Rightarrow> (gostring \<times> gostring) option" where
  "ac_target (OpAdd c now u i ct) = Some (u, i)"
| "ac_target (OpStatus u i st) = Some (u, i)"
| "ac_target (OpTransferring u i) = Some (u, i)"
| "ac_target (OpHeartBeat now u i) = Some (u, i)"
| "ac_target (OpRemove u i) = Some (u, i)"
| "ac_target (OpCleanUp now) = None"

definition ac_inv :: "ac_table \<Rightarrow> bool" where
  "ac_inv t \<longleftrightarrow> distinct (map ac_key t)"

lemma map_ac_key_where:
  "(\<And>r. ac_key (f r) = ac_key r) \<Longrightarrow> map ac_key (ac_where u i f t) = map ac_key t"
  by (simp add: ac_where_def comp_def)

lemma ac_inv_filter: "ac_inv t \<Longrightarrow> ac_inv (filter P t)"
  unfolding ac_inv_def by (rule distinct_map_filter)

lemma ac_inv_upsert: "ac_inv t \<Longrightarrow> ac_inv (ac_upsert row t)"
proof (cases "\<exists>r \<in> set t. ac_key r = ac_key row")
  case True
  have "map ac_key (ac_upsert row t) = map ac_key t"
    using True by (simp add: ac_upsert_def ac_key_def)
  then show "ac_inv t \<Longrightarrow> ac_inv (ac_upsert row t)" by (simp add: ac_inv_def)
next
  case False
  then show "ac_inv t \<Longrightarrow> ac_inv (ac_upsert row t)"
    by (auto simp: ac_upsert_def ac_inv_def)
qed

lemma ac_inv_apply: "ac_inv t \<Longrightarrow> ac_inv (snd (ac_apply f op t))"
  by (cases op)
    (simp_all add: AC_AddConnection_def AC_UpdateStatus_def AC_UpdateStatusTransferring_def
      AC_UpdateHeartBeat_def AC_RemoveConnection_def AC_CleanUpExpiredConnections_def pg_exec_def
      ac_inv_upsert ac_inv_filter, simp_all add: ac_inv_def map_ac_key_where ac_key_def)

definition ac_row :: "ac_table \<Rightarrow> gostring \<Rightarrow> gostring \<Rightarrow> ActiveConnection option" where
  "ac_row t u i = find (\<lambda>r. ac_key r = (u, i)) t"

lemma ac_inv_fold: "ac_inv t \<Longrightarrow> ac_inv (fold (\<lambda>(f, op) t. snd (ac_apply f op t)) ops t)"
  by (induction ops arbitrary: t) (auto simp: ac_inv_apply)

lemma find_map_key:
  "(\<And>r. ac_key (g r) = ac_key r) \<Longrightarrow> (\<And>r. ac_key r = k \<Longrightarrow> g r = r) \<Longrightarrow>
   find (\<lambda>r. ac_key r = k) (map g t) = find (\<lambda>r. ac_key r = k) t"
  by (induction t) simp_all

lemma find_filter_key:
  "(\<And>r. ac_key r = k \<Longrightarrow> P r) \<Longrightarrow> find (\<lambda>r. ac_key r = k) (filter P t) = find (\<lambda>r. ac_key r = k) t"
  by (induction t) auto

lemma find_append_key: "ac_key row \<noteq> k \<Longrightarrow> find (\<lambda>r. ac_key r = k) (t @ [row]) = find (\<lambda>r. ac_key r = k) t"
  by (induction t) simp_all

lemma ac_row_other:
  assumes "ac_target op = Some (u, i)" "(v, j) \<noteq> (u, i)"
  shows "ac_row (snd (ac_apply f op t)) v j = ac_row t v j"
proof -
  have upd: "ac_row (ac_where u i g t) v j = ac_row t v j" if "\<And>r. ac_key (g r) = ac_key r" for g
    unfolding ac_row_def ac_where_def
    by (rule find_map_key) (use that assms(2) in \<open>auto simp: ac_key_def\<close>)
  have ups: "ac_row (ac_upsert row t) v j = ac_row t v j" if "ac_key row = (u, i)" for row
  proof -
    have "find (\<lambda>r. ac_key r = (v, j)) (map (\<lambda>r. if ac_key r = ac_key row
        then r\<lparr>acHolderID := acHolderID row, acConnectionType := acConnectionType row,
               acStatus := acStatus row, acLastHeartbeat := acLastHeartbeat row, acTTL := acTTL row\<rparr>
        else r) t) = find (\<lambda>r. ac_key r = (v, j)) t"
      by (rule find_map_key) (use that assms(2) in \<open>auto simp: ac_key_def\<close>)
    moreover have "ac_key row \<noteq> (v, j)" using that assms(2) by auto
    ultimately show ?thesis by (simp add: ac_row_def ac_upsert_def find_append_key)
  qed
  have rem: "ac_row (filter (\<lambda>r. \<not> (acUserID r = u \<and> acInstanceID r = i)) t) v j = ac_row t v j"
    unfolding ac_row_def by (rule find_filter_key) (use assms(2) in \<open>auto simp: ac_key_def\<close>)
  show ?thesis using assms(1)
    by (cases op) (auto simp: AC_AddConnection_def AC_UpdateStatus_def AC_UpdateStatusTransferring_def
        AC_UpdateHeartBeat_def AC_RemoveConnection_def pg_exec_def upd ups rem [simplified] ac_key_def)
qed

text \<open>Whatever sequence of statements runs against the active-connection table, failed
  ones included, there is at most one row per session, and a statement about one session
  leaves the row of every other session as it was.\<close>

theorem ac_table_sound:
  "ac_inv (fold (\<lambda>(f, op) t. snd (ac_apply f op t)) ops []) \<and>
   (ac_target op = Some (u, i) \<longrightarrow> (v, j) \<noteq> (u, i) \<longrightarrow>
    ac_row (snd (ac_apply f op t)) v j = ac_row t v j)"
  using ac_row_other [of op u i v j f t] ac_inv_fold [of "[]" ops] by (auto simp: ac_inv_def)

theorem ac_table_sound_witness:
  "ac_row (snd (ac_apply DbOk (OpRemove ''u'' ''i'') [])) ''u'' ''j'' = ac_row [] ''u'' ''j''"
  using ac_table_sound [of "[]" "OpRemove ''u'' ''i''" "''u''" "''i''" "''u''" "''j''" DbOk "[]"] by simp

lemma find_map_hit:
  "\<lbrakk>\<exists>r \<in> set t. ac_key r = k; \<And>r. ac_key (g r) = ac_key r\<rbrakk> \<Longrightarrow>
   \<exists>r. find (\<lambda>r. ac_key r = k) (map g t) = Some (g r) \<and> ac_key r = k"
  by (induction t) auto

lemma find_append_hit:
  "\<lbrakk>\<not> (\<exists>r \<in> set t. ac_key r = k); ac_key row = k\<rbrakk> \<Longrightarrow> find (\<lambda>r. ac_key r = k) (t @ [row]) = Some row"
  by (induction t) auto

lemma upsert_row:
  "\<exists>r. ac_row (ac_upsert row t) (acUserID row) (acInstanceID row) = Some r \<and>
     acHolderID r = acHolderID row \<and> acConnectionType r = acConnectionType row \<and>
     acStatus r = acStatus row \<and> acLastHeartbeat r = acLastHeartbeat row \<and> acTTL r = acTTL row"
proof (cases "\<exists>r \<in> set t. ac_key r = ac_key row")
  case True
  let ?g = "\<lambda>r. if ac_key r = ac_key row
    then r\<lparr>acHolderID := acHolderID row, acConnectionType := acConnectionType row,
           acStatus := acStatus row, acLastHeartbeat := acLastHeartbeat row, acTTL := acTTL row\<rparr>
    else r"
  have "\<And>r. ac_key (?g r) = ac_key r" by (simp add: ac_key_def)
  from find_map_hit [OF True this]
  obtain r where "find (\<lambda>r. ac_key r = ac_key row) (map ?g t) = Some (?g r)" "ac_key r = ac_key row"
    by blast
  then show ?thesis using True unfolding ac_upsert_def ac_row_def by (simp add: ac_key_def)
next
  case False
  then have "ac_upsert row t = t @ [row]" unfolding ac_upsert_def by (rule if_not_P)
  then show ?thesis using find_append_hit [OF False refl] by (simp add: ac_row_def ac_key_def)
qed

lemma find_filter_hd:
  "find P t = Some r \<Longrightarrow> Q r \<Longrightarrow> \<exists>rest. filter (\<lambda>r. P r \<and> Q r) t = r # rest"
  by (induction t) (auto split: if_splits)

text \<open>After \<open>AddConnection\<close> has succeeded, the session is found until its heartbeat is
  older than the cutoff: as connected, held by the adding container, with its transport,
  also when another container held the session before.\<close>

theorem add_then_found:
  assumes "AC_AddConnection c now DbOk u i ct t = (Ok (), t')" "later - cutoff < now"
  shows "\<exists>r. AC_GetInstanceConnection cutoff later DbOk u i t' = Ok r \<and>
    acHolderID r = c \<and> acConnectionType r = ct \<and> acStatus r = WsStatusConnected \<and> acLastHeartbeat r = now"
proof -
  let ?row = "\<lparr>acUserID = u, acInstanceID = i, acHolderID = c, acConnectionType = ct,
    acStatus = WsStatusConnected, acConnectedAt = now, acLastHeartbeat = now, acTTL = now + heartbeat_ttl\<rparr>"
  have t': "t' = ac_upsert ?row t" using assms(1) by (simp add: AC_AddConnection_def pg_exec_def)
  obtain r where r: "ac_row t' u i = Some r" "acHolderID r = c" "acConnectionType r = ct"
    "acStatus r = WsStatusConnected" "acLastHeartbeat r = now"
    using upsert_row [of ?row t] unfolding t' by auto
  have "alive cutoff later r" using r(5) assms(2) by (simp add: alive_def)
  then obtain rest where "filter (\<lambda>r. ac_key r = (u, i) \<and> alive cutoff later r) t' = r # rest"
    using find_filter_hd r(1) unfolding ac_row_def by metis
  then show ?thesis using r by (simp add: AC_GetInstanceConnection_def pg_row_def ac_key_def conj_assoc)
qed

theorem add_then_found_witness:
  "\<exists>r. AC_GetInstanceConnection 60 30 DbOk ''u'' ''i'' (snd (AC_AddConnection ''pod'' 10 DbOk ''u'' ''i'' WsCoreGobwas [])) = Ok r \<and>
    acHolderID r = ''pod'' \<and> acConnectionType r = WsCoreGobwas \<and> acStatus r = WsStatusConnected \<and> acLastHeartbeat r = 10"
proof -
  have "AC_AddConnection ''pod'' 10 DbOk ''u'' ''i'' WsCoreGobwas [] =
      (Ok (), snd (AC_AddConnection ''pod'' 10 DbOk ''u'' ''i'' WsCoreGobwas []))"
    by (simp add: AC_AddConnection_def pg_exec_def)
  then show ?thesis by (rule add_then_found) simp
qed

subsection \<open>Batch counts\<close>

lemma get_fold_puts:
  "distinct (map fst kvs) \<Longrightarrow> gm_get (fold (\<lambda>(u, n). gm_put u n) kvs m) k =
     (case map_of kvs k of Some v \<Rightarrow> Some v | None \<Rightarrow> gm_get m k)"
  by (induction kvs arbitrary: m)
    (auto split: option.split simp: map_of_eq_None_iff dest: map_of_SomeD intro: rev_image_eqI)

lemma get_fold_fill:
  "gm_get (fold (\<lambda>uid m. if gm_has m uid then m else gm_put uid v m) us m) k =
     (case gm_get m k of Some x \<Rightarrow> Some x | None \<Rightarrow> if k \<in> set us then Some v else None)"
  by (induction us arbitrary: m) (auto simp: gm_has_def split: option.split)

lemma map_of_pair: "map_of (map (\<lambda>u. (u, f u)) us) k = (if k \<in> set us then Some (f k) else None)"
  by (induction us) auto

text \<open>The batch count agrees with the single count: for every requested user the result
  has the number of that user's live connections, zero included, and nothing else.\<close>

theorem batch_count_agrees:
  "\<exists>m. AC_CountActiveConnectionsBatch cutoff now DbOk us t = Ok m \<and>
     (\<forall>u. map_option Ok (gm_get m u) =
        (if u \<in> set us then Some (AC_CountActiveConnections cutoff now DbOk u t) else None))"
proof -
  let ?live = "filter (\<lambda>r. acUserID r \<in> set us \<and> alive cutoff now r) t"
  let ?c = "\<lambda>u. length (filter (\<lambda>r. acUserID r = u) ?live)"
  let ?kvs = "map (\<lambda>u. (u, ?c u)) (remdups (map acUserID ?live))"
  let ?m = "fold (\<lambda>uid m. if gm_has m uid then m else gm_put uid 0 m) us (fold (\<lambda>(u, n). gm_put u n) ?kvs [])"
  have m: "AC_CountActiveConnectionsBatch cutoff now DbOk us t = Ok ?m"
    by (simp add: AC_CountActiveConnectionsBatch_def pg_rows_def group_counts_def Let_def)
  have d: "distinct (map fst ?kvs)" by (simp add: comp_def)
  have c: "u \<in> set us \<Longrightarrow> ?c u = length (filter (\<lambda>r. acUserID r = u \<and> alive cutoff now r) t)" for u
    by (simp add: conj_commute conj_left_commute cong: conj_cong)
  have z: "u \<notin> acUserID ` set ?live \<Longrightarrow> ?c u = 0" for u
    by (auto simp: filter_empty_conv)
  have "gm_get ?m u = (if u \<in> set us then Some (?c u) else None)" for u
    unfolding get_fold_fill get_fold_puts [OF d] map_of_pair gm_get_Nil using z [of u] by auto
  then show ?thesis unfolding m using c
    by (intro exI [of _ ?m]) (auto simp: AC_CountActiveConnections_def pg_row_def)
qed

text \<open>A failure while iterating over the rows is not reported: \<open>GetActiveConnections\<close>
  does not look at \<open>rows.Err\<close>, so a connection that breaks after \<open>n\<close> rows gives a
  shortened list as a success, while \<open>GetAll\<close> of the pending messages, which does look,
  would report an error for the same fault.\<close>

theorem rows_err_ignored:
  "AC_GetActiveConnections cutoff now (IterFail n) u t =
     Ok (take n (filter (\<lambda>r. acUserID r = u \<and> alive cutoff now r) t)) \<and>
   pg_rows True (IterFail n) t = Err ErrUnexpectedDatabase"
  by (simp add: AC_GetActiveConnections_def pg_rows_def)

end
