(* ===== verification/DdbBatch.thy ===== *)
theory DdbBatch
  imports Prelude
begin

text \<open>
  Batched writes and reads against DynamoDB (\<open>pkg/dynamodb/recursive_batch_*.go\<close> and
  \<open>pkg/dynamodb/utils/batch_*.go\<close>).  The AWS client is a parameter: a request consumes
  a world state and answers with the part it did not process, or fails.
\<close>

subsection \<open>Chunking\<close>

text \<open>\<open>lo.Chunk\<close> cuts a list into consecutive pieces of at most \<open>n\<close> elements.\<close>

function chunk :: "nat \<Rightarrow> 'a list \<Rightarrow> 'a list list" where
  "chunk n xs = (if n = 0 \<or> xs = [] then [] else take n xs # chunk n (drop n xs))"
  by pat_completeness auto
termination by (relation "measure (length \<circ> snd)") auto

declare chunk.simps [simp del]

subsection \<open>Recursive batch write\<close>

text \<open>
  \<open>bw w reqs\<close> is \<open>client.BatchWriteItem\<close>: \<open>None\<close> on failure, otherwise the requests
  left unprocessed, with the next world state.
\<close>

type_synonym ('req, 'w) batch_client = "'w \<Rightarrow> 'req list \<Rightarrow> 'req list option \<times> 'w"

text \<open>One chunk: retry what is left until it is empty, an error, or \<open>depth\<close> is exceeded.\<close>

function write_chunk ::
    "('req, 'w) batch_client \<Rightarrow> int \<Rightarrow> int \<Rightarrow> 'req list \<Rightarrow> 'w \<Rightarrow> ('req list \<times> bool) \<times> 'w" where
  "write_chunk bw depth counter unprocessed w =
     (if unprocessed = [] then (([], False), w)
      else if counter > depth then ((unprocessed, False), w)
      else case bw w unprocessed of
             (None, w) \<Rightarrow> ((unprocessed, True), w)
           | (Some left, w) \<Rightarrow> write_chunk bw depth (counter + 1) left w)"
  by pat_completeness auto
termination
  by (relation "measure (\<lambda>(bw, depth, counter, u, w). nat (depth + 1 - counter))") auto

declare write_chunk.simps [simp del]

primrec write_chunks ::
    "('req, 'w) batch_client \<Rightarrow> int \<Rightarrow> 'req list list \<Rightarrow> 'w \<Rightarrow> ('req list \<times> bool) \<times> 'w" where
  "write_chunks bw depth [] w = (([], False), w)"
| "write_chunks bw depth (c # cs) w =
     (case write_chunk bw depth 0 c w of ((u, e), w) \<Rightarrow>
        case write_chunks bw depth cs w of ((us, es), w) \<Rightarrow> ((u @ us, e \<or> es), w))"

definition RecursiveBatchWriteItem ::
    "('req, 'w) batch_client \<Rightarrow> 'req list \<Rightarrow> int \<Rightarrow> 'w \<Rightarrow> ('req list \<times> bool) \<times> 'w" where
  "RecursiveBatchWriteItem bw reqsItems depth w = write_chunks bw depth (chunk 25 reqsItems) w"

subsection \<open>Recursive batch read\<close>

text \<open>
  \<open>bg w keys\<close> is \<open>client.BatchGetItem\<close>: the items found (or no entry for the table)
  and the keys left.  \<open>cancelled w\<close> says whether the context ends the backoff wait.
\<close>

type_synonym ('k, 'i, 'w) get_client = "'w \<Rightarrow> 'k list \<Rightarrow> ('i list option \<times> 'k list) option \<times> 'w"

datatype ('k, 'i) get_result = GetOk "'i list" "'k list" | GetCtx "'i list" "'k list" | GetFail

function read_chunk ::
    "('k, 'i, 'w) get_client \<Rightarrow> ('w \<Rightarrow> bool) \<Rightarrow> int \<Rightarrow> int \<Rightarrow> 'k list \<Rightarrow> 'i list \<Rightarrow> 'w \<Rightarrow>
     ('k, 'i) get_result \<times> 'w" where
  "read_chunk bg cancelled depth counter unprocessed results w =
     (if unprocessed = [] then (GetOk results [], w)
      else if counter > depth then (GetOk results unprocessed, w)
      else if counter > 0 \<and> cancelled w then (GetCtx results unprocessed, w)
      else case bg w unprocessed of
             (None, w) \<Rightarrow> (GetFail, w)
           | (Some (found, left), w) \<Rightarrow>
               read_chunk bg cancelled depth (counter + 1) left
                 (results @ (case found of Some r \<Rightarrow> r | None \<Rightarrow> [])) w)"
  by pat_completeness auto
termination
  by (relation "measure (\<lambda>(bg, cancelled, depth, counter, u, r, w). nat (depth + 1 - counter))") auto

declare read_chunk.simps [simp del]

text \<open>A cancelled wait returns at once with the leftovers of the chunks read so far.\<close>

primrec read_chunks ::
    "('k, 'i, 'w) get_client \<Rightarrow> ('w \<Rightarrow> bool) \<Rightarrow> int \<Rightarrow> 'k list list \<Rightarrow> 'i list \<Rightarrow> 'k list \<Rightarrow> 'w \<Rightarrow>
     ('k, 'i) get_result \<times> 'w" where
  "read_chunks bg cancelled depth [] results left w = (GetOk results left, w)"
| "read_chunks bg cancelled depth (c # cs) results left w =
     (case read_chunk bg cancelled depth 0 c results w of
        (GetOk results u, w) \<Rightarrow> read_chunks bg cancelled depth cs results (left @ u) w
      | (GetCtx results u, w) \<Rightarrow> (GetCtx results (left @ u), w)
      | (GetFail, w) \<Rightarrow> (GetFail, w))"

definition RecursiveBatchGetItem ::
    "('k, 'i, 'w) get_client \<Rightarrow> ('w \<Rightarrow> bool) \<Rightarrow> 'k list \<Rightarrow> int \<Rightarrow> 'w \<Rightarrow> ('k, 'i) get_result \<times> 'w" where
  "RecursiveBatchGetItem bg cancelled keysAV depth w =
     read_chunks bg cancelled depth (chunk 100 keysAV) [] [] w"

subsection \<open>Facts\<close>

lemma concat_chunk: "0 < n \<Longrightarrow> concat (chunk n xs) = xs"
  by (induction n xs rule: chunk.induct) (subst chunk.simps, simp)

lemma chunk_sizes: "c \<in> set (chunk n xs) \<Longrightarrow> 0 < length c \<and> length c \<le> n"
  by (induction n xs rule: chunk.induct) (subst (asm) chunk.simps, auto split: if_splits)

text \<open>
  Whatever every single request to the client keeps, a batched write keeps; the requests
  it sends are always part of the batch.
\<close>

lemma write_chunk_keeps:
  assumes "\<And>w reqs r w'. \<lbrakk>P w; set reqs \<subseteq> R; bw w reqs = (r, w')\<rbrakk> \<Longrightarrow> P w' \<and> (\<forall>left. r = Some left \<longrightarrow> set left \<subseteq> R)"
  shows "\<lbrakk>P w; set u \<subseteq> R; write_chunk bw depth counter u w = (r, w')\<rbrakk> \<Longrightarrow> P w'"
proof (induction "nat (depth + 1 - counter)" arbitrary: counter u w rule: less_induct)
  case less
  show ?case
  proof (cases "u = [] \<or> counter > depth")
    case True
    then show ?thesis using less.prems by (subst (asm) write_chunk.simps) (auto split: if_splits)
  next
    case False
    obtain a w1 where a: "bw w u = (a, w1)" by (cases "bw w u")
    note k = assms [OF less.prems(1,2) a]
    show ?thesis
    proof (cases a)
      case None
      then show ?thesis using less.prems(3) False a k by (subst (asm) write_chunk.simps) auto
    next
      case (Some left)
      then have "write_chunk bw depth (counter + 1) left w1 = (r, w')"
        using less.prems(3) False a by (subst (asm) write_chunk.simps) auto
      then show ?thesis using less.hyps [of "counter + 1" w1 left] k Some False by simp
    qed
  qed
qed

lemma write_chunks_keeps:
  assumes "\<And>w reqs r w'. \<lbrakk>P w; set reqs \<subseteq> R; bw w reqs = (r, w')\<rbrakk> \<Longrightarrow> P w' \<and> (\<forall>left. r = Some left \<longrightarrow> set left \<subseteq> R)"
  shows "\<lbrakk>P w; set (concat cs) \<subseteq> R; write_chunks bw depth cs w = (r, w')\<rbrakk> \<Longrightarrow> P w'"
proof (induction cs arbitrary: r w w')
  case (Cons c cs)
  obtain r1 w1 where 1: "write_chunk bw depth 0 c w = (r1, w1)" by (cases "write_chunk bw depth 0 c w")
  obtain r2 w2 where 2: "write_chunks bw depth cs w1 = (r2, w2)" by (cases "write_chunks bw depth cs w1")
  have "P w1" using write_chunk_keeps [of P R bw, OF assms Cons.prems(1) _ 1] Cons.prems(2) by auto
  moreover have "w' = w2" using Cons.prems(3) 1 2 by (auto split: prod.splits)
  ultimately show ?case using Cons.IH [of w1 r2 w2] 2 Cons.prems(2) by auto
qed simp

lemma batch_write_keeps:
  assumes "\<And>w reqs r w'. \<lbrakk>P w; set reqs \<subseteq> set items; bw w reqs = (r, w')\<rbrakk> \<Longrightarrow> P w' \<and> (\<forall>left. r = Some left \<longrightarrow> set left \<subseteq> set items)"
    and "P w" "RecursiveBatchWriteItem bw items depth w = (r, w')"
  shows "P w'"
  using write_chunks_keeps [of P "set items" bw w "chunk 25 items", OF assms(1,2)] assms(3)
  by (simp add: RecursiveBatchWriteItem_def concat_chunk)

text \<open>
  A client that keeps its promise: what it reports as unprocessed is part of what it
  was sent, and everything else of the request has been applied to its world.
\<close>

locale batch_writer =
  fixes bw :: "('req, 'w) batch_client"
    and applied :: "'w \<Rightarrow> 'req set"
  assumes unprocessed_subset: "bw w reqs = (Some left, w') \<Longrightarrow> set left \<subseteq> set reqs"
    and processed_applied: "bw w reqs = (Some left, w') \<Longrightarrow> set reqs - set left \<subseteq> applied w'"
    and applied_mono: "bw w reqs = (r, w') \<Longrightarrow> applied w \<subseteq> applied w'"
begin

lemma write_chunk_applied:
  "write_chunk bw depth counter u w = ((left, e), w') \<Longrightarrow>
   set left \<subseteq> set u \<and> set u - set left \<subseteq> applied w' \<and> applied w \<subseteq> applied w'"
proof (induction "nat (depth + 1 - counter)" arbitrary: counter u w rule: less_induct)
  case less
  show ?case
  proof (cases "u = [] \<or> counter > depth")
    case True
    then show ?thesis using less.prems by (subst (asm) write_chunk.simps) (auto split: if_splits)
  next
    case False
    obtain r w1 where r: "bw w u = (r, w1)" by (cases "bw w u")
    show ?thesis
    proof (cases r)
      case None
      then show ?thesis using less.prems False r applied_mono [OF r]
        by (subst (asm) write_chunk.simps) auto
    next
      case (Some left1)
      then have rec: "write_chunk bw depth (counter + 1) left1 w1 = ((left, e), w')"
        using less.prems False r by (subst (asm) write_chunk.simps) auto
      have "set left \<subseteq> set left1 \<and> set left1 - set left \<subseteq> applied w' \<and> applied w1 \<subseteq> applied w'"
        by (rule less.hyps [OF _ rec]) (use False in simp)
      then show ?thesis
        using r Some applied_mono [OF r] unprocessed_subset [of w u left1 w1]
          processed_applied [of w u left1 w1] by blast
    qed
  qed
qed

lemma write_chunks_applied:
  "write_chunks bw depth cs w = ((left, e), w') \<Longrightarrow>
   set left \<subseteq> set (concat cs) \<and> set (concat cs) - set left \<subseteq> applied w' \<and> applied w \<subseteq> applied w'"
proof (induction cs arbitrary: left e w w')
  case (Cons c cs)
  obtain u1 e1 w1 where 1: "write_chunk bw depth 0 c w = ((u1, e1), w1)"
    by (cases "write_chunk bw depth 0 c w") auto
  obtain u2 e2 w2 where 2: "write_chunks bw depth cs w1 = ((u2, e2), w2)"
    by (cases "write_chunks bw depth cs w1") auto
  have "left = u1 @ u2" "w' = w2" using Cons.prems 1 2 by auto
  then show ?case using write_chunk_applied [OF 1] Cons.IH [OF 2] by (simp; blast)
qed simp

lemma batch_write_applied:
  "RecursiveBatchWriteItem bw reqs depth w = ((left, e), w') \<Longrightarrow>
   set left \<subseteq> set reqs \<and> set reqs - set left \<subseteq> applied w'"
  unfolding RecursiveBatchWriteItem_def
  by (drule write_chunks_applied) (simp add: concat_chunk)

end

subsection \<open>Bounds\<close>

text \<open>A client that counts its calls and checks the size of each request.\<close>

definition counted :: "nat \<Rightarrow> ('req, 'w) batch_client \<Rightarrow> ('req, 'w \<times> nat \<times> bool) batch_client" where
  "counted limit bw = (\<lambda>(w, n, ok) reqs. case bw w reqs of
     (r, w) \<Rightarrow> (r, (w, n + 1, ok \<and> length reqs \<le> limit)))"

lemma counted_apply:
  "bw w reqs = (r, w') \<Longrightarrow>
   counted limit bw (w, n, ok) reqs = (r, (w', n + 1, ok \<and> length reqs \<le> limit))"
  by (simp add: counted_def)

definition shrinking :: "('req, 'w) batch_client \<Rightarrow> bool" where
  "shrinking bw \<longleftrightarrow> (\<forall>w reqs left w'. bw w reqs = (Some left, w') \<longrightarrow> length left \<le> length reqs)"

lemma write_chunk_calls:
  assumes "shrinking bw"
  shows "length u \<le> 25 \<Longrightarrow> ok \<Longrightarrow>
    write_chunk (counted 25 bw) depth counter u (w, n, ok) = (r, (w', n', ok')) \<Longrightarrow>
    ok' \<and> n' \<le> n + nat (depth + 1 - counter)"
proof (induction "nat (depth + 1 - counter)" arbitrary: counter u w n ok rule: less_induct)
  case less
  show ?case
  proof (cases "u = [] \<or> counter > depth")
    case True
    then show ?thesis using less.prems by (auto simp: write_chunk.simps [of "counted 25 bw" depth counter u] split: if_splits)
  next
    case False
    obtain r1 w1 where r: "bw w u = (r1, w1)" by (cases "bw w u")
    show ?thesis
    proof (cases r1)
      case None
      then show ?thesis using less.prems False r
        by (auto simp: write_chunk.simps [of "counted 25 bw" depth counter u] counted_apply)
    next
      case (Some left)
      have len: "length left \<le> 25"
        using assms r Some less.prems(1) unfolding shrinking_def by (meson le_trans)
      have rec: "write_chunk (counted 25 bw) depth (counter + 1) left (w1, n + 1, True) = (r, (w', n', ok'))"
        using less.prems False r Some 
        by (auto simp: write_chunk.simps [of "counted 25 bw" depth counter u] counted_apply)
      have "ok' \<and> n' \<le> n + 1 + nat (depth + 1 - (counter + 1))"
        by (rule less.hyps [OF _ len _ rec]) (use False in simp_all)
      then show ?thesis using False by auto
    qed
  qed
qed

lemma write_chunks_calls:
  assumes "shrinking bw"
  shows "\<forall>c \<in> set cs. length c \<le> 25 \<Longrightarrow> ok \<Longrightarrow>
    write_chunks (counted 25 bw) depth cs (w, n, ok) = (r, (w', n', ok')) \<Longrightarrow>
    ok' \<and> n' \<le> n + length cs * nat (depth + 1)"
proof (induction cs arbitrary: w n ok r w' n' ok')
  case (Cons c cs)
  obtain r1 w1 n1 ok1 where 1: "write_chunk (counted 25 bw) depth 0 c (w, n, ok) = (r1, (w1, n1, ok1))"
    by (cases "write_chunk (counted 25 bw) depth 0 c (w, n, ok)") auto
  obtain r2 w2 n2 ok2 where 2: "write_chunks (counted 25 bw) depth cs (w1, n1, ok1) = (r2, (w2, n2, ok2))"
    by (cases "write_chunks (counted 25 bw) depth cs (w1, n1, ok1)") auto
  have s1: "ok1 \<and> n1 \<le> n + nat (depth + 1)"
    using write_chunk_calls [OF assms _ Cons.prems(2) 1] Cons.prems(1) by simp
  have "ok2 \<and> n2 \<le> n1 + length cs * nat (depth + 1)"
    using Cons.IH [OF _ _ 2] s1 Cons.prems(1) by simp
  moreover have "w' = w2" "n' = n2" "ok' = ok2"
    using Cons.prems(3) 1 2 by (auto split: prod.splits)
  ultimately show ?case using s1 by simp
qed simp

text \<open>C40: a batch write terminates after at most \<open>depth + 1\<close> requests per chunk of 25
  items, and never sends more than 25 items in one request, as long as the service
  does not report more unprocessed items than it was sent.
\<close>

theorem batch_write_bounded:
  assumes "shrinking bw"
    "RecursiveBatchWriteItem (counted 25 bw) reqs depth (w, 0, True) = (r, (w', calls, within))"
  shows "within \<and> calls \<le> length (chunk 25 reqs) * nat (depth + 1)"
  using write_chunks_calls [OF assms(1) _ _ assms(2) [unfolded RecursiveBatchWriteItem_def]]
    chunk_sizes by fastforce

theorem batch_write_bounded_witness:
  "shrinking (\<lambda>(w :: unit) (reqs :: nat list). (Some [], w)) \<and>
   (\<exists>r w' calls within.
      RecursiveBatchWriteItem (counted 25 (\<lambda>(w :: unit) (reqs :: nat list). (Some [], w))) [7, 8] 2
        ((), 0, True) = (r, (w', calls, within)) \<and> within \<and> calls \<le> 1 * 3)"
proof -
  let ?bw = "\<lambda>(w :: unit) (reqs :: nat list). (Some ([] :: nat list), w)"
  have s: "shrinking ?bw" by (simp add: shrinking_def)
  obtain r w' calls within where
    e: "RecursiveBatchWriteItem (counted 25 ?bw) [7, 8] 2 ((), 0, True) = (r, (w', calls, within))"
    by (cases "RecursiveBatchWriteItem (counted 25 ?bw) [7, 8] 2 ((), 0, True)") auto
  have "length (chunk 25 [7, 8 :: nat]) = 1"
    by (simp add: chunk.simps [of 25 "[7, 8]"] chunk.simps [of 25 "[]"])
  with batch_write_bounded [OF s e] s e show ?thesis by auto
qed

end
