(* ===== verification/PendingRepo.thy ===== *)
theory PendingRepo
  imports Repo DdbBatch
begin

text \<open>
  The buffered messages of temporarily disconnected sessions
  (\<open>core/repository/pending_message.go\<close>), in Postgres and in DynamoDB.  The locale
  \<open>pending_store\<close> is the contract the message hub relies on; both implementations
  are shown to satisfy it.
\<close>

subsection \<open>Rows\<close>

record PendingMessage =
  pmSessionKey :: gostring
  pmSendAt :: int
  pmMessage :: bytes
  pmExpiresAt :: int

type_synonym pm_table = "PendingMessage list"

definition sessionKey :: "gostring \<Rightarrow> gostring \<Rightarrow> gostring" where
  "sessionKey userID instanceID = userID @ '':'' @ instanceID"

text \<open>The rows of a session in the order \<open>ORDER BY send_at ASC\<close>.\<close>

definition session_rows :: "gostring \<Rightarrow> gostring \<Rightarrow> pm_table \<Rightarrow> pm_table" where
  "session_rows u i t = sort_key pmSendAt (filter (\<lambda>r. pmSessionKey r = sessionKey u i) t)"

text \<open>The loop over the rows: collect messages, remember the last \<open>send_at\<close>.\<close>

definition collect_rows :: "pm_table \<Rightarrow> bytes list \<times> int" where
  "collect_rows rows = fold (\<lambda>r (msgs, maxSendAt). (msgs @ [pmMessage r], pmSendAt r)) rows ([], 0)"

subsection \<open>Postgres\<close>

definition PG_Create ::
    "int \<Rightarrow> int \<Rightarrow> db_fault \<Rightarrow> gostring \<Rightarrow> gostring \<Rightarrow> int \<Rightarrow> bytes \<Rightarrow> pm_table \<Rightarrow>
     (unit, ErrorCode) outcome \<times> pm_table" where
  "PG_Create pendingMsgTTL now fault userID instanceID sendAt message t =
     (let expiresAt = now + pendingMsgTTL;
          row = \<lparr>pmSessionKey = sessionKey userID instanceID, pmSendAt = sendAt,
                 pmMessage = message, pmExpiresAt = expiresAt\<rparr>
      in pg_exec fault (\<lambda>t.
           if \<exists>r \<in> set t. pmSessionKey r = pmSessionKey row \<and> pmSendAt r = pmSendAt row
           then t else t @ [row]) t)"

definition PG_GetAll ::
    "db_fault \<Rightarrow> gostring \<Rightarrow> gostring \<Rightarrow> pm_table \<Rightarrow> (bytes list \<times> int, ErrorCode) outcome" where
  "PG_GetAll fault userID instanceID t =
     obind (pg_rows True fault (session_rows userID instanceID t)) (\<lambda>rows. Ok (collect_rows rows))"

definition PG_DeleteUpTo ::
    "db_fault \<Rightarrow> gostring \<Rightarrow> gostring \<Rightarrow> int \<Rightarrow> pm_table \<Rightarrow> (unit, ErrorCode) outcome \<times> pm_table" where
  "PG_DeleteUpTo fault userID instanceID maxSendAt t =
     pg_exec fault (filter (\<lambda>r. \<not> (pmSessionKey r = sessionKey userID instanceID \<and> pmSendAt r \<le> maxSendAt))) t"

definition PG_DeleteAll ::
    "db_fault \<Rightarrow> gostring \<Rightarrow> gostring \<Rightarrow> pm_table \<Rightarrow> (unit, ErrorCode) outcome \<times> pm_table" where
  "PG_DeleteAll fault userID instanceID t =
     pg_exec fault (filter (\<lambda>r. pmSessionKey r \<noteq> sessionKey userID instanceID)) t"

definition PG_CleanUp :: "int \<Rightarrow> db_fault \<Rightarrow> pm_table \<Rightarrow> (unit, ErrorCode) outcome \<times> pm_table" where
  "PG_CleanUp now fault t = pg_exec fault (filter (\<lambda>r. \<not> pmExpiresAt r < now)) t"

subsection \<open>DynamoDB\<close>

text \<open>
  The table and the behaviour of the coming \<open>BatchWriteItem\<close> calls: \<open>None\<close> fails,
  \<open>Some n\<close> processes the first \<open>n\<close> requests, and once the script is empty all calls
  succeed.  Only delete requests, given by their key, are sent in batches.
\<close>

type_synonym pm_key = "gostring \<times> int"
type_synonym ddb_world = "pm_table \<times> nat option list"

definition pm_key_of :: "PendingMessage \<Rightarrow> pm_key" where
  "pm_key_of r = (pmSessionKey r, pmSendAt r)"

definition ddb_delete :: "pm_key list \<Rightarrow> pm_table \<Rightarrow> pm_table" where
  "ddb_delete ks t = filter (\<lambda>r. pm_key_of r \<notin> set ks) t"

definition ddb_client :: "(pm_key, ddb_world) batch_client" where
  "ddb_client = (\<lambda>(t, script) reqs. case script of
       [] \<Rightarrow> (Some [], (ddb_delete reqs t, []))
     | None # s \<Rightarrow> (None, (t, s))
     | Some n # s \<Rightarrow> (Some (drop n reqs), (ddb_delete (take n reqs) t, s)))"

text \<open>\<open>PutItem\<close> replaces the item with the same primary key.\<close>

definition DDB_Create ::
    "int \<Rightarrow> int \<Rightarrow> bool \<Rightarrow> gostring \<Rightarrow> gostring \<Rightarrow> int \<Rightarrow> bytes \<Rightarrow> ddb_world \<Rightarrow>
     (unit, ErrorCode) outcome \<times> ddb_world" where
  "DDB_Create pendingMsgTTL now putFails userID instanceID sendAt message w =
     (let item = \<lparr>pmSessionKey = sessionKey userID instanceID, pmSendAt = sendAt,
                  pmMessage = message, pmExpiresAt = (now + pendingMsgTTL) div 1000000\<rparr>
      in if putFails then (Err ErrUnexpectedDynamoDB, w)
         else (Ok (), (filter (\<lambda>r. pm_key_of r \<noteq> pm_key_of item) (fst w) @ [item], snd w)))"

text \<open>\<open>queryFails\<close>: a page of the query, or decoding an item of it, fails.\<close>

definition DDB_GetAll ::
    "bool \<Rightarrow> gostring \<Rightarrow> gostring \<Rightarrow> ddb_world \<Rightarrow> (bytes list \<times> int, ErrorCode) outcome" where
  "DDB_GetAll queryFails userID instanceID w =
     (if queryFails then Err ErrUnexpectedDynamoDB
      else Ok (collect_rows (session_rows userID instanceID (fst w))))"

definition ddb_delete_keys ::
    "bool \<Rightarrow> (PendingMessage \<Rightarrow> bool) \<Rightarrow> ddb_world \<Rightarrow> (unit, ErrorCode) outcome \<times> ddb_world" where
  "ddb_delete_keys queryFails cond w =
     (if queryFails then (Err ErrUnexpectedDynamoDB, w)
      else let keys = map pm_key_of (filter cond (fst w)) in
        if length keys = 0 then (Ok (), w)
        else case RecursiveBatchWriteItem ddb_client keys 2 w of
               ((unprocessedItems, failed), w) \<Rightarrow>
                 if failed then (Err ErrUnexpectedDynamoDB, w)
                 else if length unprocessedItems > 0 then (Err ErrUnexpectedDynamoDB, w)
                 else (Ok (), w))"

definition DDB_DeleteUpTo ::
    "bool \<Rightarrow> gostring \<Rightarrow> gostring \<Rightarrow> int \<Rightarrow> ddb_world \<Rightarrow> (unit, ErrorCode) outcome \<times> ddb_world" where
  "DDB_DeleteUpTo queryFails userID instanceID maxSendAt =
     ddb_delete_keys queryFails
       (\<lambda>r. pmSessionKey r = sessionKey userID instanceID \<and> pmSendAt r \<le> maxSendAt)"

definition DDB_DeleteAll ::
    "bool \<Rightarrow> gostring \<Rightarrow> gostring \<Rightarrow> ddb_world \<Rightarrow> (unit, ErrorCode) outcome \<times> ddb_world" where
  "DDB_DeleteAll queryFails userID instanceID =
     ddb_delete_keys queryFails (\<lambda>r. pmSessionKey r = sessionKey userID instanceID)"

definition DDB_CleanUp :: "int \<Rightarrow> bool \<Rightarrow> ddb_world \<Rightarrow> (unit, ErrorCode) outcome \<times> ddb_world" where
  "DDB_CleanUp now scanFails = ddb_delete_keys scanFails (\<lambda>r. pmExpiresAt r < now div 1000000)"

subsection \<open>Invariant and abstraction\<close>

text \<open>The primary key is unique; the abstraction is the set of stored messages.\<close>

definition pm_inv :: "pm_table \<Rightarrow> bool" where
  "pm_inv t \<longleftrightarrow> distinct (map pm_key_of t)"

definition pm_entry :: "PendingMessage \<Rightarrow> gostring \<times> int \<times> bytes" where
  "pm_entry r = (pmSessionKey r, pmSendAt r, pmMessage r)"

definition pm_rows :: "pm_table \<Rightarrow> (gostring \<times> int \<times> bytes) set" where
  "pm_rows t = pm_entry ` set t"

lemma pm_inv_filter: "pm_inv t \<Longrightarrow> pm_inv (filter P t)"
  unfolding pm_inv_def by (rule distinct_map_filter)

lemma pm_rows_filter:
  "pm_rows (filter (\<lambda>r. Q (pm_entry r)) t) = {e \<in> pm_rows t. Q e}"
  by (auto simp: pm_rows_def)

lemma pm_rowsI: "x \<in> set t \<Longrightarrow> pm_entry x = (k, s, m) \<Longrightarrow> (k, s, m) \<in> pm_rows t"
  unfolding pm_rows_def by (metis imageI)

lemma pm_rowsE: "(k, s, m) \<in> pm_rows t \<Longrightarrow> (\<And>x. x \<in> set t \<Longrightarrow> pm_entry x = (k, s, m) \<Longrightarrow> P) \<Longrightarrow> P"
  unfolding pm_rows_def by (erule imageE) metis

lemma collect_rows_eq:
  "collect_rows rows = (map pmMessage rows, if rows = [] then 0 else pmSendAt (last rows))"
  unfolding collect_rows_def by (induction rows rule: rev_induct) simp_all

text \<open>The rows of a session, strictly ordered by time when keys are unique.\<close>

definition timed :: "pm_table \<Rightarrow> (int \<times> bytes) list" where
  "timed rows = map (\<lambda>r. (pmSendAt r, pmMessage r)) rows"

lemma set_session_rows:
  "set (timed (session_rows u i t)) = {(s, m). (sessionKey u i, s, m) \<in> pm_rows t}"
  by (force simp: timed_def session_rows_def pm_rows_def pm_entry_def)

lemma sorted_session_rows:
  assumes "pm_inv t"
  shows "sorted_wrt (<) (map fst (timed (session_rows u i t)))"
proof -
  let ?s = "filter (\<lambda>r. pmSessionKey r = sessionKey u i) t"
  have "distinct (map pm_key_of ?s)" using assms pm_inv_filter unfolding pm_inv_def by blast
  then have "distinct (map (\<lambda>r. (sessionKey u i, pmSendAt r)) ?s)"
    by (simp add: pm_key_of_def distinct_map inj_on_def)
  then have "distinct (map pmSendAt ?s)"
    by (simp add: distinct_map inj_on_def)
  then have "distinct (map pmSendAt (sort_key pmSendAt ?s))"
    by (simp add: distinct_map)
  moreover have "sorted (map pmSendAt (sort_key pmSendAt ?s))" by simp
  ultimately show ?thesis
    by (simp add: strict_sorted_iff session_rows_def timed_def comp_def)
qed

lemma collect_timed:
  "collect_rows rows = (map snd (timed rows), if timed rows = [] then 0 else fst (last (timed rows)))"
  by (auto simp: collect_rows_eq timed_def last_map)

lemma collect_session:
  assumes "pm_inv t" "collect_rows (session_rows u i t) = (msgs, mx)"
  shows "\<exists>xs. msgs = map snd xs \<and> set xs = {(s, m). (sessionKey u i, s, m) \<in> pm_rows t} \<and>
    sorted_wrt (<) (map fst xs) \<and> (xs \<noteq> [] \<longrightarrow> mx = fst (last xs))"
proof (intro exI conjI)
  let ?xs = "timed (session_rows u i t)"
  show "msgs = map snd ?xs" "?xs \<noteq> [] \<longrightarrow> mx = fst (last ?xs)"
    using assms(2) unfolding collect_timed by auto
  show "set ?xs = {(s, m). (sessionKey u i, s, m) \<in> pm_rows t}" by (rule set_session_rows)
  show "sorted_wrt (<) (map fst ?xs)" using assms(1) by (rule sorted_session_rows)
qed

subsection \<open>The contract\<close>

text \<open>
  A store of pending messages, with environments that say how a call goes: a
  successful read returns the messages of the session in order of their send time
  and the last send time; a successful create of an unused send time adds exactly
  that message; a delete never removes a message of another session or with a later
  send time, and if it succeeds it removes all earlier ones.
\<close>

locale pending_store =
  fixes get_all :: "'e \<Rightarrow> gostring \<Rightarrow> gostring \<Rightarrow> 'db \<Rightarrow> (bytes list \<times> int, ErrorCode) outcome"
    and create :: "'e \<Rightarrow> gostring \<Rightarrow> gostring \<Rightarrow> int \<Rightarrow> bytes \<Rightarrow> 'db \<Rightarrow> (unit, ErrorCode) outcome \<times> 'db"
    and delete_up_to :: "'e \<Rightarrow> gostring \<Rightarrow> gostring \<Rightarrow> int \<Rightarrow> 'db \<Rightarrow> (unit, ErrorCode) outcome \<times> 'db"
    and rows :: "'db \<Rightarrow> (gostring \<times> int \<times> bytes) set"
    and invar :: "'db \<Rightarrow> bool"
  assumes get_all_Ok: "\<lbrakk>invar db; get_all e u i db = Ok (msgs, mx)\<rbrakk> \<Longrightarrow>
      \<exists>xs. msgs = map snd xs \<and> set xs = {(s, m). (sessionKey u i, s, m) \<in> rows db} \<and>
           sorted_wrt (<) (map fst xs) \<and> (xs \<noteq> [] \<longrightarrow> mx = fst (last xs))"
    and create_Ok: "\<lbrakk>invar db; create e u i s m db = (Ok (), db'); \<forall>m'. (sessionKey u i, s, m') \<notin> rows db\<rbrakk> \<Longrightarrow>
      rows db' = insert (sessionKey u i, s, m) (rows db)"
    and delete_keeps: "\<lbrakk>invar db; delete_up_to e u i mx db = (r, db')\<rbrakk> \<Longrightarrow>
      rows db' \<subseteq> rows db \<and>
      (\<forall>k s m. (k, s, m) \<in> rows db \<longrightarrow> k \<noteq> sessionKey u i \<or> s > mx \<longrightarrow> (k, s, m) \<in> rows db')"
    and delete_Ok: "\<lbrakk>invar db; delete_up_to e u i mx db = (Ok (), db'); (sessionKey u i, s, m) \<in> rows db'\<rbrakk> \<Longrightarrow> s > mx"
    and invar_create: "\<lbrakk>invar db; create e u i s m db = (r, db')\<rbrakk> \<Longrightarrow> invar db'"
    and invar_delete: "\<lbrakk>invar db; delete_up_to e u i mx db = (r, db')\<rbrakk> \<Longrightarrow> invar db'"
begin

lemma get_all_covers:
  "\<lbrakk>invar db; get_all e u i db = Ok (msgs, mx); (sessionKey u i, s, m) \<in> rows db\<rbrakk> \<Longrightarrow>
   m \<in> set msgs \<and> s \<le> mx"
proof -
  assume "invar db" "get_all e u i db = Ok (msgs, mx)" and m: "(sessionKey u i, s, m) \<in> rows db"
  then obtain xs where xs: "msgs = map snd xs" "set xs = {(s, m). (sessionKey u i, s, m) \<in> rows db}"
    "sorted_wrt (<) (map fst xs)" "xs \<noteq> [] \<longrightarrow> mx = fst (last xs)"
    using get_all_Ok by blast
  from xs(2) m have sm: "(s, m) \<in> set xs" by simp
  then obtain ys z where ys: "xs = ys @ [z]" by (cases xs rule: rev_cases) auto
  have "s \<le> fst z" using sm xs(3) unfolding ys by (auto simp: sorted_wrt_append)
  then show ?thesis using sm xs(1,4) ys by force
qed

text \<open>
  Nothing is lost between a read and the delete that follows it: what was stored
  before the read is in its result, and what is stored in between with a later send
  time survives.
\<close>

lemma read_delete_no_loss:
  assumes "invar db" "get_all e u i db = Ok (msgs, mx)" "invar db2"
    "delete_up_to e' u i mx db2 = (r, db3)"
  shows "(sessionKey u i, s, m) \<in> rows db \<Longrightarrow> m \<in> set msgs"
    and "(k, s, m) \<in> rows db2 \<Longrightarrow> k \<noteq> sessionKey u i \<or> s > mx \<Longrightarrow> (k, s, m) \<in> rows db3"
  using get_all_covers [OF assms(1,2)] delete_keeps [OF assms(3,4)] by blast+

end

subsection \<open>Postgres satisfies the contract\<close>

lemma pg_exec_cases:
  "pg_exec fault stmt t = (r, t') \<Longrightarrow> (r = Ok () \<and> t' = stmt t) \<or> (r = Err ErrUnexpectedDatabase \<and> t' = t)"
  by (auto simp: pg_exec_def split: if_splits)

lemma pg_delete_stmt:
  "filter (\<lambda>r. \<not> (pmSessionKey r = k \<and> pmSendAt r \<le> mx)) t =
   filter (\<lambda>r. case pm_entry r of (k', s, m) \<Rightarrow> \<not> (k' = k \<and> s \<le> mx)) t"
  by (simp add: pm_entry_def)

lemma PG_GetAll_Ok:
  assumes "PG_GetAll f u i t = Ok (msgs, mx)"
  shows "collect_rows (session_rows u i t) = (msgs, mx)"
  using assms by (auto simp: PG_GetAll_def obind_eq_Ok pg_rows_def split: db_fault.splits if_splits)

interpretation pg: pending_store PG_GetAll "PG_Create ttl now" PG_DeleteUpTo pm_rows pm_inv for ttl now
proof unfold_locales
  fix t e u i msgs mx
  assume "pm_inv t" "PG_GetAll e u i t = Ok (msgs, mx)"
  then show "\<exists>xs. msgs = map snd xs \<and> set xs = {(s, m). (sessionKey u i, s, m) \<in> pm_rows t} \<and>
      sorted_wrt (<) (map fst xs) \<and> (xs \<noteq> [] \<longrightarrow> mx = fst (last xs))"
    by (rule collect_session [OF _ PG_GetAll_Ok])
next
  fix t :: pm_table and e u i s m t'
  assume c: "PG_Create ttl now e u i s m t = (Ok (), t')"
    and fresh: "\<forall>m'. (sessionKey u i, s, m') \<notin> pm_rows t"
  have "\<not> (pmSessionKey x = sessionKey u i \<and> pmSendAt x = s)" if "x \<in> set t" for x
    using fresh pm_rowsI [OF that, of "sessionKey u i" s "pmMessage x"] by (auto simp: pm_entry_def)
  then have "t' = t @ [\<lparr>pmSessionKey = sessionKey u i, pmSendAt = s, pmMessage = m,
      pmExpiresAt = now + ttl\<rparr>]"
    using c by (auto simp: PG_Create_def Let_def dest!: pg_exec_cases split: if_splits)
  then show "pm_rows t' = insert (sessionKey u i, s, m) (pm_rows t)"
    by (simp add: pm_rows_def pm_entry_def)
next
  fix t :: pm_table and e u i mx r t'
  assume "PG_DeleteUpTo e u i mx t = (r, t')"
  then have "t' = t \<or> pm_rows t' = {x \<in> pm_rows t. case x of (k', s, m) \<Rightarrow> \<not> (k' = sessionKey u i \<and> s \<le> mx)}"
    unfolding PG_DeleteUpTo_def pg_delete_stmt by (auto simp: pm_rows_filter dest!: pg_exec_cases)
  then show "pm_rows t' \<subseteq> pm_rows t \<and> (\<forall>k s m. (k, s, m) \<in> pm_rows t \<longrightarrow>
      k \<noteq> sessionKey u i \<or> s > mx \<longrightarrow> (k, s, m) \<in> pm_rows t')"
  proof
    assume "pm_rows t' = {x \<in> pm_rows t. case x of (k', s, m) \<Rightarrow> \<not> (k' = sessionKey u i \<and> s \<le> mx)}"
    then have "x \<in> pm_rows t' \<longleftrightarrow> x \<in> pm_rows t \<and> \<not> (fst x = sessionKey u i \<and> fst (snd x) \<le> mx)" for x
      by (simp add: case_prod_beta)
    then show ?thesis by (simp add: subset_iff not_le)
  qed simp
next
  fix t :: pm_table and e u i mx t' s m
  assume "PG_DeleteUpTo e u i mx t = (Ok (), t')" "(sessionKey u i, s, m) \<in> pm_rows t'"
  then show "s > mx"
    unfolding PG_DeleteUpTo_def pg_delete_stmt by (auto simp: pm_rows_filter dest!: pg_exec_cases)
next
  fix t :: pm_table and e u i s m r t'
  assume "pm_inv t" "PG_Create ttl now e u i s m t = (r, t')"
  then consider "t' = t" | row where "t' = t @ [row]" "\<forall>r \<in> set t. pm_key_of r \<noteq> pm_key_of row"
    by (auto simp: PG_Create_def Let_def pm_key_of_def dest!: pg_exec_cases split: if_splits)
  then show "pm_inv t'"
    using \<open>pm_inv t\<close> by cases (force simp: pm_inv_def)+
next
  fix t :: pm_table and e u i mx r t'
  assume "pm_inv t" "PG_DeleteUpTo e u i mx t = (r, t')"
  then show "pm_inv t'"
    by (auto simp: PG_DeleteUpTo_def pm_inv_filter dest!: pg_exec_cases)
qed

subsection \<open>DynamoDB satisfies the contract\<close>

text \<open>A key is applied once its item is gone; the client keeps the batch contract.\<close>

definition ddb_gone :: "ddb_world \<Rightarrow> pm_key set" where
  "ddb_gone w = {k. k \<notin> pm_key_of ` set (fst w)}"

interpretation ddbw: batch_writer ddb_client ddb_gone
  by unfold_locales
    (auto simp: ddb_client_def ddb_gone_def ddb_delete_def dest: in_set_dropD
      split: list.splits option.splits prod.splits,
     metis UnE append_take_drop_id set_append)

lemma ddb_client_table:
  "ddb_client (t, s) reqs = (r, (t', s')) \<Longrightarrow> \<exists>ks. set ks \<subseteq> set reqs \<and> t' = ddb_delete ks t"
proof -
  assume a: "ddb_client (t, s) reqs = (r, (t', s'))"
  show ?thesis
  proof (cases s)
    case Nil
    then show ?thesis using a by (intro exI [of _ reqs]) (simp add: ddb_client_def)
  next
    case (Cons o' s2)
    show ?thesis
    proof (cases o')
      case None
      then show ?thesis using a Cons by (intro exI [of _ "[]"]) (simp add: ddb_client_def ddb_delete_def)
    next
      case (Some n)
      then show ?thesis using a Cons
        by (intro exI [of _ "take n reqs"]) (auto simp: ddb_client_def dest: in_set_takeD)
    qed
  qed
qed

lemma ddb_delete_twice: "ddb_delete ks (ddb_delete ks' t) = ddb_delete (ks @ ks') t"
  by (auto simp: ddb_delete_def filter_filter intro!: filter_cong)

lemma ddb_write_chunk_table:
  "write_chunk ddb_client depth counter u (t, s) = (r, (t', s')) \<Longrightarrow>
   \<exists>ks. set ks \<subseteq> set u \<and> t' = ddb_delete ks t"
proof (induction "nat (depth + 1 - counter)" arbitrary: counter u t s rule: less_induct)
  case less
  show ?case
  proof (cases "u = [] \<or> counter > depth")
    case True
    then show ?thesis using less.prems
      by (intro exI [of _ "[]"])
        (auto simp: write_chunk.simps [of ddb_client depth counter u] ddb_delete_def split: if_splits)
  next
    case False
    obtain r1 t1 s1 where r: "ddb_client (t, s) u = (r1, (t1, s1))" by (cases "ddb_client (t, s) u") auto
    obtain ks where ks: "set ks \<subseteq> set u" "t1 = ddb_delete ks t" using ddb_client_table [OF r] by blast
    show ?thesis
    proof (cases r1)
      case None
      then show ?thesis using less.prems False r ks
        by (auto simp: write_chunk.simps [of ddb_client depth counter u])
    next
      case (Some left)
      have rec: "write_chunk ddb_client depth (counter + 1) left (t1, s1) = (r, (t', s'))"
        using less.prems False r Some by (auto simp: write_chunk.simps [of ddb_client depth counter u])
      obtain ks' where ks': "set ks' \<subseteq> set left" "t' = ddb_delete ks' t1"
        using less.hyps [OF _ rec] False by auto
      have "set left \<subseteq> set u" using ddbw.unprocessed_subset r Some by blast
      then show ?thesis using ks ks' by (intro exI [of _ "ks' @ ks"]) (auto simp: ddb_delete_twice)
    qed
  qed
qed

lemma ddb_write_chunks_table:
  "write_chunks ddb_client depth cs (t, s) = (r, (t', s')) \<Longrightarrow>
   \<exists>ks. set ks \<subseteq> set (concat cs) \<and> t' = ddb_delete ks t"
proof (induction cs arbitrary: t s r)
  case Nil
  then show ?case by (intro exI [of _ "[]"]) (simp add: ddb_delete_def)
next
  case (Cons c cs)
  obtain u1 e1 t1 s1 where 1: "write_chunk ddb_client depth 0 c (t, s) = ((u1, e1), (t1, s1))"
    by (cases "write_chunk ddb_client depth 0 c (t, s)") auto
  obtain u2 e2 t2 s2 where 2: "write_chunks ddb_client depth cs (t1, s1) = ((u2, e2), (t2, s2))"
    by (cases "write_chunks ddb_client depth cs (t1, s1)") auto
  have "t' = t2" using Cons.prems 1 2 by auto
  moreover obtain ks where "set ks \<subseteq> set c" "t1 = ddb_delete ks t" using ddb_write_chunk_table [OF 1] by blast
  moreover obtain ks' where "set ks' \<subseteq> set (concat cs)" "t' = ddb_delete ks' t1"
    using Cons.IH [of t1 s1 "(u2, e2)"] 2 \<open>t' = t2\<close> Cons.prems 1 by auto
  ultimately show ?case by (intro exI [of _ "ks' @ ks"]) (auto simp: ddb_delete_twice)
qed

text \<open>What \<open>ddb_delete_keys\<close> does to the table, and what success means.\<close>

lemma ddb_delete_keys_table:
  assumes "ddb_delete_keys qf cond (t, s) = (r, (t', s'))"
  shows "\<exists>ks. set ks \<subseteq> pm_key_of ` {x \<in> set t. cond x} \<and> t' = ddb_delete ks t"
    and "r = Ok () \<Longrightarrow> \<forall>x \<in> set t. cond x \<longrightarrow> pm_key_of x \<notin> pm_key_of ` set t'"
proof -
  let ?keys = "map pm_key_of (filter cond t)"
  have triv: "\<exists>ks. set ks \<subseteq> pm_key_of ` {x \<in> set t. cond x} \<and> t = ddb_delete ks t"
    by (intro exI [of _ "[]"]) (simp add: ddb_delete_def)
  obtain left e t1 s1 where b: "RecursiveBatchWriteItem ddb_client ?keys 2 (t, s) = ((left, e), (t1, s1))"
    by (cases "RecursiveBatchWriteItem ddb_client ?keys 2 (t, s)") auto
  have t1: "\<exists>ks. set ks \<subseteq> pm_key_of ` {x \<in> set t. cond x} \<and> t1 = ddb_delete ks t"
    using ddb_write_chunks_table [OF b [unfolded RecursiveBatchWriteItem_def]] by (simp add: concat_chunk)
  have gone: "set ?keys - set left \<subseteq> ddb_gone (t1, s1)"
    using ddbw.batch_write_applied [OF b] by blast
  have cases: "t' = t \<or> t' = t1" "r = Ok () \<Longrightarrow> ?keys = [] \<and> t' = t \<or> left = [] \<and> t' = t1"
    using assms b by (auto simp: ddb_delete_keys_def Let_def split: if_splits)
  show "\<exists>ks. set ks \<subseteq> pm_key_of ` {x \<in> set t. cond x} \<and> t' = ddb_delete ks t"
    using cases(1) triv t1 by blast
  show "\<forall>x \<in> set t. cond x \<longrightarrow> pm_key_of x \<notin> pm_key_of ` set t'" if "r = Ok ()"
  proof (intro ballI impI)
    fix x assume "x \<in> set t" "cond x"
    then have k: "pm_key_of x \<in> set ?keys" by simp
    then have "?keys \<noteq> []" by (metis empty_iff empty_set)
    then have "left = []" "t' = t1" using cases(2) [OF that] by blast+
    then have "pm_key_of x \<in> ddb_gone (t1, s1)" using gone k by (metis Diff_empty empty_set subsetD)
    then show "pm_key_of x \<notin> pm_key_of ` set t'" using \<open>t' = t1\<close> by (simp add: ddb_gone_def)
  qed
qed

lemma pm_rows_ddb_delete:
  assumes "set ks \<subseteq> pm_key_of ` {x \<in> set t. cond x}" "t' = ddb_delete ks t" "pm_inv t" "x \<in> set t" "\<not> cond x"
  shows "x \<in> set t'"
proof -
  have "pm_key_of x \<notin> set ks"
  proof
    assume "pm_key_of x \<in> set ks"
    then obtain y where y: "y \<in> set t" "cond y" "pm_key_of y = pm_key_of x" using assms(1) by force
    then have "y = x" using assms(3,4) by (auto simp: pm_inv_def distinct_map inj_on_def)
    then show False using y assms(5) by simp
  qed
  then show ?thesis using assms(2,4) by (simp add: ddb_delete_def)
qed

lemma DDB_DeleteUpTo_keeps:
  assumes "pm_inv t" "DDB_DeleteUpTo qf u i mx (t, sc) = (r, (t', sc'))"
  shows "pm_rows t' \<subseteq> pm_rows t"
    and "(k, s, m) \<in> pm_rows t \<Longrightarrow> k \<noteq> sessionKey u i \<or> s > mx \<Longrightarrow> (k, s, m) \<in> pm_rows t'"
    and "r = Ok () \<Longrightarrow> (sessionKey u i, s, m) \<in> pm_rows t' \<Longrightarrow> s > mx"
    and "pm_inv t'"
proof -
  let ?c = "\<lambda>r. pmSessionKey r = sessionKey u i \<and> pmSendAt r \<le> mx"
  note d = ddb_delete_keys_table [OF assms(2) [unfolded DDB_DeleteUpTo_def]]
  obtain ks where ks: "set ks \<subseteq> pm_key_of ` {x \<in> set t. ?c x}" "t' = ddb_delete ks t"
    using d(1) by blast
  have sub: "set t' \<subseteq> set t" using ks(2) by (auto simp: ddb_delete_def)
  then show "pm_rows t' \<subseteq> pm_rows t" unfolding pm_rows_def by blast
  show "pm_inv t'" using assms(1) ks(2) by (simp add: ddb_delete_def pm_inv_filter)
  show "(k, s, m) \<in> pm_rows t'" if old: "(k, s, m) \<in> pm_rows t" and far: "k \<noteq> sessionKey u i \<or> s > mx"
  proof -
    from old obtain x where x: "x \<in> set t" "pm_entry x = (k, s, m)" by (rule pm_rowsE)
    then have "\<not> ?c x" using far by (auto simp: pm_entry_def)
    then have "x \<in> set t'" using pm_rows_ddb_delete [OF ks assms(1) x(1)] by blast
    then show ?thesis using x(2) by (rule pm_rowsI)
  qed
  show "s > mx" if ok: "r = Ok ()" and new: "(sessionKey u i, s, m) \<in> pm_rows t'"
  proof -
    from new obtain x where x: "x \<in> set t'" "pm_entry x = (sessionKey u i, s, m)" by (rule pm_rowsE)
    then have "\<not> ?c x" using d(2) [OF ok] sub by blast
    then show ?thesis using x(2) by (auto simp: pm_entry_def)
  qed
qed

interpretation ddb: pending_store DDB_GetAll "DDB_Create ttl now" DDB_DeleteUpTo
  "\<lambda>w. pm_rows (fst w)" "\<lambda>w. pm_inv (fst w)" for ttl now
proof unfold_locales
  fix w e u i msgs mx
  assume "pm_inv (fst w)" "DDB_GetAll e u i w = Ok (msgs, mx)"
  then show "\<exists>xs. msgs = map snd xs \<and> set xs = {(s, m). (sessionKey u i, s, m) \<in> pm_rows (fst w)} \<and>
      sorted_wrt (<) (map fst xs) \<and> (xs \<noteq> [] \<longrightarrow> mx = fst (last xs))"
    by (rule_tac collect_session) (simp_all add: DDB_GetAll_def split: if_splits)
next
  fix w :: ddb_world and e u i s m w'
  assume c: "DDB_Create ttl now e u i s m w = (Ok (), w')"
    and fresh: "\<forall>m'. (sessionKey u i, s, m') \<notin> pm_rows (fst w)"
  have "pm_key_of x \<noteq> (sessionKey u i, s)" if "x \<in> set (fst w)" for x
    using fresh pm_rowsI [OF that, of "sessionKey u i" s "pmMessage x"]
    by (auto simp: pm_entry_def pm_key_of_def)
  then have "filter (\<lambda>r. pm_key_of r \<noteq> (sessionKey u i, s)) (fst w) = fst w"
    by (simp add: filter_id_conv)
  then show "pm_rows (fst w') = insert (sessionKey u i, s, m) (pm_rows (fst w))"
    using c by (auto simp: DDB_Create_def Let_def pm_rows_def pm_entry_def pm_key_of_def split: if_splits)
next
  fix w :: ddb_world and e u i mx r w'
  assume "pm_inv (fst w)" "DDB_DeleteUpTo e u i mx w = (r, w')"
  then show "pm_rows (fst w') \<subseteq> pm_rows (fst w) \<and> (\<forall>k s m. (k, s, m) \<in> pm_rows (fst w) \<longrightarrow>
      k \<noteq> sessionKey u i \<or> s > mx \<longrightarrow> (k, s, m) \<in> pm_rows (fst w'))"
    using DDB_DeleteUpTo_keeps(1,2) [of "fst w" e u i mx "snd w" r "fst w'" "snd w'"] by simp
next
  fix w :: ddb_world and e u i mx w' s m
  assume "pm_inv (fst w)" "DDB_DeleteUpTo e u i mx w = (Ok (), w')"
    "(sessionKey u i, s, m) \<in> pm_rows (fst w')"
  then show "s > mx"
    using DDB_DeleteUpTo_keeps(3) [of "fst w" e u i mx "snd w" "Ok ()" "fst w'" "snd w'"] by simp
next
  fix w :: ddb_world and e u i s m r w'
  assume "pm_inv (fst w)" "DDB_Create ttl now e u i s m w = (r, w')"
  then show "pm_inv (fst w')"
    by (auto simp: DDB_Create_def Let_def pm_inv_def distinct_map_filter split: if_splits)
next
  fix w w' :: ddb_world and e u i mx r
  assume inv: "pm_inv (fst w)" and del: "DDB_DeleteUpTo e u i mx w = (r, w')"
  have "DDB_DeleteUpTo e u i mx (fst w, snd w) = (r, (fst w', snd w'))" using del by simp
  then show "pm_inv (fst w')" by (rule DDB_DeleteUpTo_keeps(4) [OF inv])
qed

subsection \<open>Properties\<close>

text \<open>session keys are ambiguous: a message buffered for session \<open>i\<close> of user
  \<open>u:v\<close> is returned when session \<open>v:i\<close> of user \<open>u\<close> reads its messages.
\<close>

theorem pending_key_collision:
  "PG_GetAll DbOk u (v @ '':'' @ i) (snd (PG_Create ttl now DbOk (u @ '':'' @ v) i s m [])) = Ok ([m], s)"
  by (simp add: PG_GetAll_def PG_Create_def pg_exec_def pg_rows_def session_rows_def sessionKey_def
      collect_rows_eq Let_def)

text \<open>two messages saved for one session with the same send time: both Postgres
  calls succeed, but only the first message is stored.
\<close>

theorem pending_conflict_lost:
  "let (r1, t1) = PG_Create ttl now DbOk u i s m1 [];
       (r2, t2) = PG_Create ttl now DbOk u i s m2 t1
   in r1 = Ok () \<and> r2 = Ok () \<and> PG_GetAll DbOk u i t2 = Ok ([m1], s)"
  by (simp add: PG_GetAll_def PG_Create_def pg_exec_def pg_rows_def session_rows_def sessionKey_def
      collect_rows_eq Let_def)

end
