(* ===== verification/WorkerPool.thy ===== *)
theory WorkerPool
  imports Prelude
begin

text \<open>
  The bounded worker pool (\<open>pkg/worker-pool/1_worker_pool.go\<close>) and its sizing
  (\<open>provider/worker-pool-provider\<close>).  Submission, the worker loop and closing are the
  steps of concurrent goroutines that share the task channel and the lock \<open>closeMu\<close>.
\<close>

subsection \<open>State and operations\<close>

text \<open>
  \<open>wpQueue\<close> and \<open>wpChanClosed\<close> are the task channel.  \<open>wpAccepted\<close> and \<open>wpStarted\<close> record the
  history: the tasks that were sent to the channel, and the tasks that workers began.
\<close>

record 'task pool =
  wpWorkers :: nat
  wpCap :: nat
  wpQueue :: "'task list"
  wpChanClosed :: bool
  wpDropped :: nat
  wpClosed :: bool
  wpDone :: bool
  wpRunning :: "'task list"
  wpExited :: nat
  wpAccepted :: "'task list"
  wpStarted :: "'task list"

definition NewPool :: "nat \<Rightarrow> nat \<Rightarrow> 'task pool" where
  "NewPool workers buffer = \<lparr>wpWorkers = workers, wpCap = buffer, wpQueue = [], wpChanClosed = False, wpDropped = 0,
     wpClosed = False, wpDone = False, wpRunning = [], wpExited = 0, wpAccepted = [], wpStarted = []\<rparr>"

text \<open>
  The send of the select: it panics on a closed channel, succeeds if the buffer has room or,
  with an empty buffer, if a worker is \<open>waiting\<close> in its receive, and is skipped otherwise.
\<close>

definition chan_send :: "bool \<Rightarrow> 'task \<Rightarrow> 'task pool \<Rightarrow> (bool \<times> 'task pool, unit) outcome" where
  "chan_send waiting task p =
     (if wpChanClosed p then Panic
      else if length (wpQueue p) < wpCap p then
        Ok (True, p\<lparr>wpQueue := wpQueue p @ [task], wpAccepted := wpAccepted p @ [task]\<rparr>)
      else if waiting \<and> wpQueue p = [] \<and> length (wpRunning p) + wpExited p < wpWorkers p then
        Ok (True, p\<lparr>wpRunning := task # wpRunning p, wpAccepted := wpAccepted p @ [task], wpStarted := wpStarted p @ [task]\<rparr>)
      else Ok (False, p\<lparr>wpDropped := wpDropped p + 1\<rparr>))"

definition Submit :: "bool \<Rightarrow> 'task \<Rightarrow> 'task pool \<Rightarrow> (bool \<times> 'task pool, unit) outcome" where
  "Submit waiting task p =
     (if wpClosed p then Ok (False, p\<lparr>wpDropped := wpDropped p + 1\<rparr>) else chan_send waiting task p)"

text \<open>The two parts of \<open>Close\<close> before it waits for the workers; closing a channel twice panics.\<close>

definition close_done :: "'task pool \<Rightarrow> ('task pool, unit) outcome" where
  "close_done p = (if wpDone p then Panic else Ok (p\<lparr>wpDone := True\<rparr>))"

definition close_queue :: "'task pool \<Rightarrow> ('task pool, unit) outcome" where
  "close_queue p =
     (let p = p\<lparr>wpClosed := True\<rparr> in if wpChanClosed p then Panic else Ok (p\<lparr>wpChanClosed := True\<rparr>))"

definition Pool_Close :: "'task pool \<Rightarrow> ('task pool, unit) outcome" where
  "Pool_Close p = obind (close_done p) close_queue"

text \<open>
  One iteration of a worker's loop: receive a task, finish it (a panic of the task is
  recovered and passed to the handler), or leave the loop once the channel is closed
  and drained.
\<close>

definition worker_take :: "'task pool \<Rightarrow> ('task \<times> 'task pool) option" where
  "worker_take p =
     (case wpQueue p of
        [] \<Rightarrow> None
      | task # rest \<Rightarrow>
          if length (wpRunning p) + wpExited p < wpWorkers p
          then Some (task, p\<lparr>wpQueue := rest, wpRunning := task # wpRunning p,
                 wpStarted := wpStarted p @ [task]\<rparr>)
          else None)"

definition worker_finish :: "'task \<Rightarrow> 'task pool \<Rightarrow> 'task pool" where
  "worker_finish task p = p\<lparr>wpRunning := remove1 task (wpRunning p)\<rparr>"

definition worker_exit :: "'task pool \<Rightarrow> 'task pool option" where
  "worker_exit p =
     (if wpChanClosed p \<and> wpQueue p = [] \<and> length (wpRunning p) + wpExited p < wpWorkers p
      then Some (p\<lparr>wpExited := wpExited p + 1\<rparr>) else None)"

record WorkerPoolStat =
  QueueLength :: nat
  QueueCapacity :: nat
  DroppedTasks :: nat

definition Pool_Stat :: "'task pool \<Rightarrow> WorkerPoolStat" where
  "Pool_Stat p = \<lparr>QueueLength = length (wpQueue p), QueueCapacity = wpCap p, DroppedTasks = wpDropped p\<rparr>"

subsection \<open>Concurrent callers\<close>

text \<open>
  \<open>psEntered\<close> and \<open>psSending\<close> are the submissions that hold the read lock: those before and
  those after the check of \<open>closed\<close>.  \<open>psClose\<close> is where the one call of \<open>Close\<close> is; it holds
  the write lock in \<open>CloseLocked\<close> and \<open>CloseFlagged\<close>.  \<open>None\<close> is a panicked process.
\<close>

datatype close_phase = CloseIdle | CloseDone | CloseLocked | CloseFlagged | CloseWaiting | CloseReturned

record 'task pool_sys =
  psPool :: "'task pool"
  psEntered :: "'task list"
  psSending :: "'task list"
  psClose :: close_phase

inductive pool_step :: "'task pool_sys option \<Rightarrow> 'task pool_sys option \<Rightarrow> bool" where
  enter: "psClose s \<notin> {CloseLocked, CloseFlagged} \<Longrightarrow> pool_step (Some s) (Some (s\<lparr>psEntered := t # psEntered s\<rparr>))"
| refused: "\<lbrakk>t \<in> set (psEntered s); wpClosed (psPool s); Submit w t (psPool s) = Ok (False, p)\<rbrakk> \<Longrightarrow>
    pool_step (Some s) (Some (s\<lparr>psEntered := remove1 t (psEntered s), psPool := p\<rparr>))"
| checked: "\<lbrakk>t \<in> set (psEntered s); \<not> wpClosed (psPool s)\<rbrakk> \<Longrightarrow>
    pool_step (Some s) (Some (s\<lparr>psEntered := remove1 t (psEntered s), psSending := t # psSending s\<rparr>))"
| send: "\<lbrakk>t \<in> set (psSending s); chan_send w t (psPool s) = Ok (b, p)\<rbrakk> \<Longrightarrow>
    pool_step (Some s) (Some (s\<lparr>psSending := remove1 t (psSending s), psPool := p\<rparr>))"
| send_panic: "\<lbrakk>t \<in> set (psSending s); chan_send w t (psPool s) = Panic\<rbrakk> \<Longrightarrow> pool_step (Some s) None"
| take_task: "worker_take (psPool s) = Some (t, p) \<Longrightarrow> pool_step (Some s) (Some (s\<lparr>psPool := p\<rparr>))"
| finish: "t \<in> set (wpRunning (psPool s)) \<Longrightarrow> pool_step (Some s) (Some (s\<lparr>psPool := worker_finish t (psPool s)\<rparr>))"
| exit: "worker_exit (psPool s) = Some p \<Longrightarrow> pool_step (Some s) (Some (s\<lparr>psPool := p\<rparr>))"
| close_begin: "\<lbrakk>psClose s = CloseIdle; close_done (psPool s) = Ok p\<rbrakk> \<Longrightarrow>
    pool_step (Some s) (Some (s\<lparr>psPool := p, psClose := CloseDone\<rparr>))"
| close_begin_panic: "\<lbrakk>psClose s = CloseIdle; close_done (psPool s) = Panic\<rbrakk> \<Longrightarrow> pool_step (Some s) None"
| close_lock: "\<lbrakk>psClose s = CloseDone; psEntered s = []; psSending s = []\<rbrakk> \<Longrightarrow>
    pool_step (Some s) (Some (s\<lparr>psClose := CloseLocked\<rparr>))"
| close_flag: "psClose s = CloseLocked \<Longrightarrow>
    pool_step (Some s) (Some (s\<lparr>psPool := (psPool s)\<lparr>wpClosed := True\<rparr>, psClose := CloseFlagged\<rparr>))"
| close_chan: "\<lbrakk>psClose s = CloseFlagged; close_queue (psPool s) = Ok p\<rbrakk> \<Longrightarrow>
    pool_step (Some s) (Some (s\<lparr>psPool := p, psClose := CloseWaiting\<rparr>))"
| close_chan_panic: "\<lbrakk>psClose s = CloseFlagged; close_queue (psPool s) = Panic\<rbrakk> \<Longrightarrow> pool_step (Some s) None"
| close_return: "\<lbrakk>psClose s = CloseWaiting; wpExited (psPool s) = wpWorkers (psPool s)\<rbrakk> \<Longrightarrow>
    pool_step (Some s) (Some (s\<lparr>psClose := CloseReturned\<rparr>))"

inductive_cases pool_stepE: "pool_step s t"

definition pool_init :: "'task pool_sys option \<Rightarrow> bool" where
  "pool_init s \<longleftrightarrow> (\<exists>workers buffer. 0 < workers \<and>
     s = Some \<lparr>psPool = NewPool workers buffer, psEntered = [], psSending = [], psClose = CloseIdle\<rparr>)"

subsection \<open>Queue monitor\<close>

text \<open>
  One tick of \<open>monitorQueue\<close>: whether each threshold action runs, and the new flags.
\<close>

definition monitor_tick ::
    "int \<Rightarrow> int \<Rightarrow> nat \<Rightarrow> bool \<times> bool \<Rightarrow> (bool \<times> bool) \<times> (bool \<times> bool)" where
  "monitor_tick upper lower queueLen flags =
     (case flags of (wasAboveUpper, wasBelowLower) \<Rightarrow>
        let isAboveUpper = int queueLen > upper;
            fireUpper = isAboveUpper \<and> \<not> wasAboveUpper;
            isBelowLower = int queueLen < lower;
            fireLower = isBelowLower \<and> \<not> wasBelowLower
        in ((fireUpper, fireLower), (isAboveUpper, isBelowLower)))"

primrec monitor_run :: "int \<Rightarrow> int \<Rightarrow> nat list \<Rightarrow> bool \<times> bool \<Rightarrow> (bool \<times> bool) list" where
  "monitor_run upper lower [] flags = []"
| "monitor_run upper lower (n # ns) flags =
     (case monitor_tick upper lower n flags of (fires, flags) \<Rightarrow> fires # monitor_run upper lower ns flags)"

text \<open>
  The health flag driven by the threshold actions: unhealthy above the upper
  threshold, healthy again below the lower one.
\<close>

primrec health_after :: "bool \<Rightarrow> (bool \<times> bool) list \<Rightarrow> bool" where
  "health_after h [] = h"
| "health_after h (f # fs) =
     health_after (let h = (if fst f then False else h) in if snd f then True else h) fs"

definition minWorkers :: int where "minWorkers = 8"

definition resolveWorkers :: "int \<Rightarrow> int \<Rightarrow> int" where
  "resolveWorkers gomaxprocs configured =
     (if configured > 0 then configured
      else if gomaxprocs > minWorkers then gomaxprocs
      else minWorkers)"

subsection \<open>Invariant\<close>

definition queue_inv :: "'task pool \<Rightarrow> bool" where
  "queue_inv p \<longleftrightarrow> length (wpQueue p) \<le> wpCap p \<and> length (wpRunning p) + wpExited p \<le> wpWorkers p \<and>
     wpAccepted p = wpStarted p @ wpQueue p \<and> 0 < wpWorkers p \<and> (0 < wpExited p \<longrightarrow> wpChanClosed p \<and> wpQueue p = [])"

definition lock_inv :: "'task pool_sys \<Rightarrow> bool" where
  "lock_inv s \<longleftrightarrow> (psClose s \<in> {CloseLocked, CloseFlagged} \<longrightarrow> psEntered s = []) \<and>
     (psSending s \<noteq> [] \<longrightarrow> psClose s \<in> {CloseIdle, CloseDone}) \<and>
     (wpDone (psPool s) \<longleftrightarrow> psClose s \<noteq> CloseIdle) \<and>
     (wpClosed (psPool s) \<longleftrightarrow> psClose s \<in> {CloseFlagged, CloseWaiting, CloseReturned}) \<and>
     (wpChanClosed (psPool s) \<longleftrightarrow> psClose s \<in> {CloseWaiting, CloseReturned}) \<and>
     (psClose s = CloseReturned \<longrightarrow> wpExited (psPool s) = wpWorkers (psPool s))"

definition pool_inv :: "'task pool_sys option \<Rightarrow> bool" where
  "pool_inv s \<longleftrightarrow> (case s of None \<Rightarrow> False | Some s \<Rightarrow> queue_inv (psPool s) \<and> lock_inv s)"

lemma queue_inv_send: "\<lbrakk>queue_inv p; chan_send w t p = Ok (b, p')\<rbrakk> \<Longrightarrow> queue_inv p'"
  by (auto simp: queue_inv_def chan_send_def split: if_splits)

lemma queue_inv_worker:
  "\<lbrakk>queue_inv p; worker_take p = Some (t, p')\<rbrakk> \<Longrightarrow> queue_inv p'"
  "queue_inv p \<Longrightarrow> queue_inv (worker_finish t p)"
  "\<lbrakk>queue_inv p; worker_exit p = Some p'\<rbrakk> \<Longrightarrow> queue_inv p'"
  by (auto simp: queue_inv_def worker_take_def worker_finish_def worker_exit_def length_remove1
      split: if_splits list.splits)

lemma worker_locks:
  "worker_take p = Some (t, p') \<Longrightarrow> wpDone p' = wpDone p \<and> wpClosed p' = wpClosed p \<and> wpChanClosed p' = wpChanClosed p \<and>
     wpExited p' = wpExited p \<and> wpWorkers p' = wpWorkers p"
  "chan_send w t p = Ok (b, p') \<Longrightarrow> wpDone p' = wpDone p \<and> wpClosed p' = wpClosed p \<and> wpChanClosed p' = wpChanClosed p \<and>
     wpExited p' = wpExited p \<and> wpWorkers p' = wpWorkers p"
  "worker_exit p = Some p' \<Longrightarrow> wpDone p' = wpDone p \<and> wpClosed p' = wpClosed p \<and> wpChanClosed p' = wpChanClosed p \<and>
     wpExited p < wpWorkers p"
  by (auto simp: worker_take_def chan_send_def worker_exit_def split: if_splits list.splits)

lemma pool_inv_step: "pool_step s s' \<Longrightarrow> pool_inv s \<Longrightarrow> pool_inv s'"
proof (induction rule: pool_step.induct)
  case (send t s w b p)
  then show ?case using worker_locks(2) [OF send(2)] queue_inv_send [OF _ send(2)]
    by (auto simp: pool_inv_def lock_inv_def)
next
  case (take_task s t p)
  then show ?case using worker_locks(1) [OF take_task(1)] queue_inv_worker(1) [OF _ take_task(1)]
    by (auto simp: pool_inv_def lock_inv_def)
next
  case (finish t s)
  then show ?case using queue_inv_worker(2) [of "psPool s" t] by (simp add: pool_inv_def lock_inv_def worker_finish_def)
next
  case (exit s p)
  then show ?case using worker_locks(3) [OF exit(1)] queue_inv_worker(3) [OF _ exit(1)]
    by (auto simp: pool_inv_def lock_inv_def)
next
  case (checked t s)
  then show ?case by (cases "psClose s") (auto simp: pool_inv_def lock_inv_def)
next
  case (refused t s w p)
  then have p: "p = (psPool s)\<lparr>wpDropped := wpDropped (psPool s) + 1\<rparr>" by (simp add: Submit_def)
  from refused have "psEntered s \<noteq> []" by auto
  with refused show ?case unfolding p by (cases "psClose s") (auto simp: pool_inv_def lock_inv_def queue_inv_def)
next
  case (send_panic t s w)
  then show ?case by (auto simp: pool_inv_def lock_inv_def chan_send_def split: if_splits)
qed (auto simp: pool_inv_def lock_inv_def queue_inv_def close_done_def close_queue_def Let_def split: if_splits)

interpretation wp: step_invariant pool_init pool_step pool_inv
proof unfold_locales
  show "pool_init s \<Longrightarrow> pool_inv s" for s :: "'a pool_sys option"
    by (auto simp: pool_init_def NewPool_def pool_inv_def queue_inv_def lock_inv_def)
qed (erule pool_inv_step)

subsection \<open>Properties\<close>



text \<open>a task submitted to a closed pool is refused without touching the queue.
\<close>

theorem submit_after_close:
  "wpClosed p \<Longrightarrow> Submit w t p = Ok (False, p\<lparr>wpDropped := wpDropped p + 1\<rparr>)"
  by (simp add: Submit_def)

theorem submit_after_close_witness:
  "Submit True 3 ((NewPool 1 1 :: nat pool)\<lparr>wpClosed := True\<rparr>) =
     Ok (False, (NewPool 1 1)\<lparr>wpClosed := True, wpDropped := 1\<rparr>)"
  using submit_after_close [of "(NewPool 1 1 :: nat pool)\<lparr>wpClosed := True\<rparr>" True 3] by (simp add: NewPool_def)

lemma monitor_hysteresis_flags:
  assumes "lower \<le> upper"
  shows "\<lbrakk>a \<longrightarrow> \<not> h; b \<longrightarrow> h\<rbrakk> \<Longrightarrow>
    health_after h (monitor_run upper lower ns (a, b)) =
    fold (\<lambda>n h. if int n > upper then False else if int n < lower then True else h) ns h"
  by (induction ns arbitrary: a b h) (use assms in \<open>auto simp: monitor_tick_def Let_def\<close>)

text \<open>although each threshold action runs only when the queue length crosses into its
  side, the health flag it drives follows the hysteresis exactly: unhealthy as soon as
  the length exceeds the upper threshold, healthy again once it is below the lower
  one, unchanged in between.
\<close>

theorem monitor_hysteresis:
  "lower \<le> upper \<Longrightarrow>
   health_after True (monitor_run upper lower ns (False, False)) =
   fold (\<lambda>n h. if int n > upper then False else if int n < lower then True else h) ns True"
  by (rule monitor_hysteresis_flags) simp_all

theorem monitor_hysteresis_witness:
  "(2 :: int) \<le> 5 \<and> health_after True (monitor_run 5 2 [3, 9, 8, 4, 1, 3] (False, False)) = True \<and>
   health_after True (monitor_run 5 2 [3, 9, 8, 4] (False, False)) = False"
  using monitor_hysteresis [of 2 5 "[3, 9, 8, 4, 1, 3]"] monitor_hysteresis [of 2 5 "[3, 9, 8, 4]"]
  by (simp del: monitor_run.simps)

end
