(* ===== verification/MsgHub.thy ===== *)
theory MsgHub
  imports PendingRepo
begin

text \<open>
  The message hub (\<open>msg-hub/service.go\<close>): the registry of temporarily disconnected
  sessions with their expiry timers, and the buffering of messages for them.  The
  repository is an argument of the functions that use it.
\<close>

subsection \<open>Registry\<close>

text \<open>
  An entry carries the cancel function of its context and its generation; the context
  of generation \<open>g\<close> is named \<open>g\<close>.  \<open>mhTimers\<close> are the expiry tasks the worker pool
  accepted and that still wait.  The generation counter is a \<open>uint64\<close> that is
  incremented per registration and is modelled without wrap-around.
\<close>

record hub_entry =
  heCancel :: nat
  heGen :: nat

record msgHub =
  mhRegistry :: "hub_entry nmap"
  mhGenSeq :: nat
  mhCancelled :: "nat list"
  mhTimers :: "(nat \<times> gostring \<times> gostring) list"

definition NewMsgHub :: msgHub where
  "NewMsgHub = \<lparr>mhRegistry = [], mhGenSeq = 0, mhCancelled = [], mhTimers = []\<rparr>"

text \<open>
  \<open>accepted\<close> is the result of \<open>wp.Submit\<close>, which the code ignores.  The code cancels the
  previous registration and stores the new one in two locked sections; they are one step here.
\<close>

definition registerWithTTL :: "bool \<Rightarrow> gostring \<Rightarrow> gostring \<Rightarrow> msgHub \<Rightarrow> msgHub" where
  "registerWithTTL accepted userID instanceID s =
     (let gen = mhGenSeq s + 1;
          cancelled = (case nm_get (mhRegistry s) userID instanceID of
                         Some prev \<Rightarrow> heCancel prev # mhCancelled s
                       | None \<Rightarrow> mhCancelled s)
      in s\<lparr>mhGenSeq := gen, mhCancelled := cancelled,
           mhRegistry := nm_put userID instanceID \<lparr>heCancel = gen, heGen = gen\<rparr> (mhRegistry s),
           mhTimers := (if accepted then mhTimers s @ [(gen, userID, instanceID)] else mhTimers s)\<rparr>)"

text \<open>
  The timer branch of the expiry task: the entry is removed only if it still has the
  task's generation, and then \<open>onExpired\<close> is called in any case.
\<close>

definition expire_timer :: "nat \<Rightarrow> gostring \<Rightarrow> gostring \<Rightarrow> msgHub \<Rightarrow> msgHub \<times> (gostring \<times> gostring)" where
  "expire_timer gen userID instanceID s =
     (let registry = (case nm_get (mhRegistry s) userID instanceID of
                        Some e \<Rightarrow> if heGen e = gen then nm_del userID instanceID (mhRegistry s) else mhRegistry s
                      | None \<Rightarrow> mhRegistry s)
      in (s\<lparr>mhRegistry := registry, mhTimers := remove1 (gen, userID, instanceID) (mhTimers s)\<rparr>,
          (userID, instanceID)))"

definition cancel_timer :: "nat \<Rightarrow> gostring \<Rightarrow> gostring \<Rightarrow> msgHub \<Rightarrow> msgHub" where
  "cancel_timer gen userID instanceID s =
     s\<lparr>mhTimers := remove1 (gen, userID, instanceID) (mhTimers s)\<rparr>"

definition Deregister :: "gostring \<Rightarrow> gostring \<Rightarrow> msgHub \<Rightarrow> msgHub" where
  "Deregister userID instanceID s =
     (let cancelled = (case nm_get (mhRegistry s) userID instanceID of
                         Some e \<Rightarrow> heCancel e # mhCancelled s
                       | None \<Rightarrow> mhCancelled s)
      in s\<lparr>mhCancelled := cancelled, mhRegistry := nm_del userID instanceID (mhRegistry s)\<rparr>)"

definition IsRegistered :: "msgHub \<Rightarrow> gostring \<Rightarrow> gostring \<Rightarrow> bool" where
  "IsRegistered s userID instanceID \<longleftrightarrow>
     (case gm_get (mhRegistry s) userID of
        Some m \<Rightarrow> gm_get m instanceID \<noteq> None
      | None \<Rightarrow> False)"

definition GetSessions :: "msgHub \<Rightarrow> gostring \<Rightarrow> gostring list" where
  "GetSessions s userID =
     (case gm_get (mhRegistry s) userID of
        Some m \<Rightarrow> gm_keys m
      | None \<Rightarrow> [])"

definition hub_sessions :: "msgHub \<Rightarrow> (gostring \<times> gostring \<times> hub_entry) list" where
  "hub_sessions s =
     concat (map (\<lambda>(userID, instances). map (\<lambda>(instanceID, e). (userID, instanceID, e)) instances)
       (mhRegistry s))"

text \<open>The code collects the timers under the lock of each user; they are one step here.\<close>

definition Hub_Shutdown :: "msgHub \<Rightarrow> msgHub" where
  "Hub_Shutdown s =
     (let sessions = hub_sessions s
      in s\<lparr>mhRegistry := [], mhCancelled := map (\<lambda>(_, _, e). heCancel e) sessions @ mhCancelled s\<rparr>)"

subsection \<open>Buffered messages\<close>

type_synonym ('e, 'db) create_fn =
  "'e \<Rightarrow> gostring \<Rightarrow> gostring \<Rightarrow> int \<Rightarrow> bytes \<Rightarrow> 'db \<Rightarrow> (unit, ErrorCode) outcome \<times> 'db"
type_synonym ('e, 'db) get_all_fn =
  "'e \<Rightarrow> gostring \<Rightarrow> gostring \<Rightarrow> 'db \<Rightarrow> (bytes list \<times> int, ErrorCode) outcome"
type_synonym ('e, 'db) delete_up_to_fn =
  "'e \<Rightarrow> gostring \<Rightarrow> gostring \<Rightarrow> int \<Rightarrow> 'db \<Rightarrow> (unit, ErrorCode) outcome \<times> 'db"
type_synonym ('e, 'db) delete_all_fn =
  "'e \<Rightarrow> gostring \<Rightarrow> gostring \<Rightarrow> 'db \<Rightarrow> (unit, ErrorCode) outcome \<times> 'db"

definition Hub_Save ::
    "('e, 'db) create_fn \<Rightarrow> 'e \<Rightarrow> int \<Rightarrow> gostring \<Rightarrow> gostring \<Rightarrow> bytes \<Rightarrow> 'db \<Rightarrow> (unit, ErrorCode) outcome \<times> 'db" where
  "Hub_Save create env now userID instanceID wrappedMsg db =
     create env userID instanceID now wrappedMsg db"

text \<open>
  \<open>between\<close> is what other containers do to the store between the read and the delete;
  a failed delete is only logged.
\<close>

definition Hub_Consume ::
    "('e, 'db) get_all_fn \<Rightarrow> ('e, 'db) delete_up_to_fn \<Rightarrow> 'e \<Rightarrow> 'e \<Rightarrow> ('db \<Rightarrow> 'db) \<Rightarrow>
     gostring \<Rightarrow> gostring \<Rightarrow> 'db \<Rightarrow> (bytes list, ErrorCode) outcome \<times> 'db" where
  "Hub_Consume getAll deleteUpTo env1 env2 between userID instanceID db =
     (case getAll env1 userID instanceID db of
        Err e \<Rightarrow> (Err e, between db)
      | Panic \<Rightarrow> (Panic, between db)
      | Ok (msgs, maxSendAt) \<Rightarrow>
          if length msgs = 0 then (Ok [], between db)
          else case deleteUpTo env2 userID instanceID maxSendAt (between db) of
                 (_, db) \<Rightarrow> (Ok msgs, db))"

definition Hub_DeleteAllPendingMessage ::
    "('e, 'db) delete_all_fn \<Rightarrow> 'e \<Rightarrow> gostring \<Rightarrow> gostring \<Rightarrow> 'db \<Rightarrow> 'db" where
  "Hub_DeleteAllPendingMessage deleteAll env userID instanceID db =
     snd (deleteAll env userID instanceID db)"

subsection \<open>Shutdown signal\<close>

type_synonym ShutdownSignal = bool

definition MarkShuttingDown :: "ShutdownSignal \<Rightarrow> ShutdownSignal" where
  "MarkShuttingDown s = True"

definition IsShuttingDown :: "ShutdownSignal \<Rightarrow> bool" where
  "IsShuttingDown s = s"

subsection \<open>Interleaved callers and timers\<close>

text \<open>
  The second component logs the \<open>onExpired\<close> calls.  A timer may fire even though its
  context has been cancelled: when both are ready, \<open>select\<close> picks either.
\<close>

type_synonym hub_sys = "msgHub \<times> (nat \<times> gostring \<times> gostring) list"

inductive hub_step :: "hub_sys \<Rightarrow> hub_sys \<Rightarrow> bool" where
  register: "hub_step (s, log) (registerWithTTL acc u i s, log)"
| deregister: "hub_step (s, log) (Deregister u i s, log)"
| expire: "(g, u, i) \<in> set (mhTimers s) \<Longrightarrow>
    hub_step (s, log) (fst (expire_timer g u i s), log @ [(g, snd (expire_timer g u i s))])"
| cancel: "\<lbrakk>(g, u, i) \<in> set (mhTimers s); g \<in> set (mhCancelled s)\<rbrakk> \<Longrightarrow>
    hub_step (s, log) (cancel_timer g u i s, log)"
| shutdown: "hub_step (s, log) (Hub_Shutdown s, log)"

definition hub_init :: "hub_sys \<Rightarrow> bool" where
  "hub_init x \<longleftrightarrow> x = (NewMsgHub, [])"

text \<open>
  The invariant: entries carry their own context and pairwise different generations
  that are not cancelled; every waiting timer that is not cancelled belongs to the
  current entry of its session; no timer that has expired is still waiting.
\<close>

definition hub_inv :: "hub_sys \<Rightarrow> bool" where
  "hub_inv x \<longleftrightarrow> (case x of (s, log) \<Rightarrow>
     nm_inv (mhRegistry s) \<and>
     (\<forall>u i e. nm_get (mhRegistry s) u i = Some e \<longrightarrow>
        heCancel e = heGen e \<and> heGen e \<le> mhGenSeq s \<and> heGen e \<notin> set (mhCancelled s)) \<and>
     (\<forall>u i u' i' e e'. nm_get (mhRegistry s) u i = Some e \<longrightarrow> nm_get (mhRegistry s) u' i' = Some e' \<longrightarrow>
        heGen e = heGen e' \<longrightarrow> u = u' \<and> i = i') \<and>
     (\<forall>g \<in> set (mhCancelled s). g \<le> mhGenSeq s) \<and>
     distinct (map fst (mhTimers s)) \<and> (\<forall>g u i. (g, u, i) \<in> set (mhTimers s) \<longrightarrow> g \<le> mhGenSeq s) \<and>
     (\<forall>g u i. (g, u, i) \<in> set (mhTimers s) \<longrightarrow> g \<notin> set (mhCancelled s) \<longrightarrow>
        nm_get (mhRegistry s) u i = Some \<lparr>heCancel = g, heGen = g\<rparr>) \<and>
     distinct (map fst log) \<and>
     (\<forall>g \<in> set (map fst log). g \<le> mhGenSeq s \<and> g \<notin> set (map fst (mhTimers s))))"

lemma IsRegistered_nm: "IsRegistered s u i \<longleftrightarrow> nm_get (mhRegistry s) u i \<noteq> None"
  by (simp add: IsRegistered_def nm_get_def split: option.split)

lemma set_GetSessions: "set (GetSessions s u) = {i. IsRegistered s u i}"
proof -
  have "GetSessions s u = gm_keys (nm_inner (mhRegistry s) u)"
    by (simp add: GetSessions_def nm_inner_def gm_keys_def split: option.split)
  then show ?thesis by (simp only: nm_inner_keys IsRegistered_nm)
qed

subsection \<open>The invariant is kept\<close>

lemma hub_invI:
  assumes "nm_inv (mhRegistry s)"
    "\<And>u i e. nm_get (mhRegistry s) u i = Some e \<Longrightarrow>
       heCancel e = heGen e \<and> heGen e \<le> mhGenSeq s \<and> heGen e \<notin> set (mhCancelled s)"
    "\<And>u i u' i' e e'. nm_get (mhRegistry s) u i = Some e \<Longrightarrow> nm_get (mhRegistry s) u' i' = Some e' \<Longrightarrow>
       heGen e = heGen e' \<Longrightarrow> u = u' \<and> i = i'"
    "\<And>g. g \<in> set (mhCancelled s) \<Longrightarrow> g \<le> mhGenSeq s"
    "distinct (map fst (mhTimers s))"
    "\<And>g u i. (g, u, i) \<in> set (mhTimers s) \<Longrightarrow> g \<le> mhGenSeq s"
    "\<And>g u i. (g, u, i) \<in> set (mhTimers s) \<Longrightarrow> g \<notin> set (mhCancelled s) \<Longrightarrow>
       nm_get (mhRegistry s) u i = Some \<lparr>heCancel = g, heGen = g\<rparr>"
    "distinct (map fst log)"
    "\<And>g. g \<in> fst ` set log \<Longrightarrow> g \<le> mhGenSeq s \<and> g \<notin> fst ` set (mhTimers s)"
  shows "hub_inv (s, log)"
  unfolding hub_inv_def prod.case set_map using assms by blast

lemma hub_inv_parts:
  assumes "hub_inv (s, log)"
  shows "nm_inv (mhRegistry s)"
    "\<forall>u i e. nm_get (mhRegistry s) u i = Some e \<longrightarrow>
       heCancel e = heGen e \<and> heGen e \<le> mhGenSeq s \<and> heGen e \<notin> set (mhCancelled s)"
    "\<forall>u i u' i' e e'. nm_get (mhRegistry s) u i = Some e \<longrightarrow> nm_get (mhRegistry s) u' i' = Some e' \<longrightarrow>
       heGen e = heGen e' \<longrightarrow> u = u' \<and> i = i'"
    "\<forall>g \<in> set (mhCancelled s). g \<le> mhGenSeq s"
    "distinct (map fst (mhTimers s))"
    "\<forall>g u i. (g, u, i) \<in> set (mhTimers s) \<longrightarrow> g \<le> mhGenSeq s"
    "\<forall>g u i. (g, u, i) \<in> set (mhTimers s) \<longrightarrow> g \<notin> set (mhCancelled s) \<longrightarrow>
       nm_get (mhRegistry s) u i = Some \<lparr>heCancel = g, heGen = g\<rparr>"
    "distinct (map fst log)"
    "\<forall>g \<in> fst ` set log. g \<le> mhGenSeq s \<and> g \<notin> fst ` set (mhTimers s)"
  using assms unfolding hub_inv_def prod.case set_map by - ((elim conjE, assumption)+)

lemmas hub_invD = hub_inv_parts [rule_format]

lemma remove1_keyed:
  "\<lbrakk>distinct (map fst xs); (g, v) \<in> set xs\<rbrakk> \<Longrightarrow> remove1 (g, v) xs = filter (\<lambda>x. fst x \<noteq> g) xs"
proof (induction xs)
  case (Cons x xs)
  show ?case
  proof (cases "x = (g, v)")
    case True
    then have "filter (\<lambda>x. fst x \<noteq> g) xs = xs" using Cons.prems(1) by (auto simp: filter_id_conv)
    then show ?thesis using True by simp
  next
    case False
    then have "(g, v) \<in> set xs" using Cons.prems(2) by simp
    then have "g \<in> set (map fst xs)" by (simp add: rev_image_eqI)
    then have "fst x \<noteq> g" using Cons.prems(1) by auto
    then show ?thesis using False Cons by simp
  qed
qed simp

lemma timer_fst: "(g, u, i) \<in> set (mhTimers s) \<Longrightarrow> g \<in> fst ` set (mhTimers s)"
  by force

lemma hub_inv_register:
  assumes "hub_inv (s, log)"
  shows "hub_inv (registerWithTTL acc u i s, log)"
proof -
  note D = hub_invD [OF assms]
  let ?g = "mhGenSeq s + 1"
  let ?s' = "registerWithTTL acc u i s"
  have reg: "mhRegistry ?s' = nm_put u i \<lparr>heCancel = ?g, heGen = ?g\<rparr> (mhRegistry s)"
    and seq: "mhGenSeq ?s' = ?g"
    and can: "set (mhCancelled ?s') = set (mhCancelled s) \<union>
      {heCancel e | e. nm_get (mhRegistry s) u i = Some e}"
    and tim: "mhTimers ?s' = (if acc then mhTimers s @ [(?g, u, i)] else mhTimers s)"
    by (auto simp: registerWithTTL_def Let_def split: option.splits)
  have new: "?g \<notin> fst ` set (mhTimers s)" "?g \<notin> set (mhCancelled s)" "?g \<notin> fst ` set log"
    using D(4) [of ?g] D(6) [of ?g] D(9) [of ?g] by force+
  show ?thesis
  proof (rule hub_invI)
    show "nm_inv (mhRegistry ?s')" using D(1) by (simp add: reg)
    show "distinct (map fst (mhTimers ?s'))" using D(5) new(1) by (auto simp: tim)
    show "distinct (map fst log)" by (rule D(8))
  next
    fix v j e assume "nm_get (mhRegistry ?s') v j = Some e"
    then show "heCancel e = heGen e \<and> heGen e \<le> mhGenSeq ?s' \<and> heGen e \<notin> set (mhCancelled ?s')"
      using D(2) [of v j e] D(3) [of v j e u i] D(2) [of u i] new(2)
      by (auto simp: reg seq can split: if_splits)
  next
    fix v j v' j' e e'
    assume "nm_get (mhRegistry ?s') v j = Some e" "nm_get (mhRegistry ?s') v' j' = Some e'" "heGen e = heGen e'"
    then show "v = v' \<and> j = j'"
      using D(2) [of v j e] D(2) [of v' j' e'] D(3) [of v j e v' j' e']
      by (auto simp: reg split: if_splits)
  next
    fix g assume "g \<in> set (mhCancelled ?s')"
    then show "g \<le> mhGenSeq ?s'" using D(4) [of g] D(2) [of u i] by (auto simp: can seq)
  next
    fix g v j assume "(g, v, j) \<in> set (mhTimers ?s')"
    then show "g \<le> mhGenSeq ?s'" using D(6) [of g v j] by (auto simp: tim seq split: if_splits)
  next
    fix g v j assume t: "(g, v, j) \<in> set (mhTimers ?s')" and nc: "g \<notin> set (mhCancelled ?s')"
    show "nm_get (mhRegistry ?s') v j = Some \<lparr>heCancel = g, heGen = g\<rparr>"
    proof (cases "(g, v, j) \<in> set (mhTimers s)")
      case True
      then have "nm_get (mhRegistry s) v j = Some \<lparr>heCancel = g, heGen = g\<rparr>"
        using D(7) [of g v j] nc by (auto simp: can)
      moreover then have "\<not> (v = u \<and> j = i)" using nc by (auto simp: can)
      ultimately show ?thesis by (auto simp: reg)
    next
      case False
      then show ?thesis using t by (auto simp: tim reg split: if_splits)
    qed
  next
    fix g assume "g \<in> fst ` set log"
    then show "g \<le> mhGenSeq ?s' \<and> g \<notin> fst ` set (mhTimers ?s')"
      using D(9) [of g] new(3) by (auto simp: seq tim)
  qed
qed

lemma hub_inv_deregister:
  assumes "hub_inv (s, log)"
  shows "hub_inv (Deregister u i s, log)"
proof -
  note D = hub_invD [OF assms]
  let ?s' = "Deregister u i s"
  have reg: "mhRegistry ?s' = nm_del u i (mhRegistry s)"
    and rest: "mhGenSeq ?s' = mhGenSeq s" "mhTimers ?s' = mhTimers s"
    and can: "set (mhCancelled ?s') = set (mhCancelled s) \<union>
      {heCancel e | e. nm_get (mhRegistry s) u i = Some e}"
    by (auto simp: Deregister_def Let_def split: option.splits)
  show ?thesis
  proof (rule hub_invI)
    show "nm_inv (mhRegistry ?s')" using D(1) by (simp add: reg)
    show "distinct (map fst (mhTimers ?s'))" using D(5) by (simp add: rest)
    show "distinct (map fst log)" by (rule D(8))
  next
    fix v j e assume "nm_get (mhRegistry ?s') v j = Some e"
    then show "heCancel e = heGen e \<and> heGen e \<le> mhGenSeq ?s' \<and> heGen e \<notin> set (mhCancelled ?s')"
      using D(2) [of v j e] D(3) [of v j e u i] D(2) [of u i]
      by (auto simp: reg rest can split: if_splits)
  next
    fix v j v' j' e e'
    assume "nm_get (mhRegistry ?s') v j = Some e" "nm_get (mhRegistry ?s') v' j' = Some e'" "heGen e = heGen e'"
    then show "v = v' \<and> j = j'"
      using D(3) [of v j e v' j' e'] by (auto simp: reg split: if_splits)
  next
    fix g assume "g \<in> set (mhCancelled ?s')"
    then show "g \<le> mhGenSeq ?s'" using D(4) [of g] D(2) [of u i] by (auto simp: can rest)
  next
    fix g v j assume "(g, v, j) \<in> set (mhTimers ?s')"
    then show "g \<le> mhGenSeq ?s'" using D(6) [of g v j] by (auto simp: rest)
  next
    fix g v j assume t: "(g, v, j) \<in> set (mhTimers ?s')" and nc: "g \<notin> set (mhCancelled ?s')"
    then have "nm_get (mhRegistry s) v j = Some \<lparr>heCancel = g, heGen = g\<rparr>"
      using D(7) [of g v j] by (auto simp: can rest)
    moreover then have "\<not> (v = u \<and> j = i)" using nc by (auto simp: can)
    ultimately show "nm_get (mhRegistry ?s') v j = Some \<lparr>heCancel = g, heGen = g\<rparr>" by (simp add: reg)
  next
    fix g assume "g \<in> fst ` set log"
    then show "g \<le> mhGenSeq ?s' \<and> g \<notin> fst ` set (mhTimers ?s')" using D(9) [of g] by (simp add: rest)
  qed
qed

lemma hub_inv_shrink:
  assumes "hub_inv (s, log)" and g: "(g, u, i) \<in> set (mhTimers s)"
    and stale: "g \<in> set (mhCancelled s) \<or> nm_get (mhRegistry s) u i = Some \<lparr>heCancel = g, heGen = g\<rparr>"
    and reg: "mhRegistry s' = (if g \<in> set (mhCancelled s) then mhRegistry s else nm_del u i (mhRegistry s))"
    and rest: "mhGenSeq s' = mhGenSeq s" "mhCancelled s' = mhCancelled s"
      "mhTimers s' = remove1 (g, u, i) (mhTimers s)"
    and log': "log' = log \<or> log' = log @ [(g, u, i)]"
  shows "hub_inv (s', log')"
proof -
  note D = hub_invD [OF assms(1)]
  have tim: "mhTimers s' = filter (\<lambda>x. fst x \<noteq> g) (mhTimers s)"
    unfolding rest by (rule remove1_keyed [OF D(5) g])
  have get: "nm_get (mhRegistry s') v j =
      (if g \<notin> set (mhCancelled s) \<and> v = u \<and> j = i then None else nm_get (mhRegistry s) v j)" for v j
    by (simp add: reg)
  show ?thesis
  proof (rule hub_invI)
    show "nm_inv (mhRegistry s')" using D(1) by (simp add: reg)
    show "distinct (map fst (mhTimers s'))"
      unfolding tim using D(5) by (rule distinct_map_filter)
    show "distinct (map fst log')" using log' D(8) D(9) [of g] timer_fst [OF g] by (elim disjE) (simp_all, blast)
  next
    fix v j e assume "nm_get (mhRegistry s') v j = Some e"
    then show "heCancel e = heGen e \<and> heGen e \<le> mhGenSeq s' \<and> heGen e \<notin> set (mhCancelled s')"
      using D(2) [of v j e] by (simp add: get rest split: if_splits)
  next
    fix v j v' j' e e'
    assume "nm_get (mhRegistry s') v j = Some e" "nm_get (mhRegistry s') v' j' = Some e'" "heGen e = heGen e'"
    then show "v = v' \<and> j = j'" using D(3) [of v j e v' j' e'] by (simp add: get split: if_splits)
  next
    fix h assume "h \<in> set (mhCancelled s')"
    then show "h \<le> mhGenSeq s'" using D(4) [of h] by (simp add: rest)
  next
    fix h v j assume "(h, v, j) \<in> set (mhTimers s')"
    then show "h \<le> mhGenSeq s'" using D(6) [of h v j] by (simp add: rest(1) tim)
  next
    fix h v j assume t: "(h, v, j) \<in> set (mhTimers s')" and nc: "h \<notin> set (mhCancelled s')"
    have "h \<noteq> g" using t by (simp add: tim)
    moreover have "nm_get (mhRegistry s) v j = Some \<lparr>heCancel = h, heGen = h\<rparr>"
      using D(7) [of h v j] t nc by (simp add: rest(2) tim)
    ultimately show "nm_get (mhRegistry s') v j = Some \<lparr>heCancel = h, heGen = h\<rparr>"
      using stale by (auto simp: get)
  next
    fix h assume h: "h \<in> fst ` set log'"
    show "h \<le> mhGenSeq s' \<and> h \<notin> fst ` set (mhTimers s')"
    proof (cases "h = g")
      case True
      then show ?thesis using D(6) [OF g] by (auto simp: rest(1) tim)
    next
      case False
      then have "h \<in> fst ` set log" using h log' by auto
      then show ?thesis using D(9) [of h] by (auto simp: rest(1) tim)
    qed
  qed
qed

lemma hub_inv_shutdown:
  assumes "hub_inv (s, log)"
  shows "hub_inv (Hub_Shutdown s, log)"
proof -
  note D = hub_invD [OF assms]
  have can: "set (mhCancelled (Hub_Shutdown s)) =
      {heCancel e | u i e. nm_get (mhRegistry s) u i = Some e} \<union> set (mhCancelled s)"
  proof -
    have "set (map (\<lambda>(_, _, e). heCancel e) (hub_sessions s)) =
        {heCancel e | u i e. (u, i, e) \<in> set (hub_sessions s)}" by force
    then show ?thesis
      unfolding hub_sessions_def nm_entries [OF D(1)]
      by (simp add: Hub_Shutdown_def Let_def hub_sessions_def)
  qed
  have rest: "mhRegistry (Hub_Shutdown s) = []" "mhGenSeq (Hub_Shutdown s) = mhGenSeq s"
    "mhTimers (Hub_Shutdown s) = mhTimers s"
    by (simp_all add: Hub_Shutdown_def Let_def)
  show ?thesis
  proof (rule hub_invI)
    fix g assume "g \<in> set (mhCancelled (Hub_Shutdown s))"
    then show "g \<le> mhGenSeq (Hub_Shutdown s)" using D(2,4) by (auto simp: can rest)
  next
    fix g u i assume "(g, u, i) \<in> set (mhTimers (Hub_Shutdown s))" "g \<notin> set (mhCancelled (Hub_Shutdown s))"
    then show "nm_get (mhRegistry (Hub_Shutdown s)) u i = Some \<lparr>heCancel = g, heGen = g\<rparr>"
      using D(7) [of g u i] unfolding can rest by force
  next
    fix g u i assume "(g, u, i) \<in> set (mhTimers (Hub_Shutdown s))"
    then show "g \<le> mhGenSeq (Hub_Shutdown s)" using D(6) [of g u i] by (simp add: rest)
  next
    fix g assume "g \<in> fst ` set log"
    then show "g \<le> mhGenSeq (Hub_Shutdown s) \<and> g \<notin> fst ` set (mhTimers (Hub_Shutdown s))"
      using D(9) [of g] by (simp add: rest)
  qed (simp_all add: rest D(5,8))
qed

lemma timer_stale:
  assumes "hub_inv (s, log)" "(g, u, i) \<in> set (mhTimers s)"
  shows "g \<in> set (mhCancelled s) \<or> nm_get (mhRegistry s) u i = Some \<lparr>heCancel = g, heGen = g\<rparr>"
  using hub_invD(7) [OF assms(1), of g u i] assms(2) by blast

lemma expire_registry:
  assumes "hub_inv (s, log)" "(g, u, i) \<in> set (mhTimers s)"
  shows "mhRegistry (fst (expire_timer g u i s)) =
    (if g \<in> set (mhCancelled s) then mhRegistry s else nm_del u i (mhRegistry s))"
proof (cases "g \<in> set (mhCancelled s)")
  case True
  then have "nm_get (mhRegistry s) u i = Some e \<Longrightarrow> heGen e \<noteq> g" for e
    using hub_invD(2) [OF assms(1), of u i e] by blast
  then show ?thesis using True by (simp add: expire_timer_def Let_def split: option.split)
next
  case False
  then show ?thesis using timer_stale [OF assms] by (simp add: expire_timer_def Let_def)
qed

lemma hub_inv_step: "\<lbrakk>hub_step x y; hub_inv x\<rbrakk> \<Longrightarrow> hub_inv y"
proof (induction rule: hub_step.induct)
  case (expire g u i s log)
  show ?case
    using expire.prems expire.hyps timer_stale [OF expire.prems expire.hyps]
      expire_registry [OF expire.prems expire.hyps]
    by (rule hub_inv_shrink) (simp_all add: expire_timer_def Let_def)
next
  case (cancel g u i s log)
  show ?case
    using cancel.prems cancel.hyps(1)
    by (rule hub_inv_shrink [of _ _ g u i _ log]) (simp_all add: cancel.hyps cancel_timer_def)
qed (simp_all add: hub_inv_register hub_inv_deregister hub_inv_shutdown)

lemma hub_inv_init: "hub_init x \<Longrightarrow> hub_inv x"
  by (auto simp: hub_init_def NewMsgHub_def intro!: hub_invI)

interpretation hub: step_invariant hub_init hub_step hub_inv
proof unfold_locales
  fix x assume "hub_init x" then show "hub_inv x" by (rule hub_inv_init)
next
  fix x y assume "hub_inv x" "hub_step x y"
  then show "hub_inv y" using hub_inv_step by blast
qed

subsection \<open>Properties of the registry\<close>

lemma IsRegistered_register:
  "IsRegistered (registerWithTTL acc u i s) v j \<longleftrightarrow> v = u \<and> j = i \<or> IsRegistered s v j"
  by (auto simp: IsRegistered_nm registerWithTTL_def Let_def)

lemma IsRegistered_deregister:
  "IsRegistered (Deregister u i s) v j \<longleftrightarrow> \<not> (v = u \<and> j = i) \<and> IsRegistered s v j"
  by (simp add: IsRegistered_nm Deregister_def Let_def)

lemma distinct_GetSessions: "nm_inv (mhRegistry s) \<Longrightarrow> distinct (GetSessions s u)"
proof -
  assume "nm_inv (mhRegistry s)"
  then have "distinct (gm_keys (nm_inner (mhRegistry s) u))"
    by (intro distinct_gm_keys nm_inv_inner)
  then show ?thesis by (simp add: GetSessions_def nm_inner_def split: option.splits)
qed


lemma reach_register:
  "reachable hub_init hub_step (s, log) \<Longrightarrow> reachable hub_init hub_step (registerWithTTL acc u i s, log)"
  by (erule reach_step) (rule hub_step.register)

lemma reach_deregister:
  "reachable hub_init hub_step (s, log) \<Longrightarrow> reachable hub_init hub_step (Deregister u i s, log)"
  by (erule reach_step) (rule hub_step.deregister)

lemma reach_new: "reachable hub_init hub_step (NewMsgHub, [])"
  by (rule reach_init) (simp add: hub_init_def)

lemma snd_expire_timer: "snd (expire_timer g u i s) = (u, i)"
  by (simp add: expire_timer_def Let_def)

lemmas hub_eval = registerWithTTL_def Deregister_def expire_timer_def NewMsgHub_def nm_put_def nm_get_def
  nm_del_def nm_inner_def gm_put_def gm_del_def gm_get_def IsRegistered_def Let_def


text \<open>The \<open>onExpired\<close> callback is not protected by the generation check: there is a
  reachable state in which a session has been deregistered (the client is back) and
  registered again, and the callback of the first registration has run although the
  second one is still in force.\<close>

theorem hub_stale_callback:
  "\<exists>s. reachable hub_init hub_step (s, [(1, u, i)]) \<and> IsRegistered s u i \<and> 1 \<in> set (mhCancelled s)"
proof -
  define s3 where "s3 = registerWithTTL True u i (Deregister u i (registerWithTTL True u i NewMsgHub))"
  have r: "reachable hub_init hub_step (s3, [])"
    unfolding s3_def by (intro reach_register reach_deregister reach_new)
  have s3: "mhRegistry s3 = nm_put u i \<lparr>heCancel = 2, heGen = 2\<rparr> (nm_del u i (nm_put u i \<lparr>heCancel = 1, heGen = 1\<rparr> []))"
    "mhCancelled s3 = [1]" "mhTimers s3 = [(1, u, i), (2, u, i)]"
    unfolding s3_def by (simp_all add: registerWithTTL_def Deregister_def NewMsgHub_def Let_def numeral_2_eq_2)
  then have "hub_step (s3, []) (fst (expire_timer 1 u i s3), [] @ [(1, snd (expire_timer 1 u i s3))])"
    by (intro hub_step.expire) simp
  with r have "reachable hub_init hub_step (fst (expire_timer 1 u i s3), [] @ [(1, snd (expire_timer 1 u i s3))])"
    by (rule reach_step)
  moreover have "IsRegistered (fst (expire_timer 1 u i s3)) u i"
    by (simp add: IsRegistered_nm expire_timer_def Let_def s3)
  moreover have "1 \<in> set (mhCancelled (fst (expire_timer 1 u i s3)))"
    by (simp add: expire_timer_def Let_def s3)
  ultimately show ?thesis unfolding append_Nil snd_expire_timer by (intro exI conjI)
qed

text \<open>Shutting the hub down leaves no session registered and no expiry timer that is
  not cancelled.\<close>

theorem hub_shutdown_cancels:
  assumes "reachable hub_init hub_step (s, log)"
  shows "(\<forall>u i. \<not> IsRegistered (Hub_Shutdown s) u i) \<and>
    fst ` set (mhTimers (Hub_Shutdown s)) \<subseteq> set (mhCancelled (Hub_Shutdown s))"
proof -
  have inv: "hub_inv (Hub_Shutdown s, log)"
    using hub.reachable_invar [OF assms] by (rule hub_inv_shutdown)
  have reg: "nm_get (mhRegistry (Hub_Shutdown s)) u i = None" for u i
    by (simp add: Hub_Shutdown_def Let_def)
  have "g \<in> set (mhCancelled (Hub_Shutdown s))" if "(g, u, i) \<in> set (mhTimers (Hub_Shutdown s))" for g u i
    using timer_stale [OF inv that] reg [of u i] by simp
  then show ?thesis using reg by (auto simp: IsRegistered_nm)
qed

theorem hub_shutdown_cancels_witness:
  "mhTimers (Hub_Shutdown (registerWithTTL True ''u'' ''i'' NewMsgHub)) = [(1, ''u'', ''i'')] \<and>
   1 \<in> set (mhCancelled (Hub_Shutdown (registerWithTTL True ''u'' ''i'' NewMsgHub)))"
proof -
  have t: "mhTimers (Hub_Shutdown (registerWithTTL True ''u'' ''i'' NewMsgHub)) = [(1, ''u'', ''i'')]"
    by (simp add: Hub_Shutdown_def hub_eval)
  then show ?thesis
    using hub_shutdown_cancels [OF reach_register [OF reach_new], of True "''u''" "''i''"] by simp
qed

subsection \<open>Reading back the buffered messages\<close>

context pending_store
begin

lemma consume_sound:
  assumes inv: "invar db" "invar (between db)"
    and run: "Hub_Consume get_all delete_up_to e1 e2 between u i db = (Ok msgs, db3)"
  shows "\<exists>xs. msgs = map snd xs \<and> set xs = {(s, m). (sessionKey u i, s, m) \<in> rows db} \<and>
           sorted_wrt (<) (map fst xs)" (is ?A)
    and "\<lbrakk>(k, s, m) \<in> rows (between db);
          k \<noteq> sessionKey u i \<or> (\<forall>(k', s', m') \<in> rows db. k' = sessionKey u i \<longrightarrow> s' < s)\<rbrakk> \<Longrightarrow>
          (k, s, m) \<in> rows db3" (is "?P \<Longrightarrow> ?Q \<Longrightarrow> ?R")
proof -
  obtain ms mx where g: "get_all e1 u i db = Ok (ms, mx)"
    using run by (auto simp: Hub_Consume_def split: outcome.splits)
  obtain xs where xs: "ms = map snd xs" "set xs = {(s, m). (sessionKey u i, s, m) \<in> rows db}"
    "sorted_wrt (<) (map fst xs)" "xs \<noteq> [] \<longrightarrow> mx = fst (last xs)"
    using get_all_Ok [OF inv(1) g] by blast
  have ms: "msgs = ms" using run g by (auto simp: Hub_Consume_def split: if_splits prod.splits)
  then show ?A using xs by blast
  show ?R if p: ?P and q: ?Q
  proof (cases "xs = []")
    case True
    then have "db3 = between db" using run g xs(1) by (simp add: Hub_Consume_def)
    then show ?thesis using p by simp
  next
    case False
    then obtain r where d: "delete_up_to e2 u i mx (between db) = (r, db3)"
      using run g xs(1) by (auto simp: Hub_Consume_def split: prod.splits)
    have "last xs \<in> set xs" using False by simp
    then have "(sessionKey u i, mx, snd (last xs)) \<in> rows db"
      using xs(2,4) False by (simp add: case_prod_beta)
    then have "k \<noteq> sessionKey u i \<or> mx < s" using q by fastforce
    then show ?thesis using delete_keeps [OF inv(2) d] p by blast
  qed
qed

end

text \<open>C7: A successful \<open>Consume\<close> on Postgres returns exactly the messages stored for the
  session, ordered by send time, and no message is lost: whatever other containers did
  between the read and the delete, a row of another session, or one with a later send
  time than everything read, is still stored afterwards.\<close>

theorem consume_no_loss_pg:
  assumes "pm_inv db" "pm_inv (between db)"
    "Hub_Consume PG_GetAll PG_DeleteUpTo f1 f2 between u i db = (Ok msgs, db3)"
  shows "(\<exists>xs. msgs = map snd xs \<and> set xs = {(s, m). (sessionKey u i, s, m) \<in> pm_rows db} \<and>
            sorted_wrt (<) (map fst xs)) \<and>
    (\<forall>k s m. (k, s, m) \<in> pm_rows (between db) \<longrightarrow>
       k \<noteq> sessionKey u i \<or> (\<forall>(k', s', m') \<in> pm_rows db. k' = sessionKey u i \<longrightarrow> s' < s) \<longrightarrow>
       (k, s, m) \<in> pm_rows db3)"
  using pg.consume_sound [OF assms] by blast

text \<open>The same for DynamoDB, where the delete is a paginated query followed by batch
  writes that may be throttled or fail part-way.\<close>

theorem consume_no_loss_ddb:
  assumes "pm_inv (fst w)" "pm_inv (fst (between w))"
    "Hub_Consume DDB_GetAll DDB_DeleteUpTo f1 f2 between u i w = (Ok msgs, w3)"
  shows "(\<exists>xs. msgs = map snd xs \<and> set xs = {(s, m). (sessionKey u i, s, m) \<in> pm_rows (fst w)} \<and>
            sorted_wrt (<) (map fst xs)) \<and>
    (\<forall>k s m. (k, s, m) \<in> pm_rows (fst (between w)) \<longrightarrow>
       k \<noteq> sessionKey u i \<or> (\<forall>(k', s', m') \<in> pm_rows (fst w). k' = sessionKey u i \<longrightarrow> s' < s) \<longrightarrow>
       (k, s, m) \<in> pm_rows (fst w3))"
  using ddb.consume_sound [OF assms] by blast

definition ex_row :: "int \<Rightarrow> byte \<Rightarrow> PendingMessage" where
  "ex_row s b = \<lparr>pmSessionKey = ''u:i'', pmSendAt = s, pmMessage = [b], pmExpiresAt = 100\<rparr>"

lemmas consume_eval = Hub_Consume_def PG_GetAll_def PG_DeleteUpTo_def DDB_GetAll_def DDB_DeleteUpTo_def
  pg_rows_def pg_exec_def session_rows_def collect_rows_def sessionKey_def ex_row_def ddb_delete_keys_def
  pm_key_of_def pm_inv_def pm_rows_def pm_entry_def

theorem consume_no_loss_pg_witness:
  "(''u:i'', 9, [2]) \<in> pm_rows (snd (Hub_Consume PG_GetAll PG_DeleteUpTo DbOk DbOk (\<lambda>t. t @ [ex_row 9 2])
      ''u'' ''i'' [ex_row 5 1]))"
proof -
  let ?r = "Hub_Consume PG_GetAll PG_DeleteUpTo DbOk DbOk (\<lambda>t. t @ [ex_row 9 2]) ''u'' ''i'' [ex_row 5 1]"
  have run: "?r = (Ok [[1]], snd ?r)" by (simp add: consume_eval)
  have inv: "pm_inv [ex_row 5 1]" "pm_inv ([ex_row 5 1] @ [ex_row 9 2])" by (simp_all add: consume_eval)
  have "(''u:i'', 9, [2]) \<in> pm_rows ([ex_row 5 1] @ [ex_row 9 2])" by (simp add: consume_eval)
  moreover have "\<forall>(k', s', m') \<in> pm_rows [ex_row 5 1]. k' = sessionKey ''u'' ''i'' \<longrightarrow> s' < 9"
    by (simp add: consume_eval)
  ultimately show ?thesis using consume_no_loss_pg [OF inv run] by blast
qed

theorem consume_no_loss_ddb_witness:
  "(''u:i'', 9, [2]) \<in> pm_rows (fst (snd (Hub_Consume DDB_GetAll DDB_DeleteUpTo False True
      (\<lambda>w. (fst w @ [ex_row 9 2], snd w)) ''u'' ''i'' ([ex_row 5 1], []))))"
proof -
  let ?b = "\<lambda>w :: ddb_world. (fst w @ [ex_row 9 2], snd w)"
  let ?r = "Hub_Consume DDB_GetAll DDB_DeleteUpTo False True ?b ''u'' ''i'' ([ex_row 5 1], [])"
  have run: "?r = (Ok [[1]], snd ?r)" by (simp add: consume_eval)
  have inv: "pm_inv (fst ([ex_row 5 1], []))" "pm_inv (fst (?b ([ex_row 5 1], [])))" by (simp_all add: consume_eval)
  have "(''u:i'', 9, [2]) \<in> pm_rows (fst (?b ([ex_row 5 1], [])))" by (simp add: consume_eval)
  moreover have "\<forall>(k', s', m') \<in> pm_rows (fst ([ex_row 5 1], [])). k' = sessionKey ''u'' ''i'' \<longrightarrow> s' < 9"
    by (simp add: consume_eval)
  ultimately show ?thesis using consume_no_loss_ddb [OF inv run] by blast
qed

text \<open>The comment in \<open>Consume\<close> says that a message saved between the read and the
  delete survives.  That needs the clocks of the containers to agree: a message saved
  in between by a container whose clock is behind the newest message read is deleted
  without having been returned.\<close>

theorem consume_skew_loses:
  "\<exists>db sendAt m. case Hub_Consume PG_GetAll PG_DeleteUpTo DbOk DbOk
       (\<lambda>t. snd (Hub_Save (PG_Create ttl now) DbOk sendAt ''u'' ''i'' m t)) ''u'' ''i'' db of
     (res, db3) \<Rightarrow> res = Ok [[1]] \<and> m \<noteq> [1] \<and> db3 = []"
  by (rule exI [of _ "[ex_row 9 1]"], rule exI [of _ 5], rule exI [of _ "[2]"])
    (simp add: consume_eval Hub_Save_def PG_Create_def Let_def)

end
