(* ===== verification/Gobwas.thy ===== *)
theory Gobwas
  imports Auth Aerror
begin

text \<open>
  The websocket transport (\<open>server/gobwas\<close>): admission against the connection cap,
  one client's connection with its close handshake, keep-alive and frame handling.
  The poller, the socket and the worker pool are outside; their answers are inputs of
  the operations, and what the code does to them is recorded in a log of events.
\<close>

subsection \<open>Frames\<close>

text \<open>The operation codes of RFC 6455, as the websocket library names them.\<close>

definition OpContinuation :: byte where "OpContinuation = 0x0"
definition OpText :: byte where "OpText = 0x1"
definition OpBinary :: byte where "OpBinary = 0x2"
definition OpClose :: byte where "OpClose = 0x8"
definition OpPing :: byte where "OpPing = 0x9"
definition OpPong :: byte where "OpPong = 0xA"

lemmas op_codes = OpContinuation_def OpText_def OpBinary_def OpClose_def OpPing_def OpPong_def

definition StatusNormalClosure :: nat where "StatusNormalClosure = 1000"
definition StatusProtocolError :: nat where "StatusProtocolError = 1002"

record ws_header =
  whFin :: bool
  whRsv :: byte
  whOpCode :: byte
  whMasked :: bool
  whMask :: bytes
  whLength :: int

datatype frame_error = RsvBits | ReservedOp byte | ControlNotFinal | FragmentedText | FragmentedBinary
  | Fragmented | PongWriteFailed | CloseWriteFailed | UnexpectedOp byte | FrameTooLarge int

datatype close_reason = NoReason | InvalidClosePayload | PeerReason bytes | ErrorText frame_error | AppReason gostring

datatype out_frame = OutBinary bytes | OutPing | OutPong bytes | OutClose nat close_reason

subsection \<open>State\<close>

record GobwasConnection =
  gcAuth :: WebsocketAuth
  gcServer :: bool
  gcConn :: bool
  gcDesc :: bool
  gcClosed :: bool
  gcCloseTx :: bool
  gcCloseRx :: bool
  gcLastReadAt :: int
  gcLastPingAt :: int
  gcLastPongAt :: int
  gcAwaitingPong :: bool

record NetpollServer =
  nsConnections :: int
  nsAccepted :: int
  nsClosed :: int
  nsRejected :: int

text \<open>
  The calls that leave the component: frames written with the result of the write, the
  message callbacks, the error and close callbacks, and the poller and socket calls.
\<close>

datatype gw_event = EvWrite out_frame bool | EvText bytes | EvBin bytes | EvReadError | EvWriteError
  | EvResume | EvPollerStop | EvConnClose | EvOnClose WebsocketAuth | EvOnCloseConnection WebsocketAuth

text \<open>
  \<open>gwWrites\<close> are the results of the coming writes to the socket, \<open>True\<close> for success;
  after them all writes succeed.
\<close>

record gw =
  gwSrv :: NetpollServer
  gwCl :: GobwasConnection
  gwWrites :: "bool list"
  gwLog :: "gw_event list"

text \<open>
  Configuration and collaborators: the library's masking function, the responses the
  message callbacks send for a payload, the keep-alive times, and whether an
  \<open>OnCloseConnection\<close> function is configured.
\<close>

record gw_env =
  geCipher :: "bytes \<Rightarrow> bytes \<Rightarrow> bytes"
  geOnText :: "bytes \<Rightarrow> bytes list"
  geOnBin :: "bytes \<Rightarrow> bytes list"
  gePingIdleAfter :: int
  gePongTimeout :: int
  geOnCloseConnection :: bool

definition emit :: "gw_event \<Rightarrow> gw \<Rightarrow> gw" where
  "emit e w = w\<lparr>gwLog := gwLog w @ [e]\<rparr>"

subsection \<open>Admission (1_server.go)\<close>

definition reserveSlot :: "int \<Rightarrow> NetpollServer \<Rightarrow> (int \<times> bool) \<times> NetpollServer" where
  "reserveSlot maxConns s =
     (if maxConns \<le> 0 then ((nsConnections s + 1, True), s\<lparr>nsConnections := nsConnections s + 1\<rparr>)
      else let cur = nsConnections s in
        if cur \<ge> maxConns then ((cur, False), s)
        else ((cur + 1, True), s\<lparr>nsConnections := cur + 1\<rparr>))"

definition releaseSlot :: "NetpollServer \<Rightarrow> NetpollServer" where
  "releaseSlot s = s\<lparr>nsConnections := nsConnections s - 1\<rparr>"

subsection \<open>Closing\<close>

definition removeClient :: "gw \<Rightarrow> gw" where
  "removeClient w =
     (if gcClosed (gwCl w) then w
      else
        let s = gwSrv w;
            desc = gcDesc (gwCl w);
            w = w\<lparr>gwCl := (gwCl w)\<lparr>gcClosed := True, gcDesc := False\<rparr>,
                  gwSrv := s\<lparr>nsClosed := nsClosed s + 1, nsConnections := nsConnections s - 1\<rparr>\<rparr>;
            w = (if desc then emit EvPollerStop w else w);
            w = (if gcConn (gwCl w) then emit EvConnClose w else w)
        in emit (EvOnClose (gcAuth (gwCl w))) w)"

definition gc_Close :: "gw_env \<Rightarrow> gw \<Rightarrow> gw" where
  "gc_Close env w =
     (let w = (if gcServer (gwCl w) then removeClient w else w)
      in if geOnCloseConnection env then emit (EvOnCloseConnection (gcAuth (gwCl w))) w else w)"

text \<open>The result of a write is true when it failed.\<close>

definition writeFrame :: "out_frame \<Rightarrow> gw \<Rightarrow> bool \<times> gw" where
  "writeFrame f w =
     (if \<not> gcConn (gwCl w) then (True, w)
      else case gwWrites w of
             [] \<Rightarrow> (False, emit (EvWrite f True) w)
           | ok # rest \<Rightarrow> (\<not> ok, emit (EvWrite f ok) (w\<lparr>gwWrites := rest\<rparr>)))"

definition MarkCloseSentIfFirst :: "GobwasConnection \<Rightarrow> bool \<times> GobwasConnection" where
  "MarkCloseSentIfFirst c = (if gcCloseTx c then (False, c) else (True, c\<lparr>gcCloseTx := True\<rparr>))"

definition MarkCloseReceived :: "GobwasConnection \<Rightarrow> GobwasConnection" where
  "MarkCloseReceived c = c\<lparr>gcCloseRx := True\<rparr>"

definition writeCloseOnce :: "nat \<Rightarrow> close_reason \<Rightarrow> gw \<Rightarrow> bool \<times> gw" where
  "writeCloseOnce code reason w =
     (case MarkCloseSentIfFirst (gwCl w) of
        (False, _) \<Rightarrow> (False, w)
      | (True, c) \<Rightarrow> writeFrame (OutClose code reason) (w\<lparr>gwCl := c\<rparr>))"

definition CloseWithReason :: "gw_env \<Rightarrow> nat \<Rightarrow> gostring \<Rightarrow> gw \<Rightarrow> gw" where
  "CloseWithReason env code reason w =
     (let w = (if gcServer (gwCl w) then snd (writeCloseOnce code (AppReason reason) w) else w)
      in gc_Close env w)"

definition handleProtocolError :: "gw_env \<Rightarrow> frame_error \<Rightarrow> gw \<Rightarrow> gw" where
  "handleProtocolError env err w =
     gc_Close env (snd (writeCloseOnce StatusProtocolError (ErrorText err) w))"

subsection \<open>Sending and keep-alive\<close>

definition ns_send :: "gw_env \<Rightarrow> bytes \<Rightarrow> gw \<Rightarrow> bool \<times> gw" where
  "ns_send env payload w =
     (if \<not> gcConn (gwCl w) then (True, gc_Close env w)
      else case writeFrame (OutBinary payload) w of
             (True, w) \<Rightarrow> (True, gc_Close env (emit EvWriteError w))
           | (False, w) \<Rightarrow> (False, w))"

definition gc_Send :: "gw_env \<Rightarrow> bytes \<Rightarrow> gw \<Rightarrow> bool \<times> gw" where
  "gc_Send env payload w = (if gcServer (gwCl w) then ns_send env payload w else (True, w))"

definition noteRead :: "int \<Rightarrow> GobwasConnection \<Rightarrow> GobwasConnection" where
  "noteRead now c = c\<lparr>gcLastReadAt := now, gcAwaitingPong := False\<rparr>"

definition notePong :: "int \<Rightarrow> GobwasConnection \<Rightarrow> GobwasConnection" where
  "notePong now c = c\<lparr>gcLastReadAt := now, gcLastPongAt := now, gcAwaitingPong := False\<rparr>"

datatype pingAction = pingActionSkip | pingActionSend | pingActionClose

definition nextPingAction :: "int \<Rightarrow> int \<Rightarrow> int \<Rightarrow> GobwasConnection \<Rightarrow> pingAction \<times> GobwasConnection" where
  "nextPingAction pingIdleAfter pongTimeout now c =
     (if gcAwaitingPong c then
        (if now - gcLastPingAt c \<ge> pongTimeout then (pingActionClose, c) else (pingActionSkip, c))
      else if now - gcLastReadAt c < pingIdleAfter then (pingActionSkip, c)
      else (pingActionSend, c\<lparr>gcAwaitingPong := True, gcLastPingAt := now\<rparr>))"

text \<open>\<open>accepted\<close> is the result of \<open>workerPool.Submit\<close>.\<close>

definition ns_ping :: "gw_env \<Rightarrow> bool \<Rightarrow> int \<Rightarrow> gw \<Rightarrow> gw" where
  "ns_ping env accepted now w =
     (if \<not> accepted \<or> \<not> gcConn (gwCl w) then w
      else case nextPingAction (gePingIdleAfter env) (gePongTimeout env) now (gwCl w) of
             (pingActionSkip, c) \<Rightarrow> w\<lparr>gwCl := c\<rparr>
           | (pingActionClose, c) \<Rightarrow> gc_Close env (w\<lparr>gwCl := c\<rparr>)
           | (pingActionSend, c) \<Rightarrow>
               (case writeFrame OutPing (w\<lparr>gwCl := c\<rparr>) of
                  (True, w) \<Rightarrow> gc_Close env (emit EvWriteError w)
                | (False, w) \<Rightarrow> w))"

definition gc_Ping :: "gw_env \<Rightarrow> bool \<Rightarrow> int \<Rightarrow> gw \<Rightarrow> gw" where
  "gc_Ping env accepted now w = (if gcServer (gwCl w) then ns_ping env accepted now w else w)"

subsection \<open>Frame handling (2_frame_handle.go)\<close>

definition validateFrame :: "ws_header \<Rightarrow> frame_error option" where
  "validateFrame h =
     (if whRsv h \<noteq> 0 then Some RsvBits
      else if whOpCode h \<notin> set [OpContinuation, OpText, OpBinary, OpClose, OpPing, OpPong]
      then Some (ReservedOp (whOpCode h))
      else if whOpCode h \<ge> OpClose \<and> \<not> whFin h then Some ControlNotFinal
      else None)"

definition send_all :: "gw_env \<Rightarrow> bytes list \<Rightarrow> gw \<Rightarrow> gw" where
  "send_all env ps w = fold (\<lambda>p w. snd (ns_send env p w)) ps w"

definition handleTextFrame :: "gw_env \<Rightarrow> bytes \<Rightarrow> bool \<Rightarrow> gw \<Rightarrow> frame_error option \<times> gw" where
  "handleTextFrame env payload fin w =
     (if \<not> fin then (Some FragmentedText, w)
      else (None, send_all env (geOnText env payload) (emit (EvText payload) w)))"

definition handleBinaryFrame :: "gw_env \<Rightarrow> bytes \<Rightarrow> bool \<Rightarrow> gw \<Rightarrow> frame_error option \<times> gw" where
  "handleBinaryFrame env payload fin w =
     (if \<not> fin then (Some FragmentedBinary, w)
      else (None, send_all env (geOnBin env payload) (emit (EvBin payload) w)))"

definition handleContinuationFrame :: "gw \<Rightarrow> frame_error option \<times> gw" where
  "handleContinuationFrame w = (Some Fragmented, w)"

definition handleCloseFrame :: "gw_env \<Rightarrow> bytes \<Rightarrow> gw \<Rightarrow> frame_error option \<times> gw" where
  "handleCloseFrame env payload w =
     (let w = w\<lparr>gwCl := MarkCloseReceived (gwCl w)\<rparr> in
      if length payload = 1 then
        (case writeCloseOnce StatusProtocolError InvalidClosePayload w of
           (err, w) \<Rightarrow> (if err then Some CloseWriteFailed else None, w))
      else
        let closeCode = (if length payload \<ge> 2
                         then 256 * unat (payload ! 0) + unat (payload ! 1) else StatusNormalClosure);
            closeReason = (if length payload > 2 then PeerReason (drop 2 payload) else NoReason)
        in case writeCloseOnce closeCode closeReason w of
             (True, w) \<Rightarrow> (Some CloseWriteFailed, gc_Close env w)
           | (False, w) \<Rightarrow> (None, gc_Close env w))"

text \<open>\<open>allowed\<close> is the answer of the control-frame limiter.\<close>

definition handlePingFrame :: "bool \<Rightarrow> bytes \<Rightarrow> gw \<Rightarrow> frame_error option \<times> gw" where
  "handlePingFrame allowed payload w =
     (if \<not> allowed then (None, w)
      else case writeFrame (OutPong payload) w of
             (err, w) \<Rightarrow> (if err then Some PongWriteFailed else None, w))"

definition handlePongFrame :: "int \<Rightarrow> gw \<Rightarrow> frame_error option \<times> gw" where
  "handlePongFrame now w = (None, w\<lparr>gwCl := notePong now (gwCl w)\<rparr>)"

definition handleFrame :: "gw_env \<Rightarrow> bool \<Rightarrow> int \<Rightarrow> ws_header \<Rightarrow> bytes \<Rightarrow> gw \<Rightarrow> gw" where
  "handleFrame env allowed now h raw w =
     (let payload = (if whMasked h then geCipher env raw (whMask h) else raw);
          op = whOpCode h;
          (err, w) =
            (if op = OpText then handleTextFrame env payload (whFin h) w
             else if op = OpBinary then handleBinaryFrame env payload (whFin h) w
             else if op = OpContinuation then handleContinuationFrame w
             else if op = OpClose then handleCloseFrame env payload w
             else if op = OpPing then handlePingFrame allowed payload w
             else if op = OpPong then handlePongFrame now w
             else (Some (UnexpectedOp op), w))
      in case err of None \<Rightarrow> w | Some e \<Rightarrow> handleProtocolError env e w)"

definition MaxFrameSize :: int where "MaxFrameSize = 1 * 1024 * 1024"

text \<open>What the socket delivers: the header read, then the payload of the announced length.\<close>

datatype hdr_read = HdrEOF | HdrClosed | HdrError | HdrOk ws_header

definition processClientMessage ::
    "gw_env \<Rightarrow> bool \<Rightarrow> int \<Rightarrow> hdr_read \<Rightarrow> bytes option \<Rightarrow> gw \<Rightarrow> gw" where
  "processClientMessage env allowed now hdr body w =
     (if \<not> gcConn (gwCl w) then w
      else case hdr of
        HdrEOF \<Rightarrow> gc_Close env w
      | HdrClosed \<Rightarrow> gc_Close env w
      | HdrError \<Rightarrow> emit EvReadError w
      | HdrOk h \<Rightarrow>
          if whLength h > MaxFrameSize then handleProtocolError env (FrameTooLarge (whLength h)) w
          else case (if whLength h > 0 then body else Some []) of
                 None \<Rightarrow> gc_Close env (emit EvReadError w)
               | Some payload \<Rightarrow>
                   (case validateFrame h of
                      Some err \<Rightarrow> handleProtocolError env err w
                    | None \<Rightarrow>
                        handleFrame env allowed now h payload (w\<lparr>gwCl := noteRead now (gwCl w)\<rparr>)))"

definition resumeRead :: "gw \<Rightarrow> gw" where
  "resumeRead w = (if gcClosed (gwCl w) \<or> \<not> gcDesc (gwCl w) then w else emit EvResume w)"

definition handleClientData ::
    "gw_env \<Rightarrow> bool \<Rightarrow> bool \<Rightarrow> int \<Rightarrow> hdr_read \<Rightarrow> bytes option \<Rightarrow> gw \<Rightarrow> gw" where
  "handleClientData env submitted allowed now hdr body w =
     (if submitted then resumeRead (processClientMessage env allowed now hdr body w)
      else resumeRead w)"

definition poller_callback ::
    "gw_env \<Rightarrow> bool \<Rightarrow> bool \<Rightarrow> bool \<Rightarrow> int \<Rightarrow> hdr_read \<Rightarrow> bytes option \<Rightarrow> gw \<Rightarrow> gw" where
  "poller_callback env readHup submitted allowed now hdr body w =
     (if readHup then gc_Close env w else handleClientData env submitted allowed now hdr body w)"

subsection \<open>NewConnection\<close>

text \<open>
  The system calls of \<open>NewConnection\<close> that can fail: checking the descriptor of a TCP
  connection, creating the poll descriptor, and starting to poll.
\<close>

record accept_env =
  aeHealthy :: bool
  aeConnNil :: bool
  aeFileErr :: bool
  aeDescErr :: bool
  aeStartErr :: bool

definition new_client :: "WebsocketAuth \<Rightarrow> int \<Rightarrow> GobwasConnection" where
  "new_client propAuth now = \<lparr>gcAuth = propAuth, gcServer = True, gcConn = True, gcDesc = False,
     gcClosed = False, gcCloseTx = False, gcCloseRx = False, gcLastReadAt = now, gcLastPingAt = 0,
     gcLastPongAt = 0, gcAwaitingPong = False\<rparr>"

definition NewConnection ::
    "gw_env \<Rightarrow> accept_env \<Rightarrow> int \<Rightarrow> int \<Rightarrow> WebsocketAuth \<Rightarrow> NetpollServer \<Rightarrow>
     (gw, ErrorCode) outcome \<times> NetpollServer \<times> gw_event list" where
  "NewConnection env ae maxConns now propAuth s =
     (if \<not> aeHealthy ae then (Err ErrServerIsShuttingDown, s, [])
      else if aeConnNil ae then (Err ErrUnexpectedSyscall, s, [])
      else case reserveSlot maxConns s of
        ((_, False), s) \<Rightarrow> (Err ErrServerAtCapacity, s\<lparr>nsRejected := nsRejected s + 1\<rparr>, [EvConnClose])
      | ((_, True), s) \<Rightarrow>
          if aeFileErr ae then (Err ErrUnexpectedSyscall, releaseSlot s, [EvConnClose])
          else
            let s = s\<lparr>nsAccepted := nsAccepted s + 1\<rparr> in
            if aeDescErr ae then
              (Err ErrUnexpectedSyscall,
               (releaseSlot s)\<lparr>nsClosed := nsClosed s + 1\<rparr>, [EvConnClose])
            else
              let client = (new_client propAuth now)\<lparr>gcDesc := True\<rparr>;
                  w = \<lparr>gwSrv = s, gwCl = client, gwWrites = [], gwLog = []\<rparr> in
              if aeStartErr ae then
                (let w = gc_Close env w in (Err ErrUnexpectedSyscall, gwSrv w, gwLog w))
              else (Ok w, s, []))"

subsection \<open>Concurrent admission\<close>

text \<open>
  The accesses of \<open>reserveSlot\<close>, \<open>releaseSlot\<close> and \<open>removeClient\<close> to the shared
  counter, one atomic access per step, for any number of connections.  A connection is
  between the load and the compare-and-swap, holds its slot, or has won the closing
  compare-and-swap and has still to give its slot back.
\<close>

datatype slot_state = Loaded int | Held | Removing

record slots =
  slCount :: int
  slThreads :: "(nat, slot_state) gomap"

definition slot_load :: "int \<Rightarrow> nat \<Rightarrow> slots \<Rightarrow> slots" where
  "slot_load maxConns t s =
     (if maxConns \<le> 0 then s\<lparr>slCount := slCount s + 1, slThreads := gm_put t Held (slThreads s)\<rparr>
      else if slCount s \<ge> maxConns then s
      else s\<lparr>slThreads := gm_put t (Loaded (slCount s)) (slThreads s)\<rparr>)"

definition slot_cas :: "nat \<Rightarrow> int \<Rightarrow> slots \<Rightarrow> slots" where
  "slot_cas t cur s =
     (if slCount s = cur then s\<lparr>slCount := cur + 1, slThreads := gm_put t Held (slThreads s)\<rparr>
      else s\<lparr>slThreads := gm_del t (slThreads s)\<rparr>)"

definition slot_close :: "nat \<Rightarrow> slots \<Rightarrow> slots" where
  "slot_close t s = s\<lparr>slThreads := gm_put t Removing (slThreads s)\<rparr>"

definition slot_dec :: "nat \<Rightarrow> slots \<Rightarrow> slots" where
  "slot_dec t s = s\<lparr>slCount := slCount s - 1, slThreads := gm_del t (slThreads s)\<rparr>"

inductive slot_step :: "int \<Rightarrow> slots \<Rightarrow> slots \<Rightarrow> bool" for maxConns :: int where
  sload: "gm_get (slThreads s) t = None \<Longrightarrow> slot_step maxConns s (slot_load maxConns t s)"
| scas: "gm_get (slThreads s) t = Some (Loaded cur) \<Longrightarrow> slot_step maxConns s (slot_cas t cur s)"
| sfail: "gm_get (slThreads s) t = Some Held \<Longrightarrow> slot_step maxConns s (slot_dec t s)"
| sclose: "gm_get (slThreads s) t = Some Held \<Longrightarrow> slot_step maxConns s (slot_close t s)"
| sdec: "gm_get (slThreads s) t = Some Removing \<Longrightarrow> slot_step maxConns s (slot_dec t s)"

definition slot_init :: "slots \<Rightarrow> bool" where
  "slot_init s \<longleftrightarrow> s = \<lparr>slCount = 0, slThreads = []\<rparr>"

text \<open>The connections that occupy a slot.\<close>

definition slot_holders :: "slots \<Rightarrow> nat set" where
  "slot_holders s = {t. gm_get (slThreads s) t = Some Held \<or> gm_get (slThreads s) t = Some Removing}"

definition slot_inv :: "int \<Rightarrow> slots \<Rightarrow> bool" where
  "slot_inv maxConns s \<longleftrightarrow>
     slCount s = int (card (slot_holders s)) \<and>
     (maxConns > 0 \<longrightarrow> slCount s \<le> maxConns \<and>
        (\<forall>t cur. gm_get (slThreads s) t = Some (Loaded cur) \<longrightarrow> cur < maxConns))"

lemma finite_slot_holders [simp]: "finite (slot_holders s)"
proof (rule finite_subset)
  show "slot_holders s \<subseteq> set (gm_keys (slThreads s))" by (auto simp: slot_holders_def set_gm_keys)
qed simp

lemma slot_holders_upd:
  "slot_holders (s\<lparr>slCount := n, slThreads := gm_put t v (slThreads s)\<rparr>) =
     (if v = Held \<or> v = Removing then insert t (slot_holders s) else slot_holders s - {t})"
  "slot_holders (s\<lparr>slCount := n, slThreads := gm_del t (slThreads s)\<rparr>) = slot_holders s - {t}"
  "slot_holders (s\<lparr>slThreads := gm_put t v (slThreads s)\<rparr>) =
     (if v = Held \<or> v = Removing then insert t (slot_holders s) else slot_holders s - {t})"
  "slot_holders (s\<lparr>slThreads := gm_del t (slThreads s)\<rparr>) = slot_holders s - {t}"
  by (auto simp: slot_holders_def split: if_splits)

lemma card_holders_pos: "t \<in> slot_holders s \<Longrightarrow> Suc 0 \<le> card (slot_holders s)"
  using card_gt_0_iff [of "slot_holders s"] by auto

lemma slot_inv_step: "\<lbrakk>slot_step m s s'; slot_inv m s\<rbrakk> \<Longrightarrow> slot_inv m s'"
proof (induction rule: slot_step.induct)
  case (sload s t)
  then have "t \<notin> slot_holders s" by (simp add: slot_holders_def)
  then show ?case using sload
    by (auto simp: slot_inv_def slot_load_def slot_holders_upd split: if_splits)
next
  case (scas s t cur)
  then have "t \<notin> slot_holders s" "m > 0 \<longrightarrow> cur < m"
    unfolding slot_holders_def slot_inv_def by auto
  then show ?case using scas
    by (cases "m > 0") (simp_all add: slot_inv_def slot_cas_def slot_holders_upd add1_zle_eq)
next
  case (sfail s t)
  then have "t \<in> slot_holders s" by (simp add: slot_holders_def)
  then show ?case using sfail
    using card_holders_pos [of t s] by (auto simp: slot_inv_def slot_dec_def slot_holders_upd of_nat_diff)
next
  case (sclose s t)
  then have "insert t (slot_holders s) = slot_holders s" by (auto simp: slot_holders_def)
  then show ?case using sclose
    by (auto simp: slot_inv_def slot_close_def slot_holders_upd split: if_splits)
next
  case (sdec s t)
  then have "t \<in> slot_holders s" by (simp add: slot_holders_def)
  then show ?case using sdec
    using card_holders_pos [of t s] by (auto simp: slot_inv_def slot_dec_def slot_holders_upd of_nat_diff)
qed

interpretation slot: step_invariant slot_init "slot_step m" "slot_inv m" for m
proof unfold_locales
  fix s assume "slot_init s"
  then show "slot_inv m s" by (simp add: slot_init_def slot_inv_def slot_holders_def)
next
  fix s s' assume "slot_inv m s" "slot_step m s s'"
  then show "slot_inv m s'" by (rule slot_inv_step [rotated])
qed

text \<open>C34: However accepts, failed accepts and closes interleave, the connection counter is
  exactly the number of connections that occupy a slot, so slots are neither leaked nor
  returned twice, and with a cap configured the counter never exceeds it.\<close>

theorem slot_cap_exact:
  assumes "reachable slot_init (slot_step maxConns) s"
  shows "slCount s = int (card (slot_holders s)) \<and> (maxConns > 0 \<longrightarrow> slCount s \<le> maxConns)"
  using slot.reachable_invar [OF assms] unfolding slot_inv_def by blast

theorem slot_cap_exact_witness:
  "slCount (slot_cas 7 0 (slot_load 1 7 \<lparr>slCount = 0, slThreads = []\<rparr>)) \<le> 1 \<and>
   slot_holders (slot_cas 7 0 (slot_load 1 7 \<lparr>slCount = 0, slThreads = []\<rparr>)) = {7}"
proof -
  let ?s0 = "\<lparr>slCount = 0, slThreads = []\<rparr>"
  let ?s1 = "slot_load 1 7 ?s0"
  have "reachable slot_init (slot_step 1) ?s0" by (rule reach_init) (simp add: slot_init_def)
  then have "reachable slot_init (slot_step 1) ?s1" by (rule reach_step) (rule sload, simp)
  then have r: "reachable slot_init (slot_step 1) (slot_cas 7 0 ?s1)"
    by (rule reach_step) (rule scas, simp add: slot_load_def)
  have "slot_holders (slot_cas 7 0 ?s1) = {7}"
    by (auto simp: slot_cas_def slot_load_def slot_holders_def split: if_splits)
  then show ?thesis using slot_cap_exact [OF r] by simp
qed

subsection \<open>One connection under any sequence of operations\<close>

datatype gw_cmd =
    CmdPoll bool bool bool int hdr_read "bytes option"
  | CmdSend bytes
  | CmdPing bool int
  | CmdClose
  | CmdCloseWithReason nat gostring

fun gw_exec :: "gw_env \<Rightarrow> gw_cmd \<Rightarrow> gw \<Rightarrow> gw" where
  "gw_exec env (CmdPoll hup submitted allowed now hdr body) w =
     poller_callback env hup submitted allowed now hdr body w"
| "gw_exec env (CmdSend payload) w = snd (gc_Send env payload w)"
| "gw_exec env (CmdPing accepted now) w = gc_Ping env accepted now w"
| "gw_exec env CmdClose w = gc_Close env w"
| "gw_exec env (CmdCloseWithReason code reason) w = CloseWithReason env code reason w"

fun is_close_write :: "gw_event \<Rightarrow> bool" where
  "is_close_write (EvWrite (OutClose _ _) _) = True"
| "is_close_write _ = False"

fun is_onclose :: "gw_event \<Rightarrow> bool" where
  "is_onclose (EvOnClose _) = True"
| "is_onclose _ = False"

definition after_stop :: "gw_event list \<Rightarrow> gw_event list" where
  "after_stop evs = dropWhile (\<lambda>e. e \<noteq> EvPollerStop) evs"

definition gw_inv :: "int \<Rightarrow> gw \<Rightarrow> bool" where
  "gw_inv n w \<longleftrightarrow>
     length (filter is_close_write (gwLog w)) \<le> (if gcCloseTx (gwCl w) then 1 else 0) \<and>
     length (filter is_onclose (gwLog w)) = (if gcClosed (gwCl w) then 1 else 0) \<and>
     nsConnections (gwSrv w) = n - (if gcClosed (gwCl w) then 1 else 0) \<and>
     (gcClosed (gwCl w) \<longrightarrow> \<not> gcDesc (gwCl w)) \<and>
     (\<not> gcClosed (gwCl w) \<longrightarrow> EvPollerStop \<notin> set (gwLog w)) \<and>
     EvResume \<notin> set (after_stop (gwLog w))"

lemma after_stop_snoc: "set (after_stop (evs @ [e])) \<subseteq> insert e (set (after_stop evs))"
  by (induction evs) (auto simp: after_stop_def)

lemma after_stop_Nil: "EvPollerStop \<notin> set evs \<Longrightarrow> after_stop evs = []"
  by (auto simp: after_stop_def)

text \<open>Events that concern neither the close handshake nor the poll descriptor.\<close>

fun neutral :: "gw_event \<Rightarrow> bool" where
  "neutral (EvWrite (OutClose _ _) _) = False"
| "neutral (EvOnClose _) = False"
| "neutral EvResume = False"
| "neutral EvPollerStop = False"
| "neutral _ = True"

lemma neutralD:
  "neutral e \<Longrightarrow> \<not> is_close_write e \<and> \<not> is_onclose e \<and> e \<noteq> EvResume \<and> e \<noteq> EvPollerStop"
  by (cases e rule: neutral.cases) auto

lemma gw_inv_emit [inv_intros]: "\<lbrakk>gw_inv n w; neutral e\<rbrakk> \<Longrightarrow> gw_inv n (emit e w)"
  using after_stop_snoc [of "gwLog w" e] neutralD [of e]
  by (auto simp: gw_inv_def emit_def)

lemma gw_inv_client:
  "\<lbrakk>gw_inv n w; gcCloseTx c = gcCloseTx (gwCl w); gcClosed c = gcClosed (gwCl w); gcDesc c = gcDesc (gwCl w)\<rbrakk>
   \<Longrightarrow> gw_inv n (w\<lparr>gwCl := c\<rparr>)"
  by (simp add: gw_inv_def)

lemma gw_inv_writes: "gw_inv n w \<Longrightarrow> gw_inv n (w\<lparr>gwWrites := ws\<rparr>)"
  by (simp add: gw_inv_def)

lemma gw_inv_removeClient [inv_intros]: "gw_inv n w \<Longrightarrow> gw_inv n (removeClient w)"
  by (auto simp: gw_inv_def removeClient_def emit_def Let_def after_stop_def dropWhile_append
      split: if_splits)

lemma gw_inv_Close [inv_intros]: "gw_inv n w \<Longrightarrow> gw_inv n (gc_Close env w)"
  by (simp add: gc_Close_def Let_def gw_inv_emit gw_inv_removeClient)

lemma gw_inv_writeFrame [inv_intros]:
  "\<lbrakk>gw_inv n w; \<forall>ok. neutral (EvWrite f ok)\<rbrakk> \<Longrightarrow> gw_inv n (snd (writeFrame f w))"
  by (simp add: writeFrame_def gw_inv_emit gw_inv_writes split: list.split)

lemma gw_inv_writeCloseOnce [inv_intros]: "gw_inv n w \<Longrightarrow> gw_inv n (snd (writeCloseOnce code reason w))"
proof -
  assume inv: "gw_inv n w"
  have "EvResume \<notin> set (after_stop (gwLog w @ [EvWrite (OutClose code reason) ok]))" for ok
    using inv after_stop_snoc [of "gwLog w" "EvWrite (OutClose code reason) ok"] by (auto simp: gw_inv_def)
  then show ?thesis using inv
    by (auto simp: gw_inv_def writeCloseOnce_def MarkCloseSentIfFirst_def writeFrame_def emit_def
        split: list.split if_splits)
qed

lemma gw_inv_CloseWithReason [inv_intros]: "gw_inv n w \<Longrightarrow> gw_inv n (CloseWithReason env code reason w)"
  by (simp add: CloseWithReason_def Let_def gw_inv_Close gw_inv_writeCloseOnce)

lemma gw_inv_handleProtocolError [inv_intros]: "gw_inv n w \<Longrightarrow> gw_inv n (handleProtocolError env err w)"
  by (simp add: handleProtocolError_def gw_inv_Close gw_inv_writeCloseOnce)

lemma gw_inv_send [inv_intros]: "gw_inv n w \<Longrightarrow> gw_inv n (snd (ns_send env payload w))"
  using gw_inv_writeFrame [of n w "OutBinary payload"]
  by (auto simp: ns_send_def gw_inv_Close gw_inv_emit split: prod.split bool.split)

lemma gw_inv_send_all [inv_intros]: "gw_inv n w \<Longrightarrow> gw_inv n (send_all env ps w)"
  unfolding send_all_def by (induction ps arbitrary: w) (simp_all add: gw_inv_send)

lemma gw_inv_ping [inv_intros]: "gw_inv n w \<Longrightarrow> gw_inv n (ns_ping env accepted now w)"
proof -
  assume inv: "gw_inv n w"
  obtain act c where p: "nextPingAction (gePingIdleAfter env) (gePongTimeout env) now (gwCl w) = (act, c)"
    by (cases "nextPingAction (gePingIdleAfter env) (gePongTimeout env) now (gwCl w)")
  then have c: "gw_inv n (w\<lparr>gwCl := c\<rparr>)"
    by (intro gw_inv_client [OF inv]) (auto simp: nextPingAction_def split: if_splits)
  then have "gw_inv n (snd (writeFrame OutPing (w\<lparr>gwCl := c\<rparr>)))" by (rule gw_inv_writeFrame) simp
  then show ?thesis using inv c
    by (auto simp: ns_ping_def p gw_inv_Close gw_inv_emit split: pingAction.split prod.split bool.split)
qed

lemma gw_inv_handleCloseFrame [inv_intros]: "gw_inv n w \<Longrightarrow> gw_inv n (snd (handleCloseFrame env payload w))"
proof -
  assume "gw_inv n w"
  then have inv: "gw_inv n (w\<lparr>gwCl := MarkCloseReceived (gwCl w)\<rparr>)"
    by (rule gw_inv_client) (simp_all add: MarkCloseReceived_def)
  have "gw_inv n w'" if "writeCloseOnce code reason (w\<lparr>gwCl := MarkCloseReceived (gwCl w)\<rparr>) = (e, w')"
    for code reason e w'
    using gw_inv_writeCloseOnce [OF inv, of code reason] by (simp add: that)
  then show ?thesis
    by (auto simp: handleCloseFrame_def Let_def gw_inv_Close split: prod.split bool.split)
qed

lemma gw_inv_handleFrame [inv_intros]: "gw_inv n w \<Longrightarrow> gw_inv n (handleFrame env allowed now h raw w)"
proof -
  assume inv: "gw_inv n w"
  have pong: "gw_inv n (snd (handlePingFrame allowed p w))" for p
    using gw_inv_writeFrame [OF inv, of "OutPong p"]
    by (auto simp: handlePingFrame_def inv split: prod.split)
  have rcv: "gw_inv n (snd (handlePongFrame now w))"
    using inv by (simp add: handlePongFrame_def) (erule gw_inv_client, simp_all add: notePong_def)
  note cl = gw_inv_handleCloseFrame [OF inv]
  have data: "gw_inv n (snd (handleTextFrame env p f w))" "gw_inv n (snd (handleBinaryFrame env p f w))" for p f
    using inv by (simp_all add: handleTextFrame_def handleBinaryFrame_def gw_inv_send_all gw_inv_emit)
  have res: "gw_inv n (case err of None \<Rightarrow> w' | Some e \<Rightarrow> handleProtocolError env e w')"
    if "gw_inv n w'" for err w'
    using that by (simp add: gw_inv_handleProtocolError split: option.split)
  show ?thesis
    unfolding handleFrame_def Let_def case_prod_beta
    by (rule res) (simp add: data cl pong rcv inv handleContinuationFrame_def)
qed

lemma gw_inv_process [inv_intros]: "gw_inv n w \<Longrightarrow> gw_inv n (processClientMessage env allowed now hdr body w)"
proof -
  assume inv: "gw_inv n w"
  then have "gw_inv n (w\<lparr>gwCl := noteRead now (gwCl w)\<rparr>)"
    by (rule gw_inv_client) (simp_all add: noteRead_def)
  then show ?thesis using inv
    by (auto simp: processClientMessage_def gw_inv_Close gw_inv_emit gw_inv_handleProtocolError
        gw_inv_handleFrame split: hdr_read.split option.split)
qed

lemma gw_inv_resume [inv_intros]: "gw_inv n w \<Longrightarrow> gw_inv n (resumeRead w)"
  by (auto simp: resumeRead_def gw_inv_def emit_def after_stop_def dropWhile_append)

lemma gw_inv_exec: "gw_inv n w \<Longrightarrow> gw_inv n (gw_exec env cmd w)"
  by (cases cmd) (simp_all add: poller_callback_def handleClientData_def gc_Send_def gc_Ping_def
      gw_inv_Close gw_inv_resume gw_inv_process gw_inv_send gw_inv_ping gw_inv_CloseWithReason)

lemma gw_inv_run: "gw_inv n w \<Longrightarrow> gw_inv n (fold (gw_exec env) cmds w)"
  by (induction cmds arbitrary: w) (simp_all add: gw_inv_exec)

lemma NewConnection_inv:
  "NewConnection env ae m now a s = (Ok w, s', evs) \<Longrightarrow> gw_inv (nsConnections s') w \<and> gwSrv w = s' \<and> gwWrites w = []"
  by (auto simp: NewConnection_def Let_def gw_inv_def new_client_def after_stop_def
      split: if_splits prod.splits bool.splits)

text \<open>C9: Whatever a client sends, however writes fail, and however often the server
  closes, pings or sends: over the life of a connection at most one close frame is
  written, the close callback runs exactly once if the connection is closed and not at
  all before, its slot is given back exactly once, and the poll descriptor is never
  resumed after it has been stopped.\<close>

theorem gob_close_once:
  assumes "NewConnection env ae maxConns now a s = (Ok w0, s1, evs)"
    and "w = fold (gw_exec env) cmds (w0\<lparr>gwWrites := results\<rparr>)"
  shows "length (filter is_close_write (gwLog w)) \<le> 1 \<and>
    length (filter is_onclose (gwLog w)) = (if gcClosed (gwCl w) then 1 else 0) \<and>
    nsConnections (gwSrv w) = nsConnections s1 - (if gcClosed (gwCl w) then 1 else 0) \<and>
    EvResume \<notin> set (after_stop (gwLog w))"
proof -
  have "gw_inv (nsConnections s1) w"
    unfolding assms(2) using NewConnection_inv [OF assms(1)] by (intro gw_inv_run gw_inv_writes) simp
  then show ?thesis by (auto simp: gw_inv_def split: if_splits)
qed

definition ex_env :: gw_env where
  "ex_env = \<lparr>geCipher = \<lambda>p m. p, geOnText = \<lambda>p. [], geOnBin = \<lambda>p. [p], gePingIdleAfter = 30,
     gePongTimeout = 10, geOnCloseConnection = True\<rparr>"

definition ex_accept :: accept_env where
  "ex_accept = \<lparr>aeHealthy = True, aeConnNil = False, aeFileErr = False, aeDescErr = False, aeStartErr = False\<rparr>"

definition ex_server :: NetpollServer where
  "ex_server = \<lparr>nsConnections = 3, nsAccepted = 5, nsClosed = 2, nsRejected = 0\<rparr>"

definition ex_client :: gw where
  "ex_client = \<lparr>gwSrv = ex_server\<lparr>nsConnections := 4, nsAccepted := 6\<rparr>,
     gwCl = (new_client \<lparr>auUserID = ''u'', auInstanceID = ''i'', auMetadata = []\<rparr> 100)\<lparr>gcDesc := True\<rparr>,
     gwWrites = [], gwLog = []\<rparr>"

lemma ex_NewConnection:
  "NewConnection ex_env ex_accept 10 100 \<lparr>auUserID = ''u'', auInstanceID = ''i'', auMetadata = []\<rparr> ex_server =
   (Ok ex_client, gwSrv ex_client, [])"
  by (simp add: NewConnection_def reserveSlot_def ex_accept_def ex_server_def ex_client_def Let_def)

theorem gob_close_once_witness:
  "nsConnections (gwSrv (fold (gw_exec ex_env) [CmdClose, CmdClose] ex_client)) = 3 \<and>
   length (filter is_onclose (gwLog (fold (gw_exec ex_env) [CmdClose, CmdClose] ex_client))) = 1"
proof -
  have e: "ex_client\<lparr>gwWrites := []\<rparr> = ex_client" by (simp add: ex_client_def)
  have "gcClosed (gwCl (fold (gw_exec ex_env) [CmdClose, CmdClose] ex_client))"
    by (simp add: gc_Close_def removeClient_def Let_def emit_def ex_client_def new_client_def)
  then show ?thesis
    using gob_close_once [OF ex_NewConnection, of _ "[CmdClose, CmdClose]" "[]", unfolded e, OF refl]
    by (simp add: ex_client_def ex_server_def del: fold_simps)
qed

text \<open>Admission is accounted for on every path of \<open>NewConnection\<close>: a connection that is
  returned took one slot and counts as accepted, every failure leaves the slot count
  as it was, and accepted minus closed connections always moves with the slot count.\<close>

theorem NewConnection_balance:
  "case NewConnection env ae maxConns now a s of (r, s', evs) \<Rightarrow>
     r \<noteq> Panic \<and>
     nsConnections s' = nsConnections s + (if is_ok r then 1 else 0) \<and>
     nsAccepted s' - nsClosed s' = nsAccepted s - nsClosed s + (if is_ok r then 1 else 0) \<and>
     (r = Err ErrServerAtCapacity \<longleftrightarrow>
        aeHealthy ae \<and> \<not> aeConnNil ae \<and> 0 < maxConns \<and> maxConns \<le> nsConnections s) \<and>
     (is_ok r \<or> aeConnNil ae \<or> \<not> aeHealthy ae \<longleftrightarrow> EvConnClose \<notin> set evs)"
  by (auto simp: NewConnection_def reserveSlot_def releaseSlot_def Let_def gc_Close_def removeClient_def
      emit_def new_client_def aerror_codes)

subsection \<open>Keep-alive\<close>

text \<open>A history of the connection: a frame is read, a pong arrives, the ping checker runs.\<close>

datatype ka_event = KaRead int | KaPong int | KaTick int

fun ka_step :: "int \<Rightarrow> int \<Rightarrow> ka_event \<Rightarrow> GobwasConnection \<Rightarrow> GobwasConnection" where
  "ka_step idle tmo (KaRead now) c = noteRead now c"
| "ka_step idle tmo (KaPong now) c = notePong now c"
| "ka_step idle tmo (KaTick now) c = snd (nextPingAction idle tmo now c)"

definition ka_run :: "int \<Rightarrow> int \<Rightarrow> ka_event list \<Rightarrow> GobwasConnection \<Rightarrow> GobwasConnection" where
  "ka_run idle tmo h c = fold (ka_step idle tmo) h c"

fun is_tick :: "ka_event \<Rightarrow> bool" where
  "is_tick (KaTick _) = True"
| "is_tick _ = False"

lemma awaiting_since:
  assumes "\<not> gcAwaitingPong c" "gcAwaitingPong (ka_run idle tmo h c)"
  shows "\<exists>h1 p h2. h = h1 @ KaTick p # h2 \<and> fst (nextPingAction idle tmo p (ka_run idle tmo h1 c)) = pingActionSend \<and>
    list_all is_tick h2 \<and> gcLastPingAt (ka_run idle tmo h c) = p"
  using assms(2)
proof (induction h rule: rev_induct)
  case Nil
  then show ?case using assms(1) by (simp add: ka_run_def)
next
  case (snoc e h)
  let ?c = "ka_run idle tmo h c"
  have step: "ka_run idle tmo (h @ [e]) c = ka_step idle tmo e ?c" by (simp add: ka_run_def)
  then obtain p where e: "e = KaTick p"
    using snoc.prems by (cases e) (simp_all add: noteRead_def notePong_def)
  show ?case
  proof (cases "gcAwaitingPong ?c")
    case True
    then obtain h1 q h2 where h: "h = h1 @ KaTick q # h2"
      "fst (nextPingAction idle tmo q (ka_run idle tmo h1 c)) = pingActionSend" "list_all is_tick h2"
      "gcLastPingAt ?c = q"
      using snoc.IH by blast
    have "gcLastPingAt (ka_step idle tmo e ?c) = gcLastPingAt ?c"
      using True by (simp add: e nextPingAction_def)
    then show ?thesis unfolding step using h e
      by (intro exI [of _ h1] exI [of _ q] exI [of _ "h2 @ [e]"]) simp
  next
    case False
    then have "fst (nextPingAction idle tmo p ?c) = pingActionSend \<and> gcLastPingAt (ka_step idle tmo e ?c) = p"
      using snoc.prems unfolding step by (auto simp: e nextPingAction_def split: if_splits)
    then show ?thesis unfolding step
      by (intro exI [of _ h] exI [of _ p] exI [of _ "[]"]) (simp add: e)
  qed
qed

text \<open>The ping checker closes a connection only if it sent a ping at least \<open>pongTimeout\<close>
  ago and nothing at all has been received since.\<close>

theorem ping_close_justified:
  assumes "fst (nextPingAction idle tmo now (ka_run idle tmo h (new_client a start))) = pingActionClose"
  shows "\<exists>h1 p h2. h = h1 @ KaTick p # h2 \<and>
    fst (nextPingAction idle tmo p (ka_run idle tmo h1 (new_client a start))) = pingActionSend \<and>
    list_all is_tick h2 \<and> now - p \<ge> tmo"
proof -
  let ?c = "ka_run idle tmo h (new_client a start)"
  have aw: "gcAwaitingPong ?c" and t: "now - gcLastPingAt ?c \<ge> tmo"
    using assms by (auto simp: nextPingAction_def split: if_splits)
  have "\<not> gcAwaitingPong (new_client a start)" by (simp add: new_client_def)
  then obtain h1 p h2 where h: "h = h1 @ KaTick p # h2"
    "fst (nextPingAction idle tmo p (ka_run idle tmo h1 (new_client a start))) = pingActionSend"
    "list_all is_tick h2" "gcLastPingAt ?c = p"
    using awaiting_since aw by blast
  have "now - p \<ge> tmo" using t by (simp only: h(4))
  then show ?thesis using h(1,2,3) by blast
qed

definition ex_auth :: WebsocketAuth where
  "ex_auth = \<lparr>auUserID = ''u'', auInstanceID = ''i'', auMetadata = []\<rparr>"

theorem ping_close_justified_witness:
  "\<exists>h1 p h2. [KaRead 5, KaTick 40, KaTick 45] = h1 @ KaTick p # h2 \<and>
    fst (nextPingAction 30 10 p (ka_run 30 10 h1 (new_client ex_auth 0))) = pingActionSend \<and>
    list_all is_tick h2 \<and> 50 - p \<ge> 10"
  by (rule ping_close_justified) (simp add: ka_run_def nextPingAction_def noteRead_def new_client_def)

text \<open>
  What may happen on the connection of a peer from which nothing arrives: sends, runs of the
  ping checker at times that satisfy \<open>P\<close> or whose task the pool refuses, and poller events
  whose task the pool refuses.
\<close>

fun quiet :: "(int \<Rightarrow> bool) \<Rightarrow> gw_cmd \<Rightarrow> bool" where
  "quiet P (CmdPoll hup submitted allowed now hdr body) \<longleftrightarrow> \<not> hup \<and> \<not> submitted"
| "quiet P (CmdSend payload) \<longleftrightarrow> True"
| "quiet P (CmdPing accepted now) \<longleftrightarrow> (accepted \<longrightarrow> P now)"
| "quiet P CmdClose \<longleftrightarrow> False"
| "quiet P (CmdCloseWithReason code reason) \<longleftrightarrow> False"

fun is_ping_write :: "gw_event \<Rightarrow> bool" where
  "is_ping_write (EvWrite OutPing _) = True"
| "is_ping_write _ = False"

lemma quiet_exec:
  assumes "quiet P cmd" "\<And>t. P t \<Longrightarrow> nextPingAction (gePingIdleAfter env) (gePongTimeout env) t (gwCl w) = (pingActionSkip, gwCl w)"
    and "gcConn (gwCl w)" "gwWrites w = []"
  shows "gwCl (gw_exec env cmd w) = gwCl w \<and> gwWrites (gw_exec env cmd w) = [] \<and>
    filter is_ping_write (gwLog (gw_exec env cmd w)) = filter is_ping_write (gwLog w)"
  using assms by (cases cmd)
    (auto simp: poller_callback_def handleClientData_def resumeRead_def emit_def gc_Send_def ns_send_def writeFrame_def
      gc_Ping_def ns_ping_def)

lemma quiet_run:
  assumes "list_all (quiet P) cmds" "\<And>t. P t \<Longrightarrow> nextPingAction (gePingIdleAfter env) (gePongTimeout env) t (gwCl w) = (pingActionSkip, gwCl w)"
    and "gcConn (gwCl w)" "gwWrites w = []"
  shows "gwCl (fold (gw_exec env) cmds w) = gwCl w \<and> gwWrites (fold (gw_exec env) cmds w) = [] \<and>
    filter is_ping_write (gwLog (fold (gw_exec env) cmds w)) = filter is_ping_write (gwLog w)"
  using assms
proof (induction cmds arbitrary: w)
  case (Cons cmd cmds)
  then have "quiet P cmd" by simp
  from quiet_exec [OF this Cons.prems(2-4)] show ?case
    using Cons.IH [of "gw_exec env cmd w"] Cons.prems by simp
qed simp

lemma gc_Close_events:
  assumes "gcServer (gwCl w)" "gcConn (gwCl w)" "\<not> gcClosed (gwCl w)"
  shows "gcClosed (gwCl (gc_Close env w)) \<and> (\<exists>evs. gwLog (gc_Close env w) = gwLog w @ evs \<and> EvConnClose \<in> set evs \<and>
    filter is_onclose evs = [EvOnClose (gcAuth (gwCl w))] \<and> (EvPollerStop \<in> set evs \<longleftrightarrow> gcDesc (gwCl w)))"
  using assms by (simp add: gc_Close_def removeClient_def Let_def emit_def)

text \<open>C35: A silent peer is detected.  Take an open connection that awaits no pong, and let
  nothing arrive on it while the server sends, polls and runs its ping checker, some of
  whose tasks the worker pool may refuse; let writes to the socket succeed.  Checks
  before \<open>pingIdleAfter\<close> has passed since the last read write no ping; the first accepted check
  after it writes one ping; accepted checks less than \<open>pongTimeout\<close> after that write no further
  ping and keep the connection open; and the first accepted check at least \<open>pongTimeout\<close> after
  the ping closes the connection: the socket is closed, the poll descriptor is stopped if
  there is one, and the close callback runs once.  If writing the ping fails the connection
  is closed at once.\<close>

theorem silent_peer_closed:
  assumes "gcServer c" "gcConn c" "\<not> gcClosed c" "\<not> gcAwaitingPong c" "gwCl w = c" "gwWrites w = []"
    and "list_all (quiet (\<lambda>t. t - gcLastReadAt c < gePingIdleAfter env)) pre" "t1 - gcLastReadAt c \<ge> gePingIdleAfter env"
    and "list_all (quiet (\<lambda>t. t - t1 < gePongTimeout env)) mid" "t2 - t1 \<ge> gePongTimeout env"
    and "w1 = fold (gw_exec env) pre w" "w2 = gw_exec env (CmdPing True t1) w1"
    and "w3 = fold (gw_exec env) mid w2" "w4 = gw_exec env (CmdPing True t2) w3"
  shows "filter is_ping_write (gwLog w1) = filter is_ping_write (gwLog w) \<and> gwCl w1 = c \<and>
    gwLog w2 = gwLog w1 @ [EvWrite OutPing True] \<and>
    filter is_ping_write (gwLog w3) = filter is_ping_write (gwLog w2) \<and> \<not> gcClosed (gwCl w3) \<and>
    gcClosed (gwCl w4) \<and> (\<exists>evs. gwLog w4 = gwLog w3 @ evs \<and> EvConnClose \<in> set evs \<and>
      filter is_onclose evs = [EvOnClose (gcAuth c)] \<and> (EvPollerStop \<in> set evs \<longleftrightarrow> gcDesc c)) \<and>
    gcClosed (gwCl (gw_exec env (CmdPing True t1) (w1\<lparr>gwWrites := [False]\<rparr>)))"
proof -
  have w1: "gwCl w1 = c" "gwWrites w1 = []" "filter is_ping_write (gwLog w1) = filter is_ping_write (gwLog w)"
    using quiet_run [OF assms(7), of env w] assms(2,4,5,6) by (auto simp: assms(11) nextPingAction_def)
  let ?c2 = "c\<lparr>gcAwaitingPong := True, gcLastPingAt := t1\<rparr>"
  have send: "nextPingAction (gePingIdleAfter env) (gePongTimeout env) t1 c = (pingActionSend, ?c2)"
    using assms(4,8) by (simp add: nextPingAction_def)
  have w2: "gwCl w2 = ?c2" "gwWrites w2 = []" "gwLog w2 = gwLog w1 @ [EvWrite OutPing True]"
    using assms(1,2) w1 by (simp_all add: assms(12) gc_Ping_def ns_ping_def send writeFrame_def emit_def)
  have w3: "gwCl w3 = ?c2" "filter is_ping_write (gwLog w3) = filter is_ping_write (gwLog w2)"
    using quiet_run [OF assms(9), of env w2] assms(2) w2 by (auto simp: assms(13) nextPingAction_def)
  have same: "w3\<lparr>gwCl := ?c2\<rparr> = w3" using w3(1) by (cases w3) simp
  have "w4 = gc_Close env (w3\<lparr>gwCl := ?c2\<rparr>)"
    using assms(1,2,10) w3 by (simp add: assms(14) gc_Ping_def ns_ping_def nextPingAction_def)
  then have "w4 = gc_Close env w3" by (simp only: same)
  moreover have "gcClosed (gwCl (gw_exec env (CmdPing True t1) (w1\<lparr>gwWrites := [False]\<rparr>)))"
    using assms(1,2,3) w1 by (simp add: gc_Ping_def ns_ping_def send writeFrame_def emit_def gc_Close_events)
  ultimately show ?thesis using gc_Close_events [of w3 env] assms(1-3) w1 w2 w3 by simp
qed

theorem silent_peer_closed_witness:
  "gcClosed (gwCl (fold (gw_exec ex_env)
     [CmdPing True 120, CmdPing True 140, CmdSend [1], CmdPing False 150, CmdPing True 149, CmdPing True 151] ex_client))"
  using silent_peer_closed [of "gwCl ex_client" ex_client ex_env "[CmdPing True 120]" 140
      "[CmdSend [1], CmdPing False 150, CmdPing True 149]" 151, OF _ _ _ _ _ _ _ _ _ _ refl refl refl refl]
  by (simp add: ex_client_def new_client_def ex_env_def)

subsection \<open>What reaches the application\<close>

fun is_message :: "gw_event \<Rightarrow> bool" where
  "is_message (EvText _) = True"
| "is_message (EvBin _) = True"
| "is_message _ = False"

definition delivered :: "gw \<Rightarrow> gw_event list" where
  "delivered w = filter is_message (gwLog w)"

lemma delivered_emit: "delivered (emit e w) = delivered w @ (if is_message e then [e] else [])"
  by (simp add: delivered_def emit_def)

lemma delivered_upd [simp]:
  "delivered (w\<lparr>gwCl := c\<rparr>) = delivered w" "delivered (w\<lparr>gwWrites := ws\<rparr>) = delivered w"
  "delivered (w\<lparr>gwSrv := s\<rparr>) = delivered w"
  by (simp_all add: delivered_def)

lemma delivered_Close [simp]: "delivered (gc_Close env w) = delivered w"
  by (simp add: gc_Close_def removeClient_def Let_def delivered_emit)

lemma delivered_writeFrame [simp]: "delivered (snd (writeFrame f w)) = delivered w"
  by (simp add: writeFrame_def delivered_emit split: list.split)

lemma delivered_written: "writeFrame f w = (e, w') \<Longrightarrow> delivered w' = delivered w"
  using delivered_writeFrame [of f w] by (simp del: delivered_writeFrame)

lemma delivered_writeCloseOnce [simp]: "delivered (snd (writeCloseOnce code r w)) = delivered w"
  by (simp add: writeCloseOnce_def MarkCloseSentIfFirst_def)

lemma delivered_protocol [simp]: "delivered (handleProtocolError env err w) = delivered w"
  by (simp add: handleProtocolError_def)

lemma delivered_send [simp]: "delivered (snd (ns_send env p w)) = delivered w"
  by (auto simp: ns_send_def delivered_emit split: prod.split bool.split dest: delivered_written)

lemma delivered_send_all [simp]: "delivered (send_all env ps w) = delivered w"
  unfolding send_all_def by (induction ps arbitrary: w) simp_all

lemma delivered_handleCloseFrame [simp]: "delivered (snd (handleCloseFrame env p w)) = delivered w"
proof -
  have "delivered w' = delivered w" if "writeCloseOnce code r (w\<lparr>gwCl := c\<rparr>) = (e, w')" for code r c e w'
    using delivered_writeCloseOnce [of code r "w\<lparr>gwCl := c\<rparr>"] by (simp add: that)
  then show ?thesis by (auto simp: handleCloseFrame_def Let_def split: prod.split bool.split)
qed

lemma delivered_handlePing [simp]: "delivered (snd (handlePingFrame allowed p w)) = delivered w"
  by (auto simp: handlePingFrame_def split: prod.split dest: delivered_written)

lemma delivered_result [simp]:
  "delivered (case err of None \<Rightarrow> w | Some e \<Rightarrow> handleProtocolError env e w) = delivered w"
  by (simp split: option.split)

lemma gcServer_fixed [simp]:
  "gcServer (gwCl (snd (writeFrame f w))) = gcServer (gwCl w)"
  "gcServer (gwCl (snd (writeCloseOnce code r w))) = gcServer (gwCl w)"
  by (auto simp: writeCloseOnce_def MarkCloseSentIfFirst_def writeFrame_def emit_def split: list.split)

lemma closed_Close [simp]: "gcServer (gwCl w) \<Longrightarrow> gcClosed (gwCl (gc_Close env w))"
  by (simp add: gc_Close_def removeClient_def Let_def emit_def)

lemma closed_protocol: "gcServer (gwCl w) \<Longrightarrow> gcClosed (gwCl (handleProtocolError env err w))"
  by (simp add: handleProtocolError_def)

text \<open>The frames whose payload the application gets to see.\<close>

definition deliverable :: "ws_header \<Rightarrow> bool" where
  "deliverable h \<longleftrightarrow> whLength h \<le> 1048576 \<and> whRsv h = 0 \<and> whFin h \<and> (whOpCode h = 1 \<or> whOpCode h = 2)"

lemma handleFrame_delivered:
  "delivered (handleFrame env allowed now h raw w) = delivered w @
     (let p = (if whMasked h then geCipher env raw (whMask h) else raw) in
      if whOpCode h = OpText \<and> whFin h then [EvText p]
      else if whOpCode h = OpBinary \<and> whFin h then [EvBin p] else [])"
  unfolding handleFrame_def Let_def case_prod_beta delivered_result
  by (simp add: op_codes handleTextFrame_def handleBinaryFrame_def handleContinuationFrame_def
      handlePongFrame_def delivered_emit)

lemma process_HdrOk:
  "gcConn (gwCl w) \<Longrightarrow> processClientMessage env allowed now (HdrOk h) body w =
     (if whLength h > MaxFrameSize then handleProtocolError env (FrameTooLarge (whLength h)) w
      else case (if whLength h > 0 then body else Some []) of
             None \<Rightarrow> gc_Close env (emit EvReadError w)
           | Some payload \<Rightarrow>
               (case validateFrame h of
                  Some err \<Rightarrow> handleProtocolError env err w
                | None \<Rightarrow> handleFrame env allowed now h payload (w\<lparr>gwCl := noteRead now (gwCl w)\<rparr>)))"
  by (simp add: processClientMessage_def)

text \<open>C36: An incoming frame reaches the application exactly when it is an unfragmented text
  or binary frame of at most 1 MB without reserved bits whose payload could be read,
  and then the application gets the unmasked payload, once.  Any other frame that is
  not a control frame closes the connection.\<close>

theorem frame_delivery:
  assumes "gcConn (gwCl w)" "gcServer (gwCl w)" "whLength h > 0 \<longrightarrow> body \<noteq> None"
    and "payload = (if whLength h > 0 then the body else [])"
    and "p = (if whMasked h then geCipher env payload (whMask h) else payload)"
    and "w' = processClientMessage env allowed now (HdrOk h) body w"
  shows "delivered w' = delivered w @ (if deliverable h then [if whOpCode h = 1 then EvText p else EvBin p] else []) \<and>
    (\<not> deliverable h \<and> whOpCode h \<notin> {8, 9, 10} \<longrightarrow> gcClosed (gwCl w'))"
proof -
  have b: "(if whLength h > 0 then body else Some []) = Some payload"
    using assms(3,4) by auto
  show ?thesis
  proof (cases "whLength h > MaxFrameSize \<or> validateFrame h \<noteq> None")
    case True
    then have "\<exists>e. w' = handleProtocolError env e w"
      unfolding assms(6) process_HdrOk [OF assms(1)] b by (auto split: option.split)
    moreover have "\<not> deliverable h"
      using True by (auto simp: deliverable_def validateFrame_def op_codes MaxFrameSize_def split: if_splits)
    ultimately show ?thesis using assms(2) by (auto simp: closed_protocol)
  next
    case False
    then have w': "w' = handleFrame env allowed now h payload (w\<lparr>gwCl := noteRead now (gwCl w)\<rparr>)"
      unfolding assms(6) process_HdrOk [OF assms(1)] b by (auto split: option.split)
    have ok: "whRsv h = 0" "whLength h \<le> 1048576" "whOpCode h \<in> {0, 1, 2, 8, 9, 10}"
      using False by (auto simp: validateFrame_def MaxFrameSize_def op_codes split: if_splits)
    have s: "gcServer (gwCl (w\<lparr>gwCl := noteRead now (gwCl w)\<rparr>))" using assms(2) by (simp add: noteRead_def)
    have "\<not> deliverable h \<Longrightarrow> whOpCode h \<notin> {8, 9, 10} \<Longrightarrow>
        \<exists>e. w' = handleProtocolError env e (w\<lparr>gwCl := noteRead now (gwCl w)\<rparr>)"
      using ok unfolding w' handleFrame_def
      by (auto simp: deliverable_def op_codes handleTextFrame_def handleBinaryFrame_def handleContinuationFrame_def)
    then show ?thesis
      unfolding w' handleFrame_delivered using ok closed_protocol [OF s] assms(5)
      by (auto simp: deliverable_def op_codes Let_def)
  qed
qed

definition ex_header :: ws_header where
  "ex_header = \<lparr>whFin = True, whRsv = 0, whOpCode = 2, whMasked = True, whMask = [1, 2, 3, 4], whLength = 2\<rparr>"

theorem frame_delivery_witness:
  "delivered (processClientMessage ex_env True 100 (HdrOk ex_header) (Some [5, 6]) ex_client) = [EvBin [5, 6]]"
proof -
  have "gcConn (gwCl ex_client)" "gcServer (gwCl ex_client)" "delivered ex_client = []" "deliverable ex_header"
    by (simp_all add: ex_client_def new_client_def delivered_def deliverable_def ex_header_def)
  then show ?thesis
    using frame_delivery [of ex_client ex_header "Some [5, 6]" _ _ ex_env _ True 100, OF _ _ _ refl refl refl]
    by (simp add: ex_header_def ex_env_def)
qed

text \<open>A close frame with a one-byte payload is answered with a close frame, but unlike
  every other close frame it does not close the connection: the socket stays open with
  the close handshake marked as sent and received.\<close>

theorem one_byte_close_stays_open:
  assumes "gcConn (gwCl w)" "gwWrites w = []" "\<not> gcCloseTx (gwCl w)" "\<not> gcClosed (gwCl w)"
  shows "case handleCloseFrame env [b] w of (err, w') \<Rightarrow>
    err = None \<and> \<not> gcClosed (gwCl w') \<and> gcCloseTx (gwCl w') \<and> gcCloseRx (gwCl w') \<and>
    gwLog w' = gwLog w @ [EvWrite (OutClose 1002 InvalidClosePayload) True]"
  using assms by (simp add: handleCloseFrame_def MarkCloseReceived_def writeCloseOnce_def
      MarkCloseSentIfFirst_def writeFrame_def emit_def StatusProtocolError_def)

theorem one_byte_close_stays_open_witness:
  "\<not> gcClosed (gwCl (snd (handleCloseFrame ex_env [7] ex_client)))"
  using one_byte_close_stays_open [of ex_client ex_env 7]
  by (simp add: ex_client_def new_client_def case_prod_beta)

text \<open>The \<open>OnCloseConnection\<close> function of the application is called once per call of
  \<open>Close\<close>, not once per connection: closing a connection \<open>n\<close> times calls it \<open>n\<close> times,
  while the internal close callback runs at most once.\<close>

theorem on_close_repeated:
  assumes "geOnCloseConnection env"
  shows "length (filter (\<lambda>e. e = EvOnCloseConnection (gcAuth (gwCl w)))
           (gwLog (fold (gw_exec env) (replicate n CmdClose) w))) =
         length (filter (\<lambda>e. e = EvOnCloseConnection (gcAuth (gwCl w))) (gwLog w)) + n"
proof (induction n arbitrary: w)
  case (Suc n)
  have "gcAuth (gwCl (gc_Close env w)) = gcAuth (gwCl w)"
    by (simp add: gc_Close_def removeClient_def Let_def emit_def)
  moreover have "length (filter (\<lambda>e. e = EvOnCloseConnection (gcAuth (gwCl w))) (gwLog (gc_Close env w))) =
      length (filter (\<lambda>e. e = EvOnCloseConnection (gcAuth (gwCl w))) (gwLog w)) + 1"
    using assms by (simp add: gc_Close_def removeClient_def Let_def emit_def)
  ultimately show ?case using Suc.IH [of "gc_Close env w"] by simp
qed simp

theorem on_close_repeated_witness:
  "length (filter (\<lambda>e. e = EvOnCloseConnection (gcAuth (gwCl ex_client)))
     (gwLog (fold (gw_exec ex_env) (replicate 2 CmdClose) ex_client))) = 2"
  using on_close_repeated [of ex_env ex_client 2] by (simp add: ex_env_def ex_client_def)

end
