(* ===== verification/ClientMsg.thy ===== *)
theory ClientMsg
  imports Message ConnManager RateLimiter AckManager Repo
begin

text \<open>
  The handler of client messages (\<open>client-msg-handler\<close>): decoding, rate limiting,
  heartbeats, acknowledgements, de-duplication and the call of the application, with
  the response it sends back.
\<close>

subsection \<open>Throttle and de-duplicator\<close>

type_synonym ttl_entries = "(gostring, int) gomap"

definition heartbeatThrottleDuration :: int where "heartbeatThrottleDuration = 10 * second"
definition msgDeduplicateTTL :: int where "msgDeduplicateTTL = 120 * second"

definition shouldUpdate :: "int \<Rightarrow> gostring \<Rightarrow> int \<Rightarrow> ttl_entries \<Rightarrow> bool \<times> ttl_entries" where
  "shouldUpdate ttl key now entries =
     (case gm_get entries key of
        Some v \<Rightarrow> if now - v < ttl then (False, entries) else (True, gm_put key now entries)
      | None \<Rightarrow> (True, gm_put key now entries))"

text \<open>The check loads the entry; only a check that misses goes on to store the key.\<close>

definition dedup_hit :: "int \<Rightarrow> gostring \<Rightarrow> int \<Rightarrow> ttl_entries \<Rightarrow> bool" where
  "dedup_hit ttl key now entries = (case gm_get entries key of Some v \<Rightarrow> now - v < ttl | None \<Rightarrow> False)"

definition isDuplicate :: "int \<Rightarrow> gostring \<Rightarrow> int \<Rightarrow> ttl_entries \<Rightarrow> bool \<times> ttl_entries" where
  "isDuplicate ttl key now entries =
     (if dedup_hit ttl key now entries then (True, entries) else (False, gm_put key now entries))"

text \<open>\<open>sync.Map.Range\<close> with a delete per expired key.\<close>

definition clearExpiredEntries :: "int \<Rightarrow> int \<Rightarrow> ttl_entries \<Rightarrow> ttl_entries" where
  "clearExpiredEntries ttl now entries =
     fold (\<lambda>(key, value) m. if now - value \<ge> ttl then gm_del key m else m) entries entries"

subsection \<open>State of the handler\<close>

record clientMsgHandler =
  chRate :: rateLimiter
  chAck :: AckManager
  chThrottle :: ttl_entries
  chDedup :: ttl_entries
  chConns :: connectionMap
  chActive :: ac_table
  chUsers :: "User list"

datatype msg_outcome = OutcomeOK | OutcomeError | OutcomeInvalidSchema | OutcomeDedup | OutcomeRateLimited

text \<open>
  What leaves the handler: a frame for the client, a call of the application, an
  \<open>AckResolved\<close> broadcast to a container, a coded close of a connection, and the
  recorded metric.
\<close>

datatype cmh_out =
    SendFrame bytes
  | CallHandler WebsocketAuth gostring bytes
  | PublishAckResolved gostring gostring
  | CloseConn WebsocketConn nat gostring
  | RecordClientMessage gostring msg_outcome

text \<open>
  Inputs of one call: the clock, the answer of the limiter, the fresh response id, the
  texts of error codes, the application's handler, the database's answers.
\<close>

record cmh_env =
  ceNow :: int
  ceAllow :: "Limiter \<Rightarrow> bool"
  ceResID :: gostring
  ceErrText :: "ErrorCode \<Rightarrow> gostring"
  ceHandle :: "WebsocketAuth \<Rightarrow> gostring \<Rightarrow> bytes \<Rightarrow> (gostring \<times> bytes, gostring) outcome"
  ceFault1 :: db_fault
  ceFault2 :: db_fault

definition hearbeatResMsg :: WebsocketResponse where
  "hearbeatResMsg = emptyResponse\<lparr>rsMsgType := MessageTypeHeartbeat\<rparr>"

definition versionMismatchCloseCode :: nat where "versionMismatchCloseCode = 1002"
definition versionMismatchCloseReason :: gostring where
  "versionMismatchCloseReason = ''wire protocol version mismatch''"

text \<open>Only the gobwas transport implements \<open>CloseWithReasonConn\<close>.\<close>

definition closeOnVersionMismatch :: "WebsocketAuth \<Rightarrow> clientMsgHandler \<Rightarrow> cmh_out list" where
  "closeOnVersionMismatch auth h =
     (case GetConnection (chConns h) auth of
        None \<Rightarrow> []
      | Some conn \<Rightarrow>
          if wcCore conn \<noteq> WsCoreGobwas then []
          else [CloseConn conn versionMismatchCloseCode versionMismatchCloseReason])"

definition handleHeartbeat :: "cmh_env \<Rightarrow> WebsocketAuth \<Rightarrow> clientMsgHandler \<Rightarrow> clientMsgHandler" where
  "handleHeartbeat env auth h =
     (let (upd, entries) = shouldUpdate heartbeatThrottleDuration (''s:'' @ auInstanceID auth) (ceNow env) (chThrottle h);
          h = h\<lparr>chThrottle := entries\<rparr>;
          h = (if upd then h\<lparr>chActive := snd (AC_UpdateHeartBeat (ceNow env) (ceFault1 env)
                                 (auUserID auth) (auInstanceID auth) (chActive h))\<rparr> else h);
          (upd, entries) = shouldUpdate heartbeatThrottleDuration (''u:'' @ auUserID auth) (ceNow env) (chThrottle h);
          h = h\<lparr>chThrottle := entries\<rparr>
      in if upd then h\<lparr>chUsers := snd (User_UpdateLastHeartbeat (ceNow env) (ceFault2 env)
                            (auUserID auth) (chUsers h))\<rparr> else h)"

definition rate_allow :: "cmh_env \<Rightarrow> WebsocketAuth \<Rightarrow> clientMsgHandler \<Rightarrow> bool \<times> clientMsgHandler" where
  "rate_allow env auth h =
     (case Limiter_Get auth (\<lambda>r. r) (chRate h) of
        (lim, r) \<Rightarrow> (ceAllow env lim, h\<lparr>chRate := r\<rparr>))"

text \<open>
  The branches of the switch return the optional response, the metric outcome, the
  calls made on the way and the new state.
\<close>

type_synonym cmh_branch = "WebsocketResponse option \<times> msg_outcome \<times> cmh_out list \<times> clientMsgHandler"

definition handle_heartbeat_msg :: "cmh_env \<Rightarrow> WebsocketAuth \<Rightarrow> clientMsgHandler \<Rightarrow> cmh_branch" where
  "handle_heartbeat_msg env auth h =
     (case rate_allow env auth h of
        (False, h) \<Rightarrow> (None, OutcomeRateLimited, [], h)
      | (True, h) \<Rightarrow> (Some hearbeatResMsg, OutcomeOK, [], handleHeartbeat env auth h))"

definition handle_ack_msg ::
    "cmh_env \<Rightarrow> WebsocketAuth \<Rightarrow> WebsocketResquest \<Rightarrow> clientMsgHandler \<Rightarrow> (cmh_branch, unit) outcome" where
  "handle_ack_msg env auth msg h =
     (case rate_allow env auth h of
        (False, h) \<Rightarrow> Ok (None, OutcomeRateLimited, [], h)
      | (True, h) \<Rightarrow>
          let ackID = bytes_str (rqBinary msg) in
          if ackID = [] then Ok (None, OutcomeOK, [], h)
          else obind (ResolveAck ackID (chAck h)) (\<lambda>(resolved, a).
            if resolved then Ok (None, OutcomeOK, [], h\<lparr>chAck := a\<rparr>)
            else case ResolveRemoteAck ackID a of
                   (Some sourceContainerID, a) \<Rightarrow>
                     Ok (None, OutcomeOK, [PublishAckResolved sourceContainerID ackID], h\<lparr>chAck := a\<rparr>)
                 | (None, a) \<Rightarrow> Ok (None, OutcomeOK, [], h\<lparr>chAck := a\<rparr>)))"

definition handle_app_msg ::
    "cmh_env \<Rightarrow> WebsocketAuth \<Rightarrow> WebsocketResquest \<Rightarrow> clientMsgHandler \<Rightarrow> (cmh_branch, unit) outcome" where
  "handle_app_msg env auth msg h =
     (case rate_allow env auth h of
        (False, h) \<Rightarrow>
          Ok (Some (emptyResponse\<lparr>rsId := ceResID env, rsResponseToId := rqId msg, rsMsgType := rqMsgType msg,
                      rsError := ceErrText env RateLimitExceeded\<rparr>), OutcomeRateLimited, [], h)
      | (True, h) \<Rightarrow>
          let (dup, entries) = (if rqId msg \<noteq> []
                then isDuplicate msgDeduplicateTTL (rqId msg @ auInstanceID auth) (ceNow env) (chDedup h)
                else (False, chDedup h));
              h = h\<lparr>chDedup := entries\<rparr>
          in if dup then Ok (None, OutcomeDedup, [], h)
             else
               let call = CallHandler auth (rqMsgType msg) (rqBinary msg) in
               case ceHandle env auth (rqMsgType msg) (rqBinary msg) of
                 Panic \<Rightarrow> Panic
               | Err err \<Rightarrow>
                   Ok (Some (emptyResponse\<lparr>rsId := ceResID env, rsResponseToId := rqId msg,
                               rsMsgType := rqMsgType msg, rsError := err\<rparr>), OutcomeError, [call], h)
               | Ok (msgType, res) \<Rightarrow>
                   if msgType = [] then Ok (None, OutcomeOK, [call], h)
                   else Ok (Some (emptyResponse\<lparr>rsId := ceResID env, rsResponseToId := rqId msg,
                                    rsMsgType := msgType, rsBinary := res\<rparr>), OutcomeOK, [call], h))"

text \<open>The deferred functions: send the response if it can be encoded, then record the metric.\<close>

definition finish :: "gostring \<Rightarrow> cmh_branch \<Rightarrow> cmh_out list \<times> clientMsgHandler" where
  "finish rawMsgType b =
     (case b of (response, outcome, calls, h) \<Rightarrow>
        let sent = (case response of
                      None \<Rightarrow> []
                    | Some r \<Rightarrow> if Response_Marshall r = [] then [] else [SendFrame (Response_Marshall r)])
        in (calls @ sent @ [RecordClientMessage rawMsgType outcome], h))"

definition handleMessage ::
    "cmh_env \<Rightarrow> bytes \<Rightarrow> WebsocketAuth \<Rightarrow> clientMsgHandler \<Rightarrow> (cmh_out list \<times> clientMsgHandler, unit) outcome" where
  "handleMessage env clientMsg auth h =
     (case Request_Unmarshall clientMsg of
        Panic \<Rightarrow> Panic
      | Err err \<Rightarrow>
          if err = ErrVersion then
            Ok (finish [] (None, OutcomeInvalidSchema, closeOnVersionMismatch auth h, h))
          else
            Ok (finish [] (Some (emptyResponse\<lparr>rsMsgType := MessageTypeError,
                              rsError := ceErrText env InvalidInputSchema\<rparr>),
                           OutcomeInvalidSchema, [], h))
      | Ok msg \<Rightarrow>
          obind (if rqMsgType msg = MessageTypeHeartbeat then Ok (handle_heartbeat_msg env auth h)
                 else if rqMsgType msg = MessageTypeAck then handle_ack_msg env auth msg h
                 else handle_app_msg env auth msg h)
            (\<lambda>b. Ok (finish (rqMsgType msg) b)))"

subsection \<open>The time-to-live maps\<close>

text \<open>
  A history of checks and clean-ups, with the log of the checks that were let through.
\<close>

datatype tt_op = TtCheck gostring int | TtClear int

fun tt_time :: "tt_op \<Rightarrow> int" where
  "tt_time (TtCheck k now) = now"
| "tt_time (TtClear now) = now"

fun tt_step :: "int \<Rightarrow> tt_op \<Rightarrow> ttl_entries \<times> (gostring \<times> int) list \<Rightarrow> ttl_entries \<times> (gostring \<times> int) list" where
  "tt_step ttl (TtCheck k now) (m, log) =
     (case shouldUpdate ttl k now m of (ok, m) \<Rightarrow> (m, if ok then log @ [(k, now)] else log))"
| "tt_step ttl (TtClear now) (m, log) = (clearExpiredEntries ttl now m, log)"

definition tt_run :: "int \<Rightarrow> tt_op list \<Rightarrow> ttl_entries \<times> (gostring \<times> int) list" where
  "tt_run ttl ops = fold (tt_step ttl) ops ([], [])"

definition tt_inv :: "int \<Rightarrow> int \<Rightarrow> ttl_entries \<times> (gostring \<times> int) list \<Rightarrow> bool" where
  "tt_inv ttl T s \<longleftrightarrow> gm_inv (fst s) \<and>
     (\<forall>k v. gm_get (fst s) k = Some v \<longrightarrow> (k, v) \<in> set (snd s)) \<and>
     (\<forall>k t. (k, t) \<in> set (snd s) \<longrightarrow> t \<le> T \<and>
        (T - t < ttl \<longrightarrow> (\<exists>v. gm_get (fst s) k = Some v \<and> t \<le> v)))"

lemma isDuplicate_shouldUpdate:
  "isDuplicate ttl k now m = (\<not> fst (shouldUpdate ttl k now m), snd (shouldUpdate ttl k now m))"
  by (simp add: isDuplicate_def dedup_hit_def shouldUpdate_def split: option.split)

lemma get_fold_expire:
  "gm_get (fold (\<lambda>(key, value) m. if now - value \<ge> ttl then gm_del key m else m) xs m) k =
     (if \<exists>v. (k, v) \<in> set xs \<and> now - v \<ge> ttl then None else gm_get m k)"
  by (induction xs arbitrary: m) (auto split: if_splits)

lemma inv_fold_expire:
  "gm_inv m \<Longrightarrow> gm_inv (fold (\<lambda>(key, value) m. if now - value \<ge> ttl then gm_del key m else m) xs m)"
  by (induction xs arbitrary: m) auto

lemma get_clearExpired:
  assumes "gm_inv m"
  shows "gm_get (clearExpiredEntries ttl now m) k =
    (case gm_get m k of None \<Rightarrow> None | Some v \<Rightarrow> if now - v \<ge> ttl then None else Some v)"
proof (cases "gm_get m k")
  case None
  then show ?thesis by (simp add: clearExpiredEntries_def get_fold_expire)
next
  case (Some v)
  then have "(k, v') \<in> set m \<longleftrightarrow> v' = v" for v'
    using assms gm_get_iff [of m k v'] by auto
  then show ?thesis using Some by (simp add: clearExpiredEntries_def get_fold_expire)
qed

lemma tt_inv_clear:
  assumes "tt_inv ttl T (m, log)" "T \<le> now"
  shows "tt_inv ttl now (clearExpiredEntries ttl now m, log)"
proof -
  have inv: "gm_inv m" "\<And>k v. gm_get m k = Some v \<Longrightarrow> (k, v) \<in> set log"
    "\<And>k t. (k, t) \<in> set log \<Longrightarrow> t \<le> T \<and> (T - t < ttl \<longrightarrow> (\<exists>v. gm_get m k = Some v \<and> t \<le> v))"
    using assms(1) unfolding tt_inv_def fst_conv snd_conv by blast+
  have "\<exists>v. gm_get (clearExpiredEntries ttl now m) k = Some v \<and> t \<le> v"
    if kt: "(k, t) \<in> set log" and lt: "now - t < ttl" for k t
  proof -
    obtain v where v: "gm_get m k = Some v" "t \<le> v"
      using inv(3) [OF kt] lt assms(2) by auto
    then show ?thesis using lt by (simp add: get_clearExpired [OF inv(1)])
  qed
  moreover have "gm_inv (clearExpiredEntries ttl now m)"
    unfolding clearExpiredEntries_def by (rule inv_fold_expire [OF inv(1)])
  moreover have "(k, v) \<in> set log" if "gm_get (clearExpiredEntries ttl now m) k = Some v" for k v
    using that inv(2) by (auto simp: get_clearExpired [OF inv(1)] split: option.splits if_splits)
  ultimately show ?thesis using inv(3) assms(2) unfolding tt_inv_def fst_conv snd_conv by force
qed

lemma tt_inv_check:
  assumes "tt_inv ttl T (m, log)" "T \<le> now"
  shows "tt_inv ttl now (tt_step ttl (TtCheck k now) (m, log))"
proof -
  have inv: "gm_inv m" "\<And>k v. gm_get m k = Some v \<Longrightarrow> (k, v) \<in> set log"
    "\<And>k t. (k, t) \<in> set log \<Longrightarrow> t \<le> T \<and> (T - t < ttl \<longrightarrow> (\<exists>v. gm_get m k = Some v \<and> t \<le> v))"
    using assms(1) unfolding tt_inv_def fst_conv snd_conv by blast+
  have later: "t \<le> now \<and> (now - t < ttl \<longrightarrow> (\<exists>v. gm_get m k = Some v \<and> t \<le> v))" if "(k, t) \<in> set log" for k t
    using inv(3) [OF that] assms(2) by auto
  show ?thesis
  proof (cases "fst (shouldUpdate ttl k now m)")
    case False
    then have "tt_step ttl (TtCheck k now) (m, log) = (m, log)"
      by (auto simp: shouldUpdate_def split: option.splits if_splits)
    then show ?thesis using inv(1,2) later unfolding tt_inv_def by simp
  next
    case True
    then have "tt_step ttl (TtCheck k now) (m, log) = (gm_put k now m, log @ [(k, now)])"
      by (auto simp: shouldUpdate_def split: option.splits if_splits)
    then show ?thesis using inv(1,2) later unfolding tt_inv_def by auto
  qed
qed

lemma tt_inv_step: "tt_inv ttl T s \<Longrightarrow> T \<le> tt_time op \<Longrightarrow> tt_inv ttl (tt_time op) (tt_step ttl op s)"
  by (cases op; cases s) (simp_all add: tt_inv_clear tt_inv_check del: tt_step.simps(1))

lemma tt_inv_fold:
  "tt_inv ttl T s \<Longrightarrow> sorted (map tt_time ops) \<Longrightarrow> \<forall>op \<in> set ops. T \<le> tt_time op \<Longrightarrow>
   tt_inv ttl (if ops = [] then T else tt_time (last ops)) (fold (tt_step ttl) ops s)"
proof (induction ops arbitrary: T s)
  case (Cons op ops)
  have "tt_inv ttl (tt_time op) (tt_step ttl op s)" using Cons.prems by (intro tt_inv_step) auto
  then show ?case using Cons.IH [of "tt_time op" "tt_step ttl op s"] Cons.prems by auto
qed simp

lemma tt_exact:
  assumes "sorted (map tt_time ops @ [now])" "tt_run ttl ops = (m, log)"
  shows "fst (shouldUpdate ttl k now m) \<longleftrightarrow> \<not> (\<exists>t. (k, t) \<in> set log \<and> now - t < ttl)"
proof -
  define T where "T = (if ops = [] then now else tt_time (last ops))"
  have "tt_inv ttl (if ops = [] then now else tt_time (last ops)) (fold (tt_step ttl) ops ([], []))"
  proof (cases ops)
    case Nil
    then show ?thesis by (simp add: tt_inv_def)
  next
    case (Cons op ops')
    have "tt_inv ttl (tt_time op) ([], [])" by (simp add: tt_inv_def)
    from tt_inv_fold [OF this, of ops] show ?thesis
      using assms(1) Cons by (auto simp: sorted_append)
  qed
  then have inv: "tt_inv ttl T (m, log)" using assms(2) by (simp add: T_def tt_run_def)
  have T: "T \<le> now" using assms(1) by (auto simp: T_def sorted_append)
  show ?thesis
  proof (cases "gm_get m k")
    case None
    then have "\<not> (\<exists>t. (k, t) \<in> set log \<and> now - t < ttl)"
      using inv T unfolding tt_inv_def fst_conv snd_conv by force
    then show ?thesis using None by (simp add: shouldUpdate_def)
  next
    case (Some v)
    have "(k, v) \<in> set log" using inv Some by (simp add: tt_inv_def)
    moreover have "t \<le> v" if "(k, t) \<in> set log" "now - t < ttl" for t
      using inv T that Some unfolding tt_inv_def fst_conv snd_conv by force
    ultimately show ?thesis using Some by (force simp: shouldUpdate_def)
  qed
qed

text \<open>The de-duplicator is exact when its operations do not
  overlap: as long as the clock does not run backwards, a key is reported as a duplicate if
  and only if the same key was let through less than the time-to-live ago, whatever checks
  of other keys and clean-ups ran in between.\<close>

theorem dedup_sequential:
  assumes "sorted (map tt_time ops @ [now])" "tt_run msgDeduplicateTTL ops = (m, log)"
  shows "fst (isDuplicate msgDeduplicateTTL k now m) \<longleftrightarrow> (\<exists>t. (k, t) \<in> set log \<and> now - t < msgDeduplicateTTL)"
  using tt_exact [OF assms] by (simp add: isDuplicate_shouldUpdate)

theorem dedup_sequential_witness:
  "fst (isDuplicate msgDeduplicateTTL ''k'' 7 (fst (tt_run msgDeduplicateTTL [TtCheck ''k'' 5, TtClear 6])))"
proof -
  have "tt_run msgDeduplicateTTL [TtCheck ''k'' 5, TtClear 6] =
      (fst (tt_run msgDeduplicateTTL [TtCheck ''k'' 5, TtClear 6]), [(''k'', 5)])"
    by (simp add: tt_run_def shouldUpdate_def)
  from dedup_sequential [OF _ this, of 7 "''k''"] show ?thesis by (simp add: msgDeduplicateTTL_def second_def)
qed

subsection \<open>Overlapping checks and clean-ups\<close>

text \<open>
  The map is a \<open>sync.Map\<close> without a lock around the operations, so a check is a load and a
  later store, and a clean-up is, per key, a test of the value and a later delete.
  \<open>ddStoring\<close> are the checks that missed and have not stored yet, with the time they read;
  \<open>ddDeleting\<close> the keys a clean-up has found expired and not deleted yet; \<open>ddLog\<close> the keys
  that were let through.
\<close>

record dedup_sys =
  ddClock :: int
  ddEntries :: ttl_entries
  ddStoring :: "(gostring \<times> int) list"
  ddDeleting :: "gostring list"
  ddLog :: "(gostring \<times> int) list"

inductive dedup_step :: "dedup_sys \<Rightarrow> dedup_sys \<Rightarrow> bool" where
  tick: "ddClock s \<le> now \<Longrightarrow> dedup_step s (s\<lparr>ddClock := now\<rparr>)"
| load: "\<lbrakk>now \<le> ddClock s; \<not> dedup_hit msgDeduplicateTTL k now (ddEntries s)\<rbrakk> \<Longrightarrow>
    dedup_step s (s\<lparr>ddStoring := (k, now) # ddStoring s\<rparr>)"
| store: "(k, t) \<in> set (ddStoring s) \<Longrightarrow>
    dedup_step s (s\<lparr>ddStoring := remove1 (k, t) (ddStoring s), ddEntries := gm_put k t (ddEntries s), ddLog := (k, t) # ddLog s\<rparr>)"
| clear_test: "\<lbrakk>now \<le> ddClock s; gm_get (ddEntries s) k = Some v; now - v \<ge> msgDeduplicateTTL\<rbrakk> \<Longrightarrow>
    dedup_step s (s\<lparr>ddDeleting := k # ddDeleting s\<rparr>)"
| clear_delete: "k \<in> set (ddDeleting s) \<Longrightarrow>
    dedup_step s (s\<lparr>ddDeleting := remove1 k (ddDeleting s), ddEntries := gm_del k (ddEntries s)\<rparr>)"

definition dedup_init :: "dedup_sys \<Rightarrow> bool" where
  "dedup_init s \<longleftrightarrow> ddEntries s = [] \<and> ddStoring s = [] \<and> ddDeleting s = [] \<and> ddLog s = []"

definition log_stale :: "dedup_sys \<Rightarrow> gostring \<Rightarrow> bool" where
  "log_stale s k \<longleftrightarrow> (\<exists>t. (k, t) \<in> set (ddLog s) \<and> msgDeduplicateTTL \<le> ddClock s - t)"

definition dedup_inv :: "dedup_sys \<Rightarrow> bool" where
  "dedup_inv s \<longleftrightarrow> (\<forall>k v. gm_get (ddEntries s) k = Some v \<longrightarrow> (k, v) \<in> set (ddLog s)) \<and>
     (\<forall>k \<in> set (ddDeleting s). log_stale s k) \<and>
     (\<forall>k. k \<in> fst ` set (ddLog s) \<longrightarrow> log_stale s k \<or> gm_get (ddEntries s) k \<noteq> None)"

lemma log_stale_mono:
  "log_stale s k \<Longrightarrow> set (ddLog s) \<subseteq> set (ddLog s') \<Longrightarrow> ddClock s \<le> ddClock s' \<Longrightarrow> log_stale s' k"
  unfolding log_stale_def by fastforce

lemma dedup_inv_step: "dedup_step s s' \<Longrightarrow> dedup_inv s \<Longrightarrow> dedup_inv s'"
proof (induction rule: dedup_step.induct)
  case (tick s now)
  have "log_stale s k \<Longrightarrow> log_stale (s\<lparr>ddClock := now\<rparr>) k" for k by (erule log_stale_mono) (use tick in auto)
  then show ?case using tick by (auto simp: dedup_inv_def)
next
  case (store k t s)
  let ?s = "s\<lparr>ddStoring := remove1 (k, t) (ddStoring s), ddEntries := gm_put k t (ddEntries s), ddLog := (k, t) # ddLog s\<rparr>"
  have "log_stale s k' \<Longrightarrow> log_stale ?s k'" for k' by (erule log_stale_mono) auto
  then show ?case using store by (fastforce simp: dedup_inv_def)
next
  case (clear_test now s k v)
  then have "log_stale s k" by (force simp: dedup_inv_def log_stale_def)
  then show ?case using clear_test by (auto simp: dedup_inv_def log_stale_def)
next
  case (clear_delete k s)
  then have "log_stale s k" "set (remove1 k (ddDeleting s)) \<subseteq> set (ddDeleting s)"
    by (auto simp: dedup_inv_def set_remove1_subset)
  then show ?case using clear_delete by (auto simp: dedup_inv_def log_stale_def)
qed (auto simp: dedup_inv_def log_stale_def)

interpretation dd: step_invariant dedup_init dedup_step dedup_inv
proof unfold_locales
  show "dedup_init s \<Longrightarrow> dedup_inv s" for s by (simp add: dedup_init_def dedup_inv_def)
qed (erule dedup_inv_step)

text \<open>C33: Whatever the interleaving of checks and clean-ups at the level of their loads, stores and
  deletes, the de-duplicator never drops a message that is not a repetition: a check that
  reports a duplicate has a let-through of the same key less than the time-to-live before it.
  And it catches every repetition of a recent message: once a key has been let through, and
  as long as none of its let-throughs is older than the time-to-live, every check of it
  reports a duplicate; in particular an overlapping clean-up cannot make it forget such a
  key.  (Two checks that overlap may both miss, as the source's comment says.)\<close>

theorem dedup_concurrent:
  assumes "reachable dedup_init dedup_step s" "now \<le> ddClock s"
  shows "(fst (isDuplicate msgDeduplicateTTL k now (ddEntries s)) \<longrightarrow>
      (\<exists>t. (k, t) \<in> set (ddLog s) \<and> now - t < msgDeduplicateTTL)) \<and>
    (k \<in> fst ` set (ddLog s) \<and> (\<forall>t. (k, t) \<in> set (ddLog s) \<longrightarrow> ddClock s - t < msgDeduplicateTTL) \<longrightarrow>
      isDuplicate msgDeduplicateTTL k now (ddEntries s) = (True, ddEntries s))"
proof -
  have inv: "\<And>v. gm_get (ddEntries s) k = Some v \<Longrightarrow> (k, v) \<in> set (ddLog s)"
    "k \<in> fst ` set (ddLog s) \<Longrightarrow> log_stale s k \<or> gm_get (ddEntries s) k \<noteq> None"
    using dd.reachable_invar [OF assms(1)] unfolding dedup_inv_def by blast+
  show ?thesis
  proof (cases "gm_get (ddEntries s) k")
    case None
    then show ?thesis using inv(2) by (fastforce simp: isDuplicate_def dedup_hit_def log_stale_def)
  next
    case (Some v)
    then have hit: "dedup_hit msgDeduplicateTTL k now (ddEntries s) \<longleftrightarrow> now - v < msgDeduplicateTTL"
      by (simp add: dedup_hit_def)
    moreover have "now - v < msgDeduplicateTTL" if "\<forall>t. (k, t) \<in> set (ddLog s) \<longrightarrow> ddClock s - t < msgDeduplicateTTL"
      using that [rule_format, OF inv(1) [OF Some]] assms(2) by simp
    ultimately show ?thesis using inv(1) [OF Some] by (auto simp: isDuplicate_def)
  qed
qed

theorem dedup_concurrent_witness:
  "\<exists>s. reachable dedup_init dedup_step s \<and> ddStoring s = [(''k'', 4)] \<and>
     isDuplicate msgDeduplicateTTL ''k'' 5 (ddEntries s) = (True, ddEntries s)"
proof -
  let ?s0 = "\<lparr>ddClock = 5, ddEntries = [], ddStoring = [], ddDeleting = [], ddLog = []\<rparr> :: dedup_sys"
  let ?s1 = "?s0\<lparr>ddStoring := [(''k'', 4)]\<rparr>"
  let ?s2 = "?s1\<lparr>ddStoring := [(''k'', 5), (''k'', 4)]\<rparr>"
  let ?s3 = "?s2\<lparr>ddStoring := [(''k'', 4)], ddEntries := gm_put ''k'' 5 [], ddLog := [(''k'', 5)]\<rparr>"
  have "reachable dedup_init dedup_step ?s0" by (rule reach_init) (simp add: dedup_init_def)
  then have "reachable dedup_init dedup_step ?s1"
    by (rule reach_step) (use dedup_step.load [of 4 ?s0 "''k''"] in \<open>simp add: dedup_hit_def\<close>)
  then have "reachable dedup_init dedup_step ?s2"
    by (rule reach_step) (use dedup_step.load [of 5 ?s1 "''k''"] in \<open>simp add: dedup_hit_def\<close>)
  then have r: "reachable dedup_init dedup_step ?s3"
    by (rule reach_step) (use dedup_step.store [of "''k''" 5 ?s2] in simp)
  from dedup_concurrent [OF r, of 5 "''k''"] r show ?thesis
    by (intro exI [of _ ?s3]) (simp add: msgDeduplicateTTL_def second_def)
qed

text \<open>The clean-up can forget a key that was let through just now: its test of an expired
  entry and its delete are separate, so a store of the same key between them is lost and
  a repetition at the same instant is let through again.\<close>

theorem dedup_cleanup_forgets:
  assumes "gm_get (ddEntries s) k = Some v" "ddClock s - v \<ge> msgDeduplicateTTL"
    "reachable dedup_init dedup_step s"
  shows "\<exists>s'. reachable dedup_init dedup_step s' \<and> (k, ddClock s') \<in> set (ddLog s') \<and>
    \<not> fst (isDuplicate msgDeduplicateTTL k (ddClock s') (ddEntries s'))"
proof -
  let ?n = "ddClock s"
  let ?s1 = "s\<lparr>ddDeleting := k # ddDeleting s\<rparr>"
  let ?s2 = "?s1\<lparr>ddStoring := (k, ?n) # ddStoring s\<rparr>"
  let ?s3 = "?s2\<lparr>ddStoring := ddStoring s, ddEntries := gm_put k ?n (ddEntries s), ddLog := (k, ?n) # ddLog s\<rparr>"
  let ?s4 = "?s3\<lparr>ddDeleting := ddDeleting s, ddEntries := gm_del k (gm_put k ?n (ddEntries s))\<rparr>"
  from assms(3) have "reachable dedup_init dedup_step ?s1"
    by (rule reach_step) (use dedup_step.clear_test [of ?n s k v] assms in simp)
  then have "reachable dedup_init dedup_step ?s2"
    by (rule reach_step) (use dedup_step.load [of ?n ?s1 k] assms in \<open>simp add: dedup_hit_def\<close>)
  then have "reachable dedup_init dedup_step ?s3"
    by (rule reach_step) (use dedup_step.store [of k ?n ?s2] in simp)
  then have "reachable dedup_init dedup_step ?s4"
    by (rule reach_step) (use dedup_step.clear_delete [of k ?s3] in simp)
  then show ?thesis by (intro exI [of _ ?s4]) (simp add: isDuplicate_def dedup_hit_def)
qed

theorem dedup_cleanup_forgets_witness:
  "\<exists>s'. reachable dedup_init dedup_step s' \<and> (''k'', ddClock s') \<in> set (ddLog s') \<and>
     \<not> fst (isDuplicate msgDeduplicateTTL ''k'' (ddClock s') (ddEntries s'))"
proof -
  let ?s0 = "\<lparr>ddClock = 0, ddEntries = [], ddStoring = [], ddDeleting = [], ddLog = []\<rparr> :: dedup_sys"
  let ?s1 = "?s0\<lparr>ddStoring := [(''k'', 0)]\<rparr>"
  let ?s2 = "?s1\<lparr>ddStoring := [], ddEntries := gm_put ''k'' 0 [], ddLog := [(''k'', 0)]\<rparr>"
  let ?s3 = "?s2\<lparr>ddClock := msgDeduplicateTTL\<rparr>"
  have "reachable dedup_init dedup_step ?s0" by (rule reach_init) (simp add: dedup_init_def)
  then have "reachable dedup_init dedup_step ?s1"
    by (rule reach_step) (use dedup_step.load [of 0 ?s0 "''k''"] in \<open>simp add: dedup_hit_def\<close>)
  then have "reachable dedup_init dedup_step ?s2"
    by (rule reach_step) (use dedup_step.store [of "''k''" 0 ?s1] in simp)
  then have r: "reachable dedup_init dedup_step ?s3"
    by (rule reach_step) (use dedup_step.tick [of ?s2 msgDeduplicateTTL] in \<open>simp add: msgDeduplicateTTL_def second_def\<close>)
  from dedup_cleanup_forgets [OF _ _ r, of "''k''" 0] show ?thesis by simp
qed

text \<open>Two clients can suppress each other's messages: the de-duplication key is the
  message id followed by the instance id, without a separator and without the user, so
  after message \<open>x\<close> of instance \<open>y @ z\<close> the message \<open>x @ y\<close> of instance \<open>z\<close>, of any
  user, is dropped without reaching the application.\<close>

theorem dedup_key_collision:
  assumes "x \<noteq> []" "rqId msg1 = x" "rqId msg2 = x @ y" "auInstanceID a1 = y @ z" "auInstanceID a2 = z"
    and "ceNow e2 = ceNow e1" "ceAllow e2 = (\<lambda>_. True)" "chDedup h = snd (isDuplicate msgDeduplicateTTL (rqId msg1 @ auInstanceID a1) (ceNow e1) d)"
  shows "\<exists>h'. handle_app_msg e2 a2 msg2 h = Ok (None, OutcomeDedup, [], h')"
proof -
  have pos: "0 < msgDeduplicateTTL" by (simp add: msgDeduplicateTTL_def second_def)
  have k: "rqId msg2 @ auInstanceID a2 = rqId msg1 @ auInstanceID a1" using assms by simp
  have dup: "fst (isDuplicate msgDeduplicateTTL (rqId msg2 @ auInstanceID a2) (ceNow e2) (chDedup h))"
    unfolding k assms(6,8) using pos by (auto simp: isDuplicate_def dedup_hit_def split: option.split)
  obtain h0 where r: "rate_allow e2 a2 h = (True, h0)" "chDedup h0 = chDedup h"
    using assms(7) by (cases "Limiter_Get a2 (\<lambda>r. r) (chRate h)") (simp add: rate_allow_def)
  then show ?thesis using dup assms(1,3) by (auto simp: handle_app_msg_def Let_def split: prod.split)
qed

definition ex_cmh :: clientMsgHandler where
  "ex_cmh = \<lparr>chRate = NewRateLimiter \<lparr>UserRate = 5, UserBurst = 5, AnonymousRate = 1, AnonymousBurst = 1\<rparr>,
     chAck = NewAckManager, chThrottle = [], chDedup = [], chConns = NewConnectionMap, chActive = [],
     chUsers = []\<rparr>"

definition ex_cenv :: cmh_env where
  "ex_cenv = \<lparr>ceNow = 100, ceAllow = \<lambda>_. True, ceResID = ''r1'', ceErrText = \<lambda>_. ''err'',
     ceHandle = \<lambda>_ mt b. Ok (mt, b), ceFault1 = DbOk, ceFault2 = DbOk\<rparr>"

theorem dedup_key_collision_witness:
  "\<exists>h'. handle_app_msg ex_cenv \<lparr>auUserID = ''v'', auInstanceID = ''3'', auMetadata = []\<rparr>
      \<lparr>rqId = ''12'', rqMsgType = ''chat'', rqBinary = []\<rparr>
      (ex_cmh\<lparr>chDedup := snd (isDuplicate msgDeduplicateTTL (''1'' @ ''23'') 100 [])\<rparr>) = Ok (None, OutcomeDedup, [], h')"
  by (rule dedup_key_collision [where ?x = "''1''" and ?y = "''2''" and ?z = "''3''" and ?d = "[]" and ?e1.0 = ex_cenv
        and ?msg1.0 = "\<lparr>rqId = ''1'', rqMsgType = ''chat'', rqBinary = []\<rparr>"
        and ?a1.0 = "\<lparr>auUserID = ''u'', auInstanceID = ''23'', auMetadata = []\<rparr>"])
    (simp_all add: ex_cenv_def)

subsection \<open>One message, one answer\<close>

fun is_sendframe :: "cmh_out \<Rightarrow> bool" where
  "is_sendframe (SendFrame _) = True"
| "is_sendframe _ = False"

fun is_callhandler :: "cmh_out \<Rightarrow> bool" where
  "is_callhandler (CallHandler _ _ _) = True"
| "is_callhandler _ = False"

fun is_metric :: "cmh_out \<Rightarrow> bool" where
  "is_metric (RecordClientMessage _ _) = True"
| "is_metric _ = False"

text \<open>The branches produce no frame themselves and call the application at most once.\<close>

definition branch_ok :: "cmh_branch \<Rightarrow> bool" where
  "branch_ok b \<longleftrightarrow> (case b of (r, out, calls, h) \<Rightarrow>
     filter is_sendframe calls = [] \<and> filter is_metric calls = [] \<and> length (filter is_callhandler calls) \<le> 1)"

lemma finish_shape:
  assumes "branch_ok b" "finish raw b = (outs, h')"
  shows "length (filter is_sendframe outs) \<le> 1 \<and> length (filter is_callhandler outs) \<le> 1 \<and>
    length (filter is_metric outs) = 1"
  using assms by (cases b) (auto simp: finish_def Let_def branch_ok_def split: option.splits if_splits)

lemma heartbeat_branch: "branch_ok (handle_heartbeat_msg env a h)"
  by (simp add: handle_heartbeat_msg_def branch_ok_def split: prod.split bool.split)

lemma ack_branch:
  assumes "handle_ack_msg env a q h = Ok b"
  shows "fst b = None \<and> branch_ok b \<and> filter is_callhandler (fst (snd (snd b))) = []"
proof -
  obtain ok h1 where r: "rate_allow env a h = (ok, h1)" by (cases "rate_allow env a h")
  show ?thesis
  proof (cases "ok \<and> bytes_str (rqBinary q) \<noteq> []")
    case True
    then obtain d a1 where d: "ResolveAck (bytes_str (rqBinary q)) (chAck h1) = Ok (d, a1)"
      using assms r by (auto simp: handle_ack_msg_def obind_eq_Ok Let_def split: bool.splits)
    obtain src a2 where s: "ResolveRemoteAck (bytes_str (rqBinary q)) a1 = (src, a2)"
      by (cases "ResolveRemoteAck (bytes_str (rqBinary q)) a1")
    show ?thesis using assms True d s r
      by (cases d; cases src) (auto simp: handle_ack_msg_def branch_ok_def)
  next
    case False
    then show ?thesis using assms r by (cases ok) (auto simp: handle_ack_msg_def branch_ok_def)
  qed
qed

lemma app_branch:
  "handle_app_msg env a q h = Ok b \<Longrightarrow> branch_ok b \<and>
     (\<forall>r. fst b = Some r \<longrightarrow> rsResponseToId r = rqId q \<and> rsId r = ceResID env)"
  by (auto simp: handle_app_msg_def Let_def branch_ok_def emptyResponse_def
      split: prod.splits bool.splits if_splits outcome.splits)

lemma finish_send:
  assumes "branch_ok b" "finish raw b = (outs, h')" "SendFrame d \<in> set outs"
  shows "\<exists>r. fst b = Some r \<and> Response_Unmarshall d = Ok r"
proof -
  obtain r out calls h where b: "b = (r, out, calls, h)" by (cases b)
  have "SendFrame d \<notin> set calls" using assms(1) by (auto simp: b branch_ok_def filter_empty_conv)
  then show ?thesis using assms(2,3)
    by (auto simp: b finish_def Let_def Response_Marshall_decodes split: option.splits if_splits)
qed

definition branch_of ::
    "cmh_env \<Rightarrow> WebsocketAuth \<Rightarrow> WebsocketResquest \<Rightarrow> clientMsgHandler \<Rightarrow> (cmh_branch, unit) outcome" where
  "branch_of env auth msg h =
     (if rqMsgType msg = MessageTypeHeartbeat then Ok (handle_heartbeat_msg env auth h)
      else if rqMsgType msg = MessageTypeAck then handle_ack_msg env auth msg h
      else handle_app_msg env auth msg h)"

lemma handleMessage_Ok:
  "Request_Unmarshall data = Ok q \<Longrightarrow>
   handleMessage env data a h = obind (branch_of env a q h) (\<lambda>b. Ok (finish (rqMsgType q) b))"
  by (simp add: handleMessage_def branch_of_def)

lemma branch_of_ok: "branch_of env a q h = Ok b \<Longrightarrow> branch_ok b"
  using ack_branch app_branch heartbeat_branch by (auto simp: branch_of_def split: if_splits)

lemma app_calls:
  "handle_app_msg env a q h = Ok b \<Longrightarrow> c \<in> set (fst (snd (snd b))) \<Longrightarrow> c = CallHandler a (rqMsgType q) (rqBinary q)"
  by (auto simp: handle_app_msg_def Let_def split: prod.splits bool.splits if_splits outcome.splits)

lemma finish_calls:
  "finish raw b = (outs, h') \<Longrightarrow> c \<in> set outs \<Longrightarrow> is_callhandler c \<Longrightarrow> c \<in> set (fst (snd (snd b)))"
  by (cases b) (auto simp: finish_def Let_def split: option.splits if_splits)

text \<open>What a frame sent in answer to a message decodes to.\<close>

definition answers :: "cmh_env \<Rightarrow> bytes \<Rightarrow> WebsocketResponse \<Rightarrow> bool" where
  "answers env data r \<longleftrightarrow> (case Request_Unmarshall data of
     Ok q \<Rightarrow> rqMsgType q \<noteq> MessageTypeAck \<and>
       (if rqMsgType q = MessageTypeHeartbeat then r = hearbeatResMsg
        else rsResponseToId r = rqId q \<and> rsId r = ceResID env)
   | Err e \<Rightarrow> e \<noteq> ErrVersion \<and>
       r = emptyResponse\<lparr>rsMsgType := MessageTypeError, rsError := ceErrText env InvalidInputSchema\<rparr>
   | Panic \<Rightarrow> False)"

lemma branch_answers:
  assumes "Request_Unmarshall data = Ok q" "branch_of env a q h = Ok b" "fst b = Some r"
  shows "answers env data r"
proof (cases "rqMsgType q = MessageTypeHeartbeat")
  case True
  then show ?thesis using assms
    by (auto simp: answers_def branch_of_def handle_heartbeat_msg_def msgtype_defs split: prod.splits bool.splits)
next
  case False
  show ?thesis
  proof (cases "rqMsgType q = MessageTypeAck")
    case True
    then have "handle_ack_msg env a q h = Ok b" using assms(2) False by (simp add: branch_of_def msgtype_defs)
    then show ?thesis using ack_branch assms(3) by fastforce
  next
    case no_ack: False
    then have "handle_app_msg env a q h = Ok b" using assms(2) False by (simp add: branch_of_def)
    then show ?thesis using app_branch assms(1,3) False no_ack by (auto simp: answers_def)
  qed
qed

lemma branch_calls:
  assumes "branch_of env a q h = Ok b" "c \<in> set (fst (snd (snd b)))" "is_callhandler c"
  shows "rqMsgType q \<notin> {MessageTypeHeartbeat, MessageTypeAck} \<and> c = CallHandler a (rqMsgType q) (rqBinary q)"
proof (cases "rqMsgType q = MessageTypeHeartbeat")
  case True
  then have "fst (snd (snd b)) = []" using assms(1)
    by (auto simp: branch_of_def handle_heartbeat_msg_def split: prod.splits bool.splits)
  then show ?thesis using assms(2) by simp
next
  case False
  show ?thesis
  proof (cases "rqMsgType q = MessageTypeAck")
    case True
    then have "handle_ack_msg env a q h = Ok b" using assms(1) False by (simp add: branch_of_def msgtype_defs)
    then have "filter is_callhandler (fst (snd (snd b))) = []" using ack_branch by blast
    then show ?thesis using assms(2,3) by (simp add: filter_empty_conv)
  next
    case no_ack: False
    then have "handle_app_msg env a q h = Ok b" using assms(1) False by (simp add: branch_of_def)
    then show ?thesis using app_calls [OF _ assms(2)] False no_ack by blast
  qed
qed

lemma handleMessage_Err:
  assumes "Request_Unmarshall data = Err e"
  obtains b where "handleMessage env data a h = Ok (finish [] b)" "branch_ok b" "filter is_callhandler (fst (snd (snd b))) = []"
    "\<And>r. fst b = Some r \<Longrightarrow> answers env data r"
proof (cases "e = ErrVersion")
  case True
  show ?thesis
    by (rule that [of "(None, OutcomeInvalidSchema, closeOnVersionMismatch a h, h)"])
      (use assms True in \<open>auto simp: handleMessage_def branch_ok_def closeOnVersionMismatch_def split: option.split\<close>)
next
  case False
  show ?thesis
    by (rule that [of "(Some (emptyResponse\<lparr>rsMsgType := MessageTypeError, rsError := ceErrText env InvalidInputSchema\<rparr>),
          OutcomeInvalidSchema, [], h)"])
      (use assms False in \<open>auto simp: handleMessage_def branch_ok_def answers_def\<close>)
qed

text \<open>C37: Every client message is answered by at most one frame, calls the application at
  most once and is recorded in the metrics exactly once, on every path.  The frame decodes:
  for a heartbeat it is the heartbeat answer, for an application message it carries that
  message's id as the id it responds to and the fresh response id, for bytes that do not
  decode it is the error message; an acknowledgement and a frame of another wire version are
  never answered.  The application is called only for a decoded message that is
  neither a heartbeat nor an acknowledgement, with the caller's identity, type and payload.\<close>

theorem handle_single_response:
  assumes "handleMessage env data a h = Ok (outs, h')"
  shows "length (filter is_sendframe outs) \<le> 1 \<and> length (filter is_callhandler outs) \<le> 1 \<and>
    length (filter is_metric outs) = 1 \<and>
    (\<forall>d. SendFrame d \<in> set outs \<longrightarrow> (\<exists>r. Response_Unmarshall d = Ok r \<and> answers env data r)) \<and>
    (\<forall>c \<in> set outs. is_callhandler c \<longrightarrow> (\<exists>q. Request_Unmarshall data = Ok q \<and>
       rqMsgType q \<notin> {MessageTypeHeartbeat, MessageTypeAck} \<and> c = CallHandler a (rqMsgType q) (rqBinary q)))"
proof (cases "Request_Unmarshall data")
  case (Ok q)
  then obtain b where b: "branch_of env a q h = Ok b" "finish (rqMsgType q) b = (outs, h')"
    using assms by (auto simp: handleMessage_Ok obind_eq_Ok)
  have "\<exists>r. Response_Unmarshall d = Ok r \<and> answers env data r" if "SendFrame d \<in> set outs" for d
    using finish_send [OF branch_of_ok [OF b(1)] b(2) that] branch_answers [OF Ok b(1)] by blast
  moreover have "rqMsgType q \<notin> {MessageTypeHeartbeat, MessageTypeAck} \<and> c = CallHandler a (rqMsgType q) (rqBinary q)"
    if "c \<in> set outs" "is_callhandler c" for c
    using branch_calls [OF b(1) finish_calls [OF b(2) that] that(2)] .
  ultimately show ?thesis using finish_shape [OF branch_of_ok [OF b(1)] b(2)] Ok by blast
next
  case (Err e)
  obtain b where b: "handleMessage env data a h = Ok (finish [] b)" "branch_ok b"
    "filter is_callhandler (fst (snd (snd b))) = []" "\<And>r. fst b = Some r \<Longrightarrow> answers env data r"
    by (rule handleMessage_Err [OF Err, of env a h]) blast
  then have f: "finish [] b = (outs, h')" using assms by simp
  have "\<not> is_callhandler c" if "c \<in> set outs" for c
    using finish_calls [OF f that] b(3) by (auto simp: filter_empty_conv)
  then show ?thesis using finish_shape [OF b(2) f] finish_send [OF b(2) f] b(4) by blast
next
  case Panic
  then show ?thesis using assms by (simp add: handleMessage_def)
qed

lemma ex_request:
  "Request_Unmarshall (Request_Marshall \<lparr>rqId = ''7'', rqMsgType = ''chat'', rqBinary = [1]\<rparr>) =
   Ok \<lparr>rqId = ''7'', rqMsgType = ''chat'', rqBinary = [1]\<rparr>"
  by (simp add: Request_Marshall_def Request_Unmarshall_def Encode_encodable Decode_layout
      encodable_toFrame message_fits_def)

lemma ex_rate: "\<exists>h'. rate_allow ex_cenv a h = (True, h') \<and> chDedup h' = chDedup h \<and> chAck h' = chAck h"
  by (cases "Limiter_Get a (\<lambda>r. r) (chRate h)") (simp add: rate_allow_def ex_cenv_def)

lemma ex_handle:
  "\<exists>outs h'. handleMessage ex_cenv (Request_Marshall \<lparr>rqId = ''7'', rqMsgType = ''chat'', rqBinary = [1]\<rparr>) a ex_cmh =
     Ok (outs, h') \<and> (\<exists>d. SendFrame d \<in> set outs)"
proof -
  obtain h' where r: "rate_allow ex_cenv a ex_cmh = (True, h')" "chDedup h' = []"
    using ex_rate [of a ex_cmh] by (auto simp: ex_cmh_def)
  let ?r = "emptyResponse\<lparr>rsId := ''r1'', rsResponseToId := ''7'', rsMsgType := ''chat'', rsBinary := [1]\<rparr>"
  have "Response_Marshall ?r \<noteq> []" by (simp add: Response_Marshall_fits message_fits_def emptyResponse_def)
  then show ?thesis
    unfolding handleMessage_Ok [OF ex_request] using r
    by (simp add: branch_of_def msgtype_defs handle_app_msg_def isDuplicate_def dedup_hit_def Let_def finish_def)
      (simp add: ex_cenv_def)
qed

theorem handle_single_response_witness:
  "\<exists>outs d r. SendFrame d \<in> set outs \<and> length (filter is_sendframe outs) \<le> 1 \<and>
     Response_Unmarshall d = Ok r \<and> rsResponseToId r = ''7''"
proof -
  obtain outs h' d where r: "handleMessage ex_cenv (Request_Marshall \<lparr>rqId = ''7'', rqMsgType = ''chat'', rqBinary = [1]\<rparr>)
      \<lparr>auUserID = ''u'', auInstanceID = ''i'', auMetadata = []\<rparr> ex_cmh = Ok (outs, h')" "SendFrame d \<in> set outs"
    using ex_handle by blast
  have "\<exists>r. Response_Unmarshall d = Ok r \<and> rsResponseToId r = ''7''"
    using handle_single_response [OF r(1)] ex_request r(2) by (force simp: answers_def msgtype_defs)
  then show ?thesis using handle_single_response [OF r(1)] r(2) by blast
qed

text \<open>The handler never panics on any client bytes as long as the application's handler
  does not: malformed frames, unknown acknowledgements and database faults all end in a
  normal return, and the invariant of the pending acknowledgements is kept.\<close>

theorem handle_no_panic:
  assumes "ack_inv (Some (chAck h, cl))" "\<forall>mt b. ceHandle env a mt b \<noteq> Panic"
  shows "\<exists>outs h'. handleMessage env data a h = Ok (outs, h') \<and> ack_inv (Some (chAck h', cl))"
proof -
  obtain ok h1 where r: "rate_allow env a h = (ok, h1)" by (cases "rate_allow env a h")
  then have h1: "chAck h1 = chAck h" by (auto simp: rate_allow_def split: prod.splits)
  have hb: "chAck (handleHeartbeat env a h1) = chAck h1"
    by (simp add: handleHeartbeat_def Let_def split: prod.split)
  have ack: "\<exists>b. handle_ack_msg env a q h = Ok b \<and> ack_inv (Some (chAck (snd (snd (snd b))), cl))" for q
  proof -
    obtain d a1 where d: "ResolveAck (bytes_str (rqBinary q)) (chAck h1) = Ok (d, a1)" "ack_inv (Some (a1, cl))"
      using ResolveAck_inv assms(1) unfolding h1 by blast
    obtain src a2 where s: "ResolveRemoteAck (bytes_str (rqBinary q)) a1 = (src, a2)"
      by (cases "ResolveRemoteAck (bytes_str (rqBinary q)) a1")
    then have "ack_inv (Some (a2, cl))" by (rule ack_inv_remote_resolve [OF d(2)])
    then show ?thesis using d s r h1 assms(1)
      by (cases ok; cases d; cases src) (auto simp: handle_ack_msg_def Let_def)
  qed
  have app: "\<exists>b. handle_app_msg env a q h = Ok b \<and> chAck (snd (snd (snd b))) = chAck h" for q
    using assms(2) r h1
    by (cases ok; cases "ceHandle env a (rqMsgType q) (rqBinary q)")
      (auto simp: handle_app_msg_def Let_def split: prod.split)
  have br: "\<exists>b. branch_of env a q h = Ok b \<and> ack_inv (Some (chAck (snd (snd (snd b))), cl))" for q
    using ack [of q] app [of q] assms(1) r h1 hb
    by (cases ok) (auto simp: branch_of_def handle_heartbeat_msg_def)
  have fin: "chAck (snd (finish raw b)) = chAck (snd (snd (snd b)))" for raw b
    by (cases b) (simp add: finish_def Let_def)
  have "Request_Unmarshall data \<noteq> Panic"
    using Decode_safe [of data] by (cases "Decode data") (auto simp: Request_Unmarshall_def safe_def)
  then show ?thesis using assms(1)
  proof (cases "Request_Unmarshall data")
    case (Ok q)
    obtain b where b: "branch_of env a q h = Ok b" "ack_inv (Some (chAck (snd (snd (snd b))), cl))"
      using br by blast
    then show ?thesis unfolding handleMessage_Ok [OF Ok] using fin [of "rqMsgType q" b]
      by (cases "finish (rqMsgType q) b") auto
  qed (auto simp: handleMessage_def finish_def Let_def)
qed

theorem handle_no_panic_witness:
  "\<exists>outs h'. handleMessage ex_cenv [0xF1] \<lparr>auUserID = ''u'', auInstanceID = ''i'', auMetadata = []\<rparr> ex_cmh = Ok (outs, h') \<and>
     ack_inv (Some (chAck h', []))"
  by (rule handle_no_panic) (simp_all add: ex_cmh_def ex_cenv_def ack_inv_def NewAckManager_def gm_vals_def)

text \<open>C38: A rate-limited message has no effect besides the limiter's: the application is not
  called, no acknowledgement is resolved or forwarded, no heartbeat is stored and the
  message id is not remembered, so the client may retry it.\<close>

theorem rate_limited_no_effect:
  assumes "Request_Unmarshall data = Ok q" "\<forall>l. \<not> ceAllow env l"
  shows "\<exists>outs r. handleMessage env data a h = Ok (outs, h\<lparr>chRate := r\<rparr>) \<and>
    (\<forall>x \<in> set outs. is_sendframe x \<or> x = RecordClientMessage (rqMsgType q) OutcomeRateLimited)"
proof -
  obtain r where r: "rate_allow env a h = (False, h\<lparr>chRate := r\<rparr>)"
    using assms(2) by (cases "Limiter_Get a (\<lambda>r. r) (chRate h)") (auto simp: rate_allow_def)
  show ?thesis
    unfolding handleMessage_Ok [OF assms(1)]
    by (auto simp: branch_of_def handle_heartbeat_msg_def handle_ack_msg_def handle_app_msg_def r finish_def)
qed

theorem rate_limited_no_effect_witness:
  "\<exists>outs r. handleMessage (ex_cenv\<lparr>ceAllow := \<lambda>_. False\<rparr>)
      (Request_Marshall \<lparr>rqId = ''7'', rqMsgType = ''chat'', rqBinary = [1]\<rparr>)
      \<lparr>auUserID = ''u'', auInstanceID = ''i'', auMetadata = []\<rparr> ex_cmh = Ok (outs, ex_cmh\<lparr>chRate := r\<rparr>)"
  using rate_limited_no_effect [OF ex_request, of "ex_cenv\<lparr>ceAllow := \<lambda>_. False\<rparr>"
      "\<lparr>auUserID = ''u'', auInstanceID = ''i'', auMetadata = []\<rparr>" ex_cmh] by auto

end
