(* ===== verification/Broadcast.thy ===== *)
theory Broadcast
  imports Aerror
begin

text \<open>
  Messages between containers (\<open>broadcast/\<close>): the parameter structs, the creators, the
  publication and the dispatch in the subscriber.  The msgpack codec is a third-party
  package and a parameter: \<open>cdEnc\<close> encodes a struct and \<open>cdDec t\<close> decodes into the
  struct of message type \<open>t\<close>.  A nil payload is \<open>None\<close>.
\<close>

subsection \<open>Message types and parameters\<close>

definition msgTSendToUser :: gostring where "msgTSendToUser = ''SendToUser''"
definition msgTSendToSession :: gostring where "msgTSendToSession = ''SendToSession''"
definition msgTDisconnectSession :: gostring where "msgTDisconnectSession = ''DisconnectSession''"
definition msgTDisconnectUser :: gostring where "msgTDisconnectUser = ''DisconnectUser''"
definition msgTSendToUsers :: gostring where "msgTSendToUsers = ''SendToUsers''"
definition msgTSendToSessionWithAck :: gostring where "msgTSendToSessionWithAck = ''SendToSessionWithAck''"
definition msgTSendToUserWithAck :: gostring where "msgTSendToUserWithAck = ''SendToUserWithAck''"
definition msgTAckResolved :: gostring where "msgTAckResolved = ''AckResolved''"
definition msgTResumeSession :: gostring where "msgTResumeSession = ''ResumeSession''"
definition msgTSendToAnonymous :: gostring where "msgTSendToAnonymous = ''SendToAnonymous''"
definition msgTSendToAuthenticated :: gostring where "msgTSendToAuthenticated = ''SendToAuthenticated''"
definition msgTSendToAll :: gostring where "msgTSendToAll = ''SendToAll''"

lemmas msg_types = msgTSendToUser_def msgTSendToSession_def msgTDisconnectSession_def
  msgTDisconnectUser_def msgTSendToUsers_def msgTSendToSessionWithAck_def msgTSendToUserWithAck_def
  msgTAckResolved_def msgTResumeSession_def msgTSendToAnonymous_def msgTSendToAuthenticated_def
  msgTSendToAll_def

definition channelPrefix :: gostring where "channelPrefix = ''wb''"
definition broadcastChannel :: gostring where "broadcastChannel = ''wbbc''"

type_synonym payload = "bytes option"

text \<open>One constructor per params struct, with the fields in their order.\<close>

datatype pub_params =
    SendToUserParams gostring gostring payload
  | SendToSessionParams gostring gostring gostring payload
  | DisconnectSessionParams gostring gostring
  | DisconnectUserParams gostring
  | SendToUsersParams "gostring list" gostring payload
  | SendToAnonymousParams bool "gostring list" gostring payload
  | SendToAuthenticatedParams gostring payload
  | SendToAllParams gostring payload
  | SendToSessionWithAckParams gostring gostring gostring payload gostring gostring
  | SendToUserWithAckParams gostring gostring payload gostring gostring
  | AckResolvedParams gostring
  | ResumeSessionParams gostring gostring

fun params_type :: "pub_params \<Rightarrow> gostring" where
  "params_type (SendToUserParams _ _ _) = msgTSendToUser"
| "params_type (SendToSessionParams _ _ _ _) = msgTSendToSession"
| "params_type (DisconnectSessionParams _ _) = msgTDisconnectSession"
| "params_type (DisconnectUserParams _) = msgTDisconnectUser"
| "params_type (SendToUsersParams _ _ _) = msgTSendToUsers"
| "params_type (SendToAnonymousParams _ _ _ _) = msgTSendToAnonymous"
| "params_type (SendToAuthenticatedParams _ _) = msgTSendToAuthenticated"
| "params_type (SendToAllParams _ _) = msgTSendToAll"
| "params_type (SendToSessionWithAckParams _ _ _ _ _ _) = msgTSendToSessionWithAck"
| "params_type (SendToUserWithAckParams _ _ _ _ _) = msgTSendToUserWithAck"
| "params_type (AckResolvedParams _) = msgTAckResolved"
| "params_type (ResumeSessionParams _ _) = msgTResumeSession"

text \<open>The payload a struct has, if it has such a field.\<close>

fun params_payload :: "pub_params \<Rightarrow> payload option" where
  "params_payload (SendToUserParams _ _ p) = Some p"
| "params_payload (SendToSessionParams _ _ _ p) = Some p"
| "params_payload (SendToUsersParams _ _ p) = Some p"
| "params_payload (SendToAnonymousParams _ _ _ p) = Some p"
| "params_payload (SendToAuthenticatedParams _ p) = Some p"
| "params_payload (SendToAllParams _ p) = Some p"
| "params_payload (SendToSessionWithAckParams _ _ _ p _ _) = Some p"
| "params_payload (SendToUserWithAckParams _ _ p _ _) = Some p"
| "params_payload _ = None"

record codec =
  cdEnc :: "pub_params \<Rightarrow> bytes"
  cdDec :: "gostring \<Rightarrow> bytes \<Rightarrow> pub_params option"

text \<open>What the code relies on: decoding what was encoded gives the struct back.\<close>

definition codec_ok :: "codec \<Rightarrow> pub_params \<Rightarrow> bool" where
  "codec_ok cd p \<longleftrightarrow> cdDec cd (params_type p) (cdEnc cd p) = Some p"

definition params_Marshal :: "codec \<Rightarrow> pub_params \<Rightarrow> (bytes, unit) outcome" where
  "params_Marshal cd p = (if params_payload p = Some None then Err () else Ok (cdEnc cd p))"

subsection \<open>Creators and publication\<close>

record pubsubMessage =
  psTargetContainers :: "gostring list"
  psSendAllContainers :: bool
  psMsgType :: gostring
  psPayload :: bytes

text \<open>\<open>lo.Must\<close> turns the error of \<open>Marshal\<close> into a panic.\<close>

definition must :: "('a, unit) outcome \<Rightarrow> ('a, 'e) outcome" where
  "must r = (case r of Ok x \<Rightarrow> Ok x | _ \<Rightarrow> Panic)"

definition create_targeted :: "codec \<Rightarrow> gostring list \<Rightarrow> pub_params \<Rightarrow> (pubsubMessage, 'e) outcome" where
  "create_targeted cd containerIDs payload =
     obind (must (params_Marshal cd payload)) (\<lambda>data.
       Ok \<lparr>psTargetContainers = containerIDs, psSendAllContainers = False,
           psMsgType = params_type payload, psPayload = data\<rparr>)"

definition create_all :: "codec \<Rightarrow> pub_params \<Rightarrow> (pubsubMessage, 'e) outcome" where
  "create_all cd payload =
     obind (must (params_Marshal cd payload)) (\<lambda>data.
       Ok \<lparr>psTargetContainers = [], psSendAllContainers = True,
           psMsgType = params_type payload, psPayload = data\<rparr>)"

definition channelName :: "gostring \<Rightarrow> gostring" where
  "channelName containerID = channelPrefix @ containerID"

text \<open>
  \<open>Publish\<close> stops at the first channel that the pub/sub service refuses; the result is
  the list of channels the message went to.
\<close>

fun publish_each :: "(gostring \<Rightarrow> bool) \<Rightarrow> gostring list \<Rightarrow> (unit, ErrorCode) outcome \<times> gostring list" where
  "publish_each accepts [] = (Ok (), [])"
| "publish_each accepts (c # cs) =
     (if accepts (channelName c)
      then (case publish_each accepts cs of (r, sent) \<Rightarrow> (r, channelName c # sent))
      else (Err ErrUnexpectedPubsub, []))"

definition Publish :: "(gostring \<Rightarrow> bool) \<Rightarrow> pubsubMessage \<Rightarrow> (unit, ErrorCode) outcome \<times> gostring list" where
  "Publish accepts p =
     (if psSendAllContainers p then
        (let channel = channelName broadcastChannel in
         if accepts channel then (Ok (), [channel]) else (Err ErrUnexpectedPubsub, []))
      else publish_each accepts (psTargetContainers p))"

subsection \<open>Subscriber\<close>

text \<open>
  A container subscribes its own channel with \<open>handleMsg\<close> and the broadcast channel with
  \<open>handleBroadcastMsg\<close>.  The value is the handler method that is called, given by its
  params, or \<open>None\<close> when the message is only logged.
\<close>

definition targeted_types :: "gostring list" where
  "targeted_types = [msgTSendToUser, msgTSendToSession, msgTDisconnectSession, msgTDisconnectUser,
     msgTSendToUsers, msgTSendToSessionWithAck, msgTSendToUserWithAck, msgTAckResolved,
     msgTResumeSession]"

definition broadcast_types :: "gostring list" where
  "broadcast_types = [msgTSendToAnonymous, msgTSendToAuthenticated, msgTSendToAll]"

definition handleMsg :: "codec \<Rightarrow> pubsubMessage \<Rightarrow> pub_params option" where
  "handleMsg cd msg =
     (if psMsgType msg \<in> set targeted_types then cdDec cd (psMsgType msg) (psPayload msg) else None)"

definition handleBroadcastMsg :: "codec \<Rightarrow> pubsubMessage \<Rightarrow> pub_params option" where
  "handleBroadcastMsg cd msg =
     (if psMsgType msg \<in> set broadcast_types then cdDec cd (psMsgType msg) (psPayload msg) else None)"

definition receive :: "codec \<Rightarrow> gostring \<Rightarrow> gostring \<Rightarrow> pubsubMessage \<Rightarrow> pub_params list" where
  "receive cd containerID channel msg =
     (if channel = channelName containerID then (case handleMsg cd msg of Some p \<Rightarrow> [p] | None \<Rightarrow> []) else []) @
     (if channel = channelName broadcastChannel
      then (case handleBroadcastMsg cd msg of Some p \<Rightarrow> [p] | None \<Rightarrow> []) else [])"

subsection \<open>Properties\<close>

lemma must_simps [simp]: "must (Ok x) = Ok x" "must (Err e) = Panic" "must Panic = Panic"
  by (simp_all add: must_def)

lemma publish_each_ok: "\<forall>c. accepts (channelName c) \<Longrightarrow> publish_each accepts cs = (Ok (), map channelName cs)"
  by (induction cs) simp_all

lemma channelName_inj [simp]: "channelName a = channelName b \<longleftrightarrow> a = b"
  by (simp add: channelName_def)

lemma type_split:
  "params_type p \<in> set targeted_types \<longleftrightarrow> params_type p \<notin> set broadcast_types"
  by (cases p) (simp_all add: targeted_types_def broadcast_types_def msg_types)

lemma create_targeted_Ok:
  "params_payload p \<noteq> Some None \<Longrightarrow> create_targeted cd cs p =
     Ok \<lparr>psTargetContainers = cs, psSendAllContainers = False, psMsgType = params_type p, psPayload = cdEnc cd p\<rparr>"
  by (simp add: create_targeted_def params_Marshal_def must_def)

lemma create_all_Ok:
  "params_payload p \<noteq> Some None \<Longrightarrow> create_all cd p =
     Ok \<lparr>psTargetContainers = [], psSendAllContainers = True, psMsgType = params_type p, psPayload = cdEnc cd p\<rparr>"
  by (simp add: create_all_def params_Marshal_def must_def)

lemma receive_targeted:
  "\<lbrakk>codec_ok cd p; params_type p \<in> set targeted_types; psMsgType m = params_type p; psPayload m = cdEnc cd p\<rbrakk> \<Longrightarrow>
   receive cd c ch m = (if ch = channelName c then [p] else [])"
  using type_split [of p] by (auto simp: receive_def handleMsg_def handleBroadcastMsg_def codec_ok_def)

lemma receive_broadcast:
  "\<lbrakk>codec_ok cd p; params_type p \<in> set broadcast_types; psMsgType m = params_type p; psPayload m = cdEnc cd p\<rbrakk> \<Longrightarrow>
   receive cd c ch m = (if ch = channelName broadcastChannel then [p] else [])"
  using type_split [of p] by (auto simp: receive_def handleMsg_def handleBroadcastMsg_def codec_ok_def)

text \<open>A codec for the witnesses, which knows a single struct.\<close>

definition single_codec :: "pub_params \<Rightarrow> codec" where
  "single_codec q = \<lparr>cdEnc = (\<lambda>_. []), cdDec = (\<lambda>t b. if t = params_type q \<and> b = [] then Some q else None)\<rparr>"

lemma single_codec_ok: "codec_ok (single_codec q) q"
  by (simp add: codec_ok_def single_codec_def)

text \<open>A message published to a list of containers makes each of them call the handler
  method of the message's type with the very parameters of the sender, once per occurrence
  in the list, and makes no other container call anything.\<close>

theorem targeted_publish_exact:
  assumes "codec_ok cd p" and "params_type p \<in> set targeted_types"
    and "create_targeted cd cs p = Ok m" and "Publish accepts m = (Ok (), sent)"
  shows "concat (map (\<lambda>ch. receive cd c ch m) sent) = replicate (count_list cs c) p"
proof -
  have m: "psTargetContainers m = cs" "\<not> psSendAllContainers m" "psMsgType m = params_type p" "psPayload m = cdEnc cd p"
    using assms(3) by (auto simp: create_targeted_def params_Marshal_def must_def obind_eq_Ok split: if_splits)
  have "publish_each accepts xs = (Ok (), ys) \<Longrightarrow> ys = map channelName xs" for xs ys
    by (induction xs arbitrary: ys) (auto split: if_splits prod.splits)
  then have sent: "sent = map channelName cs" using assms(4) m by (auto simp: Publish_def)
  have "concat (map (\<lambda>ch. receive cd c ch m) (map channelName xs)) = replicate (count_list xs c) p" for xs
    by (induction xs) (auto simp: receive_targeted [OF assms(1,2) m(3,4)])
  then show ?thesis using sent by simp
qed

theorem targeted_publish_exact_witness:
  "concat (map (\<lambda>ch. receive (single_codec (DisconnectUserParams ''u'')) ''b'' ch
       \<lparr>psTargetContainers = [''a'', ''b''], psSendAllContainers = False,
        psMsgType = msgTDisconnectUser, psPayload = []\<rparr>) [channelName ''a'', channelName ''b'']) =
   [DisconnectUserParams ''u'']"
  using targeted_publish_exact [of "single_codec (DisconnectUserParams ''u'')" "DisconnectUserParams ''u''"
      "[''a'', ''b'']" "\<lparr>psTargetContainers = [''a'', ''b''], psSendAllContainers = False,
        psMsgType = msgTDisconnectUser, psPayload = []\<rparr>" "\<lambda>_. True" "[channelName ''a'', channelName ''b'']" "''b''"]
  by (simp add: single_codec_ok targeted_types_def create_targeted_Ok Publish_def)
    (simp add: single_codec_def)

text \<open>A message for all containers is handled exactly once by every container, whatever
  its id, with the sender's parameters; a container whose own channel is the broadcast
  channel does not handle it twice.\<close>

theorem broadcast_publish_exact:
  assumes "codec_ok cd p" and "params_type p \<in> set broadcast_types"
    and "create_all cd p = Ok m" and "Publish accepts m = (Ok (), sent)"
  shows "concat (map (\<lambda>ch. receive cd c ch m) sent) = [p]"
proof -
  have m: "psSendAllContainers m" "psMsgType m = params_type p" "psPayload m = cdEnc cd p"
    using assms(3) by (auto simp: create_all_def params_Marshal_def must_def obind_eq_Ok split: if_splits)
  then have "sent = [channelName broadcastChannel]"
    using assms(4) by (auto simp: Publish_def Let_def split: if_splits)
  then show ?thesis using receive_broadcast [OF assms(1,2) m(2,3)] by simp
qed

theorem broadcast_publish_exact_witness:
  "concat (map (\<lambda>ch. receive (single_codec (SendToAllParams ''t'' (Some [1]))) ''b'' ch
       \<lparr>psTargetContainers = [], psSendAllContainers = True,
        psMsgType = msgTSendToAll, psPayload = []\<rparr>) [channelName broadcastChannel]) =
   [SendToAllParams ''t'' (Some [1])]"
  by (rule broadcast_publish_exact [of "single_codec (SendToAllParams ''t'' (Some [1]))"
        "SendToAllParams ''t'' (Some [1])" _ "\<lambda>_. True"])
    (simp_all add: single_codec_ok broadcast_types_def create_all_Ok Publish_def, simp add: single_codec_def)

text \<open>A nil payload makes every creator of a message with a payload panic instead of
  returning an error, for targeted and for broadcast messages.\<close>

theorem nil_payload_panics:
  "params_payload p = Some None \<Longrightarrow>
   create_targeted cd cs p = (Panic :: (_, 'e) outcome) \<and> create_all cd p = (Panic :: (_, 'e) outcome)"
  by (simp add: create_targeted_def create_all_def params_Marshal_def must_def)

theorem nil_payload_panics_witness:
  "create_targeted (single_codec (SendToUserParams ''u'' ''t'' None)) [''c''] (SendToUserParams ''u'' ''t'' None) = (Panic :: (_, unit) outcome) \<and>
   create_all (single_codec (SendToUserParams ''u'' ''t'' None)) (SendToUserParams ''u'' ''t'' None) = (Panic :: (_, unit) outcome)"
  by (rule nil_payload_panics) simp

end
