(* ===== verification/EventTrigger.thy ===== *)
theory EventTrigger
  imports Auth Aerror
begin

text \<open>
  The callback registries of \<open>ws-event-trigger/\<close>.  A callback is a function on the state
  of the container; one for new connections may return an error or panic.
\<close>

subsection \<open>New connections\<close>

type_synonym 'w new_fn = "WebsocketConn \<Rightarrow> 'w \<Rightarrow> (unit, ErrorCode) outcome \<times> 'w"

record 'w onNewStuffFn =
  onFnsMap :: "(gostring, 'w new_fn) gomap"

definition OnNew_Register :: "gostring \<Rightarrow> 'w new_fn \<Rightarrow> 'w onNewStuffFn \<Rightarrow> 'w onNewStuffFn" where
  "OnNew_Register key f o' = o'\<lparr>onFnsMap := gm_put key f (onFnsMap o')\<rparr>"

definition OnNew_Deregister :: "gostring \<Rightarrow> 'w onNewStuffFn \<Rightarrow> 'w onNewStuffFn" where
  "OnNew_Deregister key o' = o'\<lparr>onFnsMap := gm_del key (onFnsMap o')\<rparr>"

fun run_new :: "'w new_fn list \<Rightarrow> WebsocketConn \<Rightarrow> 'w \<Rightarrow> (unit, ErrorCode) outcome \<times> 'w" where
  "run_new [] conn w = (Ok (), w)"
| "run_new (f # fs) conn w =
     (case f conn w of
        (Ok _, w) \<Rightarrow> run_new fs conn w
      | (r, w) \<Rightarrow> (r, w))"

definition OnNew_Do :: "WebsocketConn \<Rightarrow> 'w onNewStuffFn \<Rightarrow> 'w \<Rightarrow> (unit, ErrorCode) outcome \<times> 'w" where
  "OnNew_Do conn o' w = run_new (gm_vals (onFnsMap o')) conn w"

subsection \<open>Closed connections\<close>

type_synonym 'w close_fn = "WebsocketAuth \<Rightarrow> 'w \<Rightarrow> 'w"

text \<open>A registered function may be nil.\<close>

record 'w onCloseStuffFn =
  ocFnsMap :: "(gostring, 'w close_fn option) gomap"
  ocAuthsMap :: "(gostring, WebsocketAuth) gomap"
  ocFnsAll :: "'w close_fn option list"

definition NewOnClose :: "'w onCloseStuffFn" where
  "NewOnClose = \<lparr>ocFnsMap = [], ocAuthsMap = [], ocFnsAll = []\<rparr>"

definition trigger_authKey :: "WebsocketAuth \<Rightarrow> gostring" where
  "trigger_authKey auth = auUserID auth @ '':'' @ auInstanceID auth"

definition OnClose_GetStuffs :: "'w onCloseStuffFn \<Rightarrow> WebsocketAuth list" where
  "OnClose_GetStuffs o' = gm_vals (ocAuthsMap o')"

definition OnClose_Register :: "WebsocketAuth \<Rightarrow> 'w close_fn option \<Rightarrow> 'w onCloseStuffFn \<Rightarrow> 'w onCloseStuffFn" where
  "OnClose_Register auth f o' =
     (let key = trigger_authKey auth
      in o'\<lparr>ocFnsMap := gm_put key f (ocFnsMap o'), ocAuthsMap := gm_put key auth (ocAuthsMap o')\<rparr>)"

definition OnClose_RegisterAll :: "'w close_fn option \<Rightarrow> 'w onCloseStuffFn \<Rightarrow> 'w onCloseStuffFn" where
  "OnClose_RegisterAll f o' = o'\<lparr>ocFnsAll := ocFnsAll o' @ [f]\<rparr>"

definition call_close :: "WebsocketAuth \<Rightarrow> 'w close_fn option \<Rightarrow> 'w \<Rightarrow> 'w" where
  "call_close auth f w = (case f of Some f \<Rightarrow> f auth w | None \<Rightarrow> w)"

definition OnClose_Do :: "WebsocketAuth \<Rightarrow> 'w onCloseStuffFn \<times> 'w \<Rightarrow> 'w onCloseStuffFn \<times> 'w" where
  "OnClose_Do auth ow =
     (case ow of (o', w) \<Rightarrow>
        let key = trigger_authKey auth;
            reg = gm_get (ocFnsMap o') key;
            o' = (if reg \<noteq> None
                  then o'\<lparr>ocFnsMap := gm_del key (ocFnsMap o'), ocAuthsMap := gm_del key (ocAuthsMap o')\<rparr>
                  else o');
            w = (case reg of Some f \<Rightarrow> call_close auth f w | None \<Rightarrow> w)
        in (o', fold (call_close auth) (ocFnsAll o') w))"

subsection \<open>Properties\<close>

lemma run_new_append:
  "run_new (fs @ gs) conn w =
     (case run_new fs conn w of (Ok _, w) \<Rightarrow> run_new gs conn w | (r, w) \<Rightarrow> (r, w))"
proof (induction fs arbitrary: w)
  case (Cons f fs)
  show ?case
  proof (cases "f conn w")
    case (Pair r w')
    then show ?thesis using Cons by (cases r) simp_all
  qed
qed simp

text \<open>The function registered for a session runs exactly once, at the first close of
  that session after the registration and before the functions for all sessions, which run
  at every close in the order of their registration.\<close>

theorem close_callback_once:
  assumes "o1 = OnClose_Register a (Some f) o0"
    and "OnClose_Do a (o1, w) = (o2, w2)" and "OnClose_Do a (o2, w2) = (o3, w3)"
  shows "w2 = fold (call_close a) (ocFnsAll o0) (f a w) \<and> w3 = fold (call_close a) (ocFnsAll o0) w2 \<and>
    gm_get (ocAuthsMap o2) (trigger_authKey a) = None"
proof -
  have o2: "o2 = o1\<lparr>ocFnsMap := gm_del (trigger_authKey a) (ocFnsMap o1),
      ocAuthsMap := gm_del (trigger_authKey a) (ocAuthsMap o1)\<rparr>"
    and w2: "w2 = fold (call_close a) (ocFnsAll o0) (f a w)"
    using assms(1,2) by (auto simp: OnClose_Do_def OnClose_Register_def call_close_def Let_def)
  have "w3 = fold (call_close a) (ocFnsAll o0) w2"
    using assms(3) by (simp add: o2 assms(1) OnClose_Do_def OnClose_Register_def Let_def)
  then show ?thesis using w2 o2 by simp
qed

definition ex_auth :: "gostring \<Rightarrow> gostring \<Rightarrow> WebsocketAuth" where
  "ex_auth u i = \<lparr>auUserID = u, auInstanceID = i, auMetadata = []\<rparr>"

theorem close_callback_once_witness:
  "snd (OnClose_Do (ex_auth ''u'' ''i'')
     (OnClose_Register (ex_auth ''u'' ''i'') (Some (\<lambda>_. (+) 1)) (OnClose_RegisterAll (Some (\<lambda>_. (*) 2)) NewOnClose), 5::nat)) = 12"
  using close_callback_once [OF refl surjective_pairing surjective_pairing,
      of "ex_auth ''u'' ''i''" "\<lambda>_. (+) 1" "OnClose_RegisterAll (Some (\<lambda>_. (*) 2)) NewOnClose" "5::nat"]
  by (simp add: OnClose_RegisterAll_def NewOnClose_def call_close_def)

text \<open>Two different sessions can share the key \<open>userID:instanceID\<close>; then closing one of
  them runs and forgets the function that was registered for the other.\<close>

theorem close_callback_collision:
  "let a = ex_auth ''u'' ''v:i''; b = ex_auth ''u:v'' ''i'';
       r = OnClose_Do b (OnClose_Register a (Some (\<lambda>x w. w @ [x])) NewOnClose, [])
   in auth_key a \<noteq> auth_key b \<and> snd r = [b] \<and> OnClose_GetStuffs (fst r) = []"
  by (simp add: ex_auth_def auth_key_def trigger_authKey_def OnClose_Register_def OnClose_Do_def
      OnClose_GetStuffs_def NewOnClose_def call_close_def gm_put_def gm_get_def gm_del_def gm_vals_def)

text \<open>Callbacks for a new connection run until the first one that fails; its error is the
  result, and the later ones have not run.\<close>

theorem new_callbacks_stop:
  assumes "gm_vals (onFnsMap o') = fs @ f # gs" and "run_new fs conn w = (Ok (), w1)"
    and "f conn w1 = (Err e, w2)"
  shows "OnNew_Do conn o' w = (Err e, w2)"
  using assms by (simp add: OnNew_Do_def run_new_append)

theorem new_callbacks_stop_witness:
  "OnNew_Do \<lparr>wcId = 0, wcAuth = ex_auth ''u'' ''i'', wcCore = WsCoreGobwas\<rparr>
     \<lparr>onFnsMap = [(''a'', \<lambda>c w. (Ok (), w + 1)), (''b'', \<lambda>c w. (Err RecordNotFound, w + 10)), (''c'', \<lambda>c w. (Ok (), w + 100))]\<rparr>
     (0::nat) = (Err RecordNotFound, 11)"
  by (rule new_callbacks_stop [where fs = "[\<lambda>c w. (Ok (), w + 1)]" and gs = "[\<lambda>c w. (Ok (), w + 100)]"
        and f = "\<lambda>c w. (Err RecordNotFound, w + 10)" and ?w1.0 = 1]) (simp_all add: gm_vals_def)

end
