(* ===== verification/Queue.thy ===== *)
theory Queue
  imports Auth
begin

text \<open>
  The message queue of the long-polling transport: the adapter interface of \<open>pkg/queue\<close>
  as a locale, and its Valkey implementation.  The Valkey keyspace is the list of keys
  with a non-empty list value; \<open>ok\<close> says whether a command succeeds.
\<close>

subsection \<open>Valkey list commands\<close>

type_synonym vk_store = "(gostring, bytes list) gomap"

definition vk_list :: "vk_store \<Rightarrow> gostring \<Rightarrow> bytes list" where
  "vk_list s k = (case gm_get s k of Some xs \<Rightarrow> xs | None \<Rightarrow> [])"

definition vk_set :: "gostring \<Rightarrow> bytes list \<Rightarrow> vk_store \<Rightarrow> vk_store" where
  "vk_set k xs s = (if xs = [] then gm_del k s else gm_put k xs s)"

lemma vk_list_set [simp]: "vk_list (vk_set k xs s) k' = (if k' = k then xs else vk_list s k')"
  by (simp add: vk_list_def vk_set_def)

subsection \<open>Adapter\<close>

definition vk_Publish :: "gostring \<Rightarrow> bool \<Rightarrow> gostring \<Rightarrow> bytes \<Rightarrow> vk_store \<Rightarrow> bool \<times> vk_store" where
  "vk_Publish prefix ok channel message s =
     (let key = prefix @ channel in
      if ok then (True, vk_set key (vk_list s key @ [message]) s) else (False, s))"

definition vk_FetchOne :: "gostring \<Rightarrow> bool \<Rightarrow> gostring \<Rightarrow> vk_store \<Rightarrow> (bytes option, unit) outcome \<times> vk_store" where
  "vk_FetchOne prefix ok channel s =
     (let key = prefix @ channel in
      if \<not> ok then (Err (), s)
      else case vk_list s key of
             [] \<Rightarrow> (Ok None, s)
           | m # ms \<Rightarrow> (Ok (Some m), vk_set key ms s))"

definition vk_FetchMany :: "gostring \<Rightarrow> bool \<Rightarrow> gostring \<Rightarrow> nat \<Rightarrow> vk_store \<Rightarrow> (bytes list, unit) outcome \<times> vk_store" where
  "vk_FetchMany prefix ok channel maxItem s =
     (let key = prefix @ channel in
      if \<not> ok then (Err (), s)
      else (Ok (take maxItem (vk_list s key)), vk_set key (drop maxItem (vk_list s key)) s))"

text \<open>
  The blocking pop: \<open>arriving\<close> is what is published to the store while the command waits,
  and the command takes the first message of the channel, if there is one by the timeout.
\<close>

definition vk_BlockFetchOne ::
    "gostring \<Rightarrow> bool \<Rightarrow> (vk_store \<Rightarrow> vk_store) \<Rightarrow> gostring \<Rightarrow> vk_store \<Rightarrow> (bytes option, unit) outcome \<times> vk_store" where
  "vk_BlockFetchOne prefix ok arriving channel s =
     (let key = prefix @ channel;
          s = (if vk_list s key = [] then arriving s else s) in
      if \<not> ok then (Err (), s)
      else case vk_list s key of
             [] \<Rightarrow> (Ok None, s)
           | m # ms \<Rightarrow> (Ok (Some m), vk_set key ms s))"

definition vk_Len :: "gostring \<Rightarrow> bool \<Rightarrow> gostring \<Rightarrow> vk_store \<Rightarrow> (nat, unit) outcome" where
  "vk_Len prefix ok channel s = (if ok then Ok (length (vk_list s (prefix @ channel))) else Err ())"

subsection \<open>The contract of a queue\<close>

locale fifo_queue =
  fixes content :: "'s \<Rightarrow> gostring \<Rightarrow> bytes list"
    and publish :: "bool \<Rightarrow> gostring \<Rightarrow> bytes \<Rightarrow> 's \<Rightarrow> bool \<times> 's"
    and fetch_many :: "bool \<Rightarrow> gostring \<Rightarrow> nat \<Rightarrow> 's \<Rightarrow> (bytes list, unit) outcome \<times> 's"
  assumes publish_content:
      "content (snd (publish ok c m s)) c' = (if ok \<and> c' = c then content s c @ [m] else content s c')"
    and publish_result: "fst (publish ok c m s) = ok"
    and fetch_ok: "fetch_many True c n s = (Ok (take n (content s c)), snd (fetch_many True c n s))"
    and fetch_content: "content (snd (fetch_many True c n s)) c' = (if c' = c then drop n (content s c) else content s c')"
    and fetch_fail: "fetch_many False c n s = (Err (), s)"
begin

text \<open>Publishing a list of messages and fetching them in batches of any sizes.\<close>

definition publish_all :: "gostring \<Rightarrow> bytes list \<Rightarrow> 's \<Rightarrow> 's" where
  "publish_all c ms s = fold (\<lambda>m s. snd (publish True c m s)) ms s"

primrec fetch_batches :: "gostring \<Rightarrow> nat list \<Rightarrow> 's \<Rightarrow> bytes list \<times> 's" where
  "fetch_batches c [] s = ([], s)"
| "fetch_batches c (n # ns) s =
     (case fetch_batches c ns (snd (fetch_many True c n s)) of
        (ms, s') \<Rightarrow> (take n (content s c) @ ms, s'))"

lemma publish_all_content: "content (publish_all c ms s) c' = (if c' = c then content s c @ ms else content s c')"
  by (induction ms arbitrary: s) (auto simp: publish_all_def publish_content)

lemma fetch_batches_content:
  "fst (fetch_batches c ns s) = take (sum_list ns) (content s c) \<and>
   content (snd (fetch_batches c ns s)) c' = (if c' = c then drop (sum_list ns) (content s c) else content s c')"
proof (induction ns arbitrary: s)
  case (Cons n ns)
  show ?case
  proof (cases "fetch_batches c ns (snd (fetch_many True c n s))")
    case (Pair ms s')
    have m: "ms = take (sum_list ns) (drop n (content s c))"
      and s': "content s' c' = (if c' = c then drop (sum_list ns) (drop n (content s c)) else content s c')"
      using Cons [of "snd (fetch_many True c n s)"] by (simp_all add: Pair fetch_content)
    show ?thesis
      by (simp add: Pair m s' take_add [symmetric] add.commute)
  qed
qed simp

lemma fifo:
  assumes "content s c = []" and "sum_list ns \<ge> length ms"
  shows "fst (fetch_batches c ns (publish_all c ms s)) = ms"
  using assms fetch_batches_content [of c ns "publish_all c ms s"] publish_all_content [of c ms s]
  by simp

end

interpretation vkq: fifo_queue "\<lambda>s c. vk_list s (prefix @ c)" "vk_Publish prefix" "vk_FetchMany prefix"
  for prefix
  by unfold_locales (auto simp: vk_Publish_def vk_FetchMany_def Let_def)

end
