(* ===== verification/Node.thy ===== *)
theory Node
  imports ConnManager RateLimiter AckManager MsgHub Repo Message Broadcast EventTrigger Queue
begin

text \<open>
  One container: the connection manager, rate limiter, ack manager and message hub it
  owns, together with the database tables and queues it shares with the other containers.
  The theory holds the operations of a connection as the services see them, the close
  callback of \<open>mediator/delivery/0.new.go\<close> and the handlers of \<open>broadcast-msg-handler/\<close>.
\<close>

subsection \<open>State\<close>

text \<open>
  \<open>ndClosed\<close> are the connections whose \<open>closed\<close> flag has been set; \<open>ndTracker\<close> is the
  open-time map of \<open>connTracker\<close>.  \<open>wdOut\<close> logs what leaves the container.
\<close>

record node =
  ndID :: gostring
  ndConns :: connectionMap
  ndRate :: rateLimiter
  ndAck :: AckManager
  ndHub :: msgHub
  ndShutdown :: ShutdownSignal
  ndTracker :: "(gostring, int) gomap"
  ndClosed :: "nat list"

datatype out_ev =
    Delivered nat bytes
  | Published gostring pubsubMessage
  | SaveTask WebsocketAuth bytes
  | PingSent nat

record world =
  wdNode :: node
  wdActive :: ac_table
  wdPending :: pm_table
  wdQueues :: vk_store
  wdOut :: "out_ev list"

text \<open>
  What the environment decides during an operation: the clock, the configuration, the id
  drawn, whether the transport of a connection accepts a write, whether the worker pool
  accepts a task, which statements fail for which session, which channels accept a
  publication, and the msgpack codec.
\<close>

datatype db_query =
    QGetInstance | QGetActive | QCount | QAdd | QStatus | QTransferring | QRemove
  | QPendCreate | QPendGetAll | QPendDelete | QPendDeleteAll

record nenv =
  neNow :: int
  neCutoff :: int
  nePendTTL :: int
  neId :: gostring
  neSend :: "nat \<Rightarrow> bool"
  neSubmit :: bool
  neFault :: "db_query \<Rightarrow> gostring \<Rightarrow> gostring \<Rightarrow> db_fault"
  nePub :: "gostring \<Rightarrow> bool"
  neCodec :: codec

definition upd_node :: "(node \<Rightarrow> node) \<Rightarrow> world \<Rightarrow> world" where
  "upd_node f w = w\<lparr>wdNode := f (wdNode w)\<rparr>"

definition log_ev :: "out_ev \<Rightarrow> world \<Rightarrow> world" where
  "log_ev e w = w\<lparr>wdOut := wdOut w @ [e]\<rparr>"

subsection \<open>Long-polling channels\<close>

definition lpChannelName :: "WebsocketAuth \<Rightarrow> gostring" where
  "lpChannelName auth =
     (if IsAnonymous auth then ''lp:anon:'' @ auInstanceID auth
      else ''lp:'' @ auUserID auth @ '':'' @ auInstanceID auth)"

subsection \<open>Closing\<close>

definition tracker_open :: "int \<Rightarrow> WebsocketAuth \<Rightarrow> (gostring, int) gomap \<Rightarrow> (gostring, int) gomap" where
  "tracker_open now auth t = gm_put (trigger_authKey auth) now t"

definition tracker_close :: "int \<Rightarrow> WebsocketAuth \<Rightarrow> (gostring, int) gomap \<Rightarrow> int option \<times> (gostring, int) gomap" where
  "tracker_close now auth t =
     (case gm_get t (trigger_authKey auth) of
        None \<Rightarrow> (None, t)
      | Some start \<Rightarrow> (Some (now - start), gm_del (trigger_authKey auth) t))"

text \<open>The callback registered with \<open>onCloseStuff.RegisterAll\<close>.\<close>

definition onClose :: "nenv \<Rightarrow> WebsocketAuth \<Rightarrow> world \<Rightarrow> world" where
  "onClose env auth w =
     (let u = auUserID auth; i = auInstanceID auth;
          n = wdNode w;
          n = n\<lparr>ndTracker := snd (tracker_close (neNow env) auth (ndTracker n)),
                ndConns := RemoveConnection auth (ndConns n),
                ndRate := Limiter_Remove auth (ndRate n)\<rparr>;
          w = w\<lparr>wdNode := n\<rparr>
      in
      if IsAnonymous auth then
        w\<lparr>wdActive := snd (AC_RemoveConnection (neFault env QRemove u i) u i (wdActive w))\<rparr>
      else if IsShuttingDown (ndShutdown n) then w
      else case AC_UpdateStatus (neFault env QStatus u i) u i WsStatusTempDisconnected (wdActive w) of
             (Ok _, t) \<Rightarrow>
               w\<lparr>wdActive := t, wdNode := n\<lparr>ndHub := registerWithTTL (neSubmit env) u i (ndHub n)\<rparr>\<rparr>
           | (_, t) \<Rightarrow>
               w\<lparr>wdActive := snd (AC_RemoveConnection (neFault env QRemove u i) u i t)\<rparr>)"

text \<open>
  \<open>Close\<close> of either transport: the flag is set by compare-and-swap, and the winner runs
  the close callback.
\<close>

definition ws_Close :: "nenv \<Rightarrow> WebsocketConn \<Rightarrow> world \<Rightarrow> world" where
  "ws_Close env conn w =
     (if wcId conn \<in> set (ndClosed (wdNode w)) then w
      else onClose env (wcAuth conn) (upd_node (\<lambda>n. n\<lparr>ndClosed := wcId conn # ndClosed n\<rparr>) w))"

text \<open>
  \<open>Send\<close>: a websocket writes to its socket, which fails once it is closed, and closes on
  a failed write; a long-polling connection appends to its queue.
\<close>

definition ws_Send :: "nenv \<Rightarrow> WebsocketConn \<Rightarrow> bytes \<Rightarrow> world \<Rightarrow> bool \<times> world" where
  "ws_Send env conn payload w =
     (if wcCore conn = WsCoreLongPolling then
        (case vk_Publish [] (neSend env (wcId conn)) (lpChannelName (wcAuth conn)) payload (wdQueues w) of
           (ok, q) \<Rightarrow> (ok, (if ok then log_ev (Delivered (wcId conn) payload) else id) (w\<lparr>wdQueues := q\<rparr>)))
      else if wcId conn \<notin> set (ndClosed (wdNode w)) \<and> neSend env (wcId conn) then
        (True, log_ev (Delivered (wcId conn) payload) w)
      else (False, ws_Close env conn w))"

subsection \<open>Expiry of a temporarily disconnected session\<close>

definition onExpired :: "nenv \<Rightarrow> nat \<Rightarrow> gostring \<Rightarrow> gostring \<Rightarrow> world \<Rightarrow> world" where
  "onExpired env gen u i w =
     (let w = upd_node (\<lambda>n. n\<lparr>ndHub := fst (expire_timer gen u i (ndHub n))\<rparr>) w;
          w = w\<lparr>wdActive := snd (AC_RemoveConnection (neFault env QRemove u i) u i (wdActive w))\<rparr>
      in w\<lparr>wdPending := Hub_DeleteAllPendingMessage PG_DeleteAll (neFault env QPendDeleteAll u i) u i (wdPending w)\<rparr>)"

subsection \<open>Buffering\<close>

definition node_Save :: "nenv \<Rightarrow> gostring \<Rightarrow> gostring \<Rightarrow> bytes \<Rightarrow> world \<Rightarrow> (unit, ErrorCode) outcome \<times> world" where
  "node_Save env u i msg w =
     (case Hub_Save (PG_Create (nePendTTL env) (neNow env)) (neFault env QPendCreate u i) (neNow env) u i msg (wdPending w) of
        (r, p) \<Rightarrow> (r, w\<lparr>wdPending := p\<rparr>))"

definition sendOrSaveMessageHub :: "nenv \<Rightarrow> WebsocketConn \<Rightarrow> bytes \<Rightarrow> world \<Rightarrow> world" where
  "sendOrSaveMessageHub env conn payload w =
     (case ws_Send env conn payload w of
        (True, w) \<Rightarrow> w
      | (False, w) \<Rightarrow> if neSubmit env then log_ev (SaveTask (wcAuth conn) payload) w else w)"

definition maxRetryNumber :: nat where "maxRetryNumber = 5"

text \<open>
  The retried task: \<open>envs k\<close> and \<open>others k\<close> are the environment of attempt \<open>k\<close> and what
  happens in the container and the database during the delay before it.  A task the
  worker pool refuses is lost.  The second component counts the attempts.
\<close>

function saveMessageHub ::
    "(nat \<Rightarrow> nenv) \<Rightarrow> (nat \<Rightarrow> world \<Rightarrow> world) \<Rightarrow> WebsocketAuth \<Rightarrow> bytes \<Rightarrow> nat \<Rightarrow> world \<Rightarrow> world \<times> nat" where
  "saveMessageHub envs others auth payload retryNumber w =
     (if retryNumber \<ge> maxRetryNumber then (w, retryNumber)
      else
        let env = envs retryNumber; u = auUserID auth; i = auInstanceID auth in
        case AC_GetInstanceConnection (neCutoff env) (neNow env) (neFault env QGetInstance u i) u i (wdActive w) of
          Ok activeCon \<Rightarrow>
            if acStatus activeCon = WsStatusConnected then
              (if neSubmit env
               then saveMessageHub envs others auth payload (retryNumber + 1) (others retryNumber w)
               else (w, retryNumber + 1))
            else (snd (node_Save env u i payload w), retryNumber + 1)
        | _ \<Rightarrow> (w, retryNumber + 1))"
  by pat_completeness auto
termination by (relation "measure (\<lambda>(_, _, _, _, n, _). maxRetryNumber - n)") auto

definition retry_delay_ms :: "nat \<Rightarrow> nat" where
  "retry_delay_ms retryNumber = min ((retryNumber + 1) * 750) 3000"

subsection \<open>Handlers of broadcast messages\<close>

text \<open>A nil payload marshals as an empty one.\<close>

definition pl_bytes :: "payload \<Rightarrow> bytes" where
  "pl_bytes p = (case p of Some b \<Rightarrow> b | None \<Rightarrow> [])"

definition hdl_frame :: "nenv \<Rightarrow> gostring \<Rightarrow> payload \<Rightarrow> bytes" where
  "hdl_frame env msgType payload = WrapperBytesToWebsocketResponse (neId env) [] msgType (pl_bytes payload)"

definition hdl_ack_frame :: "nenv \<Rightarrow> gostring \<Rightarrow> payload \<Rightarrow> gostring \<Rightarrow> bytes" where
  "hdl_ack_frame env msgType payload ackID =
     Response_Marshall (emptyResponse\<lparr>rsId := neId env, rsMsgType := msgType,
       rsBinary := pl_bytes payload, rsAckId := ackID\<rparr>)"

definition send_each :: "nenv \<Rightarrow> bytes \<Rightarrow> WebsocketConn list \<Rightarrow> world \<Rightarrow> world" where
  "send_each env msg conns w = fold (\<lambda>c w. sendOrSaveMessageHub env c msg w) conns w"

definition hdl_DisconnectSession :: "nenv \<Rightarrow> gostring \<Rightarrow> gostring \<Rightarrow> world \<Rightarrow> (world, 'e) outcome" where
  "hdl_DisconnectSession env userId instanceId w =
     obind (must (UserWebsocketAuth userId instanceId)) (\<lambda>auth.
       case GetConnection (ndConns (wdNode w)) auth of
         None \<Rightarrow> Ok w
       | Some conn \<Rightarrow> Ok (ws_Close env conn w))"

definition hdl_DisconnectUser :: "nenv \<Rightarrow> gostring \<Rightarrow> world \<Rightarrow> (world, 'e) outcome" where
  "hdl_DisconnectUser env userId w =
     Ok (fold (ws_Close env) (GetAllUserConn (ndConns (wdNode w)) userId) w)"

definition hdl_ResumeSession :: "gostring \<Rightarrow> gostring \<Rightarrow> world \<Rightarrow> (world, 'e) outcome" where
  "hdl_ResumeSession userID instanceID w =
     Ok (upd_node (\<lambda>n. n\<lparr>ndHub := Deregister userID instanceID (ndHub n)\<rparr>) w)"

definition hdl_AckResolved :: "gostring \<Rightarrow> world \<Rightarrow> (world, 'e) outcome" where
  "hdl_AckResolved ackID w =
     obind (must (ResolveAck ackID (ndAck (wdNode w)))) (\<lambda>(_, a). Ok (upd_node (\<lambda>n. n\<lparr>ndAck := a\<rparr>) w))"

definition hdl_SendToAll :: "nenv \<Rightarrow> gostring \<Rightarrow> payload \<Rightarrow> world \<Rightarrow> (world, 'e) outcome" where
  "hdl_SendToAll env msgType payload w =
     (let connections = GetAllConnections (ndConns (wdNode w)) in
      if length connections = 0 then Ok w
      else let wsRes = hdl_frame env msgType payload
           in Ok (fold (\<lambda>conn w. snd (ws_Send env conn wsRes w)) connections w))"

fun send_anonymous_ids :: "nenv \<Rightarrow> bytes \<Rightarrow> gostring list \<Rightarrow> world \<Rightarrow> (world, 'e) outcome" where
  "send_anonymous_ids env wsRes [] w = Ok w"
| "send_anonymous_ids env wsRes (i # is) w =
     obind (must (AnonymousUserWebsocketAuth i)) (\<lambda>auth.
       send_anonymous_ids env wsRes is
         (case GetConnection (ndConns (wdNode w)) auth of
            Some conn \<Rightarrow> snd (ws_Send env conn wsRes w)
          | None \<Rightarrow> w))"

definition hdl_SendToAnonymous ::
    "nenv \<Rightarrow> bool \<Rightarrow> gostring list \<Rightarrow> gostring \<Rightarrow> payload \<Rightarrow> world \<Rightarrow> (world, 'e) outcome" where
  "hdl_SendToAnonymous env isSendAll instanceIds msgType payload w =
     (let wsRes = hdl_frame env msgType payload in
      if isSendAll then
        Ok (fold (\<lambda>conn w. snd (ws_Send env conn wsRes w)) (GetAllAnonymousConn (ndConns (wdNode w))) w)
      else if length instanceIds = 0 then Ok w
      else send_anonymous_ids env wsRes instanceIds w)"

definition hdl_SendToAuthenticated :: "nenv \<Rightarrow> gostring \<Rightarrow> payload \<Rightarrow> world \<Rightarrow> (world, 'e) outcome" where
  "hdl_SendToAuthenticated env msgType payload w =
     (let connections = GetAllAuthenticatedConn (ndConns (wdNode w)) in
      if length connections = 0 then Ok w
      else Ok (send_each env (hdl_frame env msgType payload) connections w))"

definition hdl_SendToSession ::
    "nenv \<Rightarrow> gostring \<Rightarrow> gostring \<Rightarrow> gostring \<Rightarrow> payload \<Rightarrow> world \<Rightarrow> (world, 'e) outcome" where
  "hdl_SendToSession env userId instanceId msgType payload w =
     obind (must (UserWebsocketAuth userId instanceId)) (\<lambda>auth.
       let wsRes = hdl_frame env msgType payload in
       case GetConnection (ndConns (wdNode w)) auth of
         None \<Rightarrow>
           if IsRegistered (ndHub (wdNode w)) userId instanceId
           then Ok (snd (node_Save env userId instanceId wsRes w))
           else Ok w
       | Some conn \<Rightarrow> Ok (sendOrSaveMessageHub env conn wsRes w))"

definition hdl_SendToUser :: "nenv \<Rightarrow> gostring \<Rightarrow> gostring \<Rightarrow> payload \<Rightarrow> world \<Rightarrow> (world, 'e) outcome" where
  "hdl_SendToUser env userId msgType payload w =
     (let connections = GetAllUserConn (ndConns (wdNode w)) userId;
          tempSessions = GetSessions (ndHub (wdNode w)) userId in
      if length connections = 0 \<and> length tempSessions = 0 then Ok w
      else
        let wsRes = hdl_frame env msgType payload;
            w = send_each env wsRes connections w
        in Ok (fold (\<lambda>instanceID w. snd (node_Save env userId instanceID wsRes w)) tempSessions w))"

definition hdl_SendToUsers :: "nenv \<Rightarrow> gostring list \<Rightarrow> gostring \<Rightarrow> payload \<Rightarrow> world \<Rightarrow> (world, 'e) outcome" where
  "hdl_SendToUsers env userIds msgType payload w =
     (let wsRes = hdl_frame env msgType payload in
      Ok (fold (\<lambda>userID w. send_each env wsRes (GetAllUserConn (ndConns (wdNode w)) userID) w) userIds w))"

definition hdl_SendToSessionWithAck ::
    "nenv \<Rightarrow> gostring \<Rightarrow> gostring \<Rightarrow> gostring \<Rightarrow> payload \<Rightarrow> gostring \<Rightarrow> gostring \<Rightarrow> world \<Rightarrow> (world, 'e) outcome" where
  "hdl_SendToSessionWithAck env userId instanceId msgType payload ackID source w =
     obind (must (UserWebsocketAuth userId instanceId)) (\<lambda>auth.
       case GetConnection (ndConns (wdNode w)) auth of
         None \<Rightarrow> Ok w
       | Some conn \<Rightarrow>
           let w = upd_node (\<lambda>n. n\<lparr>ndAck := RegisterRemoteAck ackID source (ndAck n)\<rparr>) w
           in Ok (sendOrSaveMessageHub env conn (hdl_ack_frame env msgType payload ackID) w))"

definition hdl_SendToUserWithAck ::
    "nenv \<Rightarrow> gostring \<Rightarrow> gostring \<Rightarrow> payload \<Rightarrow> gostring \<Rightarrow> gostring \<Rightarrow> world \<Rightarrow> (world, 'e) outcome" where
  "hdl_SendToUserWithAck env userId msgType payload ackID source w =
     (let connections = GetAllUserConn (ndConns (wdNode w)) userId in
      if length connections = 0 then Ok w
      else
        let w = upd_node (\<lambda>n. n\<lparr>ndAck := RegisterRemoteAck ackID source (ndAck n)\<rparr>) w
        in Ok (send_each env (hdl_ack_frame env msgType payload ackID) connections w))"

fun handle :: "nenv \<Rightarrow> pub_params \<Rightarrow> world \<Rightarrow> (world, 'e) outcome" where
  "handle env (SendToUserParams u t p) w = hdl_SendToUser env u t p w"
| "handle env (SendToSessionParams u i t p) w = hdl_SendToSession env u i t p w"
| "handle env (DisconnectSessionParams u i) w = hdl_DisconnectSession env u i w"
| "handle env (DisconnectUserParams u) w = hdl_DisconnectUser env u w"
| "handle env (SendToUsersParams us t p) w = hdl_SendToUsers env us t p w"
| "handle env (SendToAnonymousParams a is t p) w = hdl_SendToAnonymous env a is t p w"
| "handle env (SendToAuthenticatedParams t p) w = hdl_SendToAuthenticated env t p w"
| "handle env (SendToAllParams t p) w = hdl_SendToAll env t p w"
| "handle env (SendToSessionWithAckParams u i t p a s) w = hdl_SendToSessionWithAck env u i t p a s w"
| "handle env (SendToUserWithAckParams u t p a s) w = hdl_SendToUserWithAck env u t p a s w"
| "handle env (AckResolvedParams a) w = hdl_AckResolved a w"
| "handle env (ResumeSessionParams u i) w = hdl_ResumeSession u i w"

subsection \<open>Facts about the operations\<close>

lemmas node_defs = upd_node_def log_ev_def

lemma UserWebsocketAuth_Ok:
  "\<lbrakk>u \<noteq> []; i \<noteq> []\<rbrakk> \<Longrightarrow> UserWebsocketAuth u i = Ok \<lparr>auUserID = u, auInstanceID = i, auMetadata = []\<rparr>"
  by (simp add: UserWebsocketAuth_def)

definition no_faults :: "nenv \<Rightarrow> bool" where
  "no_faults env \<longleftrightarrow> (\<forall>q u i. neFault env q u i = DbOk)"

lemma no_faults_simp [simp]: "no_faults env \<Longrightarrow> neFault env q u i = DbOk"
  by (simp add: no_faults_def)

lemma pg_exec_DbOk [simp]: "pg_exec DbOk f t = (Ok (), f t)"
  by (simp add: pg_exec_def)

text \<open>The messages a connection was handed, in order.\<close>

definition delivered_to :: "nat \<Rightarrow> out_ev list \<Rightarrow> bytes list" where
  "delivered_to c evs = concat (map (\<lambda>e. case e of Delivered d b \<Rightarrow> if d = c then [b] else [] | _ \<Rightarrow> []) evs)"

lemma delivered_to_append [simp]: "delivered_to c (xs @ ys) = delivered_to c xs @ delivered_to c ys"
  by (simp add: delivered_to_def)

lemma delivered_to_simps [simp]:
  "delivered_to c [] = []"
  "delivered_to c (Delivered d b # es) = (if d = c then b # delivered_to c es else delivered_to c es)"
  "delivered_to c (Published ch m # es) = delivered_to c es"
  "delivered_to c (SaveTask a b # es) = delivered_to c es"
  by (simp_all add: delivered_to_def)

lemma delivered_to_Published [simp]: "delivered_to c (map (\<lambda>ch. Published ch m) chs) = []"
  by (induction chs) simp_all

text \<open>A session that is looked up while its row is alive.\<close>

lemma get_instance_row:
  assumes "ac_row t u i = Some r" and "alive cutoff now r"
  shows "AC_GetInstanceConnection cutoff now DbOk u i t = Ok r"
proof -
  obtain rest where "filter (\<lambda>r. ac_key r = (u, i) \<and> alive cutoff now r) t = r # rest"
    using find_filter_hd assms unfolding ac_row_def by metis
  then show ?thesis by (simp add: AC_GetInstanceConnection_def pg_row_def ac_key_def conj_assoc)
qed

lemma ac_row_where:
  assumes "ac_row t u i = Some r" and "\<And>r. ac_key (f r) = ac_key r"
  shows "ac_row (ac_where u i f t) u i = Some (f r)"
  using assms(1) unfolding ac_row_def ac_where_def
  by (induction t) (auto simp: assms(2) ac_key_def [symmetric] prod_eq_iff split: if_splits,
      auto simp: ac_key_def assms(2) [unfolded ac_key_def])

end
