(* ===== verification/Mediator.thy ===== *)
theory Mediator
  imports Node
begin

text \<open>
  The services of \<open>mediator/service/\<close>: where a message for a user or a session goes, the
  calls of the local handlers and the publication to other containers, acknowledged
  sends, and the graceful shutdown.
\<close>

subsection \<open>Routing\<close>

text \<open>
  The three \<open>findThenAction\<close> methods as the decision they take; every lookup they make
  precedes the actions.
\<close>

fun scan_holders :: "gostring \<Rightarrow> gostring list \<Rightarrow> ac_table \<Rightarrow> bool \<times> gostring list" where
  "scan_holders localID seen [] = (False, [])"
| "scan_holders localID seen (conn # conns) =
     (if acHolderID conn = localID then (True, snd (scan_holders localID seen conns))
      else if acHolderID conn = [] then scan_holders localID seen conns
      else if acHolderID conn \<in> set seen then scan_holders localID seen conns
      else (case scan_holders localID (acHolderID conn # seen) conns of
              (l, cs) \<Rightarrow> (l, acHolderID conn # cs)))"

definition findUserConn :: "nenv \<Rightarrow> gostring \<Rightarrow> world \<Rightarrow> (bool \<times> gostring list, ErrorCode) outcome" where
  "findUserConn env userID w =
     (let result = (case AC_GetActiveConnections (neCutoff env) (neNow env) (neFault env QGetActive userID [])
                           userID (wdActive w) of
                      Err e \<Rightarrow> if e = RecordNotFound then Ok [] else Err e
                    | r \<Rightarrow> r) in
      obind result (\<lambda>actConns.
        let userConns = GetAllUserConn (ndConns (wdNode w)) userID;
            (heldHere, containerIDs) = scan_holders (ndID (wdNode w)) [] actConns
        in Ok (length userConns > 0 \<or> heldHere, containerIDs)))"

datatype session_route = SLocal | SNotFound | STransferring | SRemote gostring

definition findSessionConn :: "nenv \<Rightarrow> gostring \<Rightarrow> gostring \<Rightarrow> world \<Rightarrow> (session_route, ErrorCode) outcome" where
  "findSessionConn env userID instanceID w =
     obind (must (UserWebsocketAuth userID instanceID)) (\<lambda>tmpAuth.
       if GetConnection (ndConns (wdNode w)) tmpAuth \<noteq> None then Ok SLocal
       else case AC_GetInstanceConnection (neCutoff env) (neNow env) (neFault env QGetInstance userID instanceID)
                   userID instanceID (wdActive w) of
              Err e \<Rightarrow> if e = RecordNotFound then Ok SNotFound else Err e
            | Panic \<Rightarrow> Panic
            | Ok actConn \<Rightarrow> if acHolderID actConn = [] then Ok STransferring else Ok (SRemote (acHolderID actConn)))"

fun scan_multi :: "gostring \<Rightarrow> gostring list \<Rightarrow> ac_table \<Rightarrow> gostring list" where
  "scan_multi localID seen [] = []"
| "scan_multi localID seen (conn # conns) =
     (if acHolderID conn \<in> set seen then scan_multi localID seen conns
      else let rest = scan_multi localID (acHolderID conn # seen) conns in
           if acHolderID conn \<noteq> [] \<and> acHolderID conn \<noteq> localID then acHolderID conn # rest else rest)"

definition findMultiUserConn :: "nenv \<Rightarrow> gostring list \<Rightarrow> world \<Rightarrow> (bool \<times> gostring list, ErrorCode) outcome" where
  "findMultiUserConn env userIDs w =
     (let result = (case AC_GetActiveConnectionsByUserIDs (neCutoff env) (neNow env) (neFault env QGetActive [] [])
                           userIDs (wdActive w) of
                      Err e \<Rightarrow> if e = RecordNotFound then Ok [] else Err e
                    | r \<Rightarrow> r) in
      obind result (\<lambda>actConns.
        Ok (list_ex (\<lambda>userID. length (GetAllUserConn (ndConns (wdNode w)) userID) > 0) userIDs,
            scan_multi (ndID (wdNode w)) [] actConns)))"

subsection \<open>Running actions\<close>

type_synonym 'a svc = "('a, ErrorCode) outcome \<times> world"

definition run_hdl :: "(world \<Rightarrow> (world, ErrorCode) outcome) \<Rightarrow> world \<Rightarrow> unit svc" where
  "run_hdl h w = (case h w of Ok w' \<Rightarrow> (Ok (), w') | Err e \<Rightarrow> (Err e, w) | Panic \<Rightarrow> (Panic, w))"

definition svc_then :: "'a svc \<Rightarrow> ('a \<Rightarrow> world \<Rightarrow> 'b svc) \<Rightarrow> 'b svc" where
  "svc_then m k = (case m of (Ok x, w) \<Rightarrow> k x w | (Err e, w) \<Rightarrow> (Err e, w) | (Panic, w) \<Rightarrow> (Panic, w))"

lemma svc_then_simps [simp]:
  "svc_then (Ok x, w) k = k x w" "svc_then (Err e, w) k = (Err e, w)" "svc_then (Panic, w) k = (Panic, w)"
  by (simp_all add: svc_then_def)

definition publish_msg :: "nenv \<Rightarrow> (pubsubMessage, ErrorCode) outcome \<Rightarrow> world \<Rightarrow> unit svc" where
  "publish_msg env created w =
     (case created of
        Ok m \<Rightarrow> (case Publish (nePub env) m of
                  (r, sent) \<Rightarrow> (r, w\<lparr>wdOut := wdOut w @ map (\<lambda>ch. Published ch m) sent\<rparr>))
      | Err e \<Rightarrow> (Err e, w)
      | Panic \<Rightarrow> (Panic, w))"

text \<open>The target-container actions log a failed publication and go on.\<close>

definition publish_logged :: "nenv \<Rightarrow> gostring list \<Rightarrow> pub_params \<Rightarrow> world \<Rightarrow> unit svc" where
  "publish_logged env containerIDs pl w =
     (case publish_msg env (create_targeted (neCodec env) containerIDs pl) w of
        (Err e, w) \<Rightarrow> (Ok (), w)
      | r \<Rightarrow> r)"

definition user_actions :: "nenv \<Rightarrow> pub_params \<Rightarrow> bool \<times> gostring list \<Rightarrow> world \<Rightarrow> unit svc" where
  "user_actions env pl route w =
     (case route of (local, containerIDs) \<Rightarrow>
        svc_then (if local then run_hdl (handle env pl) w else (Ok (), w)) (\<lambda>_ w.
          if length containerIDs > 0 then publish_logged env containerIDs pl w else (Ok (), w)))"

subsection \<open>Sending\<close>

definition SendToUser :: "nenv \<Rightarrow> gostring \<Rightarrow> gostring \<Rightarrow> payload \<Rightarrow> world \<Rightarrow> unit svc" where
  "SendToUser env userID msgType payload w =
     svc_then (findUserConn env userID w, w) (user_actions env (SendToUserParams userID msgType payload))"

definition DisconnectUser :: "nenv \<Rightarrow> gostring \<Rightarrow> world \<Rightarrow> unit svc" where
  "DisconnectUser env userID w =
     svc_then (findUserConn env userID w, w) (user_actions env (DisconnectUserParams userID))"

definition SendToUsers :: "nenv \<Rightarrow> gostring list \<Rightarrow> gostring \<Rightarrow> payload \<Rightarrow> world \<Rightarrow> unit svc" where
  "SendToUsers env userIDs msgType payload w =
     svc_then (findMultiUserConn env userIDs w, w) (user_actions env (SendToUsersParams userIDs msgType payload))"

text \<open>A failed save is reported as a database error.\<close>

definition save_transferring :: "nenv \<Rightarrow> gostring \<Rightarrow> gostring \<Rightarrow> gostring \<Rightarrow> payload \<Rightarrow> world \<Rightarrow> unit svc" where
  "save_transferring env userID instanceID msgType payload w =
     (case node_Save env userID instanceID (hdl_frame env msgType payload) w of
        (Err e, w) \<Rightarrow> (Err ErrUnexpectedDatabase, w)
      | r \<Rightarrow> r)"

definition SendToSession :: "nenv \<Rightarrow> gostring \<Rightarrow> gostring \<Rightarrow> gostring \<Rightarrow> payload \<Rightarrow> world \<Rightarrow> unit svc" where
  "SendToSession env userID instanceID msgType payload w =
     (let pl = SendToSessionParams userID instanceID msgType payload in
      svc_then (findSessionConn env userID instanceID w, w) (\<lambda>route w.
        case route of
          SLocal \<Rightarrow> run_hdl (handle env pl) w
        | SNotFound \<Rightarrow> (Ok (), w)
        | STransferring \<Rightarrow> save_transferring env userID instanceID msgType payload w
        | SRemote holder \<Rightarrow> publish_logged env [holder] pl w))"

definition DisconnectSession :: "nenv \<Rightarrow> gostring \<Rightarrow> gostring \<Rightarrow> world \<Rightarrow> unit svc" where
  "DisconnectSession env userID instanceID w =
     (let pl = DisconnectSessionParams userID instanceID in
      svc_then (findSessionConn env userID instanceID w, w) (\<lambda>route w.
        case route of
          SLocal \<Rightarrow> run_hdl (handle env pl) w
        | SNotFound \<Rightarrow> (Ok (), w)
        | STransferring \<Rightarrow> (Ok (), w)
        | SRemote holder \<Rightarrow> publish_logged env [holder] pl w))"

definition ResumeSession :: "nenv \<Rightarrow> gostring \<Rightarrow> gostring \<Rightarrow> gostring \<Rightarrow> world \<Rightarrow> unit svc" where
  "ResumeSession env targetContainerID userID instanceID w =
     (let pl = ResumeSessionParams userID instanceID in
      if targetContainerID = [] then (Ok (), w)
      else if targetContainerID = ndID (wdNode w) then run_hdl (handle env pl) w
      else publish_logged env [targetContainerID] pl w)"

definition SendToAnonymous :: "nenv \<Rightarrow> gostring \<Rightarrow> payload \<Rightarrow> bool \<Rightarrow> gostring list \<Rightarrow> world \<Rightarrow> unit svc" where
  "SendToAnonymous env msgType payload isSendAll instanceIds w =
     publish_msg env (create_all (neCodec env) (SendToAnonymousParams isSendAll instanceIds msgType payload)) w"

definition SendToAuthenticated :: "nenv \<Rightarrow> gostring \<Rightarrow> payload \<Rightarrow> world \<Rightarrow> unit svc" where
  "SendToAuthenticated env msgType payload w =
     publish_msg env (create_all (neCodec env) (SendToAuthenticatedParams msgType payload)) w"

definition SendToAll :: "nenv \<Rightarrow> gostring \<Rightarrow> payload \<Rightarrow> world \<Rightarrow> unit svc" where
  "SendToAll env msgType payload w =
     publish_msg env (create_all (neCodec env) (SendToAllParams msgType payload)) w"

subsection \<open>Acknowledged sends\<close>

text \<open>
  An acknowledged send has two parts: it creates the request and sends the message, and
  then either gives the request up or waits for its channel.
  \<open>meanwhile\<close> is what happens in the container while the caller waits, and \<open>ev\<close> the branch
  the select takes if the channel is closed when the wait ends.
\<close>

definition resolve_ack :: "gostring \<Rightarrow> world \<Rightarrow> unit svc" where
  "resolve_ack ackID w = run_hdl (hdl_AckResolved ackID) w"

definition wait_ack :: "gostring \<Rightarrow> nat \<Rightarrow> (world \<Rightarrow> world) \<Rightarrow> wait_event \<Rightarrow> world \<Rightarrow> bool svc" where
  "wait_ack ackID ch meanwhile ev w =
     (let w = meanwhile w in
      case WaitForAck ackID ch ev (ndAck (wdNode w)) of
        (acked, a) \<Rightarrow> (Ok acked, upd_node (\<lambda>n. n\<lparr>ndAck := a\<rparr>) w))"

definition finish_ack :: "gostring \<Rightarrow> nat \<Rightarrow> (world \<Rightarrow> world) \<Rightarrow> wait_event \<Rightarrow> bool svc \<Rightarrow> bool svc" where
  "finish_ack ackID ch meanwhile ev m =
     (case m of
        (Panic, w) \<Rightarrow> (Panic, w)
      | (Err e, w) \<Rightarrow> svc_then (resolve_ack ackID w) (\<lambda>_ w. (Err e, w))
      | (Ok found, w) \<Rightarrow>
          if \<not> found then svc_then (resolve_ack ackID w) (\<lambda>_ w. (Ok False, w))
          else wait_ack ackID ch meanwhile ev w)"

definition begin_session_ack ::
    "nenv \<Rightarrow> gostring \<Rightarrow> gostring \<Rightarrow> gostring \<Rightarrow> gostring \<Rightarrow> payload \<Rightarrow> world \<Rightarrow> gostring \<times> nat \<times> bool svc" where
  "begin_session_ack env nanoID userID instanceID msgType payload w =
     (case CreateAck nanoID (ndAck (wdNode w)) of (ackID, ch, a) \<Rightarrow>
        let w = upd_node (\<lambda>n. n\<lparr>ndAck := a\<rparr>) w;
            pl = SendToSessionWithAckParams userID instanceID msgType payload ackID (ndID (wdNode w)) in
        (ackID, ch,
           svc_then (findSessionConn env userID instanceID w, w) (\<lambda>route w.
             case route of
               SLocal \<Rightarrow>
                 svc_then (must (UserWebsocketAuth userID instanceID), w) (\<lambda>auth w.
                   if GetConnection (ndConns (wdNode w)) auth = None then (Ok False, w)
                   else svc_then (run_hdl (handle env pl) w) (\<lambda>_ w. (Ok True, w)))
             | SNotFound \<Rightarrow> (Ok False, w)
             | STransferring \<Rightarrow>
                 svc_then (save_transferring env userID instanceID msgType payload w) (\<lambda>_ w. (Ok False, w))
             | SRemote holder \<Rightarrow> svc_then (publish_logged env [holder] pl w) (\<lambda>_ w. (Ok True, w)))))"

definition SendToSessionWithAck ::
    "nenv \<Rightarrow> gostring \<Rightarrow> (world \<Rightarrow> world) \<Rightarrow> wait_event \<Rightarrow> gostring \<Rightarrow> gostring \<Rightarrow> gostring \<Rightarrow> payload \<Rightarrow> world \<Rightarrow> bool svc" where
  "SendToSessionWithAck env nanoID meanwhile ev userID instanceID msgType payload w =
     (case begin_session_ack env nanoID userID instanceID msgType payload w of
        (ackID, ch, sent) \<Rightarrow> finish_ack ackID ch meanwhile ev sent)"

definition begin_user_ack ::
    "nenv \<Rightarrow> gostring \<Rightarrow> gostring \<Rightarrow> gostring \<Rightarrow> payload \<Rightarrow> world \<Rightarrow> gostring \<times> nat \<times> bool svc" where
  "begin_user_ack env nanoID userID msgType payload w =
     (case CreateAck nanoID (ndAck (wdNode w)) of (ackID, ch, a) \<Rightarrow>
        let w = upd_node (\<lambda>n. n\<lparr>ndAck := a\<rparr>) w;
            pl = SendToUserWithAckParams userID msgType payload ackID (ndID (wdNode w)) in
        (ackID, ch,
           svc_then (findUserConn env userID w, w) (\<lambda>(local, containerIDs) w.
             svc_then (if local \<and> length (GetAllUserConn (ndConns (wdNode w)) userID) > 0
                       then svc_then (run_hdl (handle env pl) w) (\<lambda>_ w. (Ok True, w))
                       else (Ok False, w)) (\<lambda>found w.
               if length containerIDs > 0
               then svc_then (publish_logged env containerIDs pl w) (\<lambda>_ w. (Ok True, w))
               else (Ok found, w)))))"

definition SendToUserWithAck ::
    "nenv \<Rightarrow> gostring \<Rightarrow> (world \<Rightarrow> world) \<Rightarrow> wait_event \<Rightarrow> gostring \<Rightarrow> gostring \<Rightarrow> payload \<Rightarrow> world \<Rightarrow> bool svc" where
  "SendToUserWithAck env nanoID meanwhile ev userID msgType payload w =
     (case begin_user_ack env nanoID userID msgType payload w of
        (ackID, ch, sent) \<Rightarrow> finish_ack ackID ch meanwhile ev sent)"

subsection \<open>Queries\<close>

definition CheckOnline :: "nenv \<Rightarrow> gostring \<Rightarrow> world \<Rightarrow> (bool, ErrorCode) outcome" where
  "CheckOnline env userID w =
     obind (AC_CountActiveConnections (neCutoff env) (neNow env) (neFault env QCount userID []) userID (wdActive w))
       (\<lambda>count. Ok (count > 0))"

definition CheckOnlineMultiple :: "nenv \<Rightarrow> gostring list \<Rightarrow> world \<Rightarrow> ((gostring, bool) gomap, ErrorCode) outcome" where
  "CheckOnlineMultiple env userIDs w =
     obind (AC_CountActiveConnectionsBatch (neCutoff env) (neNow env) (neFault env QCount [] []) userIDs (wdActive w))
       (\<lambda>counts. Ok (fold (\<lambda>(userID, count). gm_put userID (count > 0)) counts []))"

record SessionInfo =
  siUserID :: gostring
  siInstanceID :: gostring
  siHolderID :: gostring
  siConnectionType :: WsCoreType
  siStatus :: WsStatus
  siConnectedAt :: int

definition GetUserSessions :: "nenv \<Rightarrow> gostring \<Rightarrow> world \<Rightarrow> (SessionInfo list, ErrorCode) outcome" where
  "GetUserSessions env userID w =
     obind (AC_GetActiveConnections (neCutoff env) (neNow env) (neFault env QGetActive userID []) userID (wdActive w))
       (\<lambda>connections. Ok (map (\<lambda>conn. \<lparr>siUserID = userID, siInstanceID = acInstanceID conn,
          siHolderID = acHolderID conn, siConnectionType = acConnectionType conn,
          siStatus = acStatus conn, siConnectedAt = acConnectedAt conn\<rparr>) connections))"

text \<open>A long-polling connection ignores pings.\<close>

definition PingAllLocalConnections :: "world \<Rightarrow> world" where
  "PingAllLocalConnections w =
     fold (\<lambda>conn w. if wcCore conn = WsCoreLongPolling then w else log_ev (PingSent (wcId conn)) w)
       (GetAllConnections (ndConns (wdNode w))) w"

subsection \<open>Shutdown\<close>

definition closeAllAnonymousConnections :: "nenv \<Rightarrow> world \<Rightarrow> world" where
  "closeAllAnonymousConnections env w = fold (ws_Close env) (GetAllAnonymousConn (ndConns (wdNode w))) w"

definition transitionConnectionToTransferring :: "nenv \<Rightarrow> gostring \<Rightarrow> gostring \<Rightarrow> world \<Rightarrow> world" where
  "transitionConnectionToTransferring env u i w =
     w\<lparr>wdActive := snd (AC_UpdateStatusTransferring (neFault env QTransferring u i) u i (wdActive w))\<rparr>"

text \<open>The result includes \<open>transferingConns\<close>, which \<open>checkTransferingConns\<close> reads later.\<close>

definition shutdownAuthenticatedConnections :: "nenv \<Rightarrow> world \<Rightarrow> (gostring \<times> gostring) list \<times> world" where
  "shutdownAuthenticatedConnections env w =
     (let allAuthConns = GetAllAuthenticatedConn (ndConns (wdNode w)) in
      (map (\<lambda>conn. auth_key (wcAuth conn)) allAuthConns,
       fold (\<lambda>conn w. transitionConnectionToTransferring env (auUserID (wcAuth conn)) (auInstanceID (wcAuth conn)) w)
         allAuthConns w))"

definition closeAllAuthenticatedConnections :: "nenv \<Rightarrow> world \<Rightarrow> world" where
  "closeAllAuthenticatedConnections env w = fold (ws_Close env) (GetAllAuthenticatedConn (ndConns (wdNode w))) w"

definition Mediator_Shutdown :: "nenv \<Rightarrow> world \<Rightarrow> (gostring \<times> gostring) list svc" where
  "Mediator_Shutdown env w =
     (let w = upd_node (\<lambda>n. n\<lparr>ndShutdown := MarkShuttingDown (ndShutdown n)\<rparr>) w in
      svc_then (run_hdl (\<lambda>w. obind (must (Ack_Shutdown (ndAck (wdNode w)))) (\<lambda>a.
                  Ok (upd_node (\<lambda>n. n\<lparr>ndAck := a\<rparr>) w))) w) (\<lambda>_ w.
        let w = closeAllAnonymousConnections env w in
        case shutdownAuthenticatedConnections env w of
          (transfering, w) \<Rightarrow> (Ok transfering, closeAllAuthenticatedConnections env w)))"

definition checkTransferingConns :: "nenv \<Rightarrow> (gostring \<times> gostring) list \<Rightarrow> world \<Rightarrow> (gostring \<times> gostring) list" where
  "checkTransferingConns env transfering w =
     concat (map (\<lambda>(u, i).
       case AC_GetInstanceConnection (neCutoff env) (neNow env) (neFault env QGetInstance u i) u i (wdActive w) of
         Ok ac \<Rightarrow> if acStatus ac = WsStatusTransferring then [(acUserID ac, acInstanceID ac)] else []
       | _ \<Rightarrow> []) transfering)"

end
