(* ===== verification/Routing.thy ===== *)
theory Routing
  imports Mediator ClientMsg
begin

text \<open>
  What the services of the mediator and the broadcast handlers do together: which
  containers a message reaches, and what a container does with it.
\<close>

subsection \<open>Between containers\<close>

text \<open>The handler calls that the published messages cause at container \<open>c\<close>.\<close>

fun handle_all :: "nenv \<Rightarrow> pub_params list \<Rightarrow> world \<Rightarrow> (world, ErrorCode) outcome" where
  "handle_all env [] w = Ok w"
| "handle_all env (p # ps) w = obind (handle env p w) (handle_all env ps)"

definition inbound :: "codec \<Rightarrow> gostring \<Rightarrow> out_ev list \<Rightarrow> pub_params list" where
  "inbound cd c evs = concat (map (\<lambda>e. case e of Published ch m \<Rightarrow> receive cd c ch m | _ \<Rightarrow> []) evs)"

definition pending_row :: "nenv \<Rightarrow> gostring \<Rightarrow> gostring \<Rightarrow> bytes \<Rightarrow> PendingMessage" where
  "pending_row env u i msg = \<lparr>pmSessionKey = sessionKey u i, pmSendAt = neNow env, pmMessage = msg,
     pmExpiresAt = neNow env + nePendTTL env\<rparr>"

lemma node_Save_fresh:
  assumes "no_faults env" "\<forall>r \<in> set (wdPending w). pmSessionKey r = sessionKey u i \<longrightarrow> pmSendAt r \<noteq> neNow env"
  shows "node_Save env u i msg w = (Ok (), w\<lparr>wdPending := wdPending w @ [pending_row env u i msg]\<rparr>)"
  using assms by (auto simp: node_Save_def Hub_Save_def PG_Create_def pending_row_def Let_def)

subsection \<open>Targets\<close>

lemma scan_holders_local: "fst (scan_holders l seen conns) \<longleftrightarrow> (\<exists>r \<in> set conns. acHolderID r = l)"
  by (induction l seen conns rule: scan_holders.induct) (simp_all add: case_prod_beta)

lemma scan_holders_targets:
  "h \<in> set (snd (scan_holders l seen conns)) \<longleftrightarrow>
     h \<noteq> [] \<and> h \<noteq> l \<and> h \<notin> set seen \<and> (\<exists>r \<in> set conns. acHolderID r = h)"
  by (induction conns arbitrary: seen) (auto simp: case_prod_beta)

lemma scan_holders_distinct: "distinct (snd (scan_holders l seen conns))"
  by (induction l seen conns rule: scan_holders.induct) (simp_all add: case_prod_beta scan_holders_targets)

lemma scan_multi_targets:
  "h \<in> set (scan_multi l seen conns) \<longleftrightarrow>
     h \<noteq> [] \<and> h \<noteq> l \<and> h \<notin> set seen \<and> (\<exists>r \<in> set conns. acHolderID r = h)"
  by (induction conns arbitrary: seen) (auto simp: Let_def)

lemma scan_multi_distinct: "distinct (scan_multi l seen conns)"
  by (induction l seen conns rule: scan_multi.induct) (simp_all add: Let_def scan_multi_targets)

text \<open>The live rows of a user.\<close>

definition live_rows :: "nenv \<Rightarrow> gostring \<Rightarrow> world \<Rightarrow> ac_table" where
  "live_rows env u w = filter (\<lambda>r. acUserID r = u \<and> alive (neCutoff env) (neNow env) r) (wdActive w)"

lemma findUserConn_ok:
  assumes "no_faults env"
  shows "findUserConn env u w =
    Ok (GetAllUserConn (ndConns (wdNode w)) u \<noteq> [] \<or> (\<exists>r \<in> set (live_rows env u w). acHolderID r = ndID (wdNode w)),
        snd (scan_holders (ndID (wdNode w)) [] (live_rows env u w)))"
  using assms scan_holders_local [of "ndID (wdNode w)" "[]" "live_rows env u w"]
  by (simp add: findUserConn_def AC_GetActiveConnections_def pg_rows_def live_rows_def case_prod_beta)

subsection \<open>Local handlers publish nothing\<close>

lemma inbound_simps [simp]:
  "inbound cd c [] = []" "inbound cd c (xs @ ys) = inbound cd c xs @ inbound cd c ys"
  "inbound cd c (Delivered d b # es) = inbound cd c es" "inbound cd c (SaveTask a b # es) = inbound cd c es"
  by (simp_all add: inbound_def)

lemma out_onClose [simp]: "wdOut (onClose env a w) = wdOut w"
  by (simp add: onClose_def Let_def split: prod.split outcome.split)

lemma out_Close [simp]: "wdOut (ws_Close env c w) = wdOut w"
  by (simp add: ws_Close_def upd_node_def)

lemma out_Save [simp]: "wdOut (snd (node_Save env u i b w)) = wdOut w"
  by (simp add: node_Save_def split: prod.split)

lemma inbound_Send [simp]: "inbound cd d (wdOut (snd (ws_Send env c b w))) = inbound cd d (wdOut w)"
  by (simp add: ws_Send_def log_ev_def vk_Publish_def Let_def)

lemma inbound_sendOrSave [simp]: "inbound cd d (wdOut (sendOrSaveMessageHub env c b w)) = inbound cd d (wdOut w)"
  using inbound_Send [of cd d env c b w]
  by (auto simp: sendOrSaveMessageHub_def log_ev_def split: prod.splits bool.splits simp del: inbound_Send)

lemma inbound_send_each [simp]: "inbound cd d (wdOut (send_each env b cs w)) = inbound cd d (wdOut w)"
  by (induction cs arbitrary: w) (simp_all add: send_each_def)

lemma out_fold_Save [simp]: "wdOut (fold (\<lambda>i w. snd (node_Save env u i b w)) is w) = wdOut w"
  by (induction "is" arbitrary: w) simp_all

lemma hdl_SendToUser_Ok:
  "\<exists>w'. run_hdl (handle env (SendToUserParams u t p)) w = (Ok (), w') \<and>
     inbound cd d (wdOut w') = inbound cd d (wdOut w)"
  by (simp add: run_hdl_def hdl_SendToUser_def Let_def)

lemma inbound_Published:
  "inbound cd c (map (\<lambda>ch. Published ch m) chs) = concat (map (\<lambda>ch. receive cd c ch m) chs)"
  by (simp add: inbound_def comp_def)

lemma publish_logged_ok:
  assumes "\<forall>ch. nePub env ch" "params_payload pl \<noteq> Some None" "codec_ok (neCodec env) pl"
    and "params_type pl \<in> set targeted_types"
  shows "\<exists>w'. publish_logged env cs pl w = (Ok (), w') \<and> wdNode w' = wdNode w \<and>
    (\<forall>c. inbound (neCodec env) c (wdOut w') = inbound (neCodec env) c (wdOut w) @ replicate (count_list cs c) pl)"
proof -
  let ?m = "\<lparr>psTargetContainers = cs, psSendAllContainers = False, psMsgType = params_type pl,
    psPayload = cdEnc (neCodec env) pl\<rparr>"
  have "concat (map (\<lambda>ch. receive (neCodec env) c ch ?m) (map channelName cs)) = replicate (count_list cs c) pl" for c
    by (induction cs) (simp_all add: receive_targeted [OF assms(3,4)])
  then show ?thesis using assms(1,2)
    by (simp add: publish_logged_def publish_msg_def create_targeted_Ok Publish_def publish_each_ok inbound_Published
        del: map_map)
qed

lemma count_list_distinct: "distinct xs \<Longrightarrow> count_list xs x = (if x \<in> set xs then 1 else 0)"
  by (induction xs) auto

text \<open>C4: A message for a user reaches, besides the local container, exactly the containers
  that hold a live session of the user, each of them once, as one call of the handler with
  the sender's parameters.\<close>

theorem send_to_user_targets:
  assumes "no_faults env" "\<forall>ch. nePub env ch" "codec_ok (neCodec env) (SendToUserParams u t (Some b))"
    and "c \<noteq> ndID (wdNode w)" "c \<noteq> []"
  shows "\<exists>w'. SendToUser env u t (Some b) w = (Ok (), w') \<and>
    inbound (neCodec env) c (wdOut w') = inbound (neCodec env) c (wdOut w) @
      (if \<exists>r \<in> set (wdActive w). acUserID r = u \<and> acHolderID r = c \<and> alive (neCutoff env) (neNow env) r
       then [SendToUserParams u t (Some b)] else [])"
proof -
  let ?pl = "SendToUserParams u t (Some b)"
  let ?cs = "snd (scan_holders (ndID (wdNode w)) [] (live_rows env u w))"
  let ?l = "GetAllUserConn (ndConns (wdNode w)) u \<noteq> [] \<or> (\<exists>r \<in> set (live_rows env u w). acHolderID r = ndID (wdNode w))"
  obtain w1 where w1: "(if ?l then run_hdl (handle env ?pl) w else (Ok (), w)) = (Ok (), w1)"
    and i1: "inbound (neCodec env) c (wdOut w1) = inbound (neCodec env) c (wdOut w)"
    using hdl_SendToUser_Ok [of env u t "Some b" w "neCodec env" c] by (cases ?l) auto
  have "params_type ?pl \<in> set targeted_types" by (simp add: targeted_types_def)
  then obtain w2 where w2: "publish_logged env ?cs ?pl w1 = (Ok (), w2)"
    and i2: "inbound (neCodec env) c (wdOut w2) = inbound (neCodec env) c (wdOut w1) @ replicate (count_list ?cs c) ?pl"
    using publish_logged_ok [OF assms(2) _ assms(3), of ?cs w1] by auto
  have "SendToUser env u t (Some b) w = (Ok (), if ?cs = [] then w1 else w2)"
    by (simp only: SendToUser_def findUserConn_ok [OF assms(1)] svc_then_simps user_actions_def prod.case w1)
      (simp add: w2)
  moreover have "replicate (count_list ?cs c) ?pl =
      (if \<exists>r \<in> set (wdActive w). acUserID r = u \<and> acHolderID r = c \<and> alive (neCutoff env) (neNow env) r then [?pl] else [])"
    unfolding count_list_distinct [OF scan_holders_distinct] scan_holders_targets
    using assms(4,5) by (auto simp: live_rows_def)
  ultimately show ?thesis using i1 i2 by (cases "?cs = []") auto
qed

text \<open>A container, an environment without failures and a row, for the witnesses.\<close>

definition ex_nenv :: "int \<Rightarrow> codec \<Rightarrow> nenv" where
  "ex_nenv now cd = \<lparr>neNow = now, neCutoff = 100, nePendTTL = 1000, neId = ''m'', neSend = (\<lambda>_. True),
     neSubmit = True, neFault = (\<lambda>_ _ _. DbOk), nePub = (\<lambda>_. True), neCodec = cd\<rparr>"

definition ex_node :: "gostring \<Rightarrow> node" where
  "ex_node c = \<lparr>ndID = c, ndConns = NewConnectionMap,
     ndRate = NewRateLimiter \<lparr>UserRate = 10, UserBurst = 10, AnonymousRate = 5, AnonymousBurst = 5\<rparr>,
     ndAck = NewAckManager, ndHub = NewMsgHub, ndShutdown = False, ndTracker = [], ndClosed = []\<rparr>"

definition ex_arow :: "gostring \<Rightarrow> gostring \<Rightarrow> gostring \<Rightarrow> WsStatus \<Rightarrow> ActiveConnection" where
  "ex_arow u i h st = \<lparr>acUserID = u, acInstanceID = i, acHolderID = h, acConnectionType = WsCoreGobwas,
     acStatus = st, acConnectedAt = 0, acLastHeartbeat = 0, acTTL = 61\<rparr>"

definition ex_nworld :: "gostring \<Rightarrow> ac_table \<Rightarrow> world" where
  "ex_nworld c rows = \<lparr>wdNode = ex_node c, wdActive = rows, wdPending = [], wdQueues = [], wdOut = []\<rparr>"

lemma ex_nenv_simps [simp]:
  "no_faults (ex_nenv now cd)" "nePub (ex_nenv now cd) = (\<lambda>_. True)" "neCodec (ex_nenv now cd) = cd"
  "neNow (ex_nenv now cd) = now" "neCutoff (ex_nenv now cd) = 100" "neSend (ex_nenv now cd) c"
  "neSubmit (ex_nenv now cd)"
  by (simp_all add: ex_nenv_def no_faults_def)

lemmas ex_simps = ex_node_def ex_arow_def ex_nworld_def NewConnectionMap_def

theorem send_to_user_targets_witness:
  "\<exists>w'. SendToUser (ex_nenv 10 (single_codec (SendToUserParams ''u'' ''t'' (Some [1])))) ''u'' ''t'' (Some [1])
      (ex_nworld ''a'' [ex_arow ''u'' ''i'' ''b'' WsStatusConnected]) = (Ok (), w') \<and>
    inbound (single_codec (SendToUserParams ''u'' ''t'' (Some [1]))) ''b'' (wdOut w') = [SendToUserParams ''u'' ''t'' (Some [1])]"
  using send_to_user_targets [of "ex_nenv 10 (single_codec (SendToUserParams ''u'' ''t'' (Some [1])))" "''u''" "''t''"
      "[1]" "''b''" "ex_nworld ''a'' [ex_arow ''u'' ''i'' ''b'' WsStatusConnected]"]
  by (simp add: single_codec_ok ex_simps alive_def)

subsection \<open>What a container does with a message for a user\<close>

lemma send_each_ok:
  assumes "\<forall>c \<in> set cs. neSend env (wcId c) \<and> wcId c \<notin> set (ndClosed (wdNode w))"
  shows "\<exists>q. send_each env b cs w =
    w\<lparr>wdQueues := q, wdOut := wdOut w @ map (\<lambda>c. Delivered (wcId c) b) cs\<rparr>"
  using assms
proof (induction cs arbitrary: w)
  case Nil
  show ?case by (intro exI [of _ "wdQueues w"]) (simp add: send_each_def)
next
  case (Cons c cs)
  obtain q where q: "sendOrSaveMessageHub env c b w = w\<lparr>wdQueues := q, wdOut := wdOut w @ [Delivered (wcId c) b]\<rparr>"
    using Cons.prems
    by (cases "wcCore c = WsCoreLongPolling")
      (auto simp: sendOrSaveMessageHub_def ws_Send_def log_ev_def vk_Publish_def Let_def
        intro: that [of "wdQueues w"])
  obtain q' where "send_each env b cs (w\<lparr>wdQueues := q, wdOut := wdOut w @ [Delivered (wcId c) b]\<rparr>) =
      w\<lparr>wdOut := wdOut w @ [Delivered (wcId c) b], wdQueues := q',
        wdOut := (wdOut w @ [Delivered (wcId c) b]) @ map (\<lambda>c. Delivered (wcId c) b) cs\<rparr>"
    using Cons.IH [of "w\<lparr>wdQueues := q, wdOut := wdOut w @ [Delivered (wcId c) b]\<rparr>"] Cons.prems by auto
  then show ?case using q by (intro exI [of _ q']) (simp add: send_each_def)
qed

lemma save_each_ok:
  assumes "no_faults env" "\<forall>r \<in> set (wdPending w). \<forall>i \<in> set is. pmSessionKey r = sessionKey u i \<longrightarrow> pmSendAt r \<noteq> neNow env"
    and "distinct is"
  shows "fold (\<lambda>i w. snd (node_Save env u i b w)) is w =
    w\<lparr>wdPending := wdPending w @ map (\<lambda>i. pending_row env u i b) is\<rparr>"
  using assms(2,3)
proof (induction "is" arbitrary: w)
  case (Cons i "is")
  have "snd (node_Save env u i b w) = w\<lparr>wdPending := wdPending w @ [pending_row env u i b]\<rparr>"
    using node_Save_fresh [OF assms(1), of w u i b] Cons.prems(1) by simp
  then show ?case using Cons by (auto simp: pending_row_def sessionKey_def)
qed simp

lemma hdl_SendToUser_effect:
  assumes "no_faults env" "nm_inv (mhRegistry (ndHub (wdNode w)))"
    and "\<forall>c \<in> set (GetAllUserConn (ndConns (wdNode w)) u). neSend env (wcId c) \<and> wcId c \<notin> set (ndClosed (wdNode w))"
    and "\<forall>r \<in> set (wdPending w). pmSendAt r \<noteq> neNow env"
  shows "\<exists>q. hdl_SendToUser env u t p w = (Ok (w\<lparr>wdQueues := q,
    wdOut := wdOut w @ map (\<lambda>c. Delivered (wcId c) (hdl_frame env t p)) (GetAllUserConn (ndConns (wdNode w)) u),
    wdPending := wdPending w @
      map (\<lambda>i. pending_row env u i (hdl_frame env t p)) (GetSessions (ndHub (wdNode w)) u)\<rparr>) :: (world, ErrorCode) outcome)"
proof -
  obtain q where q: "send_each env (hdl_frame env t p) (GetAllUserConn (ndConns (wdNode w)) u) w =
      w\<lparr>wdQueues := q, wdOut := wdOut w @ map (\<lambda>c. Delivered (wcId c) (hdl_frame env t p)) (GetAllUserConn (ndConns (wdNode w)) u)\<rparr>"
    using send_each_ok [OF assms(3)] by blast
  have save: "fold (\<lambda>i w. snd (node_Save env u i b w)) (GetSessions (ndHub (wdNode w)) u) w' =
      w'\<lparr>wdPending := wdPending w' @ map (\<lambda>i. pending_row env u i b) (GetSessions (ndHub (wdNode w)) u)\<rparr>"
    if "wdPending w' = wdPending w" for w' b
    by (rule save_each_ok) (use assms that distinct_GetSessions in auto)
  show ?thesis
  proof (cases "length (GetAllUserConn (ndConns (wdNode w)) u) = 0 \<and> length (GetSessions (ndHub (wdNode w)) u) = 0")
    case True
    then show ?thesis by (intro exI [of _ "wdQueues w"]) (simp add: hdl_SendToUser_def)
  next
    case False
    then show ?thesis using q save by (intro exI [of _ q]) (auto simp: hdl_SendToUser_def Let_def)
  qed
qed

lemma hdl_send_to_user_parked:
  assumes "no_faults env" "nm_inv (mhRegistry (ndHub (wdNode w)))" "GetAllUserConn (ndConns (wdNode w)) u = []"
    and "\<forall>r \<in> set (wdPending w). pmSendAt r \<noteq> neNow env"
  shows "\<exists>q. hdl_SendToUser env u t p w = (Ok (w\<lparr>wdQueues := q, wdOut := wdOut w,
    wdPending := wdPending w @
      map (\<lambda>i. pending_row env u i (hdl_frame env t p)) (GetSessions (ndHub (wdNode w)) u)\<rparr>) :: (world, ErrorCode) outcome)"
  using hdl_SendToUser_effect [OF assms(1,2) _ assms(4), of u t p] assms(3) by simp

text \<open>C32: A container that handles a message for a user hands it once to every connection
  of the user and buffers it once for every session of the user that is temporarily
  disconnected there, and does nothing else.\<close>

theorem hdl_send_to_user_exact:
  assumes "no_faults env" "nm_inv (mhRegistry (ndHub (wdNode w)))"
    and "\<forall>c \<in> set (GetAllUserConn (ndConns (wdNode w)) u). neSend env (wcId c) \<and> wcId c \<notin> set (ndClosed (wdNode w))"
    and "\<forall>r \<in> set (wdPending w). pmSendAt r \<noteq> neNow env"
  shows "\<exists>q. hdl_SendToUser env u t p w = (Ok (w\<lparr>wdQueues := q,
    wdOut := wdOut w @ map (\<lambda>c. Delivered (wcId c) (hdl_frame env t p)) (GetAllUserConn (ndConns (wdNode w)) u),
    wdPending := wdPending w @
      map (\<lambda>i. pending_row env u i (hdl_frame env t p)) (GetSessions (ndHub (wdNode w)) u)\<rparr>) :: (world, ErrorCode) outcome)"
  using assms by (rule hdl_SendToUser_effect)

definition ex_busy :: world where
  "ex_busy = upd_node (\<lambda>n. n\<lparr>ndConns := AddConnection (ex_conn 1 ''u'' ''i'') NewConnectionMap,
     ndHub := registerWithTTL True ''u'' ''j'' NewMsgHub\<rparr>) (ex_nworld ''a'' [])"

lemma ex_busy_simps:
  "GetAllUserConn (ndConns (wdNode ex_busy)) ''u'' = [ex_conn 1 ''u'' ''i'']"
  "GetSessions (ndHub (wdNode ex_busy)) ''u'' = [''j'']" "nm_inv (mhRegistry (ndHub (wdNode ex_busy)))"
  "ndClosed (wdNode ex_busy) = []" "wdPending ex_busy = []" "wdOut ex_busy = []"
  by (simp_all add: ex_busy_def upd_node_def ex_simps ex_conn_def AddConnection_def IsAnonymous_def
      GetAllUserConn_def GetSessions_def registerWithTTL_def NewMsgHub_def nm_put_def nm_inner_def
      gm_put_def gm_get_def gm_vals_def gm_keys_def nm_inv_def gm_inv_def Let_def)

theorem hdl_send_to_user_exact_witness:
  "\<exists>q. hdl_SendToUser (ex_nenv 10 (single_codec (AckResolvedParams []))) ''u'' ''t'' (Some [1]) ex_busy =
     (Ok (ex_busy\<lparr>wdQueues := q,
        wdOut := [Delivered 1 (hdl_frame (ex_nenv 10 (single_codec (AckResolvedParams []))) ''t'' (Some [1]))],
        wdPending := [pending_row (ex_nenv 10 (single_codec (AckResolvedParams []))) ''u'' ''j''
          (hdl_frame (ex_nenv 10 (single_codec (AckResolvedParams []))) ''t'' (Some [1]))]\<rparr>) :: (world, ErrorCode) outcome)"
  using hdl_send_to_user_exact [of "ex_nenv 10 (single_codec (AckResolvedParams []))" ex_busy "''u''" "''t''" "Some [1]"]
  by (simp add: ex_busy_simps) (simp add: ex_conn_def)

subsection \<open>The retried save\<close>

declare saveMessageHub.simps [simp del]

lemma saveMessageHub_attempts: "n \<le> maxRetryNumber \<Longrightarrow> snd (saveMessageHub envs others a b n w) \<le> maxRetryNumber"
proof (induction envs others a b n w rule: saveMessageHub.induct)
  case (1 envs others a b n w)
  then show ?case
    by (subst saveMessageHub.simps) (auto simp: Let_def split: outcome.split)
qed

definition still_connected :: "nenv \<Rightarrow> WebsocketAuth \<Rightarrow> world \<Rightarrow> bool" where
  "still_connected env a w \<longleftrightarrow> neSubmit env \<and>
     (\<exists>r. AC_GetInstanceConnection (neCutoff env) (neNow env)
            (neFault env QGetInstance (auUserID a) (auInstanceID a)) (auUserID a) (auInstanceID a) (wdActive w) = Ok r \<and>
          acStatus r = WsStatusConnected)"

lemma saveMessageHub_again:
  "\<lbrakk>n < maxRetryNumber; still_connected (envs n) a w\<rbrakk> \<Longrightarrow>
   saveMessageHub envs others a b n w = saveMessageHub envs others a b (n + 1) (others n w)"
  by (subst saveMessageHub.simps) (auto simp: still_connected_def Let_def)

text \<open>The task that buffers a message after a failed send ends after at most five
  attempts; if the session is recorded as connected at each of them, then the message is
  dropped, 10.5 seconds after the first attempt.\<close>

theorem save_retry_bounded:
  "snd (saveMessageHub envs others a b 0 w) \<le> 5 \<and> sum_list (map retry_delay_ms [0..<5]) = 10500 \<and>
   ((\<forall>k < 5. still_connected (envs k) a (fold others [0..<k] w)) \<longrightarrow>
    saveMessageHub envs others a b 0 w = (fold others [0..<5] w, 5))"
proof (intro conjI impI)
  show "snd (saveMessageHub envs others a b 0 w) \<le> 5"
    using saveMessageHub_attempts [of 0] by (simp add: maxRetryNumber_def)
  show "sum_list (map retry_delay_ms [0..<5]) = 10500"
    by (simp add: retry_delay_ms_def upt_rec)
  assume c: "\<forall>k < 5. still_connected (envs k) a (fold others [0..<k] w)"
  have run: "k \<le> 5 \<Longrightarrow> saveMessageHub envs others a b 0 w = saveMessageHub envs others a b k (fold others [0..<k] w)" for k
  proof (induction k)
    case (Suc k)
    then have "saveMessageHub envs others a b k (fold others [0..<k] w) =
        saveMessageHub envs others a b (k + 1) (others k (fold others [0..<k] w))"
      using c by (intro saveMessageHub_again) (simp_all add: maxRetryNumber_def)
    then show ?case using Suc by simp
  qed simp
  have "saveMessageHub envs others a b 5 w' = (w', 5)" for w'
    by (subst saveMessageHub.simps) (simp add: maxRetryNumber_def)
  then show "saveMessageHub envs others a b 0 w = (fold others [0..<5] w, 5)" using run [of 5] by simp
qed

theorem save_retry_bounded_witness:
  "saveMessageHub (\<lambda>_. ex_nenv 10 (single_codec (AckResolvedParams []))) (\<lambda>_ w. w) (ex_auth ''u'' ''i'') [1] 0
     (ex_nworld ''a'' [ex_arow ''u'' ''i'' ''a'' WsStatusConnected]) =
   (ex_nworld ''a'' [ex_arow ''u'' ''i'' ''a'' WsStatusConnected], 5)"
proof -
  have id: "fold (\<lambda>_ w. w) ks w = (w :: world)" for ks :: "nat list" and w by (induction ks) simp_all
  show ?thesis
    using save_retry_bounded [of "\<lambda>_. ex_nenv 10 (single_codec (AckResolvedParams []))" "\<lambda>_ w. w" "ex_auth ''u'' ''i''"
        "[1]" "ex_nworld ''a'' [ex_arow ''u'' ''i'' ''a'' WsStatusConnected]"]
    by (simp add: id still_connected_def ex_auth_def ex_simps AC_GetInstanceConnection_def pg_row_def alive_def)
qed

subsection \<open>Acknowledgements across containers\<close>

lemma CreateAck_eq:
  "CreateAck n a = (''ack_'' @ n, chNext a, a\<lparr>pending := gm_put (''ack_'' @ n) (chNext a) (pending a), chNext := chNext a + 1\<rparr>)"
  by (simp add: CreateAck_def Let_def)

lemma sendOrSave_ack [simp]: "ndAck (wdNode (sendOrSaveMessageHub env c b w)) = ndAck (wdNode w)"
proof -
  have "ndAck (wdNode (onClose env a v)) = ndAck (wdNode v)" for a v
    by (simp add: onClose_def Let_def split: prod.split outcome.split)
  then have "ndAck (wdNode (snd (ws_Send env c b w))) = ndAck (wdNode w)"
    by (simp add: ws_Send_def ws_Close_def upd_node_def log_ev_def split: prod.split)
  then show ?thesis
    by (cases "ws_Send env c b w") (auto simp: sendOrSaveMessageHub_def log_ev_def split: bool.split)
qed

text \<open>The client's acknowledgement, once the rate limiter lets it through.\<close>

lemma handle_ack_remote:
  assumes "fst (rate_allow cenv a h)" "ackID \<noteq> []"
    and "gm_get (pending (chAck h)) ackID = None" "gm_get (remoteAcks (chAck h)) ackID = Some src"
  shows "\<exists>h'. handle_ack_msg cenv a \<lparr>rqId = m, rqMsgType = MessageTypeAck, rqBinary = str_bytes ackID\<rparr> h =
      Ok (None, OutcomeOK, [PublishAckResolved src ackID], h') \<and> gm_get (remoteAcks (chAck h')) ackID = None"
proof -
  obtain h1 where h1: "rate_allow cenv a h = (True, h1)" using assms(1) by (cases "rate_allow cenv a h") auto
  then have "chAck h1 = chAck h" by (auto simp: rate_allow_def split: prod.splits)
  then show ?thesis using assms(2-4) h1
    by (simp add: handle_ack_msg_def ResolveAck_def ResolveAck_take_def ResolveRemoteAck_def)
qed

lemma ack_resolves:
  assumes "gm_get (pending a) ackID = Some ch" "ch \<notin> set (chClosed a)"
  shows "ResolveAck ackID a = Ok (True, a\<lparr>pending := gm_del ackID (pending a), chClosed := ch # chClosed a\<rparr>)"
  using assms by (simp add: ResolveAck_def ResolveAck_take_def close_chan_def)

text \<open>
  A client message at a container: the handler runs on the container's own limiter, ack
  manager, connections and table, and what it puts out is done.  \<open>priv\<close> is the rest of its
  state: the throttle, the de-duplicator and the user table.
\<close>

type_synonym cmh_priv = "ttl_entries \<times> ttl_entries \<times> User list"

fun do_out :: "nenv \<Rightarrow> WebsocketConn \<Rightarrow> cmh_out \<Rightarrow> world \<Rightarrow> world" where
  "do_out env conn (SendFrame d) w = snd (ws_Send env conn d w)"
| "do_out env conn (CallHandler auth msgType data) w = w"
| "do_out env conn (PublishAckResolved sourceContainerID ackID) w =
     snd (publish_logged env [sourceContainerID] (AckResolvedParams ackID) w)"
| "do_out env conn (CloseConn conn' code reason) w = ws_Close env conn' w"
| "do_out env conn (RecordClientMessage msgType out) w = w"

definition cmh_view :: "cmh_priv \<Rightarrow> world \<Rightarrow> clientMsgHandler" where
  "cmh_view priv w = (case priv of (throttle, dedup, users) \<Rightarrow>
     \<lparr>chRate = ndRate (wdNode w), chAck = ndAck (wdNode w), chThrottle = throttle, chDedup = dedup,
      chConns = ndConns (wdNode w), chActive = wdActive w, chUsers = users\<rparr>)"

definition cmh_store :: "clientMsgHandler \<Rightarrow> world \<Rightarrow> world" where
  "cmh_store h w = (upd_node (\<lambda>n. n\<lparr>ndRate := chRate h, ndAck := chAck h\<rparr>) w)\<lparr>wdActive := chActive h\<rparr>"

definition client_message ::
    "nenv \<Rightarrow> cmh_env \<Rightarrow> WebsocketConn \<Rightarrow> bytes \<Rightarrow> cmh_priv \<times> world \<Rightarrow> (cmh_priv \<times> world, 'e) outcome" where
  "client_message env cenv conn data s =
     (case s of (priv, w) \<Rightarrow>
        obind (must (handleMessage cenv data (wcAuth conn) (cmh_view priv w))) (\<lambda>(outs, h).
          Ok ((chThrottle h, chDedup h, chUsers h), fold (do_out env conn) outs (cmh_store h w))))"

fun client_messages ::
    "nenv \<Rightarrow> cmh_env \<Rightarrow> WebsocketConn \<Rightarrow> bytes list \<Rightarrow> cmh_priv \<times> world \<Rightarrow> (cmh_priv \<times> world, 'e) outcome" where
  "client_messages env cenv conn [] s = Ok s"
| "client_messages env cenv conn (d # ds) s =
     obind (client_message env cenv conn d s) (client_messages env cenv conn ds)"

text \<open>
  The other side of an acknowledged send: the holder handles what was published to it, the
  client on connection \<open>conn\<close> reacts to the frames it is delivered, and the holder handles
  the client's messages.  The result is what the holder has put out since, and its state.
\<close>

definition holder_round ::
    "nenv \<Rightarrow> cmh_env \<Rightarrow> (bytes \<Rightarrow> bytes list) \<Rightarrow> WebsocketConn \<Rightarrow> cmh_priv \<Rightarrow> world \<Rightarrow> out_ev list \<Rightarrow>
     (out_ev list \<times> world, ErrorCode) outcome" where
  "holder_round env cenv client conn priv v published =
     obind (handle_all env (inbound (neCodec env) (ndID (wdNode v)) published) v) (\<lambda>v1.
       obind (client_messages env cenv conn
                (concat (map client (delivered_to (wcId conn) (drop (length (wdOut v)) (wdOut v1))))) (priv, v1))
         (\<lambda>(_, v2). Ok (drop (length (wdOut v)) (wdOut v2), v2)))"

text \<open>
  What happens at the asking container meanwhile: everything it has put out beyond the
  first \<open>k\<close> events reaches the holder, and what the holder publishes comes back.
\<close>

definition remote_round ::
    "nenv \<Rightarrow> (out_ev list \<Rightarrow> (out_ev list \<times> world, ErrorCode) outcome) \<Rightarrow> nat \<Rightarrow> world \<Rightarrow> world" where
  "remote_round env holder k w =
     (case holder (drop k (wdOut w)) of
        Ok (evs, _) \<Rightarrow>
          (case handle_all env (inbound (neCodec env) (ndID (wdNode w)) evs) w of Ok w' \<Rightarrow> w' | _ \<Rightarrow> w)
      | _ \<Rightarrow> w)"

text \<open>A client that acknowledges every frame that asks for it, and one that does not react.\<close>

definition ack_request :: "gostring \<Rightarrow> gostring \<Rightarrow> WebsocketResquest" where
  "ack_request m ackID = \<lparr>rqId = m, rqMsgType = MessageTypeAck, rqBinary = str_bytes ackID\<rparr>"

definition acking_client :: "gostring \<Rightarrow> bytes \<Rightarrow> bytes list" where
  "acking_client m frame =
     (case Response_Unmarshall frame of
        Ok r \<Rightarrow> if rsAckId r = [] then [] else [Request_Marshall (ack_request m (rsAckId r))]
      | _ \<Rightarrow> [])"

definition mute_client :: "bytes \<Rightarrow> bytes list" where
  "mute_client frame = []"

subsubsection \<open>Single steps of the exchange\<close>

definition targeted_msg :: "codec \<Rightarrow> gostring \<Rightarrow> pub_params \<Rightarrow> out_ev" where
  "targeted_msg cd c pl = Published (channelName c)
     \<lparr>psTargetContainers = [c], psSendAllContainers = False, psMsgType = params_type pl, psPayload = cdEnc cd pl\<rparr>"

lemma publish_logged_one:
  assumes "\<forall>ch. nePub env ch" "params_payload pl \<noteq> Some None"
  shows "publish_logged env [c] pl w = (Ok (), w\<lparr>wdOut := wdOut w @ [targeted_msg (neCodec env) c pl]\<rparr>)"
  using assms by (simp add: publish_logged_def publish_msg_def create_targeted_Ok Publish_def targeted_msg_def)

lemma inbound_targeted:
  assumes "codec_ok cd pl" "params_type pl \<in> set targeted_types"
  shows "inbound cd c [targeted_msg cd c pl] = [pl]"
  by (simp add: inbound_def targeted_msg_def receive_targeted [OF assms])

lemma ack_request_decodes:
  "length m \<le> 255 \<Longrightarrow> Request_Unmarshall (Request_Marshall (ack_request m ackID)) = Ok (ack_request m ackID)"
  by (simp add: ack_request_def Request_Marshall_def Request_Unmarshall_def Encode_encodable Decode_layout
      encodable_toFrame message_fits_def msgtype_defs)

lemma ack_message_publishes:
  assumes "\<forall>l. ceAllow cenv l" "ackID \<noteq> []" "length m \<le> 255" "\<forall>ch. nePub env ch"
    and "gm_get (pending (ndAck (wdNode v))) ackID = None" "gm_get (remoteAcks (ndAck (wdNode v))) ackID = Some src"
  shows "\<exists>priv' v'. client_message env cenv conn (Request_Marshall (ack_request m ackID)) (priv, v) = (Ok (priv', v') :: (_, 'e) outcome) \<and>
    wdOut v' = wdOut v @ [targeted_msg (neCodec env) src (AckResolvedParams ackID)] \<and>
    gm_get (remoteAcks (ndAck (wdNode v'))) ackID = None"
proof -
  let ?h = "cmh_view priv v"
  have "fst (rate_allow cenv (wcAuth conn) ?h)" using assms(1) by (simp add: rate_allow_def split: prod.split)
  then obtain h' where h': "handle_ack_msg cenv (wcAuth conn) (ack_request m ackID) ?h =
      Ok (None, OutcomeOK, [PublishAckResolved src ackID], h')" "gm_get (remoteAcks (chAck h')) ackID = None"
    using handle_ack_remote [of cenv "wcAuth conn" ?h ackID src m] assms(2,5,6)
    by (auto simp: ack_request_def cmh_view_def split: prod.splits)
  have "handleMessage cenv (Request_Marshall (ack_request m ackID)) (wcAuth conn) ?h =
      Ok ([PublishAckResolved src ackID, RecordClientMessage MessageTypeAck OutcomeOK], h')"
    using h'(1) unfolding handleMessage_Ok [OF ack_request_decodes [OF assms(3)]]
    by (simp add: branch_of_def finish_def ack_request_def msgtype_defs)
  then show ?thesis using h'(2)
    by (simp add: client_message_def must_def publish_logged_one [OF assms(4)] cmh_store_def upd_node_def)
qed

text \<open>The holder's handler delivers the frame and remembers who asked.\<close>

lemma holder_delivers:
  assumes "UserWebsocketAuth u i = Ok a" "GetConnection (ndConns (wdNode v)) a = Some c"
    and "wcCore c = WsCoreGobwas" "wcId c \<notin> set (ndClosed (wdNode v))" "neSend env (wcId c)"
  shows "\<exists>v1. handle env (SendToSessionWithAckParams u i t p ackID src) v = (Ok v1 :: (world, ErrorCode) outcome) \<and>
    wdOut v1 = wdOut v @ [Delivered (wcId c) (hdl_ack_frame env t p ackID)] \<and>
    gm_get (remoteAcks (ndAck (wdNode v1))) ackID = Some src \<and> pending (ndAck (wdNode v1)) = pending (ndAck (wdNode v))"
  using assms by (simp add: hdl_SendToSessionWithAck_def must_def Let_def sendOrSaveMessageHub_def ws_Send_def upd_node_def
      log_ev_def RegisterRemoteAck_def)

lemma holder_round_acks:
  assumes "UserWebsocketAuth u i = Ok a" "GetConnection (ndConns (wdNode v)) a = Some c"
    and "wcCore c = WsCoreGobwas" "wcId c \<notin> set (ndClosed (wdNode v))" "neSend env (wcId c)"
    and "codec_ok (neCodec env) (SendToSessionWithAckParams u i t (Some b) ackID src)"
    and "gm_get (pending (ndAck (wdNode v))) ackID = None" "ackID \<noteq> []" "hdl_ack_frame env t (Some b) ackID \<noteq> []"
    and "\<forall>l. ceAllow cenv l" "length m \<le> 255" "\<forall>ch. nePub env ch"
    and "published = [targeted_msg (neCodec env) (ndID (wdNode v)) (SendToSessionWithAckParams u i t (Some b) ackID src)]"
  shows "(\<exists>v'. holder_round env cenv (acking_client m) c priv v published =
      Ok ([Delivered (wcId c) (hdl_ack_frame env t (Some b) ackID), targeted_msg (neCodec env) src (AckResolvedParams ackID)], v') \<and>
      gm_get (remoteAcks (ndAck (wdNode v'))) ackID = None) \<and>
    (\<exists>v'. holder_round env cenv mute_client c priv v published = Ok ([Delivered (wcId c) (hdl_ack_frame env t (Some b) ackID)], v'))"
proof -
  have inb: "inbound (neCodec env) (ndID (wdNode v)) published = [SendToSessionWithAckParams u i t (Some b) ackID src]"
    using assms(6) by (simp add: assms(13) inbound_targeted targeted_types_def)
  obtain v1 where v1: "handle env (SendToSessionWithAckParams u i t (Some b) ackID src) v = (Ok v1 :: (world, ErrorCode) outcome)"
    "wdOut v1 = wdOut v @ [Delivered (wcId c) (hdl_ack_frame env t (Some b) ackID)]"
    "gm_get (remoteAcks (ndAck (wdNode v1))) ackID = Some src" "pending (ndAck (wdNode v1)) = pending (ndAck (wdNode v))"
    using holder_delivers [OF assms(1-5)] by blast
  have "acking_client m (hdl_ack_frame env t (Some b) ackID) = [Request_Marshall (ack_request m ackID)]"
    using assms(8,9) by (simp add: acking_client_def hdl_ack_frame_def Response_Marshall_decodes)
  moreover obtain priv' v' where "client_message env cenv c (Request_Marshall (ack_request m ackID)) (priv, v1) = (Ok (priv', v') :: (_, ErrorCode) outcome)"
    "wdOut v' = wdOut v1 @ [targeted_msg (neCodec env) src (AckResolvedParams ackID)]"
    "gm_get (remoteAcks (ndAck (wdNode v'))) ackID = None"
    using ack_message_publishes [OF assms(10,8,11,12), of v1 src c priv] v1(3,4) assms(7) by auto
  ultimately show ?thesis using v1(1,2)
    by (simp add: holder_round_def inb delivered_to_def mute_client_def del: handle.simps)
qed


definition ex_holder :: world where
  "ex_holder = upd_node (\<lambda>n. n\<lparr>ndConns := AddConnection (ex_conn 1 ''u'' ''i'') NewConnectionMap\<rparr>) (ex_nworld ''b'' [])"

text \<open>A codec that knows two structs.\<close>

definition pair_codec :: "pub_params \<Rightarrow> pub_params \<Rightarrow> codec" where
  "pair_codec p q = \<lparr>cdEnc = (\<lambda>_. []), cdDec = (\<lambda>t b. if t = params_type p then Some p else if t = params_type q then Some q else None)\<rparr>"


text \<open>When the container that sends an acknowledged message holds the session itself, it
  registers the request as a remote one as well; the client's acknowledgement resolves the
  local request only, and the remote entry stays in the map for the life of the process.\<close>

theorem local_ack_leaks:
  assumes "fst (rate_allow cenv a h)" "ackID \<noteq> []"
    and "gm_get (pending (chAck h)) ackID = Some ch" "ch \<notin> set (chClosed (chAck h))"
    and "chAck h = RegisterRemoteAck ackID src ack0"
  shows "\<exists>h'. handle_ack_msg cenv a \<lparr>rqId = m, rqMsgType = MessageTypeAck, rqBinary = str_bytes ackID\<rparr> h =
      Ok (None, OutcomeOK, [], h') \<and> gm_get (pending (chAck h')) ackID = None \<and>
    gm_get (remoteAcks (chAck h')) ackID = Some src"
proof -
  obtain h1 where h1: "rate_allow cenv a h = (True, h1)" using assms(1) by (cases "rate_allow cenv a h") auto
  then have "chAck h1 = chAck h" by (auto simp: rate_allow_def split: prod.splits)
  moreover have "gm_get (remoteAcks (chAck h)) ackID = Some src"
    using assms(5) by (simp add: RegisterRemoteAck_def)
  ultimately show ?thesis using assms(2) h1 by (simp add: handle_ack_msg_def ack_resolves [OF assms(3,4)])
qed

theorem local_ack_leaks_witness:
  "\<exists>h'. handle_ack_msg ex_cenv (ex_auth ''u'' ''i'') \<lparr>rqId = [], rqMsgType = MessageTypeAck, rqBinary = str_bytes ''ack_x''\<rparr>
      (ex_cmh\<lparr>chAck := RegisterRemoteAck ''ack_x'' ''a'' (snd (snd (CreateAck ''x'' NewAckManager)))\<rparr>) =
      Ok (None, OutcomeOK, [], h') \<and> gm_get (pending (chAck h')) ''ack_x'' = None \<and>
    gm_get (remoteAcks (chAck h')) ''ack_x'' = Some ''a''"
  by (rule local_ack_leaks [where ch = 0 and ?ack0.0 = "snd (snd (CreateAck ''x'' NewAckManager))"])
    (use ex_rate [of "ex_auth ''u'' ''i''" "ex_cmh\<lparr>chAck := RegisterRemoteAck ''ack_x'' ''a'' (snd (snd (CreateAck ''x'' NewAckManager)))\<rparr>"]
      in \<open>auto simp: RegisterRemoteAck_def CreateAck_eq NewAckManager_def\<close>)

end
