(* ===== verification/Delivery.thy ===== *)
theory Delivery
  imports Routing
begin

text \<open>
  The life of a session across containers: the callback for a new connection of
  \<open>mediator/delivery/0.new.go\<close>, and what it gives together with the close callback, the
  routing of the mediator, the message hub and the shared tables.
\<close>

subsection \<open>New connections\<close>

text \<open>
  The callback registered under the key \<open>NewConnection\<close>.  \<open>between\<close> is what other
  containers do to the pending messages while they are consumed.
\<close>

definition signal_previous :: "nenv \<Rightarrow> WebsocketAuth \<Rightarrow> world \<Rightarrow> unit svc" where
  "signal_previous env auth w =
     (let u = auUserID auth; i = auInstanceID auth in
      case AC_GetInstanceConnection (neCutoff env) (neNow env) (neFault env QGetInstance u i) u i (wdActive w) of
        Ok actConn \<Rightarrow>
          (let r = (case acStatus actConn of
                      WsStatusConnected \<Rightarrow> DisconnectSession env (acUserID actConn) i w
                    | WsStatusTempDisconnected \<Rightarrow> ResumeSession env (acHolderID actConn) u i w
                    | _ \<Rightarrow> (Ok (), w))
           in case r of (Err e, w) \<Rightarrow> (Ok (), w) | _ \<Rightarrow> r)
      | Err e \<Rightarrow> (Ok (), w)
      | Panic \<Rightarrow> (Panic, w))"

definition consume_pending :: "nenv \<Rightarrow> (pm_table \<Rightarrow> pm_table) \<Rightarrow> WebsocketConn \<Rightarrow> world \<Rightarrow> world" where
  "consume_pending env between conn w =
     (let u = auUserID (wcAuth conn); i = auInstanceID (wcAuth conn) in
      case Hub_Consume PG_GetAll PG_DeleteUpTo (neFault env QPendGetAll u i) (neFault env QPendDelete u i)
             between u i (wdPending w) of
        (r, p) \<Rightarrow>
          let msgs = (case r of Ok ms \<Rightarrow> ms | _ \<Rightarrow> [])
          in fold (\<lambda>msg w. snd (ws_Send env conn msg w)) msgs (w\<lparr>wdPending := p\<rparr>))"

definition onNew :: "nenv \<Rightarrow> (pm_table \<Rightarrow> pm_table) \<Rightarrow> WebsocketConn \<Rightarrow> world \<Rightarrow> unit svc" where
  "onNew env between conn w =
     (let auth = wcAuth conn; u = auUserID auth; i = auInstanceID auth;
          w = (case GetConnection (ndConns (wdNode w)) auth of
                 Some existingConn \<Rightarrow> ws_Close env existingConn w
               | None \<Rightarrow> w)
      in svc_then (signal_previous env auth w) (\<lambda>_ w.
           case AC_AddConnection (ndID (wdNode w)) (neNow env) (neFault env QAdd u i) u i (wcCore conn) (wdActive w) of
             (Ok _, t) \<Rightarrow>
               let w = upd_node (\<lambda>n. n\<lparr>ndConns := AddConnection conn (ndConns n),
                                       ndRate := snd (Limiter_New auth (ndRate n))\<rparr>) (w\<lparr>wdActive := t\<rparr>);
                   w = consume_pending env between conn w
               in (Ok (), upd_node (\<lambda>n. n\<lparr>ndTracker := tracker_open (neNow env) auth (ndTracker n)\<rparr>) w)
           | (Err e, t) \<Rightarrow> (Err e, w\<lparr>wdActive := t\<rparr>)
           | (Panic, t) \<Rightarrow> (Panic, w\<lparr>wdActive := t\<rparr>)))"

subsection \<open>A parked session\<close>

text \<open>
  A session is parked at a container when it is not connected there, the hub of the
  container buffers for it, and its row says so.
\<close>

definition parked :: "int \<Rightarrow> gostring \<Rightarrow> gostring \<Rightarrow> world \<Rightarrow> bool" where
  "parked hb u i w \<longleftrightarrow> cm_abs (ndConns (wdNode w)) (u, i) = None \<and> IsRegistered (ndHub (wdNode w)) u i \<and>
     (\<exists>r. ac_row (wdActive w) u i = Some r \<and> acHolderID r = ndID (wdNode w) \<and>
        acStatus r = WsStatusTempDisconnected \<and> acLastHeartbeat r = hb)"

lemma onClose_user:
  assumes "no_faults env" "auUserID a \<noteq> []" "\<not> ndShutdown (wdNode w)"
  shows "onClose env a w = w\<lparr>
    wdActive := ac_where (auUserID a) (auInstanceID a) (\<lambda>r. r\<lparr>acStatus := WsStatusTempDisconnected\<rparr>) (wdActive w),
    wdNode := (wdNode w)\<lparr>ndTracker := snd (tracker_close (neNow env) a (ndTracker (wdNode w))),
      ndConns := RemoveConnection a (ndConns (wdNode w)), ndRate := Limiter_Remove a (ndRate (wdNode w)),
      ndHub := registerWithTTL (neSubmit env) (auUserID a) (auInstanceID a) (ndHub (wdNode w))\<rparr>\<rparr>"
  using assms by (simp add: onClose_def IsAnonymous_def IsShuttingDown_def AC_UpdateStatus_def Let_def)

lemma close_parks:
  assumes "no_faults env" "auth_key (wcAuth c) = (u, i)" "u \<noteq> []" "wcId c \<notin> set (ndClosed (wdNode w))"
    and "\<not> ndShutdown (wdNode w)" "ac_row (wdActive w) u i = Some r"
    and "acHolderID r = ndID (wdNode w)" "acLastHeartbeat r = hb"
  shows "parked hb u i (ws_Close env c w)" "wdPending (ws_Close env c w) = wdPending w"
    "wdOut (ws_Close env c w) = wdOut w"
proof -
  have k: "auUserID (wcAuth c) = u" "auInstanceID (wcAuth c) = i" using assms(2) by (simp_all add: auth_key_def)
  have row: "ac_row (ac_where u i (\<lambda>r. r\<lparr>acStatus := WsStatusTempDisconnected\<rparr>) (wdActive w)) u i =
      Some (r\<lparr>acStatus := WsStatusTempDisconnected\<rparr>)"
    by (rule ac_row_where [OF assms(6)]) (simp add: ac_key_def)
  show "parked hb u i (ws_Close env c w)" "wdPending (ws_Close env c w) = wdPending w"
    "wdOut (ws_Close env c w) = wdOut w"
    using assms by (simp_all add: ws_Close_def upd_node_def onClose_user k parked_def cm_abs_Remove
        IsRegistered_register row)
qed

subsection \<open>Sending to a parked session\<close>

text \<open>
  A container sends to a session and the pub/sub service carries what it publishes to the
  container of \<open>w\<close>, which handles it.
\<close>

definition cluster_send ::
    "nenv \<Rightarrow> node \<Rightarrow> gostring \<Rightarrow> gostring \<Rightarrow> gostring \<Rightarrow> payload \<Rightarrow> world \<Rightarrow> (world, ErrorCode) outcome" where
  "cluster_send env sender u i t p w =
     (case SendToSession env u i t p (w\<lparr>wdNode := sender, wdOut := []\<rparr>) of
        (Ok _, w') \<Rightarrow> handle_all env (inbound (neCodec env) (ndID (wdNode w)) (wdOut w'))
                       (w'\<lparr>wdNode := wdNode w, wdOut := wdOut w\<rparr>)
      | (Err e, w') \<Rightarrow> Err e
      | (Panic, w') \<Rightarrow> Panic)"

text \<open>A sender that can reach the session: it is not connected there and nothing fails.\<close>

definition good_sender :: "int \<Rightarrow> gostring \<Rightarrow> gostring \<Rightarrow> node \<times> nenv \<times> gostring \<times> payload \<Rightarrow> bool" where
  "good_sender hb u i m \<longleftrightarrow> (case m of (sender, env, t, p) \<Rightarrow>
     cm_abs (ndConns sender) (u, i) = None \<and> no_faults env \<and> (\<forall>ch. nePub env ch) \<and> p \<noteq> None \<and>
     codec_ok (neCodec env) (SendToSessionParams u i t p) \<and> neNow env - neCutoff env < hb)"

lemma cluster_send_parked:
  assumes p: "parked hb u i w" and g: "good_sender hb u i (sender, env, t, p)"
    and ui: "u \<noteq> []" "i \<noteq> []" and holder: "ndID (wdNode w) \<noteq> []"
    and fresh: "\<forall>r \<in> set (wdPending w). pmSessionKey r = sessionKey u i \<longrightarrow> pmSendAt r \<noteq> neNow env"
  shows "cluster_send env sender u i t p w =
    Ok (w\<lparr>wdPending := wdPending w @ [pending_row env u i (hdl_frame env t p)]\<rparr>)"
proof -
  let ?a = "\<lparr>auUserID = u, auInstanceID = i, auMetadata = []\<rparr>"
  let ?pl = "SendToSessionParams u i t p"
  let ?m = "\<lparr>psTargetContainers = [ndID (wdNode w)], psSendAllContainers = False,
    psMsgType = params_type ?pl, psPayload = cdEnc (neCodec env) ?pl\<rparr>"
  let ?w0 = "w\<lparr>wdNode := sender, wdOut := []\<rparr>"
  obtain r where r: "ac_row (wdActive w) u i = Some r" "acHolderID r = ndID (wdNode w)" "acLastHeartbeat r = hb"
    and none: "cm_abs (ndConns (wdNode w)) (u, i) = None" and reg: "IsRegistered (ndHub (wdNode w)) u i"
    using p by (auto simp: parked_def)
  have g': "cm_abs (ndConns sender) (u, i) = None" "no_faults env" "\<forall>ch. nePub env ch" "p \<noteq> None"
    "codec_ok (neCodec env) ?pl" "neNow env - neCutoff env < hb"
    using g by (simp_all add: good_sender_def)
  have k: "auth_key ?a = (u, i)" by (simp add: auth_key_def)
  have found: "AC_GetInstanceConnection (neCutoff env) (neNow env) DbOk u i (wdActive w) = Ok r"
    by (rule get_instance_row [OF r(1)]) (use g'(6) r(3) in \<open>simp add: alive_def\<close>)
  have route: "findSessionConn env u i ?w0 = Ok (SRemote (ndID (wdNode w)))"
    using g' r(2) ui holder found by (simp add: findSessionConn_def UserWebsocketAuth_Ok GetConnection_abs k)
  have send: "SendToSession env u i t p ?w0 = (Ok (), ?w0\<lparr>wdOut := [Published (channelName (ndID (wdNode w))) ?m]\<rparr>)"
    using g' route by (simp add: SendToSession_def publish_logged_def publish_msg_def create_targeted_Ok
        Publish_def)
  have "inbound (neCodec env) (ndID (wdNode w)) [Published (channelName (ndID (wdNode w))) ?m] = [?pl]"
    using receive_targeted [OF g'(5), of ?m] by (simp add: inbound_def targeted_types_def)
  moreover have "handle env ?pl w =
      (Ok (w\<lparr>wdPending := wdPending w @ [pending_row env u i (hdl_frame env t p)]\<rparr>) :: (world, ErrorCode) outcome)"
    using ui none reg node_Save_fresh [OF g'(2) fresh]
    by (simp add: hdl_SendToSession_def UserWebsocketAuth_Ok GetConnection_abs k)
  ultimately show ?thesis by (simp add: cluster_send_def send)
qed

fun cluster_sends :: "gostring \<Rightarrow> gostring \<Rightarrow> (node \<times> nenv \<times> gostring \<times> payload) list \<Rightarrow> world \<Rightarrow> (world, ErrorCode) outcome" where
  "cluster_sends u i [] w = Ok w"
| "cluster_sends u i ((sender, env, t, p) # ms) w = obind (cluster_send env sender u i t p w) (cluster_sends u i ms)"

definition msg_time :: "node \<times> nenv \<times> gostring \<times> payload \<Rightarrow> int" where
  "msg_time m = neNow (fst (snd m))"

definition msg_row :: "gostring \<Rightarrow> gostring \<Rightarrow> node \<times> nenv \<times> gostring \<times> payload \<Rightarrow> PendingMessage" where
  "msg_row u i m = (case m of (sender, env, t, p) \<Rightarrow> pending_row env u i (hdl_frame env t p))"

lemma parked_pending [simp]: "parked hb u i (w\<lparr>wdPending := p\<rparr>) = parked hb u i w"
  by (simp add: parked_def)

lemma cluster_sends_parked:
  assumes "parked hb u i w" "\<forall>m \<in> set ms. good_sender hb u i m" "u \<noteq> []" "i \<noteq> []" "ndID (wdNode w) \<noteq> []"
    and "sorted_wrt (<) (map msg_time ms)"
    and "\<forall>r \<in> set (wdPending w). pmSessionKey r = sessionKey u i \<longrightarrow> (\<forall>m \<in> set ms. pmSendAt r < msg_time m)"
  shows "cluster_sends u i ms w = Ok (w\<lparr>wdPending := wdPending w @ map (msg_row u i) ms\<rparr>)"
  using assms
proof (induction ms arbitrary: w)
  case (Cons m ms)
  obtain sender env t p where m: "m = (sender, env, t, p)" by (cases m) auto
  let ?w' = "w\<lparr>wdPending := wdPending w @ [pending_row env u i (hdl_frame env t p)]\<rparr>"
  have "cluster_send env sender u i t p w = Ok ?w'"
    by (rule cluster_send_parked [of hb]) (use Cons.prems m in \<open>auto simp: msg_time_def\<close>)
  moreover have "cluster_sends u i ms ?w' = Ok (?w'\<lparr>wdPending := wdPending ?w' @ map (msg_row u i) ms\<rparr>)"
    by (rule Cons.IH) (use Cons.prems m in \<open>auto simp: msg_time_def pending_row_def\<close>)
  ultimately show ?case by (simp add: m msg_row_def)
qed simp

subsection \<open>Reconnecting\<close>

lemma session_rows_append:
  assumes "\<forall>r \<in> set t. pmSessionKey r = sessionKey u i \<longrightarrow> (\<forall>s \<in> set rs. pmSendAt r < pmSendAt s)"
    and "sorted_wrt (<) (map pmSendAt rs)" and "\<forall>s \<in> set rs. pmSessionKey s = sessionKey u i"
  shows "session_rows u i (t @ rs) = session_rows u i t @ rs"
proof -
  let ?t = "filter (\<lambda>r. pmSessionKey r = sessionKey u i) t"
  have f: "filter (\<lambda>r. pmSessionKey r = sessionKey u i) rs = rs"
    using assms(3) by (simp add: filter_id_conv)
  have s: "sorted (map pmSendAt rs)"
    using assms(2) by (rule sorted_wrt_mono_rel [rotated]) simp
  have "sort_key pmSendAt (xs @ rs) = sort_key pmSendAt xs @ rs" if "\<forall>x \<in> set xs. \<forall>s \<in> set rs. pmSendAt x < pmSendAt s" for xs
  proof (rule properties_for_sort_key)
    show "mset (sort_key pmSendAt xs @ rs) = mset (xs @ rs)" by simp
    show "sorted (map pmSendAt (sort_key pmSendAt xs @ rs))"
      using that s by (auto simp: sorted_append less_imp_le)
    show "filter (\<lambda>x. pmSendAt k = pmSendAt x) (sort_key pmSendAt xs @ rs) =
        filter (\<lambda>x. pmSendAt k = pmSendAt x) (xs @ rs)" for k
      using sort_key_stable [of pmSendAt "pmSendAt k" xs] by (simp add: eq_commute)
  qed
  then show ?thesis using assms(1) by (simp add: session_rows_def f)
qed

lemma le_last_sorted:
  "\<lbrakk>x \<in> set xs; sorted (map f xs)\<rbrakk> \<Longrightarrow> f x \<le> (f (last xs) :: int)"
  by (induction xs) auto

lemma session_rows_deleted:
  assumes "session_rows u i t \<noteq> []"
  shows "session_rows u i (snd (PG_DeleteUpTo DbOk u i (pmSendAt (last (session_rows u i t))) t)) = []"
proof -
  have "pmSendAt r \<le> pmSendAt (last (session_rows u i t))" if "r \<in> set t" "pmSessionKey r = sessionKey u i" for r
  proof -
    have "r \<in> set (session_rows u i t)" using that by (simp add: session_rows_def)
    moreover have "sorted (map pmSendAt (session_rows u i t))" by (simp add: session_rows_def)
    ultimately show ?thesis by (rule le_last_sorted)
  qed
  then show ?thesis by (auto simp: session_rows_def PG_DeleteUpTo_def filter_empty_conv)
qed

lemma send_direct:
  assumes "neSend env (wcId c)" "wcId c \<notin> set (ndClosed (wdNode w))" "wcCore c \<noteq> WsCoreLongPolling"
  shows "fold (\<lambda>msg w. snd (ws_Send env c msg w)) msgs w = w\<lparr>wdOut := wdOut w @ map (Delivered (wcId c)) msgs\<rparr>"
  using assms(2)
proof (induction msgs arbitrary: w)
  case (Cons m ms)
  have "snd (ws_Send env c m w) = w\<lparr>wdOut := wdOut w @ [Delivered (wcId c) m]\<rparr>"
    using assms(1,3) Cons.prems by (simp add: ws_Send_def log_ev_def)
  then show ?case using Cons by simp
qed simp

lemma consume_pending_ok:
  assumes "no_faults env" "neSend env (wcId c)" "wcId c \<notin> set (ndClosed (wdNode w))"
    and "wcCore c \<noteq> WsCoreLongPolling" "auth_key (wcAuth c) = (u, i)"
  shows "\<exists>p. consume_pending env (\<lambda>t. t) c w =
      w\<lparr>wdPending := p, wdOut := wdOut w @ map (Delivered (wcId c)) (map pmMessage (session_rows u i (wdPending w)))\<rparr> \<and>
    session_rows u i p = []"
proof (cases "session_rows u i (wdPending w) = []")
  case True
  then have "consume_pending env (\<lambda>t. t) c w = w"
    using assms by (simp add: consume_pending_def Hub_Consume_def PG_GetAll_def pg_rows_def
        collect_rows_eq auth_key_def)
  then show ?thesis using True by (intro exI [of _ "wdPending w"]) simp
next
  case False
  let ?p = "snd (PG_DeleteUpTo DbOk u i (pmSendAt (last (session_rows u i (wdPending w)))) (wdPending w))"
  have "consume_pending env (\<lambda>t. t) c w =
      w\<lparr>wdPending := ?p, wdOut := wdOut w @ map (Delivered (wcId c)) (map pmMessage (session_rows u i (wdPending w)))\<rparr>"
    using assms False
    by (auto simp: consume_pending_def Hub_Consume_def PG_GetAll_def pg_rows_def collect_rows_eq
        auth_key_def send_direct split: prod.splits)
  then show ?thesis using session_rows_deleted [OF False] by blast
qed

lemma resume_ok:
  assumes "\<forall>ch. nePub env ch" "nd = wdNode w"
  shows "\<exists>nd' evs. ResumeSession env h u i w = (Ok (), w\<lparr>wdNode := nd', wdOut := wdOut w @ evs\<rparr>) \<and>
    ndID nd' = ndID nd \<and> ndConns nd' = ndConns nd \<and> ndClosed nd' = ndClosed nd \<and> delivered_to c evs = []"
proof -
  let ?pl = "ResumeSessionParams u i"
  let ?m = "\<lparr>psTargetContainers = [h], psSendAllContainers = False, psMsgType = params_type ?pl,
    psPayload = cdEnc (neCodec env) ?pl\<rparr>"
  consider "h = []" | "h = ndID nd" "h \<noteq> []" | "h \<noteq> ndID nd" "h \<noteq> []" by blast
  then show ?thesis
  proof cases
    case 1
    then show ?thesis using assms(2) by (intro exI [of _ nd] exI [of _ "[]"]) (simp add: ResumeSession_def)
  next
    case 2
    then show ?thesis using assms(2)
      by (intro exI [of _ "nd\<lparr>ndHub := Deregister u i (ndHub nd)\<rparr>"] exI [of _ "[]"])
        (simp add: ResumeSession_def run_hdl_def hdl_ResumeSession_def upd_node_def)
  next
    case 3
    then show ?thesis using assms
      by (intro exI [of _ nd] exI [of _ "[Published (channelName h) ?m]"])
        (simp add: ResumeSession_def publish_logged_def publish_msg_def create_targeted_Ok Publish_def)
  qed
qed

lemma signal_previous_parked:
  assumes "no_faults env" "\<forall>ch. nePub env ch" "auth_key a = (u, i)" "u \<noteq> []"
    and "ac_row (wdActive w) u i = Some r" "ac_inv (wdActive w)" "acStatus r \<noteq> WsStatusConnected"
  shows "\<exists>nd' evs. signal_previous env a w = (Ok (), w\<lparr>wdNode := nd', wdOut := wdOut w @ evs\<rparr>) \<and>
    ndID nd' = ndID (wdNode w) \<and> ndConns nd' = ndConns (wdNode w) \<and> ndClosed nd' = ndClosed (wdNode w) \<and>
    delivered_to c evs = []"
proof -
  have k: "auUserID a = u" "auInstanceID a = i" using assms(3) by (simp_all add: auth_key_def)
  have idle: ?thesis if "signal_previous env a w = (Ok (), w)"
    using that by (intro exI [of _ "wdNode w"] exI [of _ "[]"]) simp
  show ?thesis
  proof (cases "AC_GetInstanceConnection (neCutoff env) (neNow env) DbOk u i (wdActive w)")
    case (Ok s)
    have "s = r"
    proof -
      have "s \<in> set (wdActive w)" "ac_key s = (u, i)"
        using Ok by (auto simp: AC_GetInstanceConnection_def pg_row_def ac_key_def filter_eq_Cons_iff
            split: list.splits)
      moreover have "r \<in> set (wdActive w)" "ac_key r = (u, i)"
        using assms(5) by (auto simp: ac_row_def find_Some_iff)
      ultimately show ?thesis using assms(6) unfolding ac_inv_def by (metis distinct_map inj_onD)
    qed
    show ?thesis
    proof (cases "acStatus r = WsStatusTempDisconnected")
      case True
      then have "signal_previous env a w = ResumeSession env (acHolderID r) u i w"
        using Ok \<open>s = r\<close> assms(1) resume_ok [OF assms(2) refl, of "acHolderID r" u i w c]
        by (auto simp: signal_previous_def k)
      then show ?thesis using resume_ok [OF assms(2) refl, of "acHolderID r" u i w c] by simp
    next
      case False
      then have "signal_previous env a w = (Ok (), w)"
        using Ok \<open>s = r\<close> assms(1,7) by (auto simp: signal_previous_def k split: WsStatus.splits)
      then show ?thesis by (rule idle)
    qed
  next
    case (Err e)
    then show ?thesis using assms(1) by (intro idle) (simp add: signal_previous_def k)
  next
    case Panic
    then show ?thesis by (auto simp: AC_GetInstanceConnection_def pg_row_def split: list.splits)
  qed
qed

text \<open>A session comes up at a container that has no connection of it.\<close>

lemma onNew_after_signal:
  assumes "no_faults env" "auth_key (wcAuth c) = (u, i)"
    and sig: "signal_previous env (wcAuth c) w = (Ok (), w\<lparr>wdNode := nd', wdOut := wdOut w @ evs\<rparr>)"
    and nd': "ndID nd' = ndID (wdNode w)" "ndConns nd' = ndConns (wdNode w)" "ndClosed nd' = ndClosed (wdNode w)"
    and "cm_abs (ndConns (wdNode w)) (u, i) = None" "wcId c \<notin> set (ndClosed (wdNode w))"
    and "neSend env (wcId c)" "wcCore c \<noteq> WsCoreLongPolling"
  shows "\<exists>w'. onNew env (\<lambda>t. t) c w = (Ok (), w') \<and>
    wdOut w' = wdOut w @ evs @ map (Delivered (wcId c)) (map pmMessage (session_rows u i (wdPending w))) \<and>
    session_rows u i (wdPending w') = [] \<and> GetConnection (ndConns (wdNode w')) (wcAuth c) = Some c \<and>
    ndClosed (wdNode w') = ndClosed (wdNode w) \<and> ndID (wdNode w') = ndID (wdNode w) \<and>
    (\<exists>s. ac_row (wdActive w') u i = Some s \<and> acStatus s = WsStatusConnected \<and> acHolderID s = ndID (wdNode w) \<and>
       acLastHeartbeat s = neNow env)"
proof -
  have k: "auUserID (wcAuth c) = u" "auInstanceID (wcAuth c) = i" using assms(2) by (simp_all add: auth_key_def)
  let ?row = "\<lparr>acUserID = u, acInstanceID = i, acHolderID = ndID nd', acConnectionType = wcCore c,
    acStatus = WsStatusConnected, acConnectedAt = neNow env, acLastHeartbeat = neNow env,
    acTTL = neNow env + heartbeat_ttl\<rparr>"
  let ?w1 = "w\<lparr>wdOut := wdOut w @ evs, wdActive := ac_upsert ?row (wdActive w),
    wdNode := nd'\<lparr>ndConns := AddConnection c (ndConns nd'),
      ndRate := snd (Limiter_New (wcAuth c) (ndRate nd'))\<rparr>\<rparr>"
  obtain p where p: "consume_pending env (\<lambda>t. t) c ?w1 =
      ?w1\<lparr>wdPending := p, wdOut := wdOut ?w1 @ map (Delivered (wcId c)) (map pmMessage (session_rows u i (wdPending ?w1)))\<rparr>"
    and p0: "session_rows u i p = []"
    using consume_pending_ok [OF assms(1,9) _ assms(10,2), of ?w1] assms(8) nd' by auto
  have new: "onNew env (\<lambda>t. t) c w = (Ok (), upd_node (\<lambda>n. n\<lparr>ndTracker := tracker_open (neNow env) (wcAuth c) (ndTracker n)\<rparr>)
      (consume_pending env (\<lambda>t. t) c ?w1))"
    using assms(1,7) nd' sig by (simp add: onNew_def GetConnection_abs assms(2) k AC_AddConnection_def upd_node_def Let_def)
  have row: "\<exists>s. ac_row (ac_upsert ?row (wdActive w)) u i = Some s \<and> acStatus s = WsStatusConnected \<and>
      acHolderID s = ndID (wdNode w) \<and> acLastHeartbeat s = neNow env"
    using upsert_row [of ?row "wdActive w"] nd'(1) by auto
  show ?thesis unfolding new p upd_node_def
    using row p0 nd' assms(2) by (simp add: GetConnection_abs cm_abs_Add del: map_map)
qed

text \<open>In particular one whose row is not connected elsewhere.\<close>

lemma onNew_fresh:
  assumes "no_faults env" "\<forall>ch. nePub env ch" "auth_key (wcAuth c) = (u, i)" "u \<noteq> []"
    and "ac_row (wdActive w) u i = Some r" "ac_inv (wdActive w)" "acStatus r \<noteq> WsStatusConnected"
    and "cm_abs (ndConns (wdNode w)) (u, i) = None" "wcId c \<notin> set (ndClosed (wdNode w))"
    and "neSend env (wcId c)" "wcCore c \<noteq> WsCoreLongPolling"
  shows "\<exists>w'. onNew env (\<lambda>t. t) c w = (Ok (), w') \<and>
    delivered_to (wcId c) (wdOut w') =
      delivered_to (wcId c) (wdOut w) @ map pmMessage (session_rows u i (wdPending w)) \<and>
    session_rows u i (wdPending w') = [] \<and> GetConnection (ndConns (wdNode w')) (wcAuth c) = Some c \<and>
    (\<exists>s. ac_row (wdActive w') u i = Some s \<and> acStatus s = WsStatusConnected \<and> acHolderID s = ndID (wdNode w))"
proof -
  obtain nd' evs where sig: "signal_previous env (wcAuth c) w = (Ok (), w\<lparr>wdNode := nd', wdOut := wdOut w @ evs\<rparr>)"
    and nd': "ndID nd' = ndID (wdNode w)" "ndConns nd' = ndConns (wdNode w)" "ndClosed nd' = ndClosed (wdNode w)"
    and evs: "delivered_to (wcId c) evs = []"
    using signal_previous_parked [OF assms(1-7)] by blast
  have del: "delivered_to (wcId c) (map (Delivered (wcId c)) ms) = ms" for ms
    by (induction ms) simp_all
  obtain w' where w': "onNew env (\<lambda>t. t) c w = (Ok (), w')"
    "wdOut w' = wdOut w @ evs @ map (Delivered (wcId c)) (map pmMessage (session_rows u i (wdPending w)))"
    "session_rows u i (wdPending w') = []" "GetConnection (ndConns (wdNode w')) (wcAuth c) = Some c"
    "\<exists>s. ac_row (wdActive w') u i = Some s \<and> acStatus s = WsStatusConnected \<and> acHolderID s = ndID (wdNode w)"
    using onNew_after_signal [OF assms(1,3) sig nd' assms(8-11)] by blast
  then show ?thesis using evs del by (intro exI [of _ w']) (simp del: map_map)
qed

text \<open>C1: No message for a session is lost or reordered over a reconnect.  When the
  connection of a user session closes, every message that any container then sends to the
  session is routed to the container that held it and buffered there; and when the session
  comes back at any container, the new connection is handed first what was already
  buffered, then these messages in the order they were sent.  Afterwards nothing is
  buffered, and the session is registered and recorded as connected at the new container.
  Database statements, publications and writes to the new connection succeed, the senders
  do not hold the session themselves, its heartbeat is recent enough for it to be found, and
  the messages have strictly increasing send times; the new connection is a websocket.\<close>

theorem reconnect_no_loss:
  assumes "auth_key (wcAuth c) = (u, i)" "u \<noteq> []" "i \<noteq> []" "wcId c \<notin> set (ndClosed (wdNode w))"
    and "no_faults env0" "\<not> ndShutdown (wdNode w)" "ac_inv (wdActive w)"
    and "ac_row (wdActive w) u i = Some r" "acHolderID r = ndID (wdNode w)" "ndID (wdNode w) \<noteq> []"
    and "\<forall>m \<in> set ms. good_sender (acLastHeartbeat r) u i m" "sorted_wrt (<) (map msg_time ms)"
    and "\<forall>q \<in> set (wdPending w). pmSessionKey q = sessionKey u i \<longrightarrow> (\<forall>m \<in> set ms. pmSendAt q < msg_time m)"
    and "no_faults env" "\<forall>ch. nePub env ch" "auth_key (wcAuth d) = (u, i)"
    and "cm_abs (ndConns nd) (u, i) = None" "wcId d \<notin> set (ndClosed nd)"
    and "neSend env (wcId d)" "wcCore d \<noteq> WsCoreLongPolling"
  shows "\<exists>w1 w2. cluster_sends u i ms (ws_Close env0 c w) = Ok w1 \<and>
    onNew env (\<lambda>t. t) d (w1\<lparr>wdNode := nd\<rparr>) = (Ok (), w2) \<and>
    delivered_to (wcId d) (wdOut w2) = delivered_to (wcId d) (wdOut w) @
      map pmMessage (session_rows u i (wdPending w)) @ map (\<lambda>(s, e, t, p). hdl_frame e t p) ms \<and>
    session_rows u i (wdPending w2) = [] \<and> GetConnection (ndConns (wdNode w2)) (wcAuth d) = Some d \<and>
    (\<exists>s. ac_row (wdActive w2) u i = Some s \<and> acStatus s = WsStatusConnected \<and> acHolderID s = ndID nd)"
proof -
  let ?w0 = "ws_Close env0 c w"
  let ?w1 = "?w0\<lparr>wdPending := wdPending ?w0 @ map (msg_row u i) ms\<rparr>"
  note parks = close_parks [OF assms(5,1,2,4,6,8,9) refl]
  have id0: "ndID (wdNode ?w0) = ndID (wdNode w)"
    and act: "wdActive ?w0 = ac_where u i (\<lambda>r. r\<lparr>acStatus := WsStatusTempDisconnected\<rparr>) (wdActive w)"
    using assms(1,2,4,5,6) by (simp_all add: ws_Close_def upd_node_def onClose_user auth_key_def)
  have "cluster_sends u i ms ?w0 = Ok ?w1"
    by (rule cluster_sends_parked [OF parks(1) assms(11,2,3) _ assms(12)])
      (use assms(10,13) id0 parks(2) in simp_all)
  moreover obtain s where s: "ac_row (wdActive ?w0) u i = Some s" "acStatus s = WsStatusTempDisconnected"
    using parks(1) by (auto simp: parked_def)
  moreover have "ac_inv (wdActive ?w0)"
    using assms(7) act by (simp add: ac_inv_def map_ac_key_where ac_key_def)
  moreover have "session_rows u i (wdPending w @ map (msg_row u i) ms) =
      session_rows u i (wdPending w) @ map (msg_row u i) ms"
    by (rule session_rows_append)
      (use assms(12,13) in \<open>auto simp: msg_row_def msg_time_def pending_row_def sorted_wrt_map case_prod_beta\<close>)
  moreover have "pmMessage (msg_row u i m) = (case m of (s, e, t, p) \<Rightarrow> hdl_frame e t p)" for m
    by (simp add: msg_row_def pending_row_def case_prod_beta)
  ultimately show ?thesis
    using onNew_fresh [OF assms(14,15,16,2), of "?w1\<lparr>wdNode := nd\<rparr>" s] assms(17-20) parks
    by (simp add: comp_def)
qed

definition ex_msg :: "int \<Rightarrow> byte \<Rightarrow> node \<times> nenv \<times> gostring \<times> payload" where
  "ex_msg now b = (ex_node ''c'', ex_nenv now (single_codec (SendToSessionParams ''u'' ''i'' ''t'' (Some [b]))), ''t'', Some [b])"

lemma ex_good_sender: "now < 100 \<Longrightarrow> good_sender 0 ''u'' ''i'' (ex_msg now b)"
  by (simp add: good_sender_def ex_msg_def ex_node_def single_codec_ok)

theorem reconnect_no_loss_witness:
  "\<exists>w1 w2. cluster_sends ''u'' ''i'' [ex_msg 20 1, ex_msg 30 2]
      (ws_Close (ex_nenv 10 (single_codec (AckResolvedParams []))) (ex_conn 1 ''u'' ''i'')
        (ex_nworld ''a'' [ex_arow ''u'' ''i'' ''a'' WsStatusConnected])) = Ok w1 \<and>
    onNew (ex_nenv 40 (single_codec (AckResolvedParams []))) (\<lambda>t. t) (ex_conn 2 ''u'' ''i'') (w1\<lparr>wdNode := ex_node ''b''\<rparr>) = (Ok (), w2) \<and>
    delivered_to 2 (wdOut w2) =
      map (\<lambda>(s, e, t, p). hdl_frame e t p) [ex_msg 20 1, ex_msg 30 2]"
proof -
  have "\<exists>w1 w2. cluster_sends ''u'' ''i'' [ex_msg 20 1, ex_msg 30 2]
      (ws_Close (ex_nenv 10 (single_codec (AckResolvedParams []))) (ex_conn 1 ''u'' ''i'')
        (ex_nworld ''a'' [ex_arow ''u'' ''i'' ''a'' WsStatusConnected])) = Ok w1 \<and>
    onNew (ex_nenv 40 (single_codec (AckResolvedParams []))) (\<lambda>t. t) (ex_conn 2 ''u'' ''i'') (w1\<lparr>wdNode := ex_node ''b''\<rparr>) = (Ok (), w2) \<and>
    delivered_to (wcId (ex_conn 2 ''u'' ''i'')) (wdOut w2) =
      delivered_to (wcId (ex_conn 2 ''u'' ''i'')) (wdOut (ex_nworld ''a'' [ex_arow ''u'' ''i'' ''a'' WsStatusConnected])) @
      map pmMessage (session_rows ''u'' ''i'' (wdPending (ex_nworld ''a'' [ex_arow ''u'' ''i'' ''a'' WsStatusConnected]))) @
      map (\<lambda>(s, e, t, p). hdl_frame e t p) [ex_msg 20 1, ex_msg 30 2] \<and>
    session_rows ''u'' ''i'' (wdPending w2) = [] \<and>
    GetConnection (ndConns (wdNode w2)) (wcAuth (ex_conn 2 ''u'' ''i'')) = Some (ex_conn 2 ''u'' ''i'') \<and>
    (\<exists>s. ac_row (wdActive w2) ''u'' ''i'' = Some s \<and> acStatus s = WsStatusConnected \<and> acHolderID s = ndID (ex_node ''b''))"
    by (rule reconnect_no_loss [where r = "ex_arow ''u'' ''i'' ''a'' WsStatusConnected"])
      (simp_all add: ex_nworld_def ex_node_def ex_conn_def ex_arow_def auth_key_def ac_inv_def ac_row_def ac_key_def
        msg_time_def, simp_all add: ex_msg_def ex_good_sender [unfolded ex_msg_def])
  then show ?thesis by (auto simp: ex_nworld_def ex_conn_def session_rows_def)
qed

subsection \<open>A failed send\<close>

text \<open>C30: A message whose write to a websocket fails is not lost: the failed write closes the
  connection and parks the session, and the task it leaves buffers the message at its first
  attempt, so that the session gets it when it comes back.\<close>

theorem failed_send_saved:
  assumes "auth_key (wcAuth c) = (u, i)" "u \<noteq> []" "wcCore c \<noteq> WsCoreLongPolling"
    and "wcId c \<notin> set (ndClosed (wdNode w))" "\<not> ndShutdown (wdNode w)"
    and "no_faults env" "neSubmit env" "\<not> neSend env (wcId c)"
    and "ac_row (wdActive w) u i = Some r" "acHolderID r = ndID (wdNode w)"
    and "no_faults env'" "neNow env' - neCutoff env' < acLastHeartbeat r"
    and "\<forall>q \<in> set (wdPending w). pmSendAt q \<noteq> neNow env'"
  shows "\<exists>w1. sendOrSaveMessageHub env c b w = w1 \<and> parked (acLastHeartbeat r) u i w1 \<and>
    wdOut w1 = wdOut w @ [SaveTask (wcAuth c) b] \<and>
    saveMessageHub (\<lambda>_. env') others (wcAuth c) b 0 w1 =
      (w1\<lparr>wdPending := wdPending w @ [pending_row env' u i b]\<rparr>, 1)"
proof -
  let ?w1 = "log_ev (SaveTask (wcAuth c) b) (ws_Close env c w)"
  note parks = close_parks [OF assms(6,1,2,4,5,9,10) refl]
  have k: "auUserID (wcAuth c) = u" "auInstanceID (wcAuth c) = i" using assms(1) by (simp_all add: auth_key_def)
  have w1: "sendOrSaveMessageHub env c b w = ?w1"
    using assms(3,7,8) by (simp add: sendOrSaveMessageHub_def ws_Send_def)
  have p: "parked (acLastHeartbeat r) u i ?w1" using parks(1) by (simp add: log_ev_def parked_def)
  then obtain s where s: "ac_row (wdActive ?w1) u i = Some s" "acStatus s = WsStatusTempDisconnected"
    "acLastHeartbeat s = acLastHeartbeat r"
    by (auto simp: parked_def)
  have "AC_GetInstanceConnection (neCutoff env') (neNow env') DbOk u i (wdActive ?w1) = Ok s"
    by (rule get_instance_row [OF s(1)]) (use s(3) assms(12) in \<open>simp add: alive_def\<close>)
  moreover have "node_Save env' u i b ?w1 = (Ok (), ?w1\<lparr>wdPending := wdPending w @ [pending_row env' u i b]\<rparr>)"
    using node_Save_fresh [OF assms(11), of ?w1 u i b] assms(13) parks(2) by (simp add: log_ev_def)
  ultimately have "saveMessageHub (\<lambda>_. env') others (wcAuth c) b 0 ?w1 =
      (?w1\<lparr>wdPending := wdPending w @ [pending_row env' u i b]\<rparr>, 1)"
    using s(2) assms(11) by (subst saveMessageHub.simps) (simp add: maxRetryNumber_def k)
  then show ?thesis using w1 p parks(3) by (simp add: log_ev_def)
qed

theorem failed_send_saved_witness:
  "\<exists>w1. saveMessageHub (\<lambda>_. ex_nenv 20 (single_codec (AckResolvedParams []))) (\<lambda>_ w. w) (ex_auth ''u'' ''i'') [1] 0 w1 =
     (w1\<lparr>wdPending := [pending_row (ex_nenv 20 (single_codec (AckResolvedParams []))) ''u'' ''i'' [1]]\<rparr>, 1)"
  using failed_send_saved [of "ex_conn 1 ''u'' ''i''" "''u''" "''i''" "ex_nworld ''a'' [ex_arow ''u'' ''i'' ''a'' WsStatusConnected]"
      "(ex_nenv 10 (single_codec (AckResolvedParams [])))\<lparr>neSend := \<lambda>_. False\<rparr>" "ex_arow ''u'' ''i'' ''a'' WsStatusConnected"
      "ex_nenv 20 (single_codec (AckResolvedParams []))" "[1]" "\<lambda>_ w. w"]
  by (auto simp: ex_conn_def ex_nworld_def ex_node_def ex_arow_def auth_key_def ac_row_def ac_key_def no_faults_def
      ex_nenv_def ex_auth_def)

end
