(* ===== verification/Sessions.thy ===== *)
theory Sessions
  imports Delivery
begin

text \<open>
  Sessions that move between containers: the graceful shutdown, sessions whose old and
  new connections overlap, anonymous sessions, and the invariant that ties the limiters
  of a container to its connections.
\<close>

subsection \<open>Graceful shutdown\<close>

lemma close_shutdown_user:
  assumes "ndShutdown (wdNode w)" "auUserID (wcAuth c) \<noteq> []"
  shows "wdActive (ws_Close env c w) = wdActive w"
  using assms by (simp add: ws_Close_def onClose_def upd_node_def IsAnonymous_def IsShuttingDown_def Let_def)

lemma close_anonymous:
  assumes "no_faults env" "auUserID (wcAuth c) = []" "u \<noteq> []"
  shows "ac_row (wdActive (ws_Close env c w)) u i = ac_row (wdActive w) u i"
proof -
  have "ac_row (snd (ac_apply DbOk (OpRemove [] j) t)) u i = ac_row t u i" for j t
    by (rule ac_row_other) (use assms(3) in auto)
  then show ?thesis using assms
    by (simp add: ws_Close_def onClose_def upd_node_def IsAnonymous_def Let_def)
qed

lemma close_fields:
  "ndConns (wdNode (ws_Close env c w)) =
     (if wcId c \<in> set (ndClosed (wdNode w)) then ndConns (wdNode w) else RemoveConnection (wcAuth c) (ndConns (wdNode w)))"
  "set (ndClosed (wdNode (ws_Close env c w))) = insert (wcId c) (set (ndClosed (wdNode w)))"
  "ndShutdown (wdNode (ws_Close env c w)) = ndShutdown (wdNode w)"
  "ndAck (wdNode (ws_Close env c w)) = ndAck (wdNode w)"
  "ndID (wdNode (ws_Close env c w)) = ndID (wdNode w)"
  "wdPending (ws_Close env c w) = wdPending w" "wdQueues (ws_Close env c w) = wdQueues w"
  by (auto simp: ws_Close_def onClose_def upd_node_def Let_def split: prod.split outcome.split)

lemma close_all_fields:
  "set (ndClosed (wdNode (fold (ws_Close env) cs w))) = wcId ` set cs \<union> set (ndClosed (wdNode w))"
  "ndShutdown (wdNode (fold (ws_Close env) cs w)) = ndShutdown (wdNode w)"
  "ndAck (wdNode (fold (ws_Close env) cs w)) = ndAck (wdNode w)"
  "wdPending (fold (ws_Close env) cs w) = wdPending w" "wdOut (fold (ws_Close env) cs w) = wdOut w"
  by (induction cs arbitrary: w) (auto simp: close_fields)

lemma close_all:
  "\<lbrakk>distinct (map wcId cs); \<forall>c \<in> set cs. wcId c \<notin> set (ndClosed (wdNode w))\<rbrakk> \<Longrightarrow>
   cm_abs (ndConns (wdNode (fold (ws_Close env) cs w))) k =
     (if k \<in> (\<lambda>c. auth_key (wcAuth c)) ` set cs then None else cm_abs (ndConns (wdNode w)) k)"
proof (induction cs arbitrary: w)
  case (Cons c cs)
  have "\<forall>d \<in> set cs. wcId d \<notin> set (ndClosed (wdNode (ws_Close env c w)))"
    using Cons.prems by (auto simp: close_fields) (metis image_eqI)
  then show ?case using Cons by (simp add: close_fields cm_abs_Remove)
qed simp

lemma close_all_inv: "cm_inv (ndConns (wdNode w)) \<Longrightarrow> cm_inv (ndConns (wdNode (fold (ws_Close env) cs w)))"
  by (induction cs arbitrary: w) (simp_all add: close_fields cm_inv_Remove)

lemma close_all_users:
  "\<lbrakk>ndShutdown (wdNode w); \<forall>c \<in> set cs. auUserID (wcAuth c) \<noteq> []\<rbrakk> \<Longrightarrow>
   wdActive (fold (ws_Close env) cs w) = wdActive w"
  by (induction cs arbitrary: w) (simp_all add: close_shutdown_user close_fields)

lemma close_all_anonymous:
  "\<lbrakk>no_faults env; \<forall>c \<in> set cs. auUserID (wcAuth c) = []; u \<noteq> []\<rbrakk> \<Longrightarrow>
   ac_row (wdActive (fold (ws_Close env) cs w)) u i = ac_row (wdActive w) u i"
  by (induction cs arbitrary: w) (simp_all add: close_anonymous)

definition transferred :: "ActiveConnection \<Rightarrow> ActiveConnection" where
  "transferred r = r\<lparr>acStatus := WsStatusTransferring, acHolderID := []\<rparr>"

lemma ac_row_where_other:
  assumes "(u, i) \<noteq> (v, j)" and "\<And>r. ac_key (f r) = ac_key r"
  shows "ac_row (ac_where v j f t) u i = ac_row t u i"
  unfolding ac_row_def ac_where_def
  by (rule find_map_key) (use assms in \<open>auto simp: ac_key_def\<close>)

lemma transition_all:
  assumes "no_faults env"
  shows "ac_row (wdActive (fold (\<lambda>conn w. transitionConnectionToTransferring env (auUserID (wcAuth conn))
            (auInstanceID (wcAuth conn)) w) cs w)) u i =
      (if (u, i) \<in> (\<lambda>c. auth_key (wcAuth c)) ` set cs then map_option transferred (ac_row (wdActive w) u i)
       else ac_row (wdActive w) u i)"
proof (induction cs arbitrary: w)
  case (Cons c cs)
  let ?t = "ac_where (auUserID (wcAuth c)) (auInstanceID (wcAuth c)) transferred (wdActive w)"
  have k: "ac_key (transferred r) = ac_key r" for r by (simp add: transferred_def ac_key_def)
  have step: "ac_row ?t u i = (if (u, i) = auth_key (wcAuth c) then map_option transferred (ac_row (wdActive w) u i)
      else ac_row (wdActive w) u i)"
  proof (cases "(u, i) = auth_key (wcAuth c)")
    case True
    show ?thesis
    proof (cases "ac_row (wdActive w) u i")
      case None
      then have "ac_row ?t u i = None"
        by (auto simp: ac_row_def ac_where_def find_None_iff ac_key_def transferred_def)
      then show ?thesis using None by simp
    next
      case (Some r)
      then show ?thesis using True ac_row_where [OF _ k, of "wdActive w" u i r] by (simp add: auth_key_def)
    qed
  next
    case False
    then have "ac_row ?t u i = ac_row (wdActive w) u i"
      by (intro ac_row_where_other k) (simp add: auth_key_def)
    then show ?thesis using False by simp
  qed
  have idem: "transferred (transferred r) = transferred r" for r by (simp add: transferred_def)
  have "wdActive (transitionConnectionToTransferring env (auUserID (wcAuth c)) (auInstanceID (wcAuth c)) w) = ?t"
    using assms by (simp add: transitionConnectionToTransferring_def AC_UpdateStatusTransferring_def transferred_def [abs_def])
  then show ?case using Cons [of "transitionConnectionToTransferring env (auUserID (wcAuth c)) (auInstanceID (wcAuth c)) w"] step
    by (auto simp: option.map_comp comp_def idem)
qed simp

lemma transition_fields:
  "wdNode (fold (\<lambda>conn w. transitionConnectionToTransferring env (f conn) (g conn) w) cs w) = wdNode w"
  "wdPending (fold (\<lambda>conn w. transitionConnectionToTransferring env (f conn) (g conn) w) cs w) = wdPending w"
  "wdOut (fold (\<lambda>conn w. transitionConnectionToTransferring env (f conn) (g conn) w) cs w) = wdOut w"
  by (induction cs arbitrary: w) (simp_all add: transitionConnectionToTransferring_def)

lemma close_anonymous_users:
  "\<forall>c \<in> set cs. IsAnonymous (wcAuth c) \<Longrightarrow>
   GetAllAuthenticatedConn (ndConns (wdNode (fold (ws_Close env) cs w))) = GetAllAuthenticatedConn (ndConns (wdNode w))"
  by (induction cs arbitrary: w) (simp_all add: close_fields GetAllAuthenticatedConn_def RemoveConnection_def)

lemma all_conns_empty:
  assumes "cm_inv m" "\<And>k. cm_abs m k = None"
  shows "GetAllConnections m = []"
proof -
  have "set (GetAllConnections m) = {}" using cm.set_all [OF assms(1)] by (simp add: GetConnection_abs assms(2))
  then show ?thesis by simp
qed

lemma ac_inv_Close:
  assumes "ac_inv (wdActive w)"
  shows "ac_inv (wdActive (ws_Close env c w))"
proof -
  note rem = ac_inv_apply [where op = "OpRemove u i" for u i, simplified]
    and sta = ac_inv_apply [where op = "OpStatus u i s" for u i s, simplified]
  have "ac_inv (wdActive (onClose env b v))" if v: "ac_inv (wdActive v)" for b v
  proof (cases "AC_UpdateStatus (neFault env QStatus (auUserID b) (auInstanceID b)) (auUserID b) (auInstanceID b)
      WsStatusTempDisconnected (wdActive v)")
    case (Pair r t)
    then have "ac_inv t" using sta [OF v] by (metis snd_conv)
    then show ?thesis using Pair v rem by (cases r) (simp_all add: onClose_def Let_def)
  qed
  then show ?thesis using assms by (simp add: ws_Close_def upd_node_def)
qed

lemma ac_inv_close_all: "ac_inv (wdActive w) \<Longrightarrow> ac_inv (wdActive (fold (ws_Close env) cs w))"
  by (induction cs arbitrary: w) (simp_all add: ac_inv_Close)

lemma ac_inv_transition_all:
  "ac_inv (wdActive w) \<Longrightarrow>
   ac_inv (wdActive (fold (\<lambda>conn w. transitionConnectionToTransferring env (f conn) (g conn) w) cs w))"
proof (induction cs arbitrary: w)
  case (Cons c cs)
  have "ac_inv (wdActive (transitionConnectionToTransferring env (f c) (g c) w))"
    using ac_inv_apply [OF Cons.prems, of "neFault env QTransferring (f c) (g c)" "OpTransferring (f c) (g c)"]
    by (simp add: transitionConnectionToTransferring_def)
  then show ?case using Cons.IH by simp
qed simp

definition shut_down :: "nenv \<Rightarrow> AckManager \<Rightarrow> world \<Rightarrow> world" where
  "shut_down env a w =
     (let w1 = w\<lparr>wdNode := (wdNode w)\<lparr>ndShutdown := True, ndAck := a\<rparr>\<rparr>;
          w2 = closeAllAnonymousConnections env w1
      in closeAllAuthenticatedConnections env (snd (shutdownAuthenticatedConnections env w2)))"

lemma Mediator_Shutdown_Ok:
  assumes "ack_inv (Some (ndAck (wdNode w), cl))"
  shows "\<exists>l a. pending a = [] \<and> Mediator_Shutdown env w = (Ok l, shut_down env a w)"
  using Ack_Shutdown_Ok [OF assms]
  by (intro exI [of _ "fst (shutdownAuthenticatedConnections env (closeAllAnonymousConnections env
        (w\<lparr>wdNode := (wdNode w)\<lparr>ndShutdown := True, ndAck := (ndAck (wdNode w))\<lparr>pending := [], remoteAcks := [],
           chClosed := rev (gm_vals (pending (ndAck (wdNode w)))) @ chClosed (ndAck (wdNode w))\<rparr>\<rparr>\<rparr>)))"]
      exI [of _ "(ndAck (wdNode w))\<lparr>pending := [], remoteAcks := [],
           chClosed := rev (gm_vals (pending (ndAck (wdNode w)))) @ chClosed (ndAck (wdNode w))\<rparr>"])
    (simp add: Mediator_Shutdown_def run_hdl_def upd_node_def MarkShuttingDown_def shut_down_def Let_def
      case_prod_beta)

lemma ac_inv_shut_down: "ac_inv (wdActive w) \<Longrightarrow> ac_inv (wdActive (shut_down env a w))"
  by (simp add: shut_down_def closeAllAnonymousConnections_def shutdownAuthenticatedConnections_def
      closeAllAuthenticatedConnections_def ac_inv_close_all ac_inv_transition_all Let_def)

lemma shut_down_effect:
  assumes "no_faults env" "cm_inv (ndConns (wdNode w))"
    and "distinct (map wcId (GetAllConnections (ndConns (wdNode w))))"
    and "\<forall>c \<in> set (GetAllConnections (ndConns (wdNode w))). wcId c \<notin> set (ndClosed (wdNode w))"
  shows "GetAllConnections (ndConns (wdNode (shut_down env a w))) = []"
    and "ndAck (wdNode (shut_down env a w)) = a"
    and "wdPending (shut_down env a w) = wdPending w" "wdOut (shut_down env a w) = wdOut w"
    and "u \<noteq> [] \<Longrightarrow> ac_row (wdActive (shut_down env a w)) u i =
      (if cm_abs (ndConns (wdNode w)) (u, i) \<noteq> None then map_option transferred (ac_row (wdActive w) u i)
       else ac_row (wdActive w) u i)"
proof -
  let ?m = "ndConns (wdNode w)"
  let ?L = "GetAllAuthenticatedConn ?m" and ?N = "GetAllAnonymousConn ?m"
  let ?w1 = "w\<lparr>wdNode := (wdNode w)\<lparr>ndShutdown := True, ndAck := a\<rparr>\<rparr>"
  let ?w2 = "fold (ws_Close env) ?N ?w1"
  let ?w3 = "fold (\<lambda>conn w. transitionConnectionToTransferring env (auUserID (wcAuth conn)) (auInstanceID (wcAuth conn)) w) ?L ?w2"
  have anon: "\<forall>c \<in> set ?N. IsAnonymous (wcAuth c)"
    using cm_abs_key [OF assms(2)] by (auto simp: set_GetAllAnonymousConn [OF assms(2)] IsAnonymous_def auth_key_def)
  have user: "\<forall>c \<in> set ?L. auUserID (wcAuth c) \<noteq> []"
    using cm_abs_key [OF assms(2)] by (auto simp: set_GetAllAuthenticatedConn [OF assms(2)] auth_key_def)
  have L2: "GetAllAuthenticatedConn (ndConns (wdNode ?w2)) = ?L"
    using close_anonymous_users [OF anon, of env ?w1] by simp
  have sd: "shut_down env a w = fold (ws_Close env) ?L ?w3"
    by (simp add: shut_down_def closeAllAnonymousConnections_def shutdownAuthenticatedConnections_def
        closeAllAuthenticatedConnections_def L2 transition_fields Let_def)
  have d: "distinct (map wcId ?N)" "distinct (map wcId ?L)" "wcId ` set ?L \<inter> wcId ` set ?N = {}"
    using assms(3) by (auto simp: GetAllConnections_split)
  have o: "\<forall>c \<in> set ?N. wcId c \<notin> set (ndClosed (wdNode ?w1))"
    "\<forall>c \<in> set ?L. wcId c \<notin> set (ndClosed (wdNode ?w3))"
    using assms(4) d(3) by (auto simp: GetAllConnections_split transition_fields close_all_fields)
  have abs: "cm_abs (ndConns (wdNode (shut_down env a w))) k = None" for k
  proof (cases "cm_abs ?m k")
    case None
    then show ?thesis by (simp add: sd close_all [OF d(2) o(2)] transition_fields close_all [OF d(1) o(1)])
  next
    case (Some c)
    then have "auth_key (wcAuth c) = k" using cm_abs_key [OF assms(2)] by simp
    moreover have "c \<in> set ?L \<or> c \<in> set ?N"
      using Some set_GetAllAuthenticatedConn [OF assms(2)] set_GetAllAnonymousConn [OF assms(2)]
      by (cases k, cases "fst k = []") auto
    ultimately show ?thesis
      by (auto simp: sd close_all [OF d(2) o(2)] transition_fields close_all [OF d(1) o(1)])
  qed
  have "cm_inv (ndConns (wdNode (shut_down env a w)))"
    unfolding sd by (intro close_all_inv) (simp add: transition_fields close_all_inv assms(2))
  then show "GetAllConnections (ndConns (wdNode (shut_down env a w))) = []" by (rule all_conns_empty) (rule abs)
  show "ndAck (wdNode (shut_down env a w)) = a" "wdPending (shut_down env a w) = wdPending w"
    "wdOut (shut_down env a w) = wdOut w"
    by (simp_all add: sd close_all_fields transition_fields)
  assume u: "u \<noteq> []"
  have "(u, i) \<in> (\<lambda>c. auth_key (wcAuth c)) ` set ?L \<longleftrightarrow> cm_abs ?m (u, i) \<noteq> None"
    using u cm_abs_key [OF assms(2)] unfolding set_GetAllAuthenticatedConn [OF assms(2)] by (force simp: image_iff)
  moreover have "ac_row (wdActive (shut_down env a w)) u i = ac_row (wdActive ?w3) u i"
    using user by (simp add: sd close_all_users transition_fields close_all_fields)
  moreover have "ac_row (wdActive ?w2) u i = ac_row (wdActive w) u i"
    using close_all_anonymous [OF assms(1) _ u, of ?N ?w1 i] anon by (simp add: IsAnonymous_def)
  ultimately show "ac_row (wdActive (shut_down env a w)) u i =
      (if cm_abs ?m (u, i) \<noteq> None then map_option transferred (ac_row (wdActive w) u i) else ac_row (wdActive w) u i)"
    by (simp add: transition_all [OF assms(1)])
qed

text \<open>C8: A graceful shutdown leaves no connection registered and no acknowledgement pending,
  hands every user session of the container over, that is, marks its row as transferring
  with no holder, and leaves the rows of all other user sessions as they were.\<close>

theorem shutdown_hands_over:
  assumes "no_faults env" "cm_inv (ndConns (wdNode w))" "ack_inv (Some (ndAck (wdNode w), cl))"
    and "distinct (map wcId (GetAllConnections (ndConns (wdNode w))))"
    and "\<forall>c \<in> set (GetAllConnections (ndConns (wdNode w))). wcId c \<notin> set (ndClosed (wdNode w))"
  shows "\<exists>l w'. Mediator_Shutdown env w = (Ok l, w') \<and> GetAllConnections (ndConns (wdNode w')) = [] \<and>
    pending (ndAck (wdNode w')) = [] \<and>
    (\<forall>u i. u \<noteq> [] \<longrightarrow> ac_row (wdActive w') u i =
      (if cm_abs (ndConns (wdNode w)) (u, i) \<noteq> None
       then map_option (\<lambda>r. r\<lparr>acStatus := WsStatusTransferring, acHolderID := []\<rparr>) (ac_row (wdActive w) u i)
       else ac_row (wdActive w) u i))"
proof -
  obtain l a where la: "pending a = []" "Mediator_Shutdown env w = (Ok l, shut_down env a w)"
    using Mediator_Shutdown_Ok [OF assms(3)] by blast
  then show ?thesis using shut_down_effect [OF assms(1,2,4,5), where a = a]
    by (simp add: transferred_def [abs_def])
qed

theorem shutdown_hands_over_witness:
  "\<exists>l w'. Mediator_Shutdown (ex_nenv 10 (single_codec (AckResolvedParams []))) ex_holder = (Ok l, w') \<and>
     GetAllConnections (ndConns (wdNode w')) = []"
proof -
  have m: "ndConns (wdNode ex_holder) = AddConnection (ex_conn 1 ''u'' ''i'') NewConnectionMap"
    "ndAck (wdNode ex_holder) = NewAckManager" "ndClosed (wdNode ex_holder) = []"
    by (simp_all add: ex_holder_def upd_node_def ex_nworld_def ex_node_def)
  have "GetAllConnections (AddConnection (ex_conn 1 ''u'' ''i'') NewConnectionMap) = [ex_conn 1 ''u'' ''i'']"
    by (simp add: GetAllConnections_def AddConnection_def NewConnectionMap_def ex_conn_def IsAnonymous_def
        gm_put_def gm_get_def gm_vals_def Let_def)
  moreover have "ack_inv (Some (NewAckManager, []))" by (simp add: ack_inv_def NewAckManager_def gm_vals_def)
  ultimately show ?thesis
    using shutdown_hands_over [of "ex_nenv 10 (single_codec (AckResolvedParams []))" ex_holder "[]"]
    by (auto simp: m cm_inv_Add cm_inv_New)
qed

subsection \<open>Sending to a session that is handed over\<close>

definition in_transfer :: "int \<Rightarrow> gostring \<Rightarrow> gostring \<Rightarrow> world \<Rightarrow> bool" where
  "in_transfer hb u i w \<longleftrightarrow> (\<exists>r. ac_row (wdActive w) u i = Some r \<and> acHolderID r = [] \<and>
     acStatus r = WsStatusTransferring \<and> acLastHeartbeat r = hb)"

fun transfer_sends :: "gostring \<Rightarrow> gostring \<Rightarrow> (node \<times> nenv \<times> gostring \<times> payload) list \<Rightarrow> world \<Rightarrow> unit svc" where
  "transfer_sends u i [] w = (Ok (), w)"
| "transfer_sends u i ((sender, env, t, p) # ms) w =
     svc_then (SendToSession env u i t p (w\<lparr>wdNode := sender\<rparr>)) (\<lambda>_. transfer_sends u i ms)"

lemma SendToSession_transfer:
  assumes "in_transfer hb u i w" "good_sender hb u i (sender, env, t, p)" "u \<noteq> []" "i \<noteq> []"
    and "\<forall>r \<in> set (wdPending w). pmSessionKey r = sessionKey u i \<longrightarrow> pmSendAt r \<noteq> neNow env"
  shows "SendToSession env u i t p (w\<lparr>wdNode := sender\<rparr>) =
    (Ok (), w\<lparr>wdNode := sender, wdPending := wdPending w @ [pending_row env u i (hdl_frame env t p)]\<rparr>)"
proof -
  let ?a = "\<lparr>auUserID = u, auInstanceID = i, auMetadata = []\<rparr>"
  let ?w = "w\<lparr>wdNode := sender\<rparr>"
  have g: "cm_abs (ndConns sender) (u, i) = None" "no_faults env" "neNow env - neCutoff env < hb"
    using assms(2) by (simp_all add: good_sender_def)
  obtain r where r: "ac_row (wdActive w) u i = Some r" "acHolderID r = []" "acLastHeartbeat r = hb"
    using assms(1) by (auto simp: in_transfer_def)
  have "AC_GetInstanceConnection (neCutoff env) (neNow env) DbOk u i (wdActive w) = Ok r"
    by (rule get_instance_row [OF r(1)]) (use g(3) r(3) in \<open>simp add: alive_def\<close>)
  then have "findSessionConn env u i ?w = Ok STransferring"
    using g r(2) assms(3,4) by (simp add: findSessionConn_def UserWebsocketAuth_Ok GetConnection_abs auth_key_def)
  then show ?thesis using node_Save_fresh [OF g(2), of ?w u i] assms(5)
    by (simp add: SendToSession_def save_transferring_def)
qed

lemma transfer_sends_ok:
  assumes "in_transfer hb u i w" "\<forall>m \<in> set ms. good_sender hb u i m" "u \<noteq> []" "i \<noteq> []"
    and "sorted_wrt (<) (map msg_time ms)"
    and "\<forall>r \<in> set (wdPending w). pmSessionKey r = sessionKey u i \<longrightarrow> (\<forall>m \<in> set ms. pmSendAt r < msg_time m)"
  shows "\<exists>nd. transfer_sends u i ms w = (Ok (), w\<lparr>wdNode := nd, wdPending := wdPending w @ map (msg_row u i) ms\<rparr>)"
  using assms
proof (induction ms arbitrary: w)
  case Nil
  show ?case by (intro exI [of _ "wdNode w"]) simp
next
  case (Cons m ms)
  obtain sender env t p where m: "m = (sender, env, t, p)" by (cases m) auto
  let ?w' = "w\<lparr>wdNode := sender, wdPending := wdPending w @ [pending_row env u i (hdl_frame env t p)]\<rparr>"
  have send: "SendToSession env u i t p (w\<lparr>wdNode := sender\<rparr>) = (Ok (), ?w')"
    by (rule SendToSession_transfer [of hb]) (use Cons.prems m in \<open>auto simp: msg_time_def\<close>)
  have "in_transfer hb u i ?w'" using Cons.prems(1) by (simp add: in_transfer_def)
  then obtain nd where "transfer_sends u i ms ?w' = (Ok (), ?w'\<lparr>wdNode := nd, wdPending := wdPending ?w' @ map (msg_row u i) ms\<rparr>)"
    using Cons.IH [of ?w'] Cons.prems m by (auto simp: msg_time_def pending_row_def)
  then show ?case using send by (intro exI [of _ nd]) (simp add: m msg_row_def)
qed

text \<open>C2: No message for a session is lost over a graceful shutdown.  After the container of
  a session has shut down, every message any container sends to the session is buffered,
  and when the session comes up elsewhere it is handed what was buffered before and then
  these messages, in the order they were sent; the new container holds it as connected.
  Database statements, publications and writes to the new connection succeed, its heartbeat is
  recent enough for it to be found, and the messages have strictly increasing send times; the
  new connection is a websocket.\<close>

theorem shutdown_no_loss:
  assumes "no_faults env0" "cm_inv (ndConns (wdNode w))" "ack_inv (Some (ndAck (wdNode w), cl))"
    and "distinct (map wcId (GetAllConnections (ndConns (wdNode w))))"
    and "\<forall>c \<in> set (GetAllConnections (ndConns (wdNode w))). wcId c \<notin> set (ndClosed (wdNode w))"
    and "u \<noteq> []" "i \<noteq> []" "cm_abs (ndConns (wdNode w)) (u, i) \<noteq> None" "ac_row (wdActive w) u i = Some r"
    and "\<forall>m \<in> set ms. good_sender (acLastHeartbeat r) u i m" "sorted_wrt (<) (map msg_time ms)"
    and "\<forall>q \<in> set (wdPending w). pmSessionKey q = sessionKey u i \<longrightarrow> (\<forall>m \<in> set ms. pmSendAt q < msg_time m)"
    and "no_faults env" "\<forall>ch. nePub env ch" "auth_key (wcAuth d) = (u, i)"
    and "cm_abs (ndConns nd) (u, i) = None" "wcId d \<notin> set (ndClosed nd)"
    and "neSend env (wcId d)" "wcCore d \<noteq> WsCoreLongPolling" "ac_inv (wdActive w)"
  shows "\<exists>l w0 w1 w2. Mediator_Shutdown env0 w = (Ok l, w0) \<and> transfer_sends u i ms w0 = (Ok (), w1) \<and>
      onNew env (\<lambda>t. t) d (w1\<lparr>wdNode := nd\<rparr>) = (Ok (), w2) \<and>
      delivered_to (wcId d) (wdOut w2) = delivered_to (wcId d) (wdOut w) @
        map pmMessage (session_rows u i (wdPending w)) @ map (\<lambda>(s, e, t, p). hdl_frame e t p) ms \<and>
      GetConnection (ndConns (wdNode w2)) (wcAuth d) = Some d \<and>
      (\<exists>s. ac_row (wdActive w2) u i = Some s \<and> acStatus s = WsStatusConnected \<and> acHolderID s = ndID nd)"
proof -
  obtain l a where la: "Mediator_Shutdown env0 w = (Ok l, shut_down env0 a w)"
    using Mediator_Shutdown_Ok [OF assms(3)] by blast
  let ?w0 = "shut_down env0 a w"
  note sd = shut_down_effect [OF assms(1,2,4,5), where a = a]
  have row: "ac_row (wdActive ?w0) u i = Some (transferred r)" using sd(5) [OF assms(6)] assms(8,9) by simp
  then have tr: "in_transfer (acLastHeartbeat r) u i ?w0" by (simp add: in_transfer_def transferred_def)
  obtain nd' where w1: "transfer_sends u i ms ?w0 = (Ok (), ?w0\<lparr>wdNode := nd', wdPending := wdPending ?w0 @ map (msg_row u i) ms\<rparr>)"
    using transfer_sends_ok [OF tr assms(10,6,7,11)] assms(12) sd(3) by auto
  let ?w1 = "?w0\<lparr>wdPending := wdPending ?w0 @ map (msg_row u i) ms, wdNode := nd\<rparr>"
  have rows: "session_rows u i (wdPending w @ map (msg_row u i) ms) =
      session_rows u i (wdPending w) @ map (msg_row u i) ms"
    by (rule session_rows_append)
      (use assms(11,12) in \<open>auto simp: msg_row_def msg_time_def pending_row_def sorted_wrt_map case_prod_beta\<close>)
  have msg: "pmMessage (msg_row u i m) = (case m of (s, e, t, p) \<Rightarrow> hdl_frame e t p)" for m
    by (simp add: msg_row_def pending_row_def case_prod_beta)
  have "\<exists>w2. onNew env (\<lambda>t. t) d ?w1 = (Ok (), w2) \<and>
      delivered_to (wcId d) (wdOut w2) = delivered_to (wcId d) (wdOut w) @
        map pmMessage (session_rows u i (wdPending w)) @ map (\<lambda>(s, e, t, p). hdl_frame e t p) ms \<and>
      GetConnection (ndConns (wdNode w2)) (wcAuth d) = Some d \<and>
      (\<exists>s. ac_row (wdActive w2) u i = Some s \<and> acStatus s = WsStatusConnected \<and> acHolderID s = ndID nd)"
    using onNew_fresh [OF assms(13,14,15,6), of ?w1 "transferred r"] assms(16-19) row sd(3,4) rows msg
      ac_inv_shut_down [OF assms(20)]
    by (simp add: comp_def transferred_def) blast
  then show ?thesis using la w1 by auto
qed

theorem shutdown_no_loss_witness:
  "\<exists>l w0 w1 w2. Mediator_Shutdown (ex_nenv 10 (single_codec (AckResolvedParams [])))
      (ex_holder\<lparr>wdActive := [ex_arow ''u'' ''i'' ''b'' WsStatusConnected]\<rparr>) = (Ok l, w0) \<and>
    transfer_sends ''u'' ''i'' [ex_msg 20 1] w0 = (Ok (), w1) \<and>
    onNew (ex_nenv 40 (single_codec (AckResolvedParams []))) (\<lambda>t. t) (ex_conn 2 ''u'' ''i'') (w1\<lparr>wdNode := ex_node ''d''\<rparr>) = (Ok (), w2) \<and>
    delivered_to 2 (wdOut w2) = map (\<lambda>(s, e, t, p). hdl_frame e t p) [ex_msg 20 1]"
proof -
  let ?w = "ex_holder\<lparr>wdActive := [ex_arow ''u'' ''i'' ''b'' WsStatusConnected]\<rparr>"
  have m: "ndConns (wdNode ?w) = AddConnection (ex_conn 1 ''u'' ''i'') NewConnectionMap"
    "ndAck (wdNode ?w) = NewAckManager" "ndClosed (wdNode ?w) = []" "wdPending ?w = []" "wdOut ?w = []"
    by (simp_all add: ex_holder_def upd_node_def ex_nworld_def ex_node_def)
  have all: "GetAllConnections (AddConnection (ex_conn 1 ''u'' ''i'') NewConnectionMap) = [ex_conn 1 ''u'' ''i'']"
    by (simp add: GetAllConnections_def AddConnection_def NewConnectionMap_def ex_conn_def IsAnonymous_def
        gm_put_def gm_get_def gm_vals_def Let_def)
  have abs: "cm_abs (AddConnection (ex_conn 1 ''u'' ''i'') NewConnectionMap) (''u'', ''i'') \<noteq> None"
    by (simp add: cm_abs_Add ex_conn_def auth_key_def)
  have ack: "ack_inv (Some (NewAckManager, []))" by (simp add: ack_inv_def NewAckManager_def gm_vals_def)
  have g: "good_sender 0 ''u'' ''i'' (ex_msg 20 1)" by (rule ex_good_sender) simp
  show ?thesis
    using shutdown_no_loss [of "ex_nenv 10 (single_codec (AckResolvedParams []))" ?w "[]" "''u''" "''i''"
        "ex_arow ''u'' ''i'' ''b'' WsStatusConnected" "[ex_msg 20 1]" "ex_nenv 40 (single_codec (AckResolvedParams []))"
        "ex_conn 2 ''u'' ''i''" "ex_node ''d''"] all abs ack g
    unfolding m
    by (simp add: cm_inv_Add cm_inv_New ac_row_def ac_key_def ex_arow_def auth_key_def ex_node_def ac_inv_def session_rows_def)
      (force simp: ex_conn_def auth_key_def cm_abs_Add)
qed

subsection \<open>Overlapping connections of a session\<close>

lemma disconnect_published:
  assumes "no_faults env" "\<forall>ch. nePub env ch" "codec_ok (neCodec env) (DisconnectSessionParams u i)"
    and "auth_key a = (u, i)" "u \<noteq> []" "i \<noteq> []" "cm_abs (ndConns (wdNode w)) (u, i) = None"
    and "ac_row (wdActive w) u i = Some r" "acStatus r = WsStatusConnected" "acHolderID r = h" "h \<noteq> []"
    and "neNow env - neCutoff env < acLastHeartbeat r"
  shows "\<exists>ev. signal_previous env a w = (Ok (), w\<lparr>wdNode := wdNode w, wdOut := wdOut w @ [ev]\<rparr>) \<and>
    (\<forall>c. inbound (neCodec env) c [ev] = (if c = h then [DisconnectSessionParams u i] else []))"
proof -
  let ?pl = "DisconnectSessionParams u i"
  let ?m = "\<lparr>psTargetContainers = [h], psSendAllContainers = False, psMsgType = params_type ?pl,
    psPayload = cdEnc (neCodec env) ?pl\<rparr>"
  have k: "auUserID a = u" "auInstanceID a = i" using assms(4) by (simp_all add: auth_key_def)
  have key: "acUserID r = u" using assms(8) by (auto simp: ac_row_def find_Some_iff ac_key_def)
  have found: "AC_GetInstanceConnection (neCutoff env) (neNow env) DbOk u i (wdActive w) = Ok r"
    by (rule get_instance_row [OF assms(8)]) (use assms(12) in \<open>simp add: alive_def\<close>)
  then have "findSessionConn env u i w = Ok (SRemote h)"
    using assms by (simp add: findSessionConn_def UserWebsocketAuth_Ok GetConnection_abs auth_key_def)
  then have "signal_previous env a w = (Ok (), w\<lparr>wdOut := wdOut w @ [Published (channelName h) ?m]\<rparr>)"
    using assms(1,2,9) found
    by (simp add: signal_previous_def k key DisconnectSession_def publish_logged_def publish_msg_def
        create_targeted_Ok Publish_def)
  moreover have "inbound (neCodec env) c [Published (channelName h) ?m] = (if c = h then [?pl] else [])" for c
    using receive_targeted [OF assms(3), of ?m] by (simp add: inbound_def targeted_types_def)
  ultimately show ?thesis by (intro exI [of _ "Published (channelName h) ?m"]) simp
qed

lemma handle_disconnect:
  assumes "cm_abs (ndConns (wdNode w)) (u, i) = Some c" "u \<noteq> []" "i \<noteq> []"
  shows "handle env (DisconnectSessionParams u i) w = Ok (ws_Close env c w)"
  using assms by (simp add: hdl_DisconnectSession_def UserWebsocketAuth_Ok GetConnection_abs auth_key_def)

lemma dropped_when_gone:
  assumes "no_faults env" "ac_row (wdActive w) u i = None" "cm_abs (ndConns (wdNode w)) (u, i) = None" "u \<noteq> []" "i \<noteq> []"
  shows "SendToSession env u i t p w = (Ok (), w)"
proof -
  have "filter (\<lambda>r. acUserID r = u \<and> acInstanceID r = i \<and> alive (neCutoff env) (neNow env) r) (wdActive w) = []"
    using assms(2) by (auto simp: ac_row_def find_None_iff ac_key_def filter_empty_conv)
  then have "AC_GetInstanceConnection (neCutoff env) (neNow env) DbOk u i (wdActive w) = Err RecordNotFound"
    by (simp add: AC_GetInstanceConnection_def pg_row_def)
  then have "findSessionConn env u i w = Ok SNotFound"
    using assms by (simp add: findSessionConn_def UserWebsocketAuth_Ok GetConnection_abs auth_key_def)
  then show ?thesis by (simp add: SendToSession_def)
qed

text \<open>A session that moves to another container while its old connection is still open
  ends up without a row.  The new container asks the old one to disconnect and takes the
  row over; the old container then closes its connection, which marks the row, now held by
  the new container, as temporarily disconnected, and when its timer expires it removes the
  row, although the session is connected.  From then on a message sent to the session by a
  third container is dropped without an error.\<close>

theorem takeover_loses_row:
  assumes "no_faults env" "\<forall>ch. nePub env ch" "codec_ok (neCodec env) (DisconnectSessionParams u i)"
    and "auth_key (wcAuth d) = (u, i)" "u \<noteq> []" "i \<noteq> []" "cm_abs (ndConns nb) (u, i) = None"
    and "wcId d \<notin> set (ndClosed nb)" "neSend env (wcId d)" "wcCore d \<noteq> WsCoreLongPolling"
    and "cm_abs (ndConns (wdNode w)) (u, i) = Some c" "auth_key (wcAuth c) = (u, i)"
    and "wcId c \<notin> set (ndClosed (wdNode w))" "\<not> ndShutdown (wdNode w)" "ndID (wdNode w) \<noteq> []"
    and "ac_row (wdActive w) u i = Some r" "acStatus r = WsStatusConnected" "acHolderID r = ndID (wdNode w)"
    and "neNow env - neCutoff env < acLastHeartbeat r" "no_faults env2" "no_faults env3"
    and "cm_abs (ndConns nc) (u, i) = None"
  shows "\<exists>w1 w2. onNew env (\<lambda>t. t) d (w\<lparr>wdNode := nb\<rparr>) = (Ok (), w1) \<and>
    inbound (neCodec env) (ndID (wdNode w)) (drop (length (wdOut w)) (wdOut w1)) = [DisconnectSessionParams u i] \<and>
    handle env2 (DisconnectSessionParams u i) (w1\<lparr>wdNode := wdNode w\<rparr>) = (Ok w2 :: (world, ErrorCode) outcome) \<and>
    (\<exists>s. ac_row (wdActive w2) u i = Some s \<and> acHolderID s = ndID nb \<and> acStatus s = WsStatusTempDisconnected) \<and>
    GetConnection (ndConns (wdNode w1)) (wcAuth d) = Some d \<and>
    ac_row (wdActive (onExpired env2 g u i w2)) u i = None \<and>
    SendToSession env3 u i t p ((onExpired env2 g u i w2)\<lparr>wdNode := nc\<rparr>) = (Ok (), (onExpired env2 g u i w2)\<lparr>wdNode := nc\<rparr>)"
proof -
  let ?v = "w\<lparr>wdNode := nb\<rparr>"
  obtain ev where sig: "signal_previous env (wcAuth d) ?v = (Ok (), ?v\<lparr>wdNode := wdNode ?v, wdOut := wdOut ?v @ [ev]\<rparr>)"
    and ib: "inbound (neCodec env) c [ev] = (if c = ndID (wdNode w) then [DisconnectSessionParams u i] else [])" for c
    using disconnect_published [OF assms(1,2,3,4,5,6), of ?v r "ndID (wdNode w)"] assms(7,15-19) by auto
  have del: "inbound cd x (map (Delivered y) ms) = []" for cd x y ms by (induction ms) simp_all
  obtain w1 where w1: "onNew env (\<lambda>t. t) d ?v = (Ok (), w1)"
    "wdOut w1 = wdOut ?v @ [ev] @ map (Delivered (wcId d)) (map pmMessage (session_rows u i (wdPending ?v)))"
    "GetConnection (ndConns (wdNode w1)) (wcAuth d) = Some d"
    "\<exists>s. ac_row (wdActive w1) u i = Some s \<and> acStatus s = WsStatusConnected \<and> acHolderID s = ndID nb \<and> acLastHeartbeat s = neNow env"
    using onNew_after_signal [OF assms(1,4) sig] assms(7-10) by auto
  let ?w2 = "ws_Close env2 c (w1\<lparr>wdNode := wdNode w\<rparr>)"
  have act: "wdActive ?w2 = ac_where u i (\<lambda>r. r\<lparr>acStatus := WsStatusTempDisconnected\<rparr>) (wdActive w1)"
    using assms(5,12,13,14,20) by (simp add: ws_Close_def upd_node_def onClose_user auth_key_def)
  obtain s where s: "ac_row (wdActive w1) u i = Some s" "acHolderID s = ndID nb" using w1(4) by blast
  have "ac_row (wdActive ?w2) u i = Some (s\<lparr>acStatus := WsStatusTempDisconnected\<rparr>)"
    unfolding act by (rule ac_row_where [OF s(1)]) (simp add: ac_key_def)
  moreover have gone: "ac_row (wdActive (onExpired env2 g u i ?w2)) u i = None"
    using assms(20) by (auto simp: onExpired_def upd_node_def AC_RemoveConnection_def ac_row_def find_None_iff ac_key_def Let_def)
  moreover have "inbound (neCodec env) (ndID (wdNode w)) (drop (length (wdOut w)) (wdOut w1)) = [DisconnectSessionParams u i]"
    using w1(2) ib inbound_simps(2) [of "neCodec env" "ndID (wdNode w)" "[ev]"] del by (simp del: map_map)
  ultimately show ?thesis
    using w1(1,3) s(2) assms(5,6,11,21,22) handle_disconnect [of "w1\<lparr>wdNode := wdNode w\<rparr>" u i c env2]
      dropped_when_gone [of env3 "(onExpired env2 g u i ?w2)\<lparr>wdNode := nc\<rparr>" u i t p]
    by (intro exI [of _ w1] exI [of _ ?w2]) simp
qed

theorem takeover_loses_row_witness:
  "\<exists>w2. ac_row (wdActive (onExpired (ex_nenv 20 (single_codec (AckResolvedParams []))) 1 ''u'' ''i'' w2)) ''u'' ''i'' = None"
proof -
  let ?w = "ex_holder\<lparr>wdActive := [ex_arow ''u'' ''i'' ''b'' WsStatusConnected]\<rparr>"
  have m: "cm_abs (ndConns (wdNode ?w)) (''u'', ''i'') = Some (ex_conn 1 ''u'' ''i'')" "ndClosed (wdNode ?w) = []"
    "\<not> ndShutdown (wdNode ?w)" "ndID (wdNode ?w) = ''b''"
    "ac_row (wdActive ?w) ''u'' ''i'' = Some (ex_arow ''u'' ''i'' ''b'' WsStatusConnected)"
    by (simp_all add: ex_holder_def upd_node_def ex_nworld_def ex_node_def cm_abs_Add ex_conn_def auth_key_def
        ac_row_def ac_key_def ex_arow_def)
  have n: "cm_abs (ndConns (ex_node x)) k = None" "ndClosed (ex_node x) = []" for x k
    by (simp_all add: ex_node_def)
  have c: "auth_key (wcAuth (ex_conn x ''u'' ''i'')) = (''u'', ''i'')" "wcCore (ex_conn x ''u'' ''i'') = WsCoreGobwas" for x
    by (simp_all add: ex_conn_def auth_key_def)
  show ?thesis
    using takeover_loses_row [of "ex_nenv 10 (single_codec (DisconnectSessionParams ''u'' ''i''))" "''u''" "''i''"
        "ex_conn 2 ''u'' ''i''" "ex_node ''n''" ?w "ex_conn 1 ''u'' ''i''" "ex_arow ''u'' ''i'' ''b'' WsStatusConnected"
        "ex_nenv 20 (single_codec (AckResolvedParams []))" "ex_nenv 30 (single_codec (AckResolvedParams []))" "ex_node ''c''" 1]
      m(3)
    unfolding m n c by (simp add: single_codec_ok ex_arow_def) blast
qed

text \<open>A container can disconnect its own new connection.  When the row says that this
  container holds the session although it has no connection of it, as after a restart under
  the same container id, the new connection makes the container publish a disconnect request
  to itself; handling it after the registration closes the new connection.\<close>

theorem restart_closes_new_connection:
  assumes "no_faults env" "\<forall>ch. nePub env ch" "codec_ok (neCodec env) (DisconnectSessionParams u i)"
    and "auth_key (wcAuth d) = (u, i)" "u \<noteq> []" "i \<noteq> []" "cm_abs (ndConns (wdNode w)) (u, i) = None"
    and "wcId d \<notin> set (ndClosed (wdNode w))" "neSend env (wcId d)" "wcCore d \<noteq> WsCoreLongPolling"
    and "ndID (wdNode w) \<noteq> []" "ac_row (wdActive w) u i = Some r" "acStatus r = WsStatusConnected"
    and "acHolderID r = ndID (wdNode w)" "neNow env - neCutoff env < acLastHeartbeat r"
  shows "\<exists>w1 w2. onNew env (\<lambda>t. t) d w = (Ok (), w1) \<and>
    inbound (neCodec env) (ndID (wdNode w)) (drop (length (wdOut w)) (wdOut w1)) = [DisconnectSessionParams u i] \<and>
    handle env2 (DisconnectSessionParams u i) w1 = (Ok w2 :: (world, ErrorCode) outcome) \<and>
    wcId d \<in> set (ndClosed (wdNode w2)) \<and> GetConnection (ndConns (wdNode w2)) (wcAuth d) = None"
proof -
  obtain ev where sig: "signal_previous env (wcAuth d) w = (Ok (), w\<lparr>wdNode := wdNode w, wdOut := wdOut w @ [ev]\<rparr>)"
    and ib: "inbound (neCodec env) c [ev] = (if c = ndID (wdNode w) then [DisconnectSessionParams u i] else [])" for c
    using disconnect_published [OF assms(1,2,3,4,5,6,7,12,13,14,11,15)] by blast
  have del: "inbound cd x (map (Delivered y) ms) = []" for cd x y ms by (induction ms) simp_all
  obtain w1 where w1: "onNew env (\<lambda>t. t) d w = (Ok (), w1)"
    "wdOut w1 = wdOut w @ [ev] @ map (Delivered (wcId d)) (map pmMessage (session_rows u i (wdPending w)))"
    "GetConnection (ndConns (wdNode w1)) (wcAuth d) = Some d" "ndClosed (wdNode w1) = ndClosed (wdNode w)"
    using onNew_after_signal [OF assms(1,4) sig] assms(7-10) by auto
  have "inbound (neCodec env) (ndID (wdNode w)) (drop (length (wdOut w)) (wdOut w1)) = [DisconnectSessionParams u i]"
    using w1(2) ib inbound_simps(2) [of "neCodec env" "ndID (wdNode w)" "[ev]"] del by (simp del: map_map)
  then show ?thesis using w1(1,3,4) assms(4,5,6,8) handle_disconnect [of w1 u i d env2]
    by (intro exI [of _ w1] exI [of _ "ws_Close env2 d w1"]) (simp add: close_fields GetConnection_abs cm_abs_Remove)
qed

theorem restart_closes_new_connection_witness:
  "\<exists>w2 :: world. 2 \<in> set (ndClosed (wdNode w2)) \<and> GetConnection (ndConns (wdNode w2)) (wcAuth (ex_conn 2 ''u'' ''i'')) = None"
proof -
  let ?env = "ex_nenv 10 (single_codec (DisconnectSessionParams ''u'' ''i''))"
  let ?w = "ex_nworld ''a'' [ex_arow ''u'' ''i'' ''a'' WsStatusConnected]"
  have "\<exists>w1 w2. onNew ?env (\<lambda>t. t) (ex_conn 2 ''u'' ''i'') ?w = (Ok (), w1) \<and>
    inbound (neCodec ?env) (ndID (wdNode ?w)) (drop (length (wdOut ?w)) (wdOut w1)) = [DisconnectSessionParams ''u'' ''i''] \<and>
    handle ?env (DisconnectSessionParams ''u'' ''i'') w1 = (Ok w2 :: (world, ErrorCode) outcome) \<and>
    wcId (ex_conn 2 ''u'' ''i'') \<in> set (ndClosed (wdNode w2)) \<and>
    GetConnection (ndConns (wdNode w2)) (wcAuth (ex_conn 2 ''u'' ''i'')) = None"
    by (rule restart_closes_new_connection [where r = "ex_arow ''u'' ''i'' ''a'' WsStatusConnected"])
      (simp_all add: single_codec_ok ex_conn_def auth_key_def ex_nworld_def ex_node_def ex_arow_def ac_row_def ac_key_def)
  moreover have "wcId (ex_conn 2 ''u'' ''i'') = 2" by (simp add: ex_conn_def)
  ultimately show ?thesis by auto
qed

text \<open>An anonymous client whose session is recorded as connected elsewhere cannot come
  back: the callback for its new connection asks for a disconnect with an empty user id,
  for which the session lookup panics.\<close>

theorem anonymous_reconnect_panics:
  assumes "no_faults env" "auth_key (wcAuth d) = ([], i)" "cm_abs (ndConns (wdNode w)) ([], i) = None"
    and "ac_row (wdActive w) [] i = Some r" "acStatus r = WsStatusConnected"
    and "neNow env - neCutoff env < acLastHeartbeat r"
  shows "onNew env between d w = (Panic, w)"
proof -
  have k: "auUserID (wcAuth d) = []" "auInstanceID (wcAuth d) = i" using assms(2) by (simp_all add: auth_key_def)
  have key: "acUserID r = []" using assms(4) by (auto simp: ac_row_def find_Some_iff ac_key_def)
  have "AC_GetInstanceConnection (neCutoff env) (neNow env) DbOk [] i (wdActive w) = Ok r"
    by (rule get_instance_row [OF assms(4)]) (use assms(6) in \<open>simp add: alive_def\<close>)
  then have "signal_previous env (wcAuth d) w = (Panic, w)"
    using assms(1,5) by (simp add: signal_previous_def k key DisconnectSession_def findSessionConn_def UserWebsocketAuth_def)
  then show ?thesis using assms(3) by (simp add: onNew_def GetConnection_abs assms(2))
qed

theorem anonymous_reconnect_panics_witness:
  "onNew (ex_nenv 10 (single_codec (AckResolvedParams []))) (\<lambda>t. t) (ex_conn 2 [] ''i'')
     (ex_nworld ''a'' [ex_arow [] ''i'' ''b'' WsStatusConnected]) =
   (Panic, ex_nworld ''a'' [ex_arow [] ''i'' ''b'' WsStatusConnected])"
  by (rule anonymous_reconnect_panics [where i = "''i''" and r = "ex_arow [] ''i'' ''b'' WsStatusConnected"])
    (simp_all add: ex_conn_def auth_key_def ex_nworld_def ex_node_def ex_arow_def ac_row_def ac_key_def)

subsection \<open>Late close callbacks\<close>

lemma send_open_conns:
  "wcId d \<notin> set (ndClosed (wdNode (fold (\<lambda>m w. snd (ws_Send env d m w)) ms w))) \<Longrightarrow>
   ndConns (wdNode (fold (\<lambda>m w. snd (ws_Send env d m w)) ms w)) = ndConns (wdNode w)"
proof (induction ms arbitrary: w)
  case (Cons m ms)
  have mono: "set (ndClosed (wdNode v)) \<subseteq> set (ndClosed (wdNode (fold (\<lambda>m w. snd (ws_Send env d m w)) ms v)))" for v
  proof (induction ms arbitrary: v)
    case (Cons m ms)
    have "set (ndClosed (wdNode v)) \<subseteq> set (ndClosed (wdNode (snd (ws_Send env d m v))))"
      by (auto simp: ws_Send_def log_ev_def close_fields split: prod.split)
    then show ?case using Cons by fastforce
  qed simp
  have "wcId d \<in> set (ndClosed (wdNode (snd (ws_Send env d m w)))) \<or>
      ndConns (wdNode (snd (ws_Send env d m w))) = ndConns (wdNode w)"
    by (simp add: ws_Send_def log_ev_def close_fields split: prod.split)
  then show ?case using Cons mono [of "snd (ws_Send env d m w)"] by auto
qed simp

lemma consume_pending_shape:
  "\<exists>ms p. consume_pending env between c w = fold (\<lambda>msg w. snd (ws_Send env c msg w)) ms (w\<lparr>wdPending := p\<rparr>)"
  unfolding consume_pending_def Let_def case_prod_beta by blast

lemma onNew_registers:
  assumes "onNew env between d w = (Ok (), w1)" "wcId d \<notin> set (ndClosed (wdNode w1))"
  shows "GetConnection (ndConns (wdNode w1)) (wcAuth d) = Some d"
proof -
  obtain v t where v: "w1 = upd_node (\<lambda>n. n\<lparr>ndTracker := tracker_open (neNow env) (wcAuth d) (ndTracker n)\<rparr>)
      (consume_pending env between d (upd_node (\<lambda>n. n\<lparr>ndConns := AddConnection d (ndConns n),
         ndRate := snd (Limiter_New (wcAuth d) (ndRate n))\<rparr>) (v\<lparr>wdActive := t\<rparr>)))"
    using assms(1) by (auto simp: onNew_def svc_then_def Let_def split: prod.splits outcome.splits)
  let ?v = "upd_node (\<lambda>n. n\<lparr>ndConns := AddConnection d (ndConns n),
         ndRate := snd (Limiter_New (wcAuth d) (ndRate n))\<rparr>) (v\<lparr>wdActive := t\<rparr>)"
  obtain ms p where "consume_pending env between d ?v = fold (\<lambda>msg w. snd (ws_Send env d msg w)) ms (?v\<lparr>wdPending := p\<rparr>)"
    using consume_pending_shape by blast
  then show ?thesis
    using assms(2) send_open_conns [of d env ms] by (simp add: v upd_node_def GetConnection_abs cm_abs_Add)
qed

text \<open>A close callback that runs late evicts the connection that has replaced its own.
  The callback removes by session, not by connection: when the old connection of a session
  has been marked closed but its callback has not run yet, a new connection is registered
  beside it, and the late callback then removes the new one, which stays open but can no
  longer be found.\<close>

theorem late_close_evicts:
  assumes "auth_key (wcAuth c) = auth_key (wcAuth d)" "wcId c \<in> set (ndClosed (wdNode w))"
    and "GetConnection (ndConns (wdNode w)) (wcAuth c) = Some c"
    and "onNew env between d w = (Ok (), w1)" "wcId d \<notin> set (ndClosed (wdNode w1))"
  shows "GetConnection (ndConns (wdNode w1)) (wcAuth d) = Some d \<and>
    GetConnection (ndConns (wdNode (onClose env2 (wcAuth c) w1))) (wcAuth d) = None \<and>
    wcId d \<notin> set (ndClosed (wdNode (onClose env2 (wcAuth c) w1)))"
proof (intro conjI)
  show "GetConnection (ndConns (wdNode w1)) (wcAuth d) = Some d" using assms(4,5) by (rule onNew_registers)
  show "GetConnection (ndConns (wdNode (onClose env2 (wcAuth c) w1))) (wcAuth d) = None"
    using assms(1) by (simp add: onClose_def Let_def GetConnection_abs cm_abs_Remove split: prod.split outcome.split)
  show "wcId d \<notin> set (ndClosed (wdNode (onClose env2 (wcAuth c) w1)))"
    using assms(5) by (simp add: onClose_def Let_def split: prod.split outcome.split)
qed

definition ex_late :: world where
  "ex_late = upd_node (\<lambda>n. n\<lparr>ndConns := AddConnection (ex_conn 1 ''u'' ''i'') NewConnectionMap, ndClosed := [1]\<rparr>) (ex_nworld ''a'' [])"

theorem late_close_evicts_witness:
  "\<exists>w1. GetConnection (ndConns (wdNode w1)) (wcAuth (ex_conn 2 ''u'' ''i'')) = Some (ex_conn 2 ''u'' ''i'') \<and>
     GetConnection (ndConns (wdNode (onClose (ex_nenv 20 (single_codec (AckResolvedParams []))) (wcAuth (ex_conn 1 ''u'' ''i'')) w1)))
       (wcAuth (ex_conn 2 ''u'' ''i'')) = None"
proof -
  let ?env = "ex_nenv 10 (single_codec (AckResolvedParams []))"
  have f: "auth_key (wcAuth (ex_conn 1 ''u'' ''i'')) = auth_key (wcAuth (ex_conn 2 ''u'' ''i''))"
    "wcId (ex_conn 1 ''u'' ''i'') \<in> set (ndClosed (wdNode ex_late))"
    "GetConnection (ndConns (wdNode ex_late)) (wcAuth (ex_conn 1 ''u'' ''i'')) = Some (ex_conn 1 ''u'' ''i'')"
    by (simp_all add: ex_late_def upd_node_def ex_nworld_def ex_node_def GetConnection_abs cm_abs_Add ex_conn_def auth_key_def)
  obtain w1 where w1: "onNew ?env (\<lambda>t. t) (ex_conn 2 ''u'' ''i'') ex_late = (Ok (), w1)"
    "wcId (ex_conn 2 ''u'' ''i'') \<notin> set (ndClosed (wdNode w1))"
    by (simp add: onNew_def GetConnection_abs cm_abs_Add ex_late_def upd_node_def ex_nworld_def ex_node_def ws_Close_def
        ex_conn_def auth_key_def signal_previous_def AC_GetInstanceConnection_def pg_row_def AC_AddConnection_def
        consume_pending_def Hub_Consume_def PG_GetAll_def pg_rows_def session_rows_def collect_rows_def Let_def)
  show ?thesis using late_close_evicts [OF f w1] by blast
qed

subsection \<open>Sends that do not buffer\<close>

lemma Nil_if_no_member: "(\<And>x. x \<notin> set xs) \<Longrightarrow> xs = []"
  by (cases xs) auto

text \<open>A message for a list of users skips sessions that are temporarily disconnected.  For
  a user whose only session is parked at this container, the message of \<open>SendToUsers\<close> is
  dropped without an error, while \<open>SendToUser\<close> buffers the same message for the session.\<close>

theorem send_to_users_skips_parked:
  assumes "parked hb u i w" "no_faults env" "GetAllUserConn (ndConns (wdNode w)) u = []"
    and "\<forall>r \<in> set (wdActive w). acUserID r = u \<longrightarrow> acHolderID r = ndID (wdNode w)"
    and "neNow env - neCutoff env < hb" "\<forall>q \<in> set (wdPending w). pmSendAt q \<noteq> neNow env"
    and "nm_inv (mhRegistry (ndHub (wdNode w)))"
  shows "SendToUsers env [u] t (Some b) w = (Ok (), w) \<and>
    (\<exists>w'. SendToUser env u t (Some b) w = (Ok (), w') \<and>
       pending_row env u i (hdl_frame env t (Some b)) \<in> set (wdPending w'))"
proof
  have "scan_multi (ndID (wdNode w)) [] (filter (\<lambda>r. acUserID r \<in> set [u] \<and> alive (neCutoff env) (neNow env) r) (wdActive w)) = []"
    using assms(4) by (intro Nil_if_no_member) (auto simp: scan_multi_targets)
  then have "findMultiUserConn env [u] w = Ok (False, [])"
    using assms(2,3) by (simp add: findMultiUserConn_def AC_GetActiveConnectionsByUserIDs_def pg_rows_def)
  then show "SendToUsers env [u] t (Some b) w = (Ok (), w)" by (simp add: SendToUsers_def user_actions_def)
  obtain r where r: "ac_row (wdActive w) u i = Some r" "acLastHeartbeat r = hb" "IsRegistered (ndHub (wdNode w)) u i"
    using assms(1) by (auto simp: parked_def)
  then have "r \<in> set (live_rows env u w)" using assms(5)
    by (auto simp: live_rows_def ac_row_def find_Some_iff ac_key_def alive_def)
  moreover have own: "\<forall>r \<in> set (live_rows env u w). acHolderID r = ndID (wdNode w)" using assms(4) by (auto simp: live_rows_def)
  moreover have "snd (scan_holders (ndID (wdNode w)) [] (live_rows env u w)) = []"
    using own by (intro Nil_if_no_member) (auto simp: scan_holders_targets)
  ultimately have route: "findUserConn env u w = Ok (True, [])"
    unfolding findUserConn_ok [OF assms(2)] by auto
  obtain q where "hdl_SendToUser env u t (Some b) w = (Ok (w\<lparr>wdQueues := q, wdOut := wdOut w,
      wdPending := wdPending w @ map (\<lambda>i. pending_row env u i (hdl_frame env t (Some b))) (GetSessions (ndHub (wdNode w)) u)\<rparr>) :: (world, ErrorCode) outcome)"
    using hdl_send_to_user_parked [OF assms(2,7,3,6)] by blast
  moreover have "i \<in> set (GetSessions (ndHub (wdNode w)) u)" using r(3) by (simp add: set_GetSessions)
  ultimately show "\<exists>w'. SendToUser env u t (Some b) w = (Ok (), w') \<and>
       pending_row env u i (hdl_frame env t (Some b)) \<in> set (wdPending w')"
    by (simp add: SendToUser_def route user_actions_def run_hdl_def)
qed

definition ex_parked :: world where
  "ex_parked = upd_node (\<lambda>n. n\<lparr>ndHub := registerWithTTL True ''u'' ''i'' NewMsgHub\<rparr>)
     (ex_nworld ''a'' [ex_arow ''u'' ''i'' ''a'' WsStatusTempDisconnected])"

theorem send_to_users_skips_parked_witness:
  "SendToUsers (ex_nenv 10 (single_codec (AckResolvedParams []))) [''u''] ''t'' (Some [1]) ex_parked = (Ok (), ex_parked)"
proof -
  have "parked 0 ''u'' ''i'' ex_parked"
    by (simp add: parked_def ex_parked_def upd_node_def ex_nworld_def ex_node_def IsRegistered_register ac_row_def
        ac_key_def ex_arow_def)
  moreover have "nm_inv (mhRegistry (ndHub (wdNode ex_parked)))"
    by (simp add: ex_parked_def upd_node_def registerWithTTL_def NewMsgHub_def Let_def nm_inv_put)
  ultimately show ?thesis
    using send_to_users_skips_parked [of 0 "''u''" "''i''" ex_parked "ex_nenv 10 (single_codec (AckResolvedParams []))" "''t''" "[1]"]
    by (simp add: ex_parked_def upd_node_def ex_nworld_def ex_node_def ex_arow_def GetAllUserConn_def NewConnectionMap_def)
qed

text \<open>A message for a user also skips a session that is being handed over: with no holder
  to route to, \<open>SendToUser\<close> drops it without an error, while \<open>SendToSession\<close> to the same
  session buffers it.\<close>

theorem send_to_user_skips_transfer:
  assumes "in_transfer hb u i w" "good_sender hb u i (wdNode w, env, t, Some b)" "u \<noteq> []" "i \<noteq> []"
    and "GetAllUserConn (ndConns (wdNode w)) u = []" "ndID (wdNode w) \<noteq> []"
    and "\<forall>r \<in> set (wdActive w). acUserID r = u \<longrightarrow> acHolderID r = []"
    and "\<forall>q \<in> set (wdPending w). pmSendAt q \<noteq> neNow env"
  shows "SendToUser env u t (Some b) w = (Ok (), w) \<and>
    SendToSession env u i t (Some b) w =
      (Ok (), w\<lparr>wdPending := wdPending w @ [pending_row env u i (hdl_frame env t (Some b))]\<rparr>)"
proof
  have nf: "no_faults env" using assms(2) by (simp add: good_sender_def)
  have none: "\<forall>r \<in> set (live_rows env u w). acHolderID r = []" using assms(7) by (auto simp: live_rows_def)
  moreover have "snd (scan_holders (ndID (wdNode w)) [] (live_rows env u w)) = []"
    using none by (intro Nil_if_no_member) (auto simp: scan_holders_targets)
  ultimately have "findUserConn env u w = Ok (False, [])"
    unfolding findUserConn_ok [OF nf] using assms(5,6) by auto
  then show "SendToUser env u t (Some b) w = (Ok (), w)" by (simp add: SendToUser_def user_actions_def)
  show "SendToSession env u i t (Some b) w =
      (Ok (), w\<lparr>wdPending := wdPending w @ [pending_row env u i (hdl_frame env t (Some b))]\<rparr>)"
    using SendToSession_transfer [OF assms(1,2,3,4)] assms(8) by simp
qed

theorem send_to_user_skips_transfer_witness:
  "SendToUser (ex_nenv 10 (single_codec (SendToSessionParams ''u'' ''i'' ''t'' (Some [1])))) ''u'' ''t'' (Some [1])
     (ex_nworld ''a'' [ex_arow ''u'' ''i'' [] WsStatusTransferring]) =
   (Ok (), ex_nworld ''a'' [ex_arow ''u'' ''i'' [] WsStatusTransferring])"
  using send_to_user_skips_transfer [of 0 "''u''" "''i''" "ex_nworld ''a'' [ex_arow ''u'' ''i'' [] WsStatusTransferring]"
      "ex_nenv 10 (single_codec (SendToSessionParams ''u'' ''i'' ''t'' (Some [1])))" "''t''" "[1]"]
  by (simp add: in_transfer_def good_sender_def single_codec_ok ex_nworld_def ex_node_def ex_arow_def ac_row_def ac_key_def
      GetAllUserConn_def NewConnectionMap_def)
    (simp add: cm_abs_def)

subsection \<open>Limiters follow connections\<close>

text \<open>
  \<open>L\<close> are the sessions for which a client message was handled while they were not connected.
\<close>

definition node_ok :: "(gostring \<times> gostring) set \<Rightarrow> node \<Rightarrow> bool" where
  "node_ok L n \<longleftrightarrow> cm_inv (ndConns n) \<and> rl_inv (ndRate n) \<and>
     {k. cm_abs (ndConns n) k \<noteq> None} \<subseteq> rl_sessions (ndRate n) \<and>
     rl_sessions (ndRate n) \<subseteq> {k. cm_abs (ndConns n) k \<noteq> None} \<union> L"

abbreviation world_ok :: "(gostring \<times> gostring) set \<Rightarrow> world \<Rightarrow> bool" where
  "world_ok L w \<equiv> node_ok L (wdNode w)"

lemma node_ok_upd [simp]:
  "node_ok L (n\<lparr>ndAck := a\<rparr>) = node_ok L n" "node_ok L (n\<lparr>ndHub := h\<rparr>) = node_ok L n"
  "node_ok L (n\<lparr>ndClosed := cl\<rparr>) = node_ok L n" "node_ok L (n\<lparr>ndTracker := t\<rparr>) = node_ok L n"
  "node_ok L (n\<lparr>ndShutdown := s\<rparr>) = node_ok L n"
  by (simp_all add: node_ok_def)

lemma node_ok_remove:
  "node_ok L n \<Longrightarrow> node_ok L (n\<lparr>ndTracker := t, ndConns := RemoveConnection a (ndConns n), ndRate := Limiter_Remove a (ndRate n)\<rparr>)"
  by (auto simp: node_ok_def cm_inv_Remove rl_inv_Remove rl_sessions_Remove cm_abs_Remove)

lemma node_ok_add:
  "\<lbrakk>node_ok L n; wcAuth c = a\<rbrakk> \<Longrightarrow>
   node_ok L (n\<lparr>ndConns := AddConnection c (ndConns n), ndRate := snd (Limiter_New a (ndRate n))\<rparr>)"
  by (auto simp: node_ok_def cm_inv_Add rl_inv_New rl_sessions_New cm_abs_Add)

lemma ok_onClose: "world_ok L w \<Longrightarrow> world_ok L (onClose env a w)"
  by (simp add: onClose_def Let_def node_ok_remove split: prod.split outcome.split)

lemma ok_Close: "world_ok L w \<Longrightarrow> world_ok L (ws_Close env c w)"
  by (simp add: ws_Close_def ok_onClose upd_node_def)

lemma ok_Send: "world_ok L w \<Longrightarrow> world_ok L (snd (ws_Send env c b w))"
  by (simp add: ws_Send_def log_ev_def ok_Close split: prod.split)

lemma ok_sendOrSave: "world_ok L w \<Longrightarrow> world_ok L (sendOrSaveMessageHub env c b w)"
  using ok_Send [of L w env c b]
  by (cases "ws_Send env c b w") (auto simp: sendOrSaveMessageHub_def log_ev_def split: bool.split)

lemma ok_fold: "(\<And>x w. world_ok L w \<Longrightarrow> world_ok L (f x w)) \<Longrightarrow> world_ok L w \<Longrightarrow> world_ok L (fold f xs w)"
  by (induction xs arbitrary: w) simp_all

lemma ok_send_each: "world_ok L w \<Longrightarrow> world_ok L (send_each env b cs w)"
  unfolding send_each_def by (rule ok_fold) (rule ok_sendOrSave)

lemma ok_Save: "world_ok L w \<Longrightarrow> world_ok L (snd (node_Save env u i b w))"
  by (simp add: node_Save_def split: prod.split)

lemma ok_anonymous_ids:
  "\<lbrakk>send_anonymous_ids env b is w = (Ok w' :: (world, 'e) outcome); world_ok L w\<rbrakk> \<Longrightarrow> world_ok L w'"
proof (induction "is" arbitrary: w)
  case (Cons i "is")
  obtain a where a: "send_anonymous_ids env b is (case GetConnection (ndConns (wdNode w)) a of
      Some conn \<Rightarrow> snd (ws_Send env conn b w) | None \<Rightarrow> w) = (Ok w' :: (world, 'e) outcome)"
    using Cons.prems(1) by (auto simp: obind_eq_Ok)
  show ?case by (rule Cons.IH [OF a]) (simp add: Cons.prems(2) ok_Send split: option.split)
qed simp

lemmas hdl_defs = hdl_SendToUser_def hdl_SendToSession_def hdl_DisconnectSession_def hdl_DisconnectUser_def
  hdl_SendToUsers_def hdl_SendToAnonymous_def hdl_SendToAuthenticated_def hdl_SendToAll_def
  hdl_SendToSessionWithAck_def hdl_SendToUserWithAck_def hdl_AckResolved_def hdl_ResumeSession_def

lemma ok_handle: "\<lbrakk>handle env p w = Ok w'; world_ok L w\<rbrakk> \<Longrightarrow> world_ok L w'"
proof (cases p)
  case (SendToAnonymousParams all ids t b)
  assume "handle env p w = Ok w'" "world_ok L w"
  then show ?thesis using ok_anonymous_ids [of env "hdl_frame env t b" ids w w']
    by (auto simp: SendToAnonymousParams hdl_SendToAnonymous_def Let_def intro!: ok_fold ok_Send split: if_splits)
qed (auto simp: hdl_defs obind_eq_Ok upd_node_def Let_def ok_fold ok_send_each ok_Close ok_Send ok_Save ok_sendOrSave
    split: if_splits option.splits)

lemma ok_then:
  "\<lbrakk>world_ok L (snd m); \<And>x v. world_ok L v \<Longrightarrow> world_ok L (snd (k x v))\<rbrakk> \<Longrightarrow> world_ok L (snd (svc_then m k))"
  by (cases m, cases "fst m") simp_all

lemma ok_run: "(\<And>w'. h w = Ok w' \<Longrightarrow> world_ok L w') \<Longrightarrow> world_ok L w \<Longrightarrow> world_ok L (snd (run_hdl h w))"
  by (cases "h w") (simp_all add: run_hdl_def)

lemma node_publish [simp]:
  "wdNode (snd (publish_msg env m w)) = wdNode w" "wdNode (snd (publish_logged env cs p w)) = wdNode w"
proof -
  show p: "wdNode (snd (publish_msg env m w)) = wdNode w" for m w
    by (simp add: publish_msg_def split: outcome.split prod.split)
  show "wdNode (snd (publish_logged env cs p w)) = wdNode w"
    using p [of "create_targeted (neCodec env) cs p" w]
    by (simp add: publish_logged_def split: outcome.split prod.split) auto
qed

lemma ok_user_actions: "world_ok L w \<Longrightarrow> world_ok L (snd (user_actions env p r w))"
  by (cases r) (auto simp: user_actions_def intro!: ok_then ok_run elim: ok_handle)

lemma ok_save_transferring: "world_ok L w \<Longrightarrow> world_ok L (snd (save_transferring env u i t p w))"
  using ok_Save [of L w env u i "hdl_frame env t p"]
  by (cases "node_Save env u i (hdl_frame env t p) w") (auto simp: save_transferring_def split: outcome.split)

lemma ok_services:
  assumes "world_ok L w"
  shows "world_ok L (snd (SendToUser env u t p w))" "world_ok L (snd (DisconnectUser env u w))"
    "world_ok L (snd (SendToUsers env us t p w))" "world_ok L (snd (SendToSession env u i t p w))"
    "world_ok L (snd (DisconnectSession env u i w))" "world_ok L (snd (ResumeSession env h u i w))"
  unfolding SendToUser_def DisconnectUser_def SendToUsers_def SendToSession_def DisconnectSession_def
    ResumeSession_def Let_def using assms
  by (auto intro!: ok_then ok_run ok_user_actions ok_save_transferring elim: ok_handle split: session_route.split)

lemma ok_acks:
  assumes "world_ok L w"
  shows "world_ok L (snd (snd (snd (begin_session_ack env n u i t p w))))" "world_ok L (snd (snd (snd (begin_user_ack env n u t p w))))"
    "world_ok L (snd (resolve_ack ackID w))"
proof -
  have u: "world_ok L v \<Longrightarrow> world_ok L (upd_node (\<lambda>n. n\<lparr>ndAck := a\<rparr>) v)" for a v by (simp add: upd_node_def)
  have run: "world_ok L v \<Longrightarrow> world_ok L (snd (svc_then (run_hdl (handle env q) v) (\<lambda>_ w. (x, w))))" for q v and x :: "(bool, ErrorCode) outcome"
    by (rule ok_then, rule ok_run) (auto elim: ok_handle)
  have route: "world_ok L v \<Longrightarrow> world_ok L (snd (case route of
        SLocal \<Rightarrow> svc_then (must (UserWebsocketAuth u i), v) (\<lambda>auth w.
          if GetConnection (ndConns (wdNode w)) auth = None then (Ok False, w)
          else svc_then (run_hdl (handle env q) w) (\<lambda>_ w. (Ok True, w)))
      | SNotFound \<Rightarrow> (Ok False, v)
      | STransferring \<Rightarrow> svc_then (save_transferring env u i t p v) (\<lambda>_ w. (Ok False, w))
      | SRemote holder \<Rightarrow> svc_then (publish_logged env [holder] q v) (\<lambda>_ w. (Ok True, w))))" for route q v
    by (cases route) (auto intro!: ok_then [where m = "(must _, _)"] run ok_then [where m = "save_transferring _ _ _ _ _ _"]
        ok_then [where m = "publish_logged _ _ _ _"] ok_save_transferring)
  show "world_ok L (snd (snd (snd (begin_session_ack env n u i t p w))))"
    unfolding begin_session_ack_def CreateAck_eq prod.case Let_def snd_conv
    by (rule ok_then) (simp_all add: u assms route)
  have pub: "world_ok L v \<Longrightarrow> world_ok L (snd (if length cs > 0 then svc_then (publish_logged env cs q v) (\<lambda>_ w. (Ok True, w)) else (Ok found, v)))"
    for cs q v found
    by (auto intro!: ok_then)
  show "world_ok L (snd (snd (snd (begin_user_ack env n u t p w))))"
    unfolding begin_user_ack_def CreateAck_eq prod.case Let_def snd_conv
    by (rule ok_then)
      (auto simp: u assms split: prod.split intro!: ok_then run pub)
  show "world_ok L (snd (resolve_ack ackID w))"
    unfolding resolve_ack_def using assms by (intro ok_run) (auto simp: hdl_AckResolved_def obind_eq_Ok upd_node_def)
qed

lemma ok_shutdown: "world_ok L w \<Longrightarrow> world_ok L (snd (Mediator_Shutdown env w))"
  unfolding Mediator_Shutdown_def Let_def
  by (rule ok_then, rule ok_run)
    (auto simp: obind_eq_Ok upd_node_def closeAllAnonymousConnections_def closeAllAuthenticatedConnections_def
      shutdownAuthenticatedConnections_def transitionConnectionToTransferring_def Let_def intro!: ok_fold ok_Close)

lemma ok_onNew: "world_ok L w \<Longrightarrow> world_ok L (snd (onNew env between c w))"
proof -
  assume w: "world_ok L w"
  have sig: "world_ok L v \<Longrightarrow> world_ok L (snd (signal_previous env (wcAuth c) v))" for v
    using ok_services(5,6) [of L v env]
    by (auto simp: signal_previous_def Let_def split: outcome.split WsStatus.split prod.split) (metis snd_conv)+
  have con: "world_ok L v \<Longrightarrow> world_ok L (consume_pending env between c v)" for v
    using consume_pending_shape [of env between c v] by (auto intro!: ok_fold ok_Send)
  have cl: "world_ok L (case GetConnection (ndConns (wdNode w)) (wcAuth c) of Some e \<Rightarrow> ws_Close env e w | None \<Rightarrow> w)"
    using w by (simp add: ok_Close split: option.split)
  show ?thesis unfolding onNew_def Let_def
    by (rule ok_then [OF sig [OF cl]])
      (auto simp: upd_node_def split: prod.split outcome.split intro!: con node_ok_add)
qed

subsubsection \<open>Client messages\<close>

lemma rate_allow_rate:
  "rate_allow cenv a h = (ok, h') \<Longrightarrow> chRate h' \<in> {chRate h, snd (Limiter_New a (chRate h))}"
  by (auto simp: rate_allow_def Limiter_Get_def split: prod.splits option.splits)

lemma branch_rate:
  assumes "branch_of cenv a q h = Ok b"
  shows "chRate (snd (snd (snd b))) = chRate (snd (rate_allow cenv a h))"
proof -
  obtain ok h1 where r: "rate_allow cenv a h = (ok, h1)" by (cases "rate_allow cenv a h")
  have hb: "chRate (handleHeartbeat cenv a h1) = chRate h1"
    by (simp add: handleHeartbeat_def Let_def split: prod.split)
  have ack: "handle_ack_msg cenv a q h = Ok b \<Longrightarrow> chRate (snd (snd (snd b))) = chRate h1"
    by (cases ok) (auto simp: handle_ack_msg_def r Let_def obind_eq_Ok split: if_splits prod.splits option.splits)
  have app: "handle_app_msg cenv a q h = Ok b \<Longrightarrow> chRate (snd (snd (snd b))) = chRate h1"
    by (cases ok) (auto simp: handle_app_msg_def r Let_def split: if_splits prod.splits outcome.splits)
  show ?thesis using assms ack app hb
    by (cases ok) (auto simp: branch_of_def r handle_heartbeat_msg_def split: if_splits)
qed

lemma handleMessage_rate:
  assumes "handleMessage cenv data a h = Ok (outs, h')"
  shows "chRate h' \<in> {chRate h, snd (Limiter_New a (chRate h))}"
proof (cases "Request_Unmarshall data")
  case (Ok q)
  then obtain b where b: "branch_of cenv a q h = Ok b" "finish (rqMsgType q) b = (outs, h')"
    using assms by (auto simp: handleMessage_Ok obind_eq_Ok)
  have "h' = snd (snd (snd b))" using b(2) by (cases b) (auto simp: finish_def Let_def)
  then have "chRate h' = chRate (snd (rate_allow cenv a h))" using branch_rate [OF b(1)] by simp
  then show ?thesis using rate_allow_rate [of cenv a h] by (cases "rate_allow cenv a h") simp
qed (use assms in \<open>auto simp: handleMessage_def finish_def Let_def split: if_splits\<close>)

text \<open>The sessions to add to \<open>L\<close> when a message of connection \<open>c\<close> is handled.\<close>

definition late_key :: "WebsocketConn \<Rightarrow> world \<Rightarrow> (gostring \<times> gostring) set" where
  "late_key c w = (if GetConnection (ndConns (wdNode w)) (wcAuth c) = None then {auth_key (wcAuth c)} else {})"

lemma ok_store:
  assumes "world_ok L w" "chRate h \<in> {ndRate (wdNode w), snd (Limiter_New (wcAuth c) (ndRate (wdNode w)))}"
  shows "world_ok (L \<union> late_key c w) (cmh_store h w)"
  using assms by (auto simp: node_ok_def cmh_store_def upd_node_def rl_inv_New rl_sessions_New late_key_def GetConnection_abs)

lemma ok_do_out: "world_ok L w \<Longrightarrow> world_ok L (do_out env c out w)"
  by (cases out) (simp_all add: ok_Send ok_Close)

lemma ok_message:
  assumes "world_ok L w" "client_message env cenv c d (priv, w) = (Ok (priv', w') :: (_, 'e) outcome)"
  shows "world_ok (L \<union> late_key c w) w'"
proof -
  obtain outs h where h: "handleMessage cenv d (wcAuth c) (cmh_view priv w) = Ok (outs, h)"
    "w' = fold (do_out env c) outs (cmh_store h w)"
    using assms(2) by (auto simp: client_message_def obind_eq_Ok must_def split: outcome.splits)
  have "chRate (cmh_view priv w) = ndRate (wdNode w)" by (simp add: cmh_view_def split: prod.split)
  then have "world_ok (L \<union> late_key c w) (cmh_store h w)"
    using handleMessage_rate [OF h(1)] by (intro ok_store [OF assms(1)]) simp
  then show ?thesis unfolding h(2) by (intro ok_fold) (rule ok_do_out)
qed

subsubsection \<open>The container as a transition system\<close>

text \<open>
  What happens at a container, in any order and in any environment, one whole operation per
  step; an acknowledged send is a step for its first part and one for its end.
  \<open>message\<close> is a client message of any connection, also of one that is closed.
  \<open>late_close\<close> is a close callback that runs after its connection was marked closed, \<open>others\<close>
  whatever the other containers and the database do to the shared state.
\<close>

inductive node_step :: "world \<times> (gostring \<times> gostring) set \<Rightarrow> world \<times> (gostring \<times> gostring) set \<Rightarrow> bool" where
  new: "node_step (w, L) (snd (onNew env between c w), L)"
| message: "client_message env cenv c d (priv, w) = (Ok (priv', w') :: (_, unit) outcome) \<Longrightarrow>
    node_step (w, L) (w', L \<union> late_key c w)"
| handled: "handle env p w = (Ok w' :: (world, ErrorCode) outcome) \<Longrightarrow> node_step (w, L) (w', L)"
| close: "node_step (w, L) (ws_Close env c w, L)"
| late_close: "node_step (w, L) (onClose env a w, L)"
| send: "node_step (w, L) (snd (ws_Send env c b w), L)"
| expire: "node_step (w, L) (onExpired env g u i w, L)"
| send_user: "node_step (w, L) (snd (SendToUser env u t p w), L)"
| send_users: "node_step (w, L) (snd (SendToUsers env us t p w), L)"
| send_session: "node_step (w, L) (snd (SendToSession env u i t p w), L)"
| disconnect_user: "node_step (w, L) (snd (DisconnectUser env u w), L)"
| disconnect_session: "node_step (w, L) (snd (DisconnectSession env u i w), L)"
| resume: "node_step (w, L) (snd (ResumeSession env h u i w), L)"
| ack_session: "node_step (w, L) (snd (snd (snd (begin_session_ack env n u i t p w))), L)"
| ack_user: "node_step (w, L) (snd (snd (snd (begin_user_ack env n u t p w))), L)"
| ack_give_up: "node_step (w, L) (snd (resolve_ack ackID w), L)"
| ack_wait: "WaitForAck ackID ch ev (ndAck (wdNode w)) = (acked, a) \<Longrightarrow>
    node_step (w, L) (upd_node (\<lambda>n. n\<lparr>ndAck := a\<rparr>) w, L)"
| shutdown: "node_step (w, L) (snd (Mediator_Shutdown env w), L)"
| others: "wdNode w' = wdNode w \<Longrightarrow> node_step (w, L) (w', L)"

definition node_init :: "world \<times> (gostring \<times> gostring) set \<Rightarrow> bool" where
  "node_init s \<longleftrightarrow> ndConns (wdNode (fst s)) = NewConnectionMap \<and> (\<exists>cfg. ndRate (wdNode (fst s)) = NewRateLimiter cfg) \<and> snd s = {}"

interpretation cont: step_invariant node_init node_step "\<lambda>(w, L). world_ok L w"
proof unfold_locales
  show "node_init s \<Longrightarrow> case s of (w, L) \<Rightarrow> world_ok L w" for s
    by (auto simp: node_init_def node_ok_def cm_inv_New rl_inv_init)
  show "case s' of (w, L) \<Rightarrow> world_ok L w" if "case s of (w, L) \<Rightarrow> world_ok L w" "node_step s s'" for s s'
    using that(2,1)
  proof (induction rule: node_step.induct)
    case (expire w L env g u i)
    then show ?case by (simp add: onExpired_def upd_node_def Let_def)
  next
    case (message env cenv c d priv w priv' w' L)
    then show ?case using ok_message [OF _ message(1)] by simp
  next
    case (handled env p w w' L)
    then show ?case using ok_handle [OF handled(1)] by simp
  qed (simp_all add: ok_onNew ok_Close ok_onClose ok_Send ok_services ok_acks ok_shutdown upd_node_def)
qed

text \<open>The owner of a limiter: the user, or the anonymous session itself.\<close>

definition owner_in :: "WebsocketAuth \<Rightarrow> (gostring \<times> gostring) set \<Rightarrow> bool" where
  "owner_in a K \<longleftrightarrow> (if IsAnonymous a then auth_key a \<in> K else \<exists>i. (auUserID a, i) \<in> K)"

definition owner_connected :: "WebsocketAuth \<Rightarrow> connectionMap \<Rightarrow> bool" where
  "owner_connected a m \<longleftrightarrow>
     (if IsAnonymous a then GetConnection m a \<noteq> None else GetAllUserConn m (auUserID a) \<noteq> [])"

lemma owner_connected_iff: "cm_inv m \<Longrightarrow> owner_connected a m \<longleftrightarrow> owner_in a {k. cm_abs m k \<noteq> None}"
proof (cases "IsAnonymous a")
  case False
  assume inv: "cm_inv m"
  have u: "auUserID a \<noteq> []" using False by (simp add: IsAnonymous_def)
  have "GetAllUserConn m (auUserID a) \<noteq> [] \<longleftrightarrow> set (GetAllUserConn m (auUserID a)) \<noteq> {}" by simp
  also have "\<dots> \<longleftrightarrow> (\<exists>i. cm_abs m (auUserID a, i) \<noteq> None)" unfolding set_GetAllUserConn [OF inv u] by auto
  finally show ?thesis using False by (simp add: owner_connected_def owner_in_def)
qed (simp add: owner_connected_def owner_in_def GetConnection_abs)

text \<open>C3: In every reachable state of a container, whatever the order of its operations and
  whatever fails: a user with a session connected to the container, and an anonymous session
  that is connected, has a rate limiter; and a limiter that exists belongs to such an owner,
  unless a client message of a session of that owner was handled while the session was not
  connected.  So without such late messages limiters and connections agree exactly.
  Each operation is one step, client messages with everything their handler does included.\<close>

theorem limiter_follows_connections:
  assumes "reachable node_init node_step (w, L)"
  shows "(owner_connected a (ndConns (wdNode w)) \<longrightarrow> Limiter_lookup a (ndRate (wdNode w)) \<noteq> None) \<and>
    (Limiter_lookup a (ndRate (wdNode w)) \<noteq> None \<longrightarrow> owner_connected a (ndConns (wdNode w)) \<or> owner_in a L)"
proof -
  have inv: "cm_inv (ndConns (wdNode w))" "rl_inv (ndRate (wdNode w))"
    "{k. cm_abs (ndConns (wdNode w)) k \<noteq> None} \<subseteq> rl_sessions (ndRate (wdNode w))"
    "rl_sessions (ndRate (wdNode w)) \<subseteq> {k. cm_abs (ndConns (wdNode w)) k \<noteq> None} \<union> L"
    using cont.reachable_invar [OF assms] by (simp_all add: node_ok_def)
  have "Limiter_lookup a (ndRate (wdNode w)) \<noteq> None \<longleftrightarrow> owner_in a (rl_sessions (ndRate (wdNode w)))"
    unfolding lookup_iff_session [OF inv(2)] by (simp add: owner_in_def)
  moreover have "owner_in a K \<Longrightarrow> K \<subseteq> K' \<Longrightarrow> owner_in a K'" for K K' by (auto simp: owner_in_def split: if_splits)
  moreover have "owner_in a (K \<union> K') \<longleftrightarrow> owner_in a K \<or> owner_in a K'" for K K' by (auto simp: owner_in_def)
  ultimately show ?thesis unfolding owner_connected_iff [OF inv(1)] using inv(3,4) by metis
qed

theorem limiter_follows_connections_witness:
  "Limiter_lookup (wcAuth (ex_conn 1 ''u'' ''i'')) (ndRate (wdNode (snd (onNew (ex_nenv 10 (single_codec (AckResolvedParams [])))
      (\<lambda>t. t) (ex_conn 1 ''u'' ''i'') (ex_nworld ''a'' []))))) \<noteq> None \<longleftrightarrow>
   GetAllUserConn (ndConns (wdNode (snd (onNew (ex_nenv 10 (single_codec (AckResolvedParams [])))
      (\<lambda>t. t) (ex_conn 1 ''u'' ''i'') (ex_nworld ''a'' []))))) ''u'' \<noteq> []"
proof -
  have "reachable node_init node_step (ex_nworld ''a'' [], {})"
    by (rule reach_init) (auto simp: node_init_def ex_nworld_def ex_node_def)
  then have "reachable node_init node_step (snd (onNew (ex_nenv 10 (single_codec (AckResolvedParams [])))
      (\<lambda>t. t) (ex_conn 1 ''u'' ''i'') (ex_nworld ''a'' [])), {})"
    by (rule reach_step) (rule node_step.new)
  from limiter_follows_connections [OF this, of "wcAuth (ex_conn 1 ''u'' ''i'')"]
  show ?thesis by (auto simp: ex_conn_def IsAnonymous_def owner_connected_def owner_in_def)
qed

text \<open>A client message that is handled after the close callback of its connection brings
  the limiter of the session back, although the session is no longer connected.\<close>

theorem late_message_revives_limiter:
  assumes "chRate h = ndRate (wdNode (onClose env a w))"
  shows "GetConnection (ndConns (wdNode (onClose env a w))) a = None \<and>
    Limiter_lookup a (chRate (snd (rate_allow cenv a h))) \<noteq> None"
proof
  show "GetConnection (ndConns (wdNode (onClose env a w))) a = None"
    by (simp add: onClose_def Let_def GetConnection_abs cm_abs_Remove split: prod.split outcome.split)
  show "Limiter_lookup a (chRate (snd (rate_allow cenv a h))) \<noteq> None"
    using Limiter_New_lookup [of a "chRate h"]
    by (auto simp: rate_allow_def Limiter_Get_def split: prod.split option.splits)
qed

theorem late_message_revives_limiter_witness:
  "Limiter_lookup (ex_auth ''u'' ''i'') (chRate (snd (rate_allow ex_cenv (ex_auth ''u'' ''i'')
     (ex_cmh\<lparr>chRate := ndRate (wdNode (onClose (ex_nenv 10 (single_codec (AckResolvedParams []))) (ex_auth ''u'' ''i'') ex_holder))\<rparr>)))) \<noteq> None"
  using late_message_revives_limiter [of "ex_cmh\<lparr>chRate := ndRate (wdNode (onClose (ex_nenv 10 (single_codec (AckResolvedParams []))) (ex_auth ''u'' ''i'') ex_holder))\<rparr>"
      "ex_nenv 10 (single_codec (AckResolvedParams []))" "ex_auth ''u'' ''i''" ex_holder ex_cenv] by simp

end
