(* ===== verification/GoStr.thy ===== *)
theory GoStr
  imports Prelude
begin

text \<open>
  The string functions of Go's standard library that the source uses: \<open>strings.Cut\<close>,
  \<open>strings.HasPrefix\<close> and \<open>strings.TrimSpace\<close> (on ASCII text), and the decimal conversions
  of \<open>strconv\<close> with their bit sizes.  A conversion that returns an error is \<open>None\<close>.
  \<open>sgn64\<close> is the value of an \<open>int64\<close> after wrap-around.
\<close>

named_theorems str_simps \<open>evaluation rules of the string functions\<close>

subsection \<open>Cutting and trimming\<close>

fun Cut :: "gostring \<Rightarrow> char \<Rightarrow> gostring \<times> gostring \<times> bool" where
  "Cut [] sep = ([], [], False)"
| "Cut (c # cs) sep =
     (if c = sep then ([], cs, True)
      else case Cut cs sep of (before, after, found) \<Rightarrow> (c # before, after, found))"

lemma Cut_absent: "sep \<notin> set s \<Longrightarrow> Cut s sep = (s, [], False)"
  by (induction s) auto

lemma Cut_present [str_simps]: "sep \<notin> set p \<Longrightarrow> Cut (p @ sep # q) sep = (p, q, True)"
  by (induction p) auto

lemma Cut_found: "Cut s sep = (p, q, True) \<Longrightarrow> s = p @ sep # q \<and> sep \<notin> set p"
  by (induction s arbitrary: p q) (auto split: if_splits prod.splits)

lemma Cut_found_iff: "Cut s sep = (p, q, True) \<longleftrightarrow> s = p @ sep # q \<and> sep \<notin> set p"
  using Cut_found Cut_present by metis

lemma Cut_fst_notin: "Cut s sep = (p, r) \<Longrightarrow> sep \<notin> set p"
  by (induction s arbitrary: p r) (auto split: if_splits prod.splits)

definition HasPrefix :: "gostring \<Rightarrow> gostring \<Rightarrow> bool" where
  "HasPrefix s p \<longleftrightarrow> take (length p) s = p"

lemma HasPrefix_iff: "HasPrefix s p \<longleftrightarrow> (\<exists>q. s = p @ q)"
  unfolding HasPrefix_def by (metis append_take_drop_id append_eq_conv_conj)

definition is_space :: "char \<Rightarrow> bool" where
  "is_space c \<longleftrightarrow> c \<in> {CHR '' '', CHR 0x09, CHR 0x0A, CHR 0x0B, CHR 0x0C, CHR 0x0D}"

definition TrimSpace :: "gostring \<Rightarrow> gostring" where
  "TrimSpace s = rev (dropWhile is_space (rev (dropWhile is_space s)))"

lemma dropWhile_id: "(xs = [] \<or> \<not> P (hd xs)) \<Longrightarrow> dropWhile P xs = xs"
  by (cases xs) auto

lemma TrimSpace_id:
  assumes "s \<noteq> [] \<Longrightarrow> \<not> is_space (hd s) \<and> \<not> is_space (last s)"
  shows "TrimSpace s = s"
  using assms by (cases "s = []") (simp_all add: TrimSpace_def dropWhile_id hd_rev)

subsection \<open>Decimal numbers\<close>

definition digit_char :: "nat \<Rightarrow> char" where
  "digit_char d = char_of (48 + d)"

definition is_digit :: "char \<Rightarrow> bool" where
  "is_digit c \<longleftrightarrow> 48 \<le> (of_char c :: nat) \<and> (of_char c :: nat) \<le> 57"

definition digit_val :: "char \<Rightarrow> nat" where
  "digit_val c = of_char c - 48"

fun show_nat :: "nat \<Rightarrow> gostring" where
  "show_nat n = (if n < 10 then [digit_char n] else show_nat (n div 10) @ [digit_char (n mod 10)])"

declare show_nat.simps [simp del]

fun read_digits :: "nat \<Rightarrow> gostring \<Rightarrow> nat option" where
  "read_digits acc [] = Some acc"
| "read_digits acc (c # cs) = (if is_digit c then read_digits (10 * acc + digit_val c) cs else None)"

lemma digit_char_ok [simp]:
  assumes "d < 10" shows "is_digit (digit_char d)" "digit_val (digit_char d) = d"
  using assms by (simp_all add: is_digit_def digit_val_def digit_char_def)

lemma read_digits_append:
  "read_digits acc (xs @ ys) = (case read_digits acc xs of Some a \<Rightarrow> read_digits a ys | None \<Rightarrow> None)"
  by (induction xs arbitrary: acc) auto

lemma read_show_nat [simp]: "read_digits 0 (show_nat n) = Some n"
proof (induction n rule: show_nat.induct)
  case (1 n)
  show ?case
  proof (cases "n < 10")
    case True
    then show ?thesis by (subst show_nat.simps) simp
  next
    case False
    have "show_nat n = show_nat (n div 10) @ [digit_char (n mod 10)]"
      using False by (subst show_nat.simps) simp
    moreover have "read_digits 0 (show_nat (n div 10)) = Some (n div 10)" using 1 False by blast
    ultimately show ?thesis by (simp add: read_digits_append)
  qed
qed

lemma show_nat_not_Nil [simp]: "show_nat n \<noteq> []"
  by (subst show_nat.simps) simp

lemma read_digits_all: "read_digits a s = Some n \<Longrightarrow> list_all is_digit s"
  by (induction s arbitrary: a) (auto split: if_splits)

lemma show_nat_digits: "list_all is_digit (show_nat n)"
  using read_digits_all read_show_nat by blast

definition ParseUint :: "nat \<Rightarrow> gostring \<Rightarrow> nat option" where
  "ParseUint bits s =
     (if s = [] then None
      else case read_digits 0 s of
             Some n \<Rightarrow> if n < 2 ^ bits then Some n else None
           | None \<Rightarrow> None)"

definition FormatUint :: "nat \<Rightarrow> gostring" where
  "FormatUint n = show_nat n"

definition FormatInt :: "int \<Rightarrow> gostring" where
  "FormatInt i = (if i < 0 then CHR ''-'' # show_nat (nat (- i)) else show_nat (nat i))"

definition ParseInt :: "nat \<Rightarrow> gostring \<Rightarrow> int option" where
  "ParseInt bits s =
     (case s of
        [] \<Rightarrow> None
      | c # cs \<Rightarrow>
          let neg = (c = CHR ''-'');
              s = (if c = CHR ''+'' \<or> c = CHR ''-'' then cs else s)
          in case ParseUint bits s of
               None \<Rightarrow> None
             | Some un \<Rightarrow>
                 if \<not> neg \<and> un \<ge> 2 ^ (bits - 1) then None
                 else if neg \<and> un > 2 ^ (bits - 1) then None
                 else Some (if neg then - int un else int un))"

definition int_range :: "nat \<Rightarrow> int \<Rightarrow> bool" where
  "int_range bits i \<longleftrightarrow> - (2 ^ (bits - 1)) \<le> i \<and> i < 2 ^ (bits - 1)"

lemma ParseUint_FormatUint: "n < 2 ^ bits \<Longrightarrow> ParseUint bits (FormatUint n) = Some n"
  by (simp add: ParseUint_def FormatUint_def)

lemma ParseUint_range: "ParseUint bits s = Some n \<Longrightarrow> n < 2 ^ bits"
  by (auto simp: ParseUint_def split: if_splits option.splits)

lemma nat_le_pow: "(i :: int) \<le> 2 ^ k \<Longrightarrow> nat i \<le> 2 ^ k"
  by (metis nat_numeral nat_mono nat_power_eq zero_le_numeral)

lemma ParseInt_range:
  assumes "ParseInt bits s = Some i"
  shows "int_range bits i"
proof -
  have le: "int m \<le> 2 ^ k" if "m \<le> 2 ^ k" for m k :: nat
    using that by (metis of_nat_le_iff of_nat_numeral of_nat_power)
  have less: "int m < 2 ^ k" if "m < 2 ^ k" for m k :: nat
    using that by (metis of_nat_less_iff of_nat_numeral of_nat_power)
  have neg: "- int m < 2 ^ k" for m k :: nat
    by (smt (verit) of_nat_0_le_iff zero_less_power)
  have pos: "- (2 ^ k) \<le> int m" for m k :: nat
    by (smt (verit) of_nat_0_le_iff zero_less_power)
  show ?thesis using assms
    by (auto simp: ParseInt_def int_range_def Let_def not_le not_less neg pos
        intro: le less split: list.splits option.splits if_splits)
qed

lemma show_nat_hd: "hd (show_nat n) \<noteq> CHR ''-'' \<and> hd (show_nat n) \<noteq> CHR ''+''"
proof -
  have "is_digit (hd (show_nat n))"
    using show_nat_digits [of n] by (simp add: list_all_iff)
  then show ?thesis by (auto simp: is_digit_def)
qed

lemma ParseInt_FormatInt:
  assumes "int_range bits i" "0 < bits"
  shows "ParseInt bits (FormatInt i) = Some i"
proof -
  have half: "(2 :: nat) ^ bits = 2 * 2 ^ (bits - 1)"
    using assms(2) by (cases bits) auto
  have pw: "nat (2 ^ k) = 2 ^ k" for k by (simp add: nat_power_eq)
  show ?thesis
  proof (cases "i < 0")
    case True
    have "nat (- i) \<le> 2 ^ (bits - 1)"
      using assms(1) by (intro nat_le_pow) (simp add: int_range_def)
    moreover have "nat (- i) < 2 ^ bits" using calculation half zero_less_power [of "2 :: nat" "bits - 1"] by linarith
    ultimately show ?thesis
      using True by (simp add: ParseInt_def FormatInt_def ParseUint_def)
  next
    case False
    have lt: "nat i < 2 ^ (bits - 1)"
      using assms(1) False by (metis int_range_def nat_less_eq_zless not_less pw)
    then have "nat i < 2 ^ bits" using half by linarith
    moreover obtain c cs where c: "show_nat (nat i) = c # cs" by (cases "show_nat (nat i)") auto
    moreover have "c \<noteq> CHR ''-''" "c \<noteq> CHR ''+''" using show_nat_hd [of "nat i"] c by simp_all
    moreover have "ParseUint bits (c # cs) = Some (nat i)"
      using ParseUint_FormatUint [OF \<open>nat i < 2 ^ bits\<close>] c by (simp add: FormatUint_def)
    ultimately show ?thesis using False lt
      by (simp add: ParseInt_def FormatInt_def)
  qed
qed

lemma FormatInt_chars: "c \<in> set (FormatInt i) \<Longrightarrow> is_digit c \<or> c = CHR ''-''"
  using show_nat_digits by (fastforce simp: FormatInt_def list_all_iff split: if_splits)

subsection \<open>64-bit integers\<close>

definition sgn64 :: "int \<Rightarrow> int" where
  "sgn64 k = (k + 2 ^ 63) mod 2 ^ 64 - 2 ^ 63"

lemma sgn64_id: "- (2 ^ 63) \<le> k \<Longrightarrow> k < 2 ^ 63 \<Longrightarrow> sgn64 k = k"
  by (simp add: sgn64_def)

lemma sgn64_range: "- (2 ^ 63) \<le> sgn64 k \<and> sgn64 k < 2 ^ 63"
  by (simp add: sgn64_def)

end
