(* ===== verification/Cache.thy ===== *)
theory Cache
  imports GoStr
begin

text \<open>
  The cache of \<open>pkg/cache\<close>: conversion of Go values to stored strings and back, the
  provider on top of a store adapter, the Valkey adapter with its primary and replica
  clients, and the read-through helper \<open>CacheThis\<close>.  The Valkey server, the msgpack
  library, and the float conversions of \<open>strconv\<close> are parameters; what is relied on of
  the server is stated by \<open>kv_ok\<close>.
\<close>

subsection \<open>Values and targets\<close>

datatype intk = KInt | KInt8 | KInt16 | KInt32 | KInt64 | KUint | KUint8 | KUint16 | KUint32 | KUint64

fun intk_bits :: "intk \<Rightarrow> nat" where
  "intk_bits KInt8 = 8" | "intk_bits KInt16 = 16" | "intk_bits KInt32 = 32"
| "intk_bits KUint8 = 8" | "intk_bits KUint16 = 16" | "intk_bits KUint32 = 32"
| "intk_bits _ = 64"

definition intk_signed :: "intk \<Rightarrow> bool" where
  "intk_signed k \<longleftrightarrow> k \<in> {KInt, KInt8, KInt16, KInt32, KInt64}"

text \<open>
  The dynamic types the provider distinguishes: numbers, strings, byte slices, values with
  their own \<open>Encode\<close>/\<open>Decode\<close> (\<open>VSer\<close>), nil, pointers to one of the former, and anything
  else, which goes through msgpack.
\<close>

datatype ('f, 'o, 'p) govalue =
    VNum intk int
  | VFloat32 'f
  | VFloat64 'f
  | VString gostring
  | VBytes bytes
  | VSer 'o
  | VNil
  | VPtr "('f, 'o, 'p) govalue"
  | VOther 'p

datatype target =
    TNum intk | TFloat32 | TFloat64 | TString | TBytes | TSer | TOther | TNotPointer | TNilPointer

record ('f, 'o, 'p) codecs =
  cvFormatFloat :: "nat \<Rightarrow> 'f \<Rightarrow> gostring"
  cvParseFloat :: "nat \<Rightarrow> gostring \<Rightarrow> 'f option"
  cvEncode :: "'o \<Rightarrow> bytes"
  cvDecode :: "bytes \<Rightarrow> 'o option"
  cvMarshal :: "('f, 'o, 'p) govalue \<Rightarrow> bytes option"
  cvUnmarshal :: "bytes \<Rightarrow> ('f, 'o, 'p) govalue option"

fun convertNumberToStr :: "('f, 'o, 'p) codecs \<Rightarrow> ('f, 'o, 'p) govalue \<Rightarrow> gostring" where
  "convertNumberToStr cv (VNum k i) = (if intk_signed k then FormatInt i else FormatUint (nat i))"
| "convertNumberToStr cv (VFloat32 f) = cvFormatFloat cv 32 f"
| "convertNumberToStr cv (VFloat64 f) = cvFormatFloat cv 64 f"
| "convertNumberToStr cv _ = []"

definition convertStrToNumber :: "('f, 'o, 'p) codecs \<Rightarrow> target \<Rightarrow> gostring \<Rightarrow> ('f, 'o, 'p) govalue option" where
  "convertStrToNumber cv t v =
     (case t of
        TNum k \<Rightarrow> if intk_signed k then map_option (VNum k) (ParseInt (intk_bits k) v)
                  else map_option (\<lambda>n. VNum k (int n)) (ParseUint (intk_bits k) v)
      | TFloat32 \<Rightarrow> map_option VFloat32 (cvParseFloat cv 32 v)
      | TFloat64 \<Rightarrow> map_option VFloat64 (cvParseFloat cv 64 v)
      | _ \<Rightarrow> None)"

text \<open>What \<open>unmarshalCachedValue\<close> does to its target: nothing and report false, nothing and
  report true, or store a value and report true.\<close>

datatype ('f, 'o, 'p) unmarshalled = UFail | UKeep | USet "('f, 'o, 'p) govalue"

definition of_option :: "('f, 'o, 'p) govalue option \<Rightarrow> ('f, 'o, 'p) unmarshalled" where
  "of_option r = (case r of Some v \<Rightarrow> USet v | None \<Rightarrow> UFail)"

fun unmarshalCachedValue :: "('f, 'o, 'p) codecs \<Rightarrow> gostring \<Rightarrow> target \<Rightarrow> ('f, 'o, 'p) unmarshalled" where
  "unmarshalCachedValue cv s TNotPointer = UFail"
| "unmarshalCachedValue cv s TNilPointer = UFail"
| "unmarshalCachedValue cv s (TNum k) = of_option (convertStrToNumber cv (TNum k) s)"
| "unmarshalCachedValue cv s TFloat32 = of_option (convertStrToNumber cv TFloat32 s)"
| "unmarshalCachedValue cv s TFloat64 = of_option (convertStrToNumber cv TFloat64 s)"
| "unmarshalCachedValue cv s TString = USet (VString s)"
| "unmarshalCachedValue cv s TBytes = USet (VBytes (str_bytes s))"
| "unmarshalCachedValue cv s TSer = of_option (map_option VSer (cvDecode cv (str_bytes s)))"
| "unmarshalCachedValue cv s TOther =
     (if s = [] then UKeep else of_option (cvUnmarshal cv (str_bytes s)))"

text \<open>The string \<open>Set\<close> stores; \<open>None\<close> when msgpack fails.  A pointer to a serializable value
  is itself serializable; every other pointer goes through msgpack.\<close>

fun stored_string :: "('f, 'o, 'p) codecs \<Rightarrow> ('f, 'o, 'p) govalue \<Rightarrow> gostring option" where
  "stored_string cv (VNum k i) = Some (convertNumberToStr cv (VNum k i))"
| "stored_string cv (VFloat32 f) = Some (convertNumberToStr cv (VFloat32 f))"
| "stored_string cv (VFloat64 f) = Some (convertNumberToStr cv (VFloat64 f))"
| "stored_string cv (VString s) = Some s"
| "stored_string cv (VBytes b) = Some (bytes_str b)"
| "stored_string cv (VSer x) = Some (bytes_str (cvEncode cv x))"
| "stored_string cv (VPtr (VSer x)) = Some (bytes_str (cvEncode cv x))"
| "stored_string cv VNil = Some []"
| "stored_string cv v = map_option bytes_str (cvMarshal cv v)"

subsection \<open>The Valkey server\<close>

datatype kv_reply = KvVal gostring | KvNil | KvErr

text \<open>Time is in nanoseconds.  \<open>kvSET\<close> has an optional expiry, \<open>kvINCRBY\<close> an increment.\<close>

record 's kv_srv =
  kvSET :: "int \<Rightarrow> gostring \<Rightarrow> gostring \<Rightarrow> int option \<Rightarrow> 's \<Rightarrow> bool \<times> 's"
  kvGET :: "int \<Rightarrow> gostring \<Rightarrow> 's \<Rightarrow> kv_reply"
  kvGETDEL :: "int \<Rightarrow> gostring \<Rightarrow> 's \<Rightarrow> kv_reply \<times> 's"
  kvDEL :: "int \<Rightarrow> gostring \<Rightarrow> 's \<Rightarrow> bool \<times> 's"
  kvINCRBY :: "int \<Rightarrow> gostring \<Rightarrow> int \<Rightarrow> 's \<Rightarrow> int option \<times> 's"

text \<open>
  What the documentation of the commands says, through the value \<open>look s t k\<close> of a key at a
  time: \<open>SET\<close> makes the value visible until the expiry, given in whole seconds; \<open>GETDEL\<close>
  returns the visible value and removes the key; a command leaves all other keys alone.  A
  \<open>GETDEL\<close> whose reply is lost may or may not have removed the key.
\<close>

definition kv_ok :: "'s kv_srv \<Rightarrow> ('s \<Rightarrow> int \<Rightarrow> gostring \<Rightarrow> gostring option) \<Rightarrow> bool" where
  "kv_ok srv look \<longleftrightarrow>
     (\<forall>now k v ex s s' t k'. kvSET srv now k v ex s = (True, s') \<longrightarrow>
        (\<forall>d. ex = Some d \<longrightarrow> 0 < d \<and> d mod second = 0) \<longrightarrow> now \<le> t \<longrightarrow>
        look s' t k' = (if k' = k then (if \<forall>d. ex = Some d \<longrightarrow> t < now + d then Some v else None) else look s t k')) \<and>
     (\<forall>now k v ex s s' t k'. kvSET srv now k v ex s = (False, s') \<longrightarrow> k' \<noteq> k \<longrightarrow> look s' t k' = look s t k') \<and>
     (\<forall>now k s. kvGET srv now k s = KvErr \<or>
        kvGET srv now k s = (case look s now k of Some v \<Rightarrow> KvVal v | None \<Rightarrow> KvNil)) \<and>
     (\<forall>now k s r s' t k'. kvGETDEL srv now k s = (r, s') \<longrightarrow>
        look s' t k' = look s t k' \<or> k' = k \<and> look s' t k' = None) \<and>
     (\<forall>now k s r s'. kvGETDEL srv now k s = (r, s') \<longrightarrow>
        r = KvErr \<or> r = (case look s now k of Some v \<Rightarrow> KvVal v | None \<Rightarrow> KvNil) \<and>
          (\<forall>t. r \<noteq> KvNil \<longrightarrow> look s' t k = None))"

subsection \<open>Valkey adapter\<close>

text \<open>Two clients; without a replica address both are the primary's (\<open>vaRep = None\<close>).\<close>

record 's valkeyAdapter =
  vaPrefix :: "gostring option"
  vaPrim :: 's
  vaRep :: "'s option"

definition va_key :: "'s valkeyAdapter \<Rightarrow> gostring \<Rightarrow> gostring" where
  "va_key vk key = (case vaPrefix vk of Some p \<Rightarrow> p @ key | None \<Rightarrow> key)"

definition va_replica :: "'s valkeyAdapter \<Rightarrow> 's" where
  "va_replica vk = (case vaRep vk of Some s \<Rightarrow> s | None \<Rightarrow> vaPrim vk)"

definition va_set_replica :: "'s \<Rightarrow> 's valkeyAdapter \<Rightarrow> 's valkeyAdapter" where
  "va_set_replica s vk = (case vaRep vk of Some _ \<Rightarrow> vk\<lparr>vaRep := Some s\<rparr> | None \<Rightarrow> vk\<lparr>vaPrim := s\<rparr>)"

definition va_Set :: "'s kv_srv \<Rightarrow> int \<Rightarrow> gostring \<Rightarrow> gostring \<Rightarrow> int \<Rightarrow> 's valkeyAdapter \<Rightarrow> bool \<times> 's valkeyAdapter" where
  "va_Set srv now key value ttl vk =
     (case kvSET srv now (va_key vk key) value (if ttl > 0 then Some ttl else None) (vaPrim vk) of
        (ok, s) \<Rightarrow> (ok, vk\<lparr>vaPrim := s\<rparr>))"

definition va_Get :: "'s kv_srv \<Rightarrow> int \<Rightarrow> gostring \<Rightarrow> 's valkeyAdapter \<Rightarrow> gostring option" where
  "va_Get srv now key vk =
     (case kvGET srv now (va_key vk key) (va_replica vk) of KvVal v \<Rightarrow> Some v | _ \<Rightarrow> None)"

definition va_GetDel :: "'s kv_srv \<Rightarrow> int \<Rightarrow> gostring \<Rightarrow> 's valkeyAdapter \<Rightarrow> gostring option \<times> 's valkeyAdapter" where
  "va_GetDel srv now key vk =
     (case kvGETDEL srv now (va_key vk key) (vaPrim vk) of
        (r, s) \<Rightarrow> (case r of KvVal v \<Rightarrow> Some v | _ \<Rightarrow> None, vk\<lparr>vaPrim := s\<rparr>))"

definition va_Del :: "'s kv_srv \<Rightarrow> int \<Rightarrow> gostring \<Rightarrow> 's valkeyAdapter \<Rightarrow> bool \<times> 's valkeyAdapter" where
  "va_Del srv now key vk =
     (case kvDEL srv now (va_key vk key) (vaPrim vk) of (ok, s) \<Rightarrow> (ok, vk\<lparr>vaPrim := s\<rparr>))"

definition va_Incr :: "'s kv_srv \<Rightarrow> int \<Rightarrow> gostring \<Rightarrow> 's valkeyAdapter \<Rightarrow> (int \<times> bool) \<times> 's valkeyAdapter" where
  "va_Incr srv now key vk =
     (case kvINCRBY srv now (va_key vk key) 1 (va_replica vk) of
        (r, s) \<Rightarrow> (case r of Some n \<Rightarrow> (n, True) | None \<Rightarrow> (0, False), va_set_replica s vk))"

definition va_Decr :: "'s kv_srv \<Rightarrow> int \<Rightarrow> gostring \<Rightarrow> 's valkeyAdapter \<Rightarrow> (int \<times> bool) \<times> 's valkeyAdapter" where
  "va_Decr srv now key vk =
     (case kvINCRBY srv now (va_key vk key) (- 1) (va_replica vk) of
        (r, s) \<Rightarrow> (case r of Some n \<Rightarrow> (n, True) | None \<Rightarrow> (0, False), va_set_replica s vk))"

subsection \<open>Provider\<close>

definition Cache_Set ::
    "('f, 'o, 'p) codecs \<Rightarrow> 's kv_srv \<Rightarrow> int \<Rightarrow> gostring \<Rightarrow> ('f, 'o, 'p) govalue \<Rightarrow> int \<Rightarrow>
     's valkeyAdapter \<Rightarrow> bool \<times> 's valkeyAdapter" where
  "Cache_Set cv srv now key value ttl vk =
     (case stored_string cv value of
        Some s \<Rightarrow> va_Set srv now key s ttl vk
      | None \<Rightarrow> (False, vk))"

definition Cache_Get ::
    "('f, 'o, 'p) codecs \<Rightarrow> 's kv_srv \<Rightarrow> int \<Rightarrow> gostring \<Rightarrow> target \<Rightarrow> 's valkeyAdapter \<Rightarrow> ('f, 'o, 'p) unmarshalled" where
  "Cache_Get cv srv now key t vk =
     (case va_Get srv now key vk of None \<Rightarrow> UFail | Some s \<Rightarrow> unmarshalCachedValue cv s t)"

definition Cache_GetDel ::
    "('f, 'o, 'p) codecs \<Rightarrow> 's kv_srv \<Rightarrow> int \<Rightarrow> gostring \<Rightarrow> target \<Rightarrow> 's valkeyAdapter \<Rightarrow>
     ('f, 'o, 'p) unmarshalled \<times> 's valkeyAdapter" where
  "Cache_GetDel cv srv now key t vk =
     (case va_GetDel srv now key vk of
        (None, vk) \<Rightarrow> (UFail, vk)
      | (Some s, vk) \<Rightarrow> (unmarshalCachedValue cv s t, vk))"

subsection \<open>CacheThis\<close>

text \<open>
  \<open>fetch\<close> is the result of the caller's function.  The result and the value read back are
  of the type of \<open>t\<close>; the value is stored through a pointer, as the source does.
\<close>

definition cacheThis_do ::
    "('f, 'o, 'p) codecs \<Rightarrow> 's kv_srv \<Rightarrow> int \<Rightarrow> gostring \<Rightarrow> int \<Rightarrow> target \<Rightarrow> ('f, 'o, 'p) govalue \<Rightarrow>
     (('f, 'o, 'p) govalue, 'e) outcome \<Rightarrow> 's valkeyAdapter \<Rightarrow>
     (('f, 'o, 'p) govalue, 'e) outcome \<times> 's valkeyAdapter" where
  "cacheThis_do cv srv now cacheKey ttl t zero fetch vk =
     (case Cache_Get cv srv now cacheKey t vk of
        USet v \<Rightarrow> (Ok v, vk)
      | UKeep \<Rightarrow> (Ok zero, vk)
      | UFail \<Rightarrow>
          (case fetch of
             Ok fresh \<Rightarrow> (Ok fresh, snd (Cache_Set cv srv now cacheKey (VPtr fresh) ttl vk))
           | Err e \<Rightarrow> (Err e, vk)
           | Panic \<Rightarrow> (Panic, vk)))"

subsection \<open>Round trips\<close>

text \<open>A value of the type of the target that survives the conversion: integers within the
  range of their type, strings and byte slices always, other values by their own codec.\<close>

definition fits :: "('f, 'o, 'p) codecs \<Rightarrow> target \<Rightarrow> ('f, 'o, 'p) govalue \<Rightarrow> bool" where
  "fits cv t v \<longleftrightarrow>
     (case v of
        VNum k i \<Rightarrow>
          t = TNum k \<and> (if intk_signed k then int_range (intk_bits k) i else 0 \<le> i \<and> i < 2 ^ intk_bits k)
      | VFloat32 f \<Rightarrow> t = TFloat32 \<and> cvParseFloat cv 32 (cvFormatFloat cv 32 f) = Some f
      | VFloat64 f \<Rightarrow> t = TFloat64 \<and> cvParseFloat cv 64 (cvFormatFloat cv 64 f) = Some f
      | VString s \<Rightarrow> t = TString
      | VBytes b \<Rightarrow> t = TBytes
      | VSer x \<Rightarrow> t = TSer \<and> cvDecode cv (cvEncode cv x) = Some x
      | VOther p \<Rightarrow> t = TOther \<and>
          (case cvMarshal cv (VOther p) of Some b \<Rightarrow> b \<noteq> [] \<and> cvUnmarshal cv b = Some (VOther p) | None \<Rightarrow> False)
      | _ \<Rightarrow> False)"

lemma intk_bits_pos: "0 < intk_bits k"
  by (cases k) simp_all

lemma stored_number:
  assumes "if intk_signed k then int_range (intk_bits k) i else 0 \<le> i \<and> i < 2 ^ intk_bits k"
  shows "convertStrToNumber cv (TNum k) (convertNumberToStr cv (VNum k i)) = Some (VNum k i)"
proof (cases "intk_signed k")
  case True
  then show ?thesis
    using assms ParseInt_FormatInt [OF _ intk_bits_pos] by (simp add: convertStrToNumber_def)
next
  case False
  have "nat i < 2 ^ intk_bits k"
    using assms False by (simp add: nat_less_iff)
  then show ?thesis
    using assms False ParseUint_FormatUint by (simp add: convertStrToNumber_def)
qed

lemma stored_roundtrip:
  assumes "fits cv t v"
  shows "\<exists>s. stored_string cv v = Some s \<and> unmarshalCachedValue cv s t = USet v"
proof (cases v)
  case (VNum k i)
  then show ?thesis using assms stored_number [of k i cv] by (simp add: fits_def of_option_def)
next
  case (VOther p)
  then obtain b where "cvMarshal cv v = Some b" "b \<noteq> []" "cvUnmarshal cv b = Some v" "t = TOther"
    using assms by (auto simp: fits_def split: option.splits)
  then show ?thesis using VOther by (simp add: of_option_def)
qed (use assms in \<open>simp_all add: fits_def of_option_def convertStrToNumber_def\<close>)

subsection \<open>Values are consumed once\<close>

lemma va_keep [simp]:
  "vaPrefix (snd (va_Set srv now key v ttl vk)) = vaPrefix vk"
  "vaPrefix (snd (va_GetDel srv now key vk)) = vaPrefix vk"
  "va_key (vk\<lparr>vaPrim := s\<rparr>) = va_key vk"
  by (simp_all add: va_Set_def va_GetDel_def va_key_def fun_eq_iff split: prod.split)

lemma va_key_inj: "va_key vk k = va_key vk k' \<longleftrightarrow> k = k'"
  by (simp add: va_key_def split: option.split)

lemma va_Set_look:
  assumes "kv_ok srv look" "va_Set srv now key v ttl vk = (True, vk')" "ttl mod second = 0" "now \<le> t"
  shows "look (vaPrim vk') t k =
    (if k = va_key vk key then (if 0 < ttl \<longrightarrow> t < now + ttl then Some v else None) else look (vaPrim vk) t k)"
proof -
  obtain s where s: "kvSET srv now (va_key vk key) v (if ttl > 0 then Some ttl else None) (vaPrim vk) = (True, s)"
      "vk' = vk\<lparr>vaPrim := s\<rparr>"
    using assms(2) by (auto simp: va_Set_def split: prod.splits)
  have "look s t k = (if k = va_key vk key then
      (if \<forall>d. (if ttl > 0 then Some ttl else None) = Some d \<longrightarrow> t < now + d then Some v else None)
      else look (vaPrim vk) t k)"
    using assms(1,3,4) s(1) unfolding kv_ok_def by fastforce
  then show ?thesis using s(2) by (auto split: if_splits)
qed

lemma va_GetDel_look:
  assumes "kv_ok srv look" "va_GetDel srv now key vk = (r, vk')"
  shows "k \<noteq> va_key vk key \<Longrightarrow> look (vaPrim vk') t k = look (vaPrim vk) t k"
    and "look (vaPrim vk) t k = None \<Longrightarrow> look (vaPrim vk') t k = None"
    and "r = Some v \<Longrightarrow> look (vaPrim vk) now (va_key vk key) = Some v \<and> look (vaPrim vk') t (va_key vk key) = None"
    and "r = None \<Longrightarrow> fst (kvGETDEL srv now (va_key vk key) (vaPrim vk)) \<noteq> KvErr \<Longrightarrow>
           look (vaPrim vk) now (va_key vk key) = None"
proof -
  obtain q s where s: "kvGETDEL srv now (va_key vk key) (vaPrim vk) = (q, s)" "vk' = vk\<lparr>vaPrim := s\<rparr>"
      "r = (case q of KvVal v \<Rightarrow> Some v | _ \<Rightarrow> None)"
    using assms(2) by (auto simp: va_GetDel_def split: prod.splits)
  have a: "look s t k = look (vaPrim vk) t k \<or> k = va_key vk key \<and> look s t k = None" for t k
    using assms(1) s(1) unfolding kv_ok_def by blast
  have b: "q = KvErr \<or> q = (case look (vaPrim vk) now (va_key vk key) of Some v \<Rightarrow> KvVal v | None \<Rightarrow> KvNil) \<and>
      (\<forall>t. q \<noteq> KvNil \<longrightarrow> look s t (va_key vk key) = None)"
    using assms(1) s(1) unfolding kv_ok_def by blast
  show "k \<noteq> va_key vk key \<Longrightarrow> look (vaPrim vk') t k = look (vaPrim vk) t k"
    and "look (vaPrim vk) t k = None \<Longrightarrow> look (vaPrim vk') t k = None"
    using a [of t k] s(2) by auto
  show "r = Some v \<Longrightarrow> look (vaPrim vk) now (va_key vk key) = Some v \<and> look (vaPrim vk') t (va_key vk key) = None"
    using b s(2,3) by (auto split: kv_reply.splits option.splits)
  show "r = None \<Longrightarrow> fst (kvGETDEL srv now (va_key vk key) (vaPrim vk)) \<noteq> KvErr \<Longrightarrow>
      look (vaPrim vk) now (va_key vk key) = None"
    using b s(1,3) by (auto split: kv_reply.splits option.splits)
qed

lemmas cache_defs = Cache_Set_def Cache_GetDel_def Cache_Get_def va_Get_def

text \<open>A small server that satisfies the documented behaviour: a list of keys with values and
  expiry times, on which no command fails.\<close>

type_synonym kv_store = "(gostring, gostring \<times> int option) gomap"

definition kvs_look :: "kv_store \<Rightarrow> int \<Rightarrow> gostring \<Rightarrow> gostring option" where
  "kvs_look s t k =
     (case gm_get s k of
        Some (v, ex) \<Rightarrow> (case ex of Some e \<Rightarrow> if t < e then Some v else None | None \<Rightarrow> Some v)
      | None \<Rightarrow> None)"

definition kvs :: "kv_store kv_srv" where
  "kvs = \<lparr>kvSET = (\<lambda>now k v ex s. (True, gm_put k (v, map_option (\<lambda>d. now + d) ex) s)),
     kvGET = (\<lambda>now k s. case kvs_look s now k of Some v \<Rightarrow> KvVal v | None \<Rightarrow> KvNil),
     kvGETDEL = (\<lambda>now k s. (case kvs_look s now k of Some v \<Rightarrow> KvVal v | None \<Rightarrow> KvNil, gm_del k s)),
     kvDEL = (\<lambda>now k s. (True, gm_del k s)),
     kvINCRBY = (\<lambda>now k d s. (None, s))\<rparr>"

lemma kvs_look_put: "kvs_look (gm_put k (v, ex) s) t k' =
    (if k' = k then (case ex of Some e \<Rightarrow> if t < e then Some v else None | None \<Rightarrow> Some v) else kvs_look s t k')"
  by (simp add: kvs_look_def)

lemma kvs_look_del: "kvs_look (gm_del k s) t k' = (if k' = k then None else kvs_look s t k')"
  by (simp add: kvs_look_def)

lemma kvs_ok: "kv_ok kvs kvs_look"
  unfolding kv_ok_def
  by (auto simp: kvs_def kvs_look_put kvs_look_del split: option.splits)

lemma kvs_Set:
  "va_Set kvs now key v ttl vk =
     (True, vk\<lparr>vaPrim := gm_put (va_key vk key) (v, if ttl > 0 then Some (now + ttl) else None) (vaPrim vk)\<rparr>)"
  by (simp add: va_Set_def kvs_def)

lemma kvs_replies [simp]: "kvGET kvs now k s \<noteq> KvErr" "fst (kvGETDEL kvs now k s) \<noteq> KvErr"
  by (simp_all add: kvs_def split: option.split)

text \<open>C29: A value put into the cache is read back unchanged by the first consuming read of
  its type before the expiry, for every number type within its range, for strings, byte
  slices and values with a faithful codec; a second consuming read, or one after the
  expiry, finds nothing.\<close>

theorem cache_consume_once:
  assumes "kv_ok srv look" "fits cv t v" "Cache_Set cv srv now key v ttl vk = (True, vk1)"
    and "ttl mod second = 0" "now \<le> t1" "t1 \<le> t2"
    and "Cache_GetDel cv srv t1 key t vk1 = (r1, vk2)" "Cache_GetDel cv srv t2 key t vk2 = (r2, vk3)"
    and "fst (kvGETDEL srv t1 (va_key vk key) (vaPrim vk1)) \<noteq> KvErr"
  shows "r1 = (if 0 < ttl \<longrightarrow> t1 < now + ttl then USet v else UFail) \<and> r2 = UFail"
proof -
  obtain s where s: "stored_string cv v = Some s" "unmarshalCachedValue cv s t = USet v"
    using stored_roundtrip [OF assms(2)] by blast
  have set: "va_Set srv now key s ttl vk = (True, vk1)" using assms(3) s(1) by (simp add: cache_defs)
  have key: "va_key vk1 = va_key vk" using set by (auto simp: va_Set_def split: prod.splits)
  obtain q where q: "va_GetDel srv t1 key vk1 = (q, vk2)" "r1 = (case q of None \<Rightarrow> UFail | Some s \<Rightarrow> unmarshalCachedValue cv s t)"
    using assms(7) by (auto simp: cache_defs split: prod.splits option.splits)
  obtain q' where q': "va_GetDel srv t2 key vk2 = (q', vk3)" "r2 = (case q' of None \<Rightarrow> UFail | Some s \<Rightarrow> unmarshalCachedValue cv s t)"
    using assms(8) by (auto simp: cache_defs split: prod.splits option.splits)
  have key2: "va_key vk2 = va_key vk" using q(1) key by (auto simp: va_GetDel_def split: prod.splits)
  note l1 = va_Set_look [OF assms(1) set assms(4)]
  note g1 = va_GetDel_look [OF assms(1) q(1)] and g2 = va_GetDel_look [OF assms(1) q'(1)]
  have q_eq: "q = look (vaPrim vk1) t1 (va_key vk key)"
    using g1(3)  g1(4) assms(9) key by (cases q) auto
  then have r1: "r1 = (if 0 < ttl \<longrightarrow> t1 < now + ttl then USet v else UFail)"
    using l1 [OF assms(5)] q(2) s(2) by auto
  have "look (vaPrim vk2) t2 (va_key vk key) = None"
  proof (cases q)
    case None
    then have "\<not> (0 < ttl \<longrightarrow> t1 < now + ttl)" using q_eq l1 [OF assms(5)] by (auto split: if_splits)
    then have "look (vaPrim vk1) t2 (va_key vk key) = None" using l1 [of t2] assms(5,6) by auto
    then show ?thesis by (rule g1(2))
  next
    case (Some w)
    then show ?thesis unfolding key [symmetric] by (rule g1(3) [THEN conjunct2])
  qed
  moreover have "q' = Some w \<Longrightarrow> look (vaPrim vk2) t2 (va_key vk key) = Some w" for w
    unfolding key2 [symmetric] by (rule g2(3) [THEN conjunct1])
  ultimately have "q' = None" by (cases q') auto
  then show ?thesis using r1 q'(2) by simp
qed

definition ex_codecs :: "(unit, unit, unit) codecs" where
  "ex_codecs = \<lparr>cvFormatFloat = (\<lambda>_ _. []), cvParseFloat = (\<lambda>_ _. None), cvEncode = (\<lambda>_. []),
     cvDecode = (\<lambda>_. None), cvMarshal = (\<lambda>v. if v = VPtr (VNum KInt 49) then Some [0x31] else None),
     cvUnmarshal = (\<lambda>_. None)\<rparr>"

definition ex_cache :: "kv_store valkeyAdapter" where
  "ex_cache = \<lparr>vaPrefix = Some ''pw'', vaPrim = [], vaRep = None\<rparr>"

theorem cache_consume_once_witness:
  "fst (Cache_GetDel ex_codecs kvs 5 ''k'' (TNum KInt8)
     (snd (Cache_Set ex_codecs kvs 0 ''k'' (VNum KInt8 (- 128)) second ex_cache))) = USet (VNum KInt8 (- 128))"
proof -
  obtain r1 vk2 where a: "Cache_GetDel ex_codecs kvs 5 ''k'' (TNum KInt8)
      (snd (Cache_Set ex_codecs kvs 0 ''k'' (VNum KInt8 (- 128)) second ex_cache)) = (r1, vk2)"
    by (metis surj_pair)
  obtain r2 vk3 where b: "Cache_GetDel ex_codecs kvs 6 ''k'' (TNum KInt8) vk2 = (r2, vk3)"
    by (metis surj_pair)
  have set: "Cache_Set ex_codecs kvs 0 ''k'' (VNum KInt8 (- 128)) second ex_cache =
      (True, snd (Cache_Set ex_codecs kvs 0 ''k'' (VNum KInt8 (- 128)) second ex_cache))"
    by (simp add: Cache_Set_def kvs_Set)
  have fit: "fits ex_codecs (TNum KInt8) (VNum KInt8 (- 128))"
    by (simp add: fits_def intk_signed_def int_range_def)
  have "r1 = (if 0 < second \<longrightarrow> 5 < 0 + second then USet (VNum KInt8 (- 128)) else UFail) \<and> r2 = UFail"
    by (rule cache_consume_once [OF kvs_ok fit set _ _ _ a b])
      (simp_all add: second_def)
  then show ?thesis using a by (simp add: second_def)
qed

text \<open>\<open>CacheThis\<close> for a number stores the value through a pointer, which goes through
  msgpack, but reads it back as decimal text.  The count 49, whose msgpack encoding is the
  single byte of the character 1, is read back as 1.\<close>

theorem cache_this_misread:
  assumes "kv_ok srv look" "vaRep vk = None" "cvMarshal cv (VPtr (VNum KInt 49)) = Some [0x31]"
    and "cacheThis_do cv srv now key (5 * second) (TNum KInt) zero (Ok (VNum KInt 49)) vk = (r1, vk1)"
    and "Cache_Get cv srv now key (TNum KInt) vk = UFail"
    and "fst (Cache_Set cv srv now key (VPtr (VNum KInt 49)) (5 * second) vk)"
    and "now \<le> t" "t < now + 5 * second" "kvGET srv t (va_key vk key) (vaPrim vk1) \<noteq> KvErr"
  shows "r1 = Ok (VNum KInt 49) \<and> cacheThis_do cv srv t key (5 * second) (TNum KInt) zero fetch vk1 = (Ok (VNum KInt 1), vk1)"
proof -
  have one: "bytes_str [0x31] = ''1''"
    by code_simp
  have r: "r1 = Ok (VNum KInt 49)" "vk1 = snd (va_Set srv now key ''1'' (5 * second) vk)"
    "fst (va_Set srv now key ''1'' (5 * second) vk)"
    using assms(3-6) by (simp_all add: cacheThis_do_def Cache_Set_def one)
  then have set: "va_Set srv now key ''1'' (5 * second) vk = (True, vk1)"
    by (metis prod.collapse)
  have k: "va_key vk1 = va_key vk" "vaRep vk1 = None"
    using set assms(2) by (auto simp: va_Set_def split: prod.splits)
  have "look (vaPrim vk1) t (va_key vk key) = Some ''1''"
    using va_Set_look [OF assms(1) set _ assms(7)] assms(8) by (simp add: second_def)
  moreover have "kvGET srv t (va_key vk key) (vaPrim vk1) =
      (case look (vaPrim vk1) t (va_key vk key) of Some v \<Rightarrow> KvVal v | None \<Rightarrow> KvNil)"
    using assms(1,9) unfolding kv_ok_def by blast
  ultimately have "va_Get srv t key vk1 = Some ''1''"
    using k by (simp add: va_Get_def va_replica_def)
  moreover have "unmarshalCachedValue cv ''1'' (TNum KInt) = USet (VNum KInt 1)"
    by (simp add: of_option_def convertStrToNumber_def intk_signed_def ParseInt_def ParseUint_def
        is_digit_def digit_val_def)
  ultimately show ?thesis by (simp add: r(1) cacheThis_do_def Cache_Get_def)
qed

lemma ex_cache_Get: "Cache_Get cv kvs now key t ex_cache = UFail"
  by (simp add: Cache_Get_def va_Get_def va_replica_def ex_cache_def kvs_def kvs_look_def)

theorem cache_this_misread_witness:
  "fst (cacheThis_do ex_codecs kvs 3 ''total'' (5 * second) (TNum KInt) (VNum KInt 0) (Ok (VNum KInt 50) :: (_, unit) outcome)
     (snd (cacheThis_do ex_codecs kvs 0 ''total'' (5 * second) (TNum KInt) (VNum KInt 0)
        (Ok (VNum KInt 49) :: (_, unit) outcome) ex_cache))) = Ok (VNum KInt 1)"
proof -
  let ?d = "cacheThis_do ex_codecs kvs 0 ''total'' (5 * second) (TNum KInt) (VNum KInt 0)
        (Ok (VNum KInt 49) :: (_, unit) outcome) ex_cache"
  have "fst ?d = Ok (VNum KInt 49) \<and>
    cacheThis_do ex_codecs kvs 3 ''total'' (5 * second) (TNum KInt) (VNum KInt 0) (Ok (VNum KInt 50) :: (_, unit) outcome)
      (snd ?d) = (Ok (VNum KInt 1), snd ?d)"
  proof (rule cache_this_misread [OF kvs_ok])
    show "Cache_Get ex_codecs kvs 0 ''total'' (TNum KInt) ex_cache = UFail" by (rule ex_cache_Get)
  qed (simp_all add: ex_cache_def ex_codecs_def second_def Cache_Set_def kvs_Set)
  then show ?thesis by simp
qed

end
