(* ===== verification/Tokens.thy ===== *)
theory Tokens
  imports Cache Auth Aerror
begin

text \<open>
  The two kinds of tokens of the delivery layer: the connection token of \<open>exchange-token\<close>,
  stored in the cache for ten seconds and consumed by the first use, and the signed
  instance id of anonymous clients in \<open>mediator/delivery/anon_instance.go\<close>.  Parameters:
  the msgpack codec of the identity (\<open>mm\<close>, \<open>mu\<close>), the keyed hash (\<open>mac\<close>), and the random
  ids.  Time is in nanoseconds since the Unix epoch.
\<close>

subsection \<open>Connection tokens\<close>

definition Auth_Encode :: "(WebsocketAuth \<Rightarrow> bytes option) \<Rightarrow> WebsocketAuth \<Rightarrow> bytes" where
  "Auth_Encode mm d = (case mm d of Some b \<Rightarrow> b | None \<Rightarrow> [])"

definition Auth_Decode :: "(bytes \<Rightarrow> WebsocketAuth option) \<Rightarrow> bytes \<Rightarrow> (WebsocketAuth, unit) outcome" where
  "Auth_Decode mu b = (case mu b of Some x \<Rightarrow> Ok x | None \<Rightarrow> Err ())"

definition tokenTTL :: int where
  "tokenTTL = 10"

definition Exchange ::
    "('f, 'o, 'p) codecs \<Rightarrow> 's kv_srv \<Rightarrow> (WebsocketAuth \<Rightarrow> bytes option) \<Rightarrow> int \<Rightarrow> gostring \<Rightarrow> WebsocketAuth \<Rightarrow>
     's valkeyAdapter \<Rightarrow> (gostring, ErrorCode) outcome \<times> 's valkeyAdapter" where
  "Exchange cv srv mm now nanoID auth vk =
     (let connTmpToken = nanoID in
      case Cache_Set cv srv now connTmpToken (VBytes (Auth_Encode mm auth)) (tokenTTL * second) vk of
        (setable, vk) \<Rightarrow>
          if \<not> setable then (Err ErrUnexpectedRedis, vk) else (Ok connTmpToken, vk))"

definition ScanConnToken ::
    "('f, 'o, 'p) codecs \<Rightarrow> 's kv_srv \<Rightarrow> (bytes \<Rightarrow> WebsocketAuth option) \<Rightarrow> int \<Rightarrow> gostring \<Rightarrow>
     's valkeyAdapter \<Rightarrow> (WebsocketAuth, ErrorCode) outcome \<times> 's valkeyAdapter" where
  "ScanConnToken cv srv mu now connTmpToken vk =
     (case Cache_GetDel cv srv now connTmpToken TString vk of
        (USet (VString authEncoded), vk) \<Rightarrow>
          (case Auth_Decode mu (str_bytes authEncoded) of
             Ok auth \<Rightarrow> (Ok auth, vk)
           | Err _ \<Rightarrow> (Err ErrUnexpectedCodeLogic, vk)
           | Panic \<Rightarrow> (Panic, vk))
      | (_, vk) \<Rightarrow> (Err RecordNotFound, vk))"

text \<open>The operations all containers perform on the shared store, in order, with their times.\<close>

datatype tk_op = TkExchange gostring WebsocketAuth | TkScan gostring

datatype tk_res = TkIssued "(gostring, ErrorCode) outcome" | TkScanned "(WebsocketAuth, ErrorCode) outcome"

fun tk_exec ::
    "('f, 'o, 'p) codecs \<Rightarrow> 's kv_srv \<Rightarrow> (WebsocketAuth \<Rightarrow> bytes option) \<Rightarrow> (bytes \<Rightarrow> WebsocketAuth option) \<Rightarrow>
     int \<Rightarrow> tk_op \<Rightarrow> 's valkeyAdapter \<Rightarrow> tk_res \<times> 's valkeyAdapter" where
  "tk_exec cv srv mm mu now (TkExchange n auth) vk =
     (case Exchange cv srv mm now n auth vk of (r, vk) \<Rightarrow> (TkIssued r, vk))"
| "tk_exec cv srv mm mu now (TkScan tok) vk =
     (case ScanConnToken cv srv mu now tok vk of (r, vk) \<Rightarrow> (TkScanned r, vk))"

fun tk_run ::
    "('f, 'o, 'p) codecs \<Rightarrow> 's kv_srv \<Rightarrow> (WebsocketAuth \<Rightarrow> bytes option) \<Rightarrow> (bytes \<Rightarrow> WebsocketAuth option) \<Rightarrow>
     (int \<times> tk_op) list \<Rightarrow> 's valkeyAdapter \<Rightarrow> (tk_op \<times> tk_res) list \<times> 's valkeyAdapter" where
  "tk_run cv srv mm mu [] vk = ([], vk)"
| "tk_run cv srv mm mu ((now, op) # ops) vk =
     (case tk_exec cv srv mm mu now op vk of
        (res, vk) \<Rightarrow> (case tk_run cv srv mm mu ops vk of (log, vk) \<Rightarrow> ((op, res) # log, vk)))"

fun tk_issues :: "tk_op \<Rightarrow> gostring list" where
  "tk_issues (TkExchange n _) = [n]"
| "tk_issues (TkScan _) = []"

definition tk_accepted :: "gostring \<Rightarrow> (tk_op \<times> tk_res) \<Rightarrow> bool" where
  "tk_accepted tok e \<longleftrightarrow> fst e = TkScan tok \<and> (\<exists>a. snd e = TkScanned (Ok a))"

lemma ScanConnToken_cases:
  obtains "va_GetDel srv now tok vk = (None, snd (ScanConnToken cv srv mu now tok vk))"
      "fst (ScanConnToken cv srv mu now tok vk) = Err RecordNotFound"
  | s where "va_GetDel srv now tok vk = (Some s, snd (ScanConnToken cv srv mu now tok vk))"
      "fst (ScanConnToken cv srv mu now tok vk) =
         (case mu (str_bytes s) of Some a \<Rightarrow> Ok a | None \<Rightarrow> Err ErrUnexpectedCodeLogic)"
  by (cases "va_GetDel srv now tok vk"; cases "fst (va_GetDel srv now tok vk)")
    (auto simp: ScanConnToken_def Cache_GetDel_def Auth_Decode_def split: option.split)

lemma ScanConnToken_va: "\<exists>q. va_GetDel srv now tok vk = (q, snd (ScanConnToken cv srv mu now tok vk))"
  by (cases rule: ScanConnToken_cases [of srv now tok vk cv mu]) auto

lemma Exchange_va:
  "Exchange cv srv mm now n a vk =
     (case va_Set srv now n (bytes_str (Auth_Encode mm a)) (tokenTTL * second) vk of
        (ok, vk) \<Rightarrow> (if ok then Ok n else Err ErrUnexpectedRedis, vk))"
  by (simp add: Exchange_def Cache_Set_def split: prod.split)

lemma tk_exec_key [simp]: "va_key (snd (tk_exec cv srv mm mu now op vk)) = va_key vk"
proof (cases op)
  case (TkExchange n a)
  then show ?thesis by (auto simp: Exchange_va va_Set_def split: prod.split)
next
  case (TkScan tok)
  then show ?thesis
    by (cases rule: ScanConnToken_cases [of srv now tok vk cv mu])
      (auto simp: va_GetDel_def split: prod.splits)
qed

lemma tk_run_key [simp]: "va_key (snd (tk_run cv srv mm mu ops vk)) = va_key vk"
proof (induction ops arbitrary: vk)
  case (Cons a ops)
  then show ?case by (cases a) (simp add: split_beta)
qed simp

text \<open>An operation that does not issue the token leaves an absent one absent, and one that
  neither issues nor scans it leaves it as it is.\<close>

lemma failed_Set_look:
  assumes "kv_ok srv look" "va_Set srv now key v ttl vk = (False, vk')" "k \<noteq> va_key vk key"
  shows "look (vaPrim vk') t k = look (vaPrim vk) t k"
  using assms unfolding kv_ok_def by (fastforce simp: va_Set_def split: prod.splits)

lemma tk_exec_other:
  assumes "kv_ok srv look" "tk_exec cv srv mm mu now op vk = (res, vk')" "tok \<notin> set (tk_issues op)" "now \<le> t"
  shows "op \<noteq> TkScan tok \<Longrightarrow> look (vaPrim vk') t (va_key vk tok) = look (vaPrim vk) t (va_key vk tok)"
    and "look (vaPrim vk) t (va_key vk tok) = None \<Longrightarrow> look (vaPrim vk') t (va_key vk tok) = None"
proof -
  have keep: "op \<noteq> TkScan tok \<Longrightarrow> look (vaPrim vk') t (va_key vk tok) = look (vaPrim vk) t (va_key vk tok)"
  proof (cases op)
    case (TkExchange n a)
    obtain ok vk1 where s: "va_Set srv now n (bytes_str (Auth_Encode mm a)) (tokenTTL * second) vk = (ok, vk1)"
      by (metis surj_pair)
    then have vk1: "vk' = vk1" using assms(2) TkExchange by (simp add: Exchange_va)
    have ne: "va_key vk tok \<noteq> va_key vk n" using assms(3) TkExchange by (simp add: va_key_inj)
    show ?thesis
    proof (cases ok)
      case True
      with s have "va_Set srv now n (bytes_str (Auth_Encode mm a)) (tokenTTL * second) vk = (True, vk1)" by simp
      then show ?thesis using va_Set_look [OF assms(1) _ _ assms(4)] ne vk1 by simp
    next
      case False
      with s have "va_Set srv now n (bytes_str (Auth_Encode mm a)) (tokenTTL * second) vk = (False, vk1)" by simp
      then show ?thesis using failed_Set_look [OF assms(1) _ ne] vk1 by simp
    qed
  next
    case (TkScan tok')
    assume "op \<noteq> TkScan tok"
    then have ne: "va_key vk tok \<noteq> va_key vk tok'" using TkScan by (simp add: va_key_inj)
    obtain q where "va_GetDel srv now tok' vk = (q, vk')"
      using ScanConnToken_va [of srv now tok' vk cv mu] assms(2) TkScan by (auto split: prod.splits)
    then show ?thesis by (rule va_GetDel_look(1) [OF assms(1) _ ne])
  qed
  show "op \<noteq> TkScan tok \<Longrightarrow> look (vaPrim vk') t (va_key vk tok) = look (vaPrim vk) t (va_key vk tok)"
    by (rule keep)
  assume none: "look (vaPrim vk) t (va_key vk tok) = None"
  show "look (vaPrim vk') t (va_key vk tok) = None"
  proof (cases "op = TkScan tok")
    case True
    obtain q where "va_GetDel srv now tok vk = (q, vk')"
      using ScanConnToken_va [of srv now tok vk cv mu] assms(2) True by (auto split: prod.splits)
    then show ?thesis using none by (rule va_GetDel_look(2) [OF assms(1)])
  qed (use keep none in simp)
qed

lemma tk_absent_rejected:
  assumes "kv_ok srv look" "sorted (map fst ops)" "\<forall>t now op. (now, op) \<in> set ops \<longrightarrow> t0 \<le> now"
    and "\<And>t. t0 \<le> t \<Longrightarrow> look (vaPrim vk) t (va_key vk tok) = None"
    and "tok \<notin> set (concat (map (tk_issues \<circ> snd) ops))"
  shows "filter (tk_accepted tok) (fst (tk_run cv srv mm mu ops vk)) = []"
  using assms(2-)
proof (induction ops arbitrary: vk t0)
  case (Cons a ops)
  obtain now op where a: "a = (now, op)" by (cases a)
  obtain res vk' where e: "tk_exec cv srv mm mu now op vk = (res, vk')" by (metis surj_pair)
  have key: "va_key vk' = va_key vk" using tk_exec_key [of cv srv mm mu now op vk] e by simp
  have t0: "t0 \<le> now" using Cons.prems(2) a by auto
  have ni: "tok \<notin> set (tk_issues op)" "tok \<notin> set (concat (map (tk_issues \<circ> snd) ops))" using Cons.prems(4) a by auto
  have "filter (tk_accepted tok) (fst (tk_run cv srv mm mu ops vk')) = []"
  proof (rule Cons.IH [where ?t0.0 = now])
    show "sorted (map fst ops)" "\<forall>t now' op. (now', op) \<in> set ops \<longrightarrow> now \<le> now'" using Cons.prems(1) a by auto
    show "look (vaPrim vk') t (va_key vk' tok) = None" if "now \<le> t" for t
      using tk_exec_other(2) [OF assms(1) e ni(1) that] Cons.prems(3) [of t] t0 that key by simp
  qed (rule ni(2))
  moreover have "\<not> tk_accepted tok (op, res)"
  proof
    assume "tk_accepted tok (op, res)"
    then obtain au where op: "op = TkScan tok" "res = TkScanned (Ok au)" by (auto simp: tk_accepted_def)
    then obtain s where "va_GetDel srv now tok vk = (Some s, vk')"
      using e by (cases rule: ScanConnToken_cases [of srv now tok vk cv mu]) (auto split: prod.splits)
    then have "look (vaPrim vk) now (va_key vk tok) = Some s"
      using va_GetDel_look(3) [OF assms(1)] by blast
    then show False using Cons.prems(3) [OF t0] by simp
  qed
  ultimately show ?case using a e by (simp add: split_beta)
qed simp

lemma tk_gone_after:
  assumes "kv_ok srv look" "tk_exec cv srv mm mu now (TkScan tok) vk = (TkScanned (Ok a), vk')"
  shows "look (vaPrim vk') t (va_key vk' tok) = None"
proof -
  obtain s where s: "va_GetDel srv now tok vk = (Some s, vk')"
    using assms(2) by (cases rule: ScanConnToken_cases [of srv now tok vk cv mu]) (auto split: prod.splits)
  have "va_key vk' = va_key vk" using tk_exec_key [of cv srv mm mu now "TkScan tok" vk] assms(2) by simp
  then show ?thesis using va_GetDel_look(3) [OF assms(1) s] by simp
qed

lemma tk_accepted_once:
  assumes "kv_ok srv look" "sorted (map fst ops)" "tok \<notin> set (concat (map (tk_issues \<circ> snd) ops))"
  shows "length (filter (tk_accepted tok) (fst (tk_run cv srv mm mu ops vk))) \<le> 1"
  using assms(2-)
proof (induction ops arbitrary: vk)
  case (Cons a ops)
  obtain now op where a: "a = (now, op)" by (cases a)
  obtain res vk' where e: "tk_exec cv srv mm mu now op vk = (res, vk')" by (metis surj_pair)
  have ops: "sorted (map fst ops)" "tok \<notin> set (concat (map (tk_issues \<circ> snd) ops))"
    "\<forall>t now' op. (now', op) \<in> set ops \<longrightarrow> now \<le> now'" using Cons.prems a by auto
  show ?case
  proof (cases "tk_accepted tok (op, res)")
    case True
    then obtain au where "op = TkScan tok" "res = TkScanned (Ok au)" by (auto simp: tk_accepted_def)
    then have "look (vaPrim vk') t (va_key vk' tok) = None" for t
      using tk_gone_after [OF assms(1)] e by blast
    then have "filter (tk_accepted tok) (fst (tk_run cv srv mm mu ops vk')) = []"
      by (intro tk_absent_rejected [OF assms(1) ops(1,3) _ ops(2)])
    then show ?thesis using a e True by (simp add: split_beta)
  next
    case False
    then show ?thesis using Cons.IH [OF ops(1,2), of vk'] a e by (simp add: split_beta)
  qed
qed simp

lemma tk_accepted_once_from:
  assumes "kv_ok srv look" "sorted (map fst ops)" "\<forall>now op. (now, op) \<in> set ops \<longrightarrow> t0 \<le> now"
    and "distinct (concat (map (tk_issues \<circ> snd) ops))"
    and "\<And>t. t0 \<le> t \<Longrightarrow> look (vaPrim vk) t (va_key vk tok) = None"
  shows "length (filter (tk_accepted tok) (fst (tk_run cv srv mm mu ops vk))) \<le> 1"
  using assms(2-)
proof (induction ops arbitrary: vk t0)
  case (Cons a ops)
  obtain now op where a: "a = (now, op)" by (cases a)
  obtain res vk' where e: "tk_exec cv srv mm mu now op vk = (res, vk')" by (metis surj_pair)
  have key: "va_key vk' = va_key vk" using tk_exec_key [of cv srv mm mu now op vk] e by simp
  have t0: "t0 \<le> now" using Cons.prems(2) a by auto
  show ?case
  proof (cases "tok \<in> set (tk_issues op)")
    case True
    then have "tok \<notin> set (concat (map (tk_issues \<circ> snd) ops))" using Cons.prems(3) a by auto
    moreover have "\<not> tk_accepted tok (op, res)" using True by (cases op) (auto simp: tk_accepted_def)
    ultimately show ?thesis using tk_accepted_once [OF assms(1), of ops tok cv mm mu vk'] Cons.prems(1) a e
      by (simp add: split_beta)
  next
    case False
    have "\<not> tk_accepted tok (op, res)"
      using tk_absent_rejected [OF assms(1), of "[(now, op)]" t0 vk tok cv mm mu] Cons.prems(4) t0 False e
      by (simp split: if_splits)
    moreover have "length (filter (tk_accepted tok) (fst (tk_run cv srv mm mu ops vk'))) \<le> 1"
    proof (rule Cons.IH [where ?t0.0 = now])
      show "look (vaPrim vk') t (va_key vk' tok) = None" if "now \<le> t" for t
        using tk_exec_other(2) [OF assms(1) e False that] Cons.prems(4) [of t] t0 that key by simp
    qed (use Cons.prems a in auto)
    ultimately show ?thesis using a e by (simp add: split_beta)
  qed
qed simp

text \<open>C12: A connection token opens at most one connection: in every sequence of token issues
  and scans by any number of containers, whose random ids are distinct and new, every token
  is accepted at most once, whatever replies get lost and whatever the replica holds.\<close>

theorem token_single_use:
  assumes "kv_ok srv look" "sorted (map fst ops)" "distinct (concat (map (tk_issues \<circ> snd) ops))"
    and "\<forall>t. look (vaPrim vk) t (va_key vk tok) = None"
  shows "length (filter (tk_accepted tok) (fst (tk_run cv srv mm mu ops vk))) \<le> 1"
  using assms by (intro tk_accepted_once_from [of srv look ops "if ops = [] then 0 else fst (hd ops)"])
    (fastforce simp: neq_Nil_conv)+

definition ex_user :: WebsocketAuth where
  "ex_user = \<lparr>auUserID = ''u'', auInstanceID = ''i'', auMetadata = []\<rparr>"

theorem token_single_use_witness:
  "length (filter (tk_accepted ''n'') (fst (tk_run ex_codecs kvs (\<lambda>_. Some [1]) (\<lambda>_. Some ex_user)
     [(0, TkExchange ''n'' ex_user), (1, TkScan ''n''), (2, TkScan ''n'')] ex_cache))) \<le> 1"
  by (rule token_single_use [OF kvs_ok]) (simp_all add: ex_cache_def kvs_look_def)

lemma tk_run_other:
  assumes "kv_ok srv look" "tok \<notin> set (concat (map (tk_issues \<circ> snd) ops))"
    and "\<forall>now op. (now, op) \<in> set ops \<longrightarrow> now \<le> t \<and> op \<noteq> TkScan tok"
  shows "look (vaPrim (snd (tk_run cv srv mm mu ops vk))) t (va_key vk tok) = look (vaPrim vk) t (va_key vk tok)"
  using assms(2-)
proof (induction ops arbitrary: vk)
  case (Cons a ops)
  obtain now op where a: "a = (now, op)" by (cases a)
  obtain res vk' where e: "tk_exec cv srv mm mu now op vk = (res, vk')" by (metis surj_pair)
  have key: "va_key vk' = va_key vk" using tk_exec_key [of cv srv mm mu now op vk] e by simp
  have "look (vaPrim (snd (tk_run cv srv mm mu ops vk'))) t (va_key vk' tok) = look (vaPrim vk') t (va_key vk' tok)"
    using Cons.prems a by (intro Cons.IH) auto
  moreover have "look (vaPrim vk') t (va_key vk tok) = look (vaPrim vk) t (va_key vk tok)"
    using Cons.prems a by (intro tk_exec_other(1) [OF assms(1) e]) auto
  ultimately show ?case using a e key by (simp add: split_beta)
qed simp

lemma scan_issued:
  assumes "kv_ok srv look" "mm auth = Some b" "mu b = Some auth"
    and "Exchange cv srv mm now n auth vk = (Ok tok, vk1)"
    and "tok \<notin> set (concat (map (tk_issues \<circ> snd) ops))"
    and "\<forall>t op. (t, op) \<in> set ops \<longrightarrow> t \<le> later \<and> op \<noteq> TkScan tok" "now \<le> later"
    and "vk2 = snd (tk_run cv srv mm mu ops vk1)"
    and "fst (kvGETDEL srv later (va_key vk tok) (vaPrim vk2)) \<noteq> KvErr"
  shows "fst (ScanConnToken cv srv mu later tok vk2) =
    (if later < now + 10 * second then Ok auth else Err RecordNotFound)"
proof -
  have set: "va_Set srv now tok (bytes_str b) (tokenTTL * second) vk = (True, vk1)"
    using assms(2,4) by (auto simp: Exchange_va Auth_Encode_def split: prod.splits if_splits)
  have k1: "va_key vk1 = va_key vk" using set by (auto simp: va_Set_def split: prod.splits)
  have "look (vaPrim vk2) later (va_key vk tok) = look (vaPrim vk1) later (va_key vk tok)"
    using tk_run_other [OF assms(1,5,6), of cv mm mu vk1] k1 assms(8) by simp
  also have "\<dots> = (if later < now + 10 * second then Some (bytes_str b) else None)"
    using va_Set_look [OF assms(1) set _ assms(7)] by (simp add: tokenTTL_def second_def)
  finally have l: "look (vaPrim vk2) later (va_key vk2 tok) = (if later < now + 10 * second then Some (bytes_str b) else None)"
    using k1 assms(8) by simp
  have ne: "fst (kvGETDEL srv later (va_key vk2 tok) (vaPrim vk2)) \<noteq> KvErr" using assms(8,9) k1 by simp
  show ?thesis
  proof (cases rule: ScanConnToken_cases [of srv later tok vk2 cv mu])
    case 1
    then show ?thesis using va_GetDel_look(4) [OF assms(1) 1(1) refl ne] l by (simp split: if_splits)
  next
    case (2 s)
    have "(if later < now + 10 * second then Some (bytes_str b) else None) = Some s"
      using va_GetDel_look(3) [OF assms(1) 2(1) refl] l by simp
    then have "later < now + 10 * second" "str_bytes s = b" by (auto split: if_splits)
    then show ?thesis using 2(2) assms(3) by simp
  qed
qed

text \<open>A connection token gives the identity it was issued for: the first scan of a token
  less than ten seconds after its issue returns exactly the exchanged identity, whatever
  happens to other tokens in between, and a scan after ten seconds finds nothing.\<close>

theorem token_roundtrip:
  assumes "kv_ok srv look" "mm auth = Some b" "mu b = Some auth"
    and "Exchange cv srv mm now n auth vk = (Ok tok, vk1)"
    and "tok \<notin> set (concat (map (tk_issues \<circ> snd) ops))"
    and "\<forall>t op. (t, op) \<in> set ops \<longrightarrow> t \<le> later \<and> op \<noteq> TkScan tok" "now \<le> later"
    and "vk2 = snd (tk_run cv srv mm mu ops vk1)"
    and "fst (kvGETDEL srv later (va_key vk tok) (vaPrim vk2)) \<noteq> KvErr"
  shows "fst (ScanConnToken cv srv mu later tok vk2) =
    (if later < now + 10 * second then Ok auth else Err RecordNotFound)"
  using assms by (rule scan_issued)

theorem token_roundtrip_witness:
  "fst (ScanConnToken ex_codecs kvs (\<lambda>_. Some ex_user) 3 ''n''
     (snd (tk_run ex_codecs kvs (\<lambda>_. Some [1]) (\<lambda>_. Some ex_user) [(2, TkScan ''m'')]
       (snd (Exchange ex_codecs kvs (\<lambda>_. Some [1]) 1 ''n'' ex_user ex_cache))))) = Ok ex_user"
proof -
  have x: "Exchange ex_codecs kvs (\<lambda>_. Some [1]) 1 ''n'' ex_user ex_cache =
      (Ok ''n'', snd (Exchange ex_codecs kvs (\<lambda>_. Some [1]) 1 ''n'' ex_user ex_cache))"
    by (simp add: Exchange_va kvs_Set)
  have "fst (ScanConnToken ex_codecs kvs (\<lambda>_. Some ex_user) 3 ''n''
     (snd (tk_run ex_codecs kvs (\<lambda>_. Some [1]) (\<lambda>_. Some ex_user) [(2, TkScan ''m'')]
       (snd (Exchange ex_codecs kvs (\<lambda>_. Some [1]) 1 ''n'' ex_user ex_cache))))) =
     (if 3 < 1 + 10 * second then Ok ex_user else Err RecordNotFound)"
    by (rule token_roundtrip [OF kvs_ok _ _ x, where ops = "[(2, TkScan ''m'')]"]) simp_all
  then show ?thesis by (simp add: second_def)
qed

subsection \<open>Signed ids of anonymous clients\<close>

definition anonymousInstanceMaxAge :: int where
  "anonymousInstanceMaxAge = 6 * 3600 * second"

definition signer_sign :: "(gostring \<Rightarrow> gostring) \<Rightarrow> gostring \<Rightarrow> gostring" where
  "signer_sign mac payload = payload @ ''.'' @ mac payload"

text \<open>The instant of \<open>time.Unix(sec, 0)\<close>: the seconds are counted from year 1 in 64 bits, so
  that very large values wrap around.\<close>

definition unix_instant :: "int \<Rightarrow> int" where
  "unix_instant sec = (sgn64 (sec + 62135596800) - 62135596800) * second"

definition signer_verify :: "(gostring \<Rightarrow> gostring) \<Rightarrow> int \<Rightarrow> gostring \<Rightarrow> bool" where
  "signer_verify mac now token =
     (case Cut token CHR ''.'' of
        (payload, sig, found) \<Rightarrow>
          if \<not> found \<or> payload = [] \<or> sig = [] then False
          else if sig \<noteq> mac payload then False
          else case Cut payload CHR '':'' of
                 (_, mintedAtStr, found) \<Rightarrow>
                   if \<not> found then False
                   else case ParseInt 64 mintedAtStr of
                          None \<Rightarrow> False
                        | Some mintedAt \<Rightarrow> now - unix_instant mintedAt \<le> anonymousInstanceMaxAge)"

definition readAnonymousInstanceID :: "(gostring \<Rightarrow> gostring) \<Rightarrow> int \<Rightarrow> gostring \<Rightarrow> gostring option" where
  "readAnonymousInstanceID mac now v = (if v = [] \<or> \<not> signer_verify mac now v then None else Some v)"

definition mintOrReadAnonymousInstanceID :: "(gostring \<Rightarrow> gostring) \<Rightarrow> int \<Rightarrow> gostring \<Rightarrow> gostring \<Rightarrow> gostring" where
  "mintOrReadAnonymousInstanceID mac now nanoID v =
     (case readAnonymousInstanceID mac now v of
        Some token \<Rightarrow> token
      | None \<Rightarrow> signer_sign mac (nanoID @ '':'' @ FormatInt (now div second)))"

text \<open>Exactly the strings that are a payload with its own hash, name a time and are not too
  old are accepted.\<close>

lemma signer_verify_iff:
  "signer_verify mac now token \<longleftrightarrow>
     (\<exists>payload i at sec. token = signer_sign mac payload \<and> CHR ''.'' \<notin> set payload \<and> mac payload \<noteq> [] \<and>
        payload = i @ '':'' @ at \<and> CHR '':'' \<notin> set i \<and> ParseInt 64 at = Some sec \<and>
        now - unix_instant sec \<le> anonymousInstanceMaxAge)"
    (is "_ \<longleftrightarrow> ?R")
proof
  assume v: "signer_verify mac now token"
  obtain payload sig f where c: "Cut token CHR ''.'' = (payload, sig, f)" by (cases "Cut token CHR ''.''") auto
  then have f: "f" "sig = mac payload" "sig \<noteq> []" using v by (auto simp: signer_verify_def split: if_splits)
  obtain i at g where d: "Cut payload CHR '':'' = (i, at, g)" by (cases "Cut payload CHR '':''") auto
  then obtain sec where g: "g" "ParseInt 64 at = Some sec" "now - unix_instant sec \<le> anonymousInstanceMaxAge"
    using v c by (auto simp: signer_verify_def split: if_splits option.splits)
  have "token = signer_sign mac payload \<and> CHR ''.'' \<notin> set payload" "payload = i @ '':'' @ at \<and> CHR '':'' \<notin> set i"
    using Cut_found [of token] Cut_found [of payload] c d f g by (auto simp: signer_sign_def)
  then show ?R using f g by blast
next
  assume ?R
  then obtain payload i at sec where p: "token = signer_sign mac payload" "CHR ''.'' \<notin> set payload" "mac payload \<noteq> []"
    "payload = i @ '':'' @ at" "CHR '':'' \<notin> set i" "ParseInt 64 at = Some sec"
    "now - unix_instant sec \<le> anonymousInstanceMaxAge" by blast
  have "Cut token CHR ''.'' = (payload, mac payload, True)"
    using Cut_present [OF p(2)] by (simp add: p(1) signer_sign_def)
  moreover have "Cut payload CHR '':'' = (i, at, True)"
    using Cut_present [OF p(5)] by (simp add: p(4))
  ultimately
  show "signer_verify mac now token" using p by (simp add: signer_verify_def)
qed

lemma nano_payload_chars:
  assumes "CHR ''.'' \<notin> set n"
  shows "CHR ''.'' \<notin> set (n @ '':'' @ FormatInt k)"
  using assms FormatInt_chars [of "CHR ''.''" k] by (auto simp: is_digit_def)

lemma minted_verify:
  assumes "mac (n @ '':'' @ FormatInt k) \<noteq> []" "CHR ''.'' \<notin> set n" "CHR '':'' \<notin> set n" "0 \<le> k" "k < 2 ^ 62"
  shows "signer_verify mac t (signer_sign mac (n @ '':'' @ FormatInt k)) \<longleftrightarrow>
    t - k * second \<le> anonymousInstanceMaxAge"
proof -
  let ?p = "n @ '':'' @ FormatInt k"
  have c: "Cut (signer_sign mac ?p) CHR ''.'' = (?p, mac ?p, True)"
    using Cut_present [of "CHR ''.''" ?p "mac ?p"] nano_payload_chars [OF assms(2)] by (simp add: signer_sign_def)
  have d: "Cut ?p CHR '':'' = (n, FormatInt k, True)"
    using Cut_present [OF assms(3), of "FormatInt k"] by simp
  have p: "ParseInt 64 (FormatInt k) = Some k"
    using assms(4,5) by (intro ParseInt_FormatInt) (simp_all add: int_range_def)
  have u: "unix_instant k = k * second"
    using assms(4,5) by (simp add: unix_instant_def sgn64_id)
  show ?thesis unfolding signer_verify_def c prod.case d p u option.case using assms(1) by simp
qed

text \<open>The id minted for an anonymous client is accepted, and returned unchanged by later
  requests, for six hours from the second of its minting and no longer; presenting it does
  not prolong its life, and after its expiry the client gets a newly minted id.\<close>

theorem anonymous_id_lifetime:
  assumes "\<forall>p. mac p \<noteq> []" "CHR ''.'' \<notin> set n" "CHR '':'' \<notin> set n" "0 \<le> now" "now div second < 2 ^ 62"
    and "readAnonymousInstanceID mac now v = None"
    and "token = mintOrReadAnonymousInstanceID mac now n v"
  shows "mintOrReadAnonymousInstanceID mac later m token =
    (if later \<le> now div second * second + 6 * 3600 * second then token
     else signer_sign mac (m @ '':'' @ FormatInt (later div second)))"
proof -
  have tok: "token = signer_sign mac (n @ '':'' @ FormatInt (now div second))"
    using assms(6,7) by (simp add: mintOrReadAnonymousInstanceID_def)
  have "0 \<le> now div second" using assms(4) by (simp add: second_def)
  then have "signer_verify mac later token \<longleftrightarrow> later - now div second * second \<le> anonymousInstanceMaxAge"
    using minted_verify [OF _ assms(2,3) _ assms(5)] assms(1) tok by blast
  then show ?thesis
    by (auto simp: mintOrReadAnonymousInstanceID_def readAnonymousInstanceID_def anonymousInstanceMaxAge_def
        tok signer_sign_def)
qed

theorem anonymous_id_lifetime_witness:
  "mintOrReadAnonymousInstanceID (\<lambda>_. ''s'') (5 * second) ''m''
     (mintOrReadAnonymousInstanceID (\<lambda>_. ''s'') 0 ''n'' []) = ''n:0.s''"
proof -
  have "mintOrReadAnonymousInstanceID (\<lambda>_. ''s'') 0 ''n'' [] = ''n:0.s''" by code_simp
  moreover have "mintOrReadAnonymousInstanceID (\<lambda>_. ''s'') (5 * second) ''m''
      (mintOrReadAnonymousInstanceID (\<lambda>_. ''s'') 0 ''n'' []) =
    (if 5 * second \<le> 0 div second * second + 6 * 3600 * second
     then mintOrReadAnonymousInstanceID (\<lambda>_. ''s'') 0 ''n'' []
     else signer_sign (\<lambda>_. ''s'') (''m'' @ '':'' @ FormatInt (5 * second div second)))"
    by (rule anonymous_id_lifetime [where v = "[]"]) (simp_all add: readAnonymousInstanceID_def)
  ultimately show ?thesis by (simp add: second_def)
qed

text \<open>C14: Only ids signed with the server's key are accepted from anonymous clients: when
  every string a client presents carries either the hash of a payload the server has
  signed or a wrong hash, an accepted id is one the server minted, at most six hours ago.\<close>

theorem anonymous_id_authentic:
  assumes "readAnonymousInstanceID mac now token = Some i"
    and "\<forall>payload. token = payload @ ''.'' @ mac payload \<longrightarrow>
      (\<exists>(n, t) \<in> set minted. payload = n @ '':'' @ FormatInt (t div second))"
    and "\<forall>(n, t) \<in> set minted. CHR '':'' \<notin> set n \<and> 0 \<le> t \<and> t div second < 2 ^ 62"
  shows "i = token \<and> (\<exists>(n, t) \<in> set minted.
    token = signer_sign mac (n @ '':'' @ FormatInt (t div second)) \<and> now \<le> t + 6 * 3600 * second)"
proof -
  obtain payload i' at sec where p: "token = signer_sign mac payload" "payload = i' @ '':'' @ at"
      "CHR '':'' \<notin> set i'" "ParseInt 64 at = Some sec" "now - unix_instant sec \<le> anonymousInstanceMaxAge"
    using assms(1) by (auto simp: readAnonymousInstanceID_def signer_verify_iff split: if_splits)
  then obtain n t where nt: "(n, t) \<in> set minted" "payload = n @ '':'' @ FormatInt (t div second)"
    using assms(2) unfolding signer_sign_def by blast
  have w: "CHR '':'' \<notin> set n" "0 \<le> t" "t div second < 2 ^ 62" using assms(3) nt(1) by auto
  have "at = FormatInt (t div second)"
    using Cut_present [OF p(3), of at] Cut_present [OF w(1), of "FormatInt (t div second)"] p(2) nt(2) by simp
  moreover have "0 \<le> t div second" using w(2) by (simp add: second_def)
  ultimately have "sec = t div second"
    using p(4) ParseInt_FormatInt [of 64 "t div second"] w(3) by (simp add: int_range_def)
  then have "now \<le> t div second * second + 6 * 3600 * second"
    using p(5) \<open>0 \<le> t div second\<close> w(3) by (simp add: unix_instant_def sgn64_id anonymousInstanceMaxAge_def)
  moreover have "t div second * second \<le> t" by (simp add: second_def)
  ultimately have "now \<le> t + 6 * 3600 * second" by linarith
  then show ?thesis using assms(1) nt p(1) by (auto simp: readAnonymousInstanceID_def split: if_splits)
qed

theorem anonymous_id_authentic_witness:
  "readAnonymousInstanceID (\<lambda>p. p @ ''s'') 5 ''n:0.n:0s'' = Some ''n:0.n:0s'' \<and>
   ''n:0.n:0s'' = signer_sign (\<lambda>p. p @ ''s'') (''n'' @ '':'' @ FormatInt (0 div second))"
proof -
  have z: "FormatInt 0 = ''0''" by code_simp
  have "signer_verify (\<lambda>p. p @ ''s'') 5 (signer_sign (\<lambda>p. p @ ''s'') (''n'' @ '':'' @ FormatInt 0)) \<longleftrightarrow>
      5 - 0 * second \<le> anonymousInstanceMaxAge"
    by (rule minted_verify) simp_all
  then have r: "readAnonymousInstanceID (\<lambda>p. p @ ''s'') 5 ''n:0.n:0s'' = Some ''n:0.n:0s''"
    by (simp add: z signer_sign_def readAnonymousInstanceID_def anonymousInstanceMaxAge_def second_def)
  have "''n:0.n:0s'' = ''n:0.n:0s'' \<and> (\<exists>(n, t) \<in> set [(''n'', 0 :: int)].
    ''n:0.n:0s'' = signer_sign (\<lambda>p. p @ ''s'') (n @ '':'' @ FormatInt (t div second)) \<and> 5 \<le> t + 6 * 3600 * second)"
  proof (rule anonymous_id_authentic [OF r])
    show "\<forall>payload. ''n:0.n:0s'' = payload @ ''.'' @ payload @ ''s'' \<longrightarrow>
        (\<exists>(n, t) \<in> set [(''n'', 0 :: int)]. payload = n @ '':'' @ FormatInt (t div second))"
    proof (intro allI impI)
      fix payload :: gostring
      assume e: "''n:0.n:0s'' = payload @ ''.'' @ payload @ ''s''"
      then have "length payload = 3" by (auto dest: arg_cong [where f = length])
      then have "payload = ''n:0''" using arg_cong [OF e, of "take 3"] by simp
      then show "\<exists>(n, t) \<in> set [(''n'', 0 :: int)]. payload = n @ '':'' @ FormatInt (t div second)"
        using z by simp
    qed
  qed simp
  then show ?thesis using r by simp
qed

end
