(* ===== verification/IpLimiter.thy ===== *)
theory IpLimiter
  imports GoStr
begin

text \<open>
  The per-address limiter of \<open>mediator/delivery/ip_rate_limiter.go\<close>.  A token-bucket
  limiter of \<open>golang.org/x/time/rate\<close> is an opaque state: \<open>new\<close> is a fresh one and
  \<open>allow now l\<close> asks it.  The theory also models \<open>net.SplitHostPort\<close>, which finds the
  address of a request.
\<close>

definition ipLimiterEntryTTL :: int where
  "ipLimiterEntryTTL = 10 * 60 * second"

record 'l ipLimiterEntry =
  ilLimiter :: 'l
  ilLastSeen :: int

type_synonym 'l ipRateLimiter = "(gostring, 'l ipLimiterEntry) gomap"

definition newIPRateLimiter :: "'l ipRateLimiter" where
  "newIPRateLimiter = []"

definition ip_prune :: "int \<Rightarrow> 'l ipRateLimiter \<Rightarrow> 'l ipRateLimiter" where
  "ip_prune now m = filter (\<lambda>(k, v). \<not> now - ilLastSeen v > ipLimiterEntryTTL) m"

definition ip_Allow :: "'l \<Rightarrow> (int \<Rightarrow> 'l \<Rightarrow> bool \<times> 'l) \<Rightarrow> int \<Rightarrow> gostring \<Rightarrow> 'l ipRateLimiter \<Rightarrow> bool \<times> 'l ipRateLimiter" where
  "ip_Allow new allow now ip m =
     (let entry = (case gm_get m ip of Some e \<Rightarrow> e | None \<Rightarrow> \<lparr>ilLimiter = new, ilLastSeen = now\<rparr>);
          entry = entry\<lparr>ilLastSeen := now\<rparr>;
          m = gm_put ip entry m;
          m = (if length m mod 256 = 0 then ip_prune now m else m)
      in case allow now (ilLimiter entry) of
           (ok, l) \<Rightarrow> (ok, if gm_has m ip then gm_put ip (entry\<lparr>ilLimiter := l\<rparr>) m else m))"

subsection \<open>Client address\<close>

definition last_index :: "char \<Rightarrow> gostring \<Rightarrow> nat option" where
  "last_index c s = (if c \<in> set s then Some (length s - 1 - length (takeWhile (\<lambda>x. x \<noteq> c) (rev s))) else None)"

definition first_index :: "char \<Rightarrow> gostring \<Rightarrow> nat option" where
  "first_index c s = (if c \<in> set s then Some (length (takeWhile (\<lambda>x. x \<noteq> c) s)) else None)"

definition SplitHostPort :: "gostring \<Rightarrow> (gostring \<times> gostring) option" where
  "SplitHostPort hostport =
     (case last_index CHR '':'' hostport of
        None \<Rightarrow> None
      | Some i \<Rightarrow>
          (case (if hd hostport = CHR ''['' then
                   (case first_index CHR '']'' hostport of
                      None \<Rightarrow> None
                    | Some e \<Rightarrow> if e + 1 = i then Some (take (e - 1) (drop 1 hostport), 1, e + 1) else None)
                 else
                   (let host = take i hostport in
                    if CHR '':'' \<in> set host then None else Some (host, 0, 0))) of
             None \<Rightarrow> None
           | Some (host, j, k) \<Rightarrow>
               if CHR ''['' \<in> set (drop j hostport) then None
               else if CHR '']'' \<in> set (drop k hostport) then None
               else Some (host, drop (i + 1) hostport)))"

text \<open>\<open>header\<close> is \<open>r.Header.Get\<close>, which gives the empty string for an absent header.\<close>

definition clientIP :: "(gostring \<Rightarrow> gostring) \<Rightarrow> gostring \<Rightarrow> gostring \<Rightarrow> gostring" where
  "clientIP header remoteAddr ipHeader =
     (if ipHeader \<noteq> [] \<and> header ipHeader \<noteq> [] then TrimSpace (fst (Cut (header ipHeader) CHR '',''))
      else case SplitHostPort remoteAddr of
             None \<Rightarrow> remoteAddr
           | Some (host, _) \<Rightarrow> host)"

lemma last_index_colon:
  "CHR '':'' \<notin> set q \<Longrightarrow> last_index CHR '':'' (p @ CHR '':'' # q) = Some (length p)"
proof -
  assume q: "CHR '':'' \<notin> set q"
  then have "takeWhile (\<lambda>x. x \<noteq> CHR '':'') (rev q @ CHR '':'' # rev p) = rev q"
    by (subst takeWhile_append2) auto
  then show ?thesis by (simp add: last_index_def)
qed

lemma SplitHostPort_plain:
  assumes "CHR '':'' \<notin> set h" "CHR '':'' \<notin> set p" "CHR ''['' \<notin> set (h @ p)" "CHR '']'' \<notin> set (h @ p)" "h \<noteq> []"
  shows "SplitHostPort (h @ '':'' @ p) = Some (h, p)"
proof -
  have "hd (h @ CHR '':'' # p) \<noteq> CHR ''[''" using assms(3,5) by (cases h) auto
  then show ?thesis using assms by (simp add: SplitHostPort_def last_index_colon)
qed

lemma SplitHostPort_ipv6:
  assumes "CHR '']'' \<notin> set h" "CHR ''['' \<notin> set h" "CHR '':'' \<notin> set p" "CHR ''['' \<notin> set p" "CHR '']'' \<notin> set p"
  shows "SplitHostPort (''['' @ h @ '']:'' @ p) = Some (h, p)"
proof -
  have l: "last_index CHR '':'' (''['' @ h @ '']:'' @ p) = Some (length h + 2)"
    using last_index_colon [OF assms(3), of "''['' @ h @ '']''"] by simp
  have "takeWhile (\<lambda>x. x \<noteq> CHR '']'') (h @ '']:'' @ p) = h"
    using assms(1) by (subst takeWhile_append2) auto
  then have "first_index CHR '']'' (''['' @ h @ '']:'' @ p) = Some (Suc (length h))"
    by (simp add: first_index_def)
  then show ?thesis unfolding SplitHostPort_def l using assms by simp
qed

subsection \<open>The limiter answers as one limiter per address\<close>

lemma option_eqI: "(\<And>e. x = Some e \<longleftrightarrow> y = Some e) \<Longrightarrow> x = y"
  by (metis not_None_eq)

lemma gm_inv_filter: "gm_inv m \<Longrightarrow> gm_inv (filter P m)"
  by (simp add: gm_inv_def distinct_map_filter)

lemma gm_get_prune:
  assumes "gm_inv m"
  shows "gm_get (ip_prune now m) k =
    (case gm_get m k of Some e \<Rightarrow> if now - ilLastSeen e > ipLimiterEntryTTL then None else Some e | None \<Rightarrow> None)"
proof (rule option_eqI)
  fix e
  have inv: "gm_inv (ip_prune now m)" using assms by (simp add: ip_prune_def gm_inv_filter)
  have "gm_get (ip_prune now m) k = Some e \<longleftrightarrow> gm_get m k = Some e \<and> \<not> now - ilLastSeen e > ipLimiterEntryTTL"
    by (simp only: gm_get_iff [OF inv] gm_get_iff [OF assms]) (auto simp: ip_prune_def)
  then show "gm_get (ip_prune now m) k = Some e \<longleftrightarrow> (case gm_get m k of Some e \<Rightarrow>
      if now - ilLastSeen e > ipLimiterEntryTTL then None else Some e | None \<Rightarrow> None) = Some e"
    by (auto split: option.split)
qed

definition ip_state :: "'l \<Rightarrow> gostring \<Rightarrow> 'l ipRateLimiter \<Rightarrow> 'l" where
  "ip_state new ip m = (case gm_get m ip of Some e \<Rightarrow> ilLimiter e | None \<Rightarrow> new)"

lemma ip_Allow_fst: "fst (ip_Allow new allow t ip m) = fst (allow t (ip_state new ip m))"
  by (auto simp: ip_Allow_def ip_state_def Let_def split_beta split: option.split)

lemma ip_Allow_inv: "gm_inv m \<Longrightarrow> gm_inv (snd (ip_Allow new allow t ip m))"
  by (simp add: ip_Allow_def Let_def ip_prune_def gm_inv_filter split: prod.split)

lemma ip_Allow_get_same:
  assumes "gm_inv m"
  shows "gm_get (snd (ip_Allow new allow t ip m)) ip =
    Some \<lparr>ilLimiter = snd (allow t (ip_state new ip m)), ilLastSeen = t\<rparr>"
proof -
  have "\<not> t - t > ipLimiterEntryTTL" by (simp add: ipLimiterEntryTTL_def second_def)
  then show ?thesis using assms
    by (simp add: ip_Allow_def ip_state_def Let_def gm_has_def gm_get_prune split: prod.split option.split)
qed

lemma ip_Allow_get_other:
  assumes "gm_inv m" "k \<noteq> ip"
  shows "gm_get (snd (ip_Allow new allow t ip m)) k = gm_get m k \<or>
    (\<exists>e. gm_get m k = Some e \<and> t - ilLastSeen e > ipLimiterEntryTTL \<and>
       gm_get (snd (ip_Allow new allow t ip m)) k = None)"
  using assms by (auto simp: ip_Allow_def Let_def gm_has_def gm_get_prune split: prod.split option.split)

fun ip_run :: "'l \<Rightarrow> (int \<Rightarrow> 'l \<Rightarrow> bool \<times> 'l) \<Rightarrow> (int \<times> gostring) list \<Rightarrow> 'l ipRateLimiter \<Rightarrow> (gostring \<times> bool) list" where
  "ip_run new allow [] m = []"
| "ip_run new allow ((t, ip) # ops) m =
     (case ip_Allow new allow t ip m of (ok, m) \<Rightarrow> (ip, ok) # ip_run new allow ops m)"

fun limiter_run :: "(int \<Rightarrow> 'l \<Rightarrow> bool \<times> 'l) \<Rightarrow> 'l \<Rightarrow> int list \<Rightarrow> bool list" where
  "limiter_run allow l [] = []"
| "limiter_run allow l (t # ts) = (case allow t l of (ok, l) \<Rightarrow> ok # limiter_run allow l ts)"

fun gaps_ok :: "int \<Rightarrow> int list \<Rightarrow> bool" where
  "gaps_ok prev [] = True"
| "gaps_ok prev (t # ts) = (t - prev \<le> ipLimiterEntryTTL \<and> gaps_ok t ts)"

definition ip_times :: "gostring \<Rightarrow> (int \<times> gostring) list \<Rightarrow> int list" where
  "ip_times ip ops = map fst (filter (\<lambda>op. snd op = ip) ops)"

definition ip_answers :: "gostring \<Rightarrow> (gostring \<times> bool) list \<Rightarrow> bool list" where
  "ip_answers ip rs = map snd (filter (\<lambda>r. fst r = ip) rs)"

definition seen_gaps :: "'l ipLimiterEntry option \<Rightarrow> int list \<Rightarrow> bool" where
  "seen_gaps e ts \<longleftrightarrow> (case e of Some e \<Rightarrow> gaps_ok (ilLastSeen e) ts | None \<Rightarrow> ts \<noteq> [] \<longrightarrow> gaps_ok (hd ts) ts)"

lemma seen_gaps_tail: "seen_gaps e (t # ts) \<Longrightarrow> gaps_ok t ts"
  by (auto simp: seen_gaps_def split: option.splits)

lemma ip_run_exact:
  assumes "gm_inv m" "sorted (map fst ops)" "seen_gaps (gm_get m ip) (ip_times ip ops)"
  shows "ip_answers ip (ip_run new allow ops m) = limiter_run allow (ip_state new ip m) (ip_times ip ops)"
  using assms
proof (induction ops arbitrary: m)
  case (Cons op ops)
  obtain t j where op: "op = (t, j)" by (cases op)
  let ?m = "snd (ip_Allow new allow t j m)"
  have inv: "gm_inv ?m" using Cons.prems(1) by (rule ip_Allow_inv)
  have srt: "sorted (map fst ops)" "\<forall>x \<in> set (ip_times ip ops). t \<le> x" using Cons.prems(2) op by (auto simp: ip_times_def)
  have head: "ip_run new allow (op # ops) m = (j, fst (allow t (ip_state new j m))) # ip_run new allow ops ?m"
    using op ip_Allow_fst [of new allow t j m] by (simp add: split_beta)
  show ?case
  proof (cases "j = ip")
    case True
    note g = ip_Allow_get_same [OF Cons.prems(1), of new allow t ip]
    have "seen_gaps (gm_get ?m ip) (ip_times ip ops)"
      using seen_gaps_tail [of "gm_get m ip" t "ip_times ip ops"] Cons.prems(3) op True g
      by (simp add: seen_gaps_def ip_times_def)
    then have "ip_answers ip (ip_run new allow ops ?m) = limiter_run allow (ip_state new ip ?m) (ip_times ip ops)"
      by (rule Cons.IH [OF inv srt(1)])
    then show ?thesis using g op True unfolding head
      by (simp add: ip_answers_def ip_times_def ip_state_def split_beta)
  next
    case False
    then have ts: "ip_times ip (op # ops) = ip_times ip ops" using op by (simp add: ip_times_def)
    have "ip_answers ip (ip_run new allow (op # ops) m) = ip_answers ip (ip_run new allow ops ?m)"
      unfolding head using False by (simp add: ip_answers_def)
    moreover consider "gm_get ?m ip = gm_get m ip"
      | e where "gm_get m ip = Some e" "t - ilLastSeen e > ipLimiterEntryTTL" "gm_get ?m ip = None"
      using ip_Allow_get_other [OF Cons.prems(1)] False by metis
    then have "ip_answers ip (ip_run new allow ops ?m) = limiter_run allow (ip_state new ip m) (ip_times ip ops)"
    proof cases
      case 1
      then show ?thesis using Cons.IH [OF inv srt(1)] Cons.prems(3) ts by (simp add: ip_state_def)
    next
      case 2
      have "ip_times ip ops = []"
      proof (rule ccontr)
        assume "ip_times ip ops \<noteq> []"
        then obtain t1 r where "ip_times ip ops = t1 # r" by (cases "ip_times ip ops") auto
        then show False using Cons.prems(3) 2 srt(2) ts by (auto simp: seen_gaps_def)
      qed
      then show ?thesis using Cons.IH [OF inv srt(1)] 2 by (simp add: seen_gaps_def)
    qed
    ultimately show ?thesis using ts by simp
  qed
qed (simp add: ip_answers_def ip_times_def)

text \<open>C28: The address limiter is one limiter per address: whatever other addresses send, the
  answers to an address whose requests are at most ten minutes apart are those of a single
  limiter that sees only these requests, so neither other clients nor the clean-up of the
  map can lift or tighten its limit.\<close>

theorem ip_limiter_exact:
  assumes "sorted (map fst ops)" "ip_times ip ops \<noteq> [] \<longrightarrow> gaps_ok (hd (ip_times ip ops)) (ip_times ip ops)"
  shows "ip_answers ip (ip_run new allow ops newIPRateLimiter) = limiter_run allow new (ip_times ip ops)"
  using ip_run_exact [of newIPRateLimiter ops ip new allow] assms
  by (simp add: newIPRateLimiter_def seen_gaps_def ip_state_def)

definition ex_bucket :: "int \<Rightarrow> nat \<Rightarrow> bool \<times> nat" where
  "ex_bucket now n = (0 < n, n - 1)"

theorem ip_limiter_exact_witness:
  "ip_answers ''a'' (ip_run 1 ex_bucket [(0, ''a''), (1, ''b''), (2, ''a'')] newIPRateLimiter) = [True, False]"
proof -
  have "ip_answers ''a'' (ip_run 1 ex_bucket [(0, ''a''), (1, ''b''), (2, ''a'')] newIPRateLimiter) =
      limiter_run ex_bucket 1 (ip_times ''a'' [(0, ''a''), (1, ''b''), (2, ''a'')])"
    by (rule ip_limiter_exact) (simp_all add: ip_times_def ipLimiterEntryTTL_def second_def)
  also have "\<dots> = [True, False]" by (simp add: ip_times_def ex_bucket_def)
  finally show ?thesis .
qed

end
