(* ===== verification/Endpoints.thy ===== *)
theory Endpoints
  imports Sessions Tokens IpLimiter ClientMsg Gobwas
begin

text \<open>
  The HTTP endpoints of \<open>mediator/delivery\<close>: issuing a connection token, opening a
  websocket with it, polling and sending over the long-polling transport.  A handler maps a
  request and the state of the container to a response and the new state.  Parameters: the
  application's \<open>InspectToken\<close>, the upgrade of the HTTP connection, the random ids and what
  the earlier theories have as parameters.
\<close>

subsection \<open>Requests, responses and state\<close>

record http_req =
  hqHeader :: "gostring \<Rightarrow> gostring"
  hqToken :: gostring
  hqRemoteAddr :: gostring
  hqBody :: "bytes option"

datatype http_body = BText gostring | BToken gostring gostring | BMsgs "bytes list" | BEmpty

record http_resp =
  hpStatus :: nat
  hpBody :: http_body
  hpCookie :: "(gostring \<times> bool) option"

definition http_error :: "gostring \<Rightarrow> nat \<Rightarrow> http_resp" where
  "http_error msg code = \<lparr>hpStatus = code, hpBody = BText msg, hpCookie = None\<rparr>"

definition http_status :: "nat \<Rightarrow> http_resp" where
  "http_status code = \<lparr>hpStatus = code, hpBody = BEmpty, hpCookie = None\<rparr>"

text \<open>\<open>dlTimers\<close> has the time at which the idle timer of a long-polling connection fires;
  \<open>dlMsg\<close> is the client message handler, whose shared parts live in \<open>dlWorld\<close>.\<close>

record ('l, 's) delivery =
  dlWorld :: world
  dlServer :: NetpollServer
  dlIp :: "'l ipRateLimiter"
  dlCache :: "'s valkeyAdapter"
  dlTimers :: "(nat, int) gomap"
  dlMsg :: clientMsgHandler
  dlNext :: nat

type_synonym inspected = "gostring \<times> bool \<times> (gostring, gostring) gomap"

record ('l, 's, 'f, 'o, 'p) denv =
  dvNode :: nenv
  dvBetween :: "pm_table \<Rightarrow> pm_table"
  dvInspect :: "(gostring \<Rightarrow> (gostring \<Rightarrow> gostring) \<Rightarrow> (inspected, gostring) outcome) option"
  dvErrText :: "ErrorCode \<Rightarrow> gostring"
  dvIpHeader :: gostring
  dvNew :: 'l
  dvAllow :: "int \<Rightarrow> 'l \<Rightarrow> bool \<times> 'l"
  dvMac :: "gostring \<Rightarrow> gostring"
  dvNano :: "nat \<Rightarrow> gostring"
  dvCv :: "('f, 'o, 'p) codecs"
  dvSrv :: "'s kv_srv"
  dvMarshal :: "WebsocketAuth \<Rightarrow> bytes option"
  dvUnmarshal :: "bytes \<Rightarrow> WebsocketAuth option"
  dvUpgrade :: bool
  dvGw :: gw_env
  dvAccept :: accept_env
  dvMaxConns :: int
  dvFetch :: "nat \<Rightarrow> bool"
  dvMeanwhile :: "('l, 's) delivery \<Rightarrow> ('l, 's) delivery"
  dvMsg :: cmh_env

type_synonym ('l, 's) handler_result = "(http_resp, unit) outcome \<times> ('l, 's) delivery"

definition set_world :: "world \<Rightarrow> ('l, 's) delivery \<Rightarrow> ('l, 's) delivery" where
  "set_world w d = d\<lparr>dlWorld := w\<rparr>"

text \<open>\<open>fns.InspectToken\<close>; a missing function panics and its error gives status 401.\<close>

definition inspect :: "('l, 's, 'f, 'o, 'p) denv \<Rightarrow> http_req \<Rightarrow> (inspected, http_resp) outcome" where
  "inspect env r =
     (case dvInspect env of
        None \<Rightarrow> Panic
      | Some f \<Rightarrow>
          (case f (hqHeader r ''Authorization'') (hqHeader r) of
             Ok x \<Rightarrow> Ok x
           | Err e \<Rightarrow> Err (http_error e 401)
           | Panic \<Rightarrow> Panic))"

text \<open>The identity of a signed-in user: its instance id is the header the client chose.\<close>

definition user_identity :: "gostring \<Rightarrow> (gostring, gostring) gomap \<Rightarrow> http_req \<Rightarrow> (WebsocketAuth, http_resp) outcome" where
  "user_identity username metadata r =
     (let instanceHeader = hqHeader r ''X-Pipewave-ID'' in
      if instanceHeader = [] then Err (http_error ''Missing X-Pipewave-ID header'' 400)
      else must (UserWebsocketAuthWithMetadata username instanceHeader metadata))"

subsection \<open>POST /issue-tmp-token\<close>

definition issue_identity :: "('l, 's, 'f, 'o, 'p) denv \<Rightarrow> http_req \<Rightarrow> (WebsocketAuth \<times> gostring, http_resp) outcome" where
  "issue_identity env r =
     obind (inspect env r) (\<lambda>(username, isAnonymous, metadata).
       if isAnonymous then
         let anonInstanceID = mintOrReadAnonymousInstanceID (dvMac env) (neNow (dvNode env)) (dvNano env 0)
                                (hqHeader r ''X-Pipewave-ID'')
         in obind (must (AnonymousUserWebsocketAuthWithMetadata anonInstanceID metadata)) (\<lambda>a. Ok (a, anonInstanceID))
       else obind (user_identity username metadata r) (\<lambda>a. Ok (a, [])))"

definition IssueTmpToken :: "('l, 's, 'f, 'o, 'p) denv \<Rightarrow> http_req \<Rightarrow> ('l, 's) delivery \<Rightarrow> ('l, 's) handler_result" where
  "IssueTmpToken env r d =
     (if hqHeader r ''Authorization'' = [] then (Ok (http_error ''Missing Authorization header'' 401), d)
      else
        let now = neNow (dvNode env); ip = clientIP (hqHeader r) (hqRemoteAddr r) (dvIpHeader env) in
        case ip_Allow (dvNew env) (dvAllow env) now ip (dlIp d) of
          (allowed, l) \<Rightarrow>
            let d = d\<lparr>dlIp := l\<rparr> in
            if \<not> allowed then (Ok (http_error ''Too many requests'' 429), d)
            else case issue_identity env r of
                   Err resp \<Rightarrow> (Ok resp, d)
                 | Panic \<Rightarrow> (Panic, d)
                 | Ok (wsAuth, anonInstanceID) \<Rightarrow>
                     (case Exchange (dvCv env) (dvSrv env) (dvMarshal env) now (dvNano env 1) wsAuth (dlCache d) of
                        (Ok connToken, vk) \<Rightarrow>
                          (Ok \<lparr>hpStatus = 200, hpBody = BToken connToken anonInstanceID,
                               hpCookie = Some (auUserID wsAuth, hqHeader r ''x-forwarded-proto'' = ''https'')\<rparr>,
                           d\<lparr>dlCache := vk\<rparr>)
                      | (Err e, vk) \<Rightarrow> (Ok (http_error (dvErrText env e) 500), d\<lparr>dlCache := vk\<rparr>)
                      | (Panic, vk) \<Rightarrow> (Panic, d\<lparr>dlCache := vk\<rparr>)))"

subsection \<open>/gw\<close>

definition gw_conn :: "WebsocketAuth \<Rightarrow> ('l, 's) delivery \<Rightarrow> WebsocketConn" where
  "gw_conn auth d = \<lparr>wcId = dlNext d, wcAuth = auth, wcCore = WsCoreGobwas\<rparr>"

text \<open>After the token has been scanned: upgrade, admission by the websocket server, and the
  new-connection callback; a failing callback closes the connection again.  Writing an error
  to an upgraded connection has no effect on the client, but the status is kept here.  The
  application's own hook for a new connection is modelled with the server's functions.\<close>

definition gw_open :: "('l, 's, 'f, 'o, 'p) denv \<Rightarrow> WebsocketAuth \<Rightarrow> ('l, 's) delivery \<Rightarrow> ('l, 's) handler_result" where
  "gw_open env auth d =
     (if \<not> dvUpgrade env then (Ok (http_error ''Failed to upgrade connection'' 500), d)
      else case NewConnection (dvGw env) (dvAccept env) (dvMaxConns env) (neNow (dvNode env)) auth (dlServer d) of
             (Err e, s, _) \<Rightarrow> (Ok (http_error (dvErrText env e) 500), d\<lparr>dlServer := s\<rparr>)
           | (Panic, s, _) \<Rightarrow> (Panic, d\<lparr>dlServer := s\<rparr>)
           | (Ok gc, s, _) \<Rightarrow>
               let wsConn = gw_conn auth d; d = d\<lparr>dlServer := s, dlNext := Suc (dlNext d)\<rparr> in
               case onNew (dvNode env) (dvBetween env) wsConn (dlWorld d) of
                 (Ok _, w) \<Rightarrow> (Ok (http_status 101), d\<lparr>dlWorld := w\<rparr>)
               | (Err e, w) \<Rightarrow>
                   (Ok (http_error (dvErrText env e) 500),
                    d\<lparr>dlWorld := ws_Close (dvNode env) wsConn w, dlServer := gwSrv (gc_Close (dvGw env) gc)\<rparr>)
               | (Panic, w) \<Rightarrow> (Panic, d\<lparr>dlWorld := w\<rparr>))"

definition GobwasEndpoint :: "('l, 's, 'f, 'o, 'p) denv \<Rightarrow> http_req \<Rightarrow> ('l, 's) delivery \<Rightarrow> ('l, 's) handler_result" where
  "GobwasEndpoint env r d =
     (if hqToken r = [] then (Ok (http_error ''Missing connection token'' 401), d)
      else case ScanConnToken (dvCv env) (dvSrv env) (dvUnmarshal env) (neNow (dvNode env)) (hqToken r) (dlCache d) of
             (Err e, vk) \<Rightarrow> (Ok (http_error (dvErrText env e) 401), d\<lparr>dlCache := vk\<rparr>)
           | (Panic, vk) \<Rightarrow> (Panic, d\<lparr>dlCache := vk\<rparr>)
           | (Ok auth, vk) \<Rightarrow> gw_open env auth (d\<lparr>dlCache := vk\<rparr>))"

subsection \<open>Long polling: idle timer\<close>

definition lpQueueSize :: nat where "lpQueueSize = 64"
definition lpIdleTimeout :: int where "lpIdleTimeout = 5 * second"

definition newLongPollingConn :: "WebsocketAuth \<Rightarrow> ('l, 's) delivery \<Rightarrow> WebsocketConn" where
  "newLongPollingConn auth d = \<lparr>wcId = dlNext d, wcAuth = auth, wcCore = WsCoreLongPolling\<rparr>"

definition isLPConn :: "WebsocketConn \<Rightarrow> bool" where
  "isLPConn conn \<longleftrightarrow> wcCore conn = WsCoreLongPolling"

definition lp_closed :: "WebsocketConn \<Rightarrow> ('l, 's) delivery \<Rightarrow> bool" where
  "lp_closed c d \<longleftrightarrow> wcId c \<in> set (ndClosed (wdNode (dlWorld d)))"

text \<open>The expiry time that closing and polling set on the channel of the queue is not modelled.\<close>

definition lp_Close :: "nenv \<Rightarrow> WebsocketConn \<Rightarrow> ('l, 's) delivery \<Rightarrow> ('l, 's) delivery" where
  "lp_Close env c d =
     (if lp_closed c d then d
      else d\<lparr>dlTimers := gm_del (wcId c) (dlTimers d), dlWorld := ws_Close env c (dlWorld d)\<rparr>)"

definition stopIdleTimer :: "WebsocketConn \<Rightarrow> ('l, 's) delivery \<Rightarrow> ('l, 's) delivery" where
  "stopIdleTimer c d = d\<lparr>dlTimers := gm_del (wcId c) (dlTimers d)\<rparr>"

definition resetIdleTimer :: "int \<Rightarrow> WebsocketConn \<Rightarrow> ('l, 's) delivery \<Rightarrow> ('l, 's) delivery" where
  "resetIdleTimer now c d =
     (if lp_closed c d then d else d\<lparr>dlTimers := gm_put (wcId c) (now + lpIdleTimeout) (dlTimers d)\<rparr>)"

text \<open>The timer fires: \<open>time.AfterFunc(lpIdleTimeout, c.Close)\<close>.\<close>

definition idle_fire :: "nenv \<Rightarrow> WebsocketConn \<Rightarrow> ('l, 's) delivery \<Rightarrow> ('l, 's) delivery" where
  "idle_fire env c d =
     (case gm_get (dlTimers d) (wcId c) of
        Some at \<Rightarrow> if at \<le> neNow env then lp_Close env c d else d
      | None \<Rightarrow> d)"

subsection \<open>Long polling: waiting for messages\<close>

definition lp_FetchMany :: "bool \<Rightarrow> WebsocketConn \<Rightarrow> nat \<Rightarrow> ('l, 's) delivery \<Rightarrow> bytes list \<times> ('l, 's) delivery" where
  "lp_FetchMany ok c n d =
     (case vk_FetchMany [] ok (lpChannelName (wcAuth c)) n (wdQueues (dlWorld d)) of
        (r, q) \<Rightarrow> (case r of Ok ms \<Rightarrow> ms | _ \<Rightarrow> [], d\<lparr>dlWorld := (dlWorld d)\<lparr>wdQueues := q\<rparr>\<rparr>))"

text \<open>\<open>None\<close> is the nil slice.  While the blocking read waits, anything may happen at the
  container (\<open>dvMeanwhile\<close>).\<close>

definition drainOrWait ::
    "('l, 's, 'f, 'o, 'p) denv \<Rightarrow> WebsocketConn \<Rightarrow> ('l, 's) delivery \<Rightarrow> bytes list option \<times> ('l, 's) delivery" where
  "drainOrWait env c d =
     (case lp_FetchMany (dvFetch env 0) c lpQueueSize d of
        (msgs, d) \<Rightarrow>
          if length msgs > 0 then (Some msgs, d)
          else
            let d = dvMeanwhile env d in
            case vk_BlockFetchOne [] (dvFetch env 1) id (lpChannelName (wcAuth c)) (wdQueues (dlWorld d)) of
              (Ok (Some msg), q) \<Rightarrow>
                (case lp_FetchMany (dvFetch env 2) c (lpQueueSize - 1) (d\<lparr>dlWorld := (dlWorld d)\<lparr>wdQueues := q\<rparr>\<rparr>) of
                   (rest, d) \<Rightarrow> (Some (msg # rest), d))
            | (_, q) \<Rightarrow> (None, d\<lparr>dlWorld := (dlWorld d)\<lparr>wdQueues := q\<rparr>\<rparr>))"

subsection \<open>POST /lp\<close>

definition lp_identity :: "('l, 's, 'f, 'o, 'p) denv \<Rightarrow> http_req \<Rightarrow> (WebsocketAuth, http_resp) outcome" where
  "lp_identity env r =
     (if hqHeader r ''Authorization'' = [] then Err (http_error ''Missing Authorization header'' 401)
      else obind (inspect env r) (\<lambda>(username, isAnonymous, metadata).
        if isAnonymous then
          (case readAnonymousInstanceID (dvMac env) (neNow (dvNode env)) (hqHeader r ''X-Pipewave-ID'') of
             None \<Rightarrow> Err (http_error ''Missing or invalid anonymous instance id; call /issue-tmp-token first'' 400)
           | Some instanceID \<Rightarrow> must (AnonymousUserWebsocketAuthWithMetadata instanceID metadata))
        else user_identity username metadata r))"

text \<open>Step 2: the connection of the session, created by the first poll.\<close>

definition lp_connection ::
    "('l, 's, 'f, 'o, 'p) denv \<Rightarrow> WebsocketAuth \<Rightarrow> ('l, 's) delivery \<Rightarrow>
     (WebsocketConn, http_resp) outcome \<times> ('l, 's) delivery" where
  "lp_connection env wsAuth d =
     (case GetConnection (ndConns (wdNode (dlWorld d))) wsAuth of
        None \<Rightarrow>
          let lpConn = newLongPollingConn wsAuth d; d = d\<lparr>dlNext := Suc (dlNext d)\<rparr> in
          (case onNew (dvNode env) (dvBetween env) lpConn (dlWorld d) of
             (Ok _, w) \<Rightarrow> (Ok lpConn, d\<lparr>dlWorld := w\<rparr>)
           | (Err e, w) \<Rightarrow> (Err (http_error (dvErrText env e) 500), d\<lparr>dlWorld := w\<rparr>)
           | (Panic, w) \<Rightarrow> (Panic, d\<lparr>dlWorld := w\<rparr>))
      | Some existingConn \<Rightarrow>
          if isLPConn existingConn then (Ok existingConn, d)
          else (Err (http_error ''active WebSocket connection exists for this session'' 409), d))"

text \<open>Steps 3 to 6.\<close>

definition lp_poll :: "('l, 's, 'f, 'o, 'p) denv \<Rightarrow> WebsocketConn \<Rightarrow> ('l, 's) delivery \<Rightarrow> http_resp \<times> ('l, 's) delivery" where
  "lp_poll env lpConn d =
     (case drainOrWait env lpConn (stopIdleTimer lpConn d) of
        (msgs, d) \<Rightarrow>
          let d = resetIdleTimer (neNow (dvNode env)) lpConn d in
          (case msgs of
             None \<Rightarrow> if lp_closed lpConn d then http_status 410 else http_status 204
           | Some ms \<Rightarrow> \<lparr>hpStatus = 200, hpBody = BMsgs ms, hpCookie = None\<rparr>, d))"

definition LongPollingEndpoint :: "('l, 's, 'f, 'o, 'p) denv \<Rightarrow> http_req \<Rightarrow> ('l, 's) delivery \<Rightarrow> ('l, 's) handler_result" where
  "LongPollingEndpoint env r d =
     (case lp_identity env r of
        Err resp \<Rightarrow> (Ok resp, d)
      | Panic \<Rightarrow> (Panic, d)
      | Ok wsAuth \<Rightarrow>
          (case lp_connection env wsAuth d of
             (Err resp, d) \<Rightarrow> (Ok resp, d)
           | (Panic, d) \<Rightarrow> (Panic, d)
           | (Ok lpConn, d) \<Rightarrow> (case lp_poll env lpConn d of (resp, d) \<Rightarrow> (Ok resp, d))))"

subsection \<open>POST /lp-send\<close>

definition maxLPBodySize :: nat where "maxLPBodySize = 1048576"

text \<open>The message handler works on the rate limiter, acknowledgements, connections and rows of
  the container.\<close>

definition msg_handler :: "('l, 's) delivery \<Rightarrow> clientMsgHandler" where
  "msg_handler d = (let w = dlWorld d in
     (dlMsg d)\<lparr>chRate := ndRate (wdNode w), chAck := ndAck (wdNode w), chConns := ndConns (wdNode w), chActive := wdActive w\<rparr>)"

definition handler_back :: "clientMsgHandler \<Rightarrow> ('l, 's) delivery \<Rightarrow> ('l, 's) delivery" where
  "handler_back h d = (let w = dlWorld d in
     d\<lparr>dlMsg := h, dlWorld := (upd_node (\<lambda>n. n\<lparr>ndRate := chRate h, ndAck := chAck h\<rparr>) w)\<lparr>wdActive := chActive h\<rparr>\<rparr>)"

text \<open>What the handler sends goes through \<open>lpConn.Send\<close>; an acknowledgement that another
  container waits for is published to it.\<close>

fun lp_emit :: "nenv \<Rightarrow> WebsocketConn \<Rightarrow> cmh_out \<Rightarrow> world \<Rightarrow> world" where
  "lp_emit env c (SendFrame b) w = snd (ws_Send env c b w)"
| "lp_emit env c (PublishAckResolved container ackID) w =
     snd (publish_msg env (create_targeted (neCodec env) [container] (AckResolvedParams ackID)) w)"
| "lp_emit env c _ w = w"

definition LongPollingSendEndpoint :: "('l, 's, 'f, 'o, 'p) denv \<Rightarrow> http_req \<Rightarrow> ('l, 's) delivery \<Rightarrow> ('l, 's) handler_result" where
  "LongPollingSendEndpoint env r d =
     (case lp_identity env r of
        Err resp \<Rightarrow> (Ok resp, d)
      | Panic \<Rightarrow> (Panic, d)
      | Ok wsAuth \<Rightarrow>
          (case GetConnection (ndConns (wdNode (dlWorld d))) wsAuth of
             None \<Rightarrow> (Ok (http_error ''no active polling session'' 404), d)
           | Some existingConn \<Rightarrow>
               if \<not> isLPConn existingConn then (Ok (http_error ''session is not a long polling connection'' 400), d)
               else if lp_closed existingConn d then (Ok (http_error ''polling session has been closed'' 410), d)
               else case map_option (take maxLPBodySize) (hqBody r) of
                      None \<Rightarrow> (Ok (http_error ''failed to read request body'' 400), d)
                    | Some body \<Rightarrow>
                        if length body = 0 then (Ok (http_error ''empty body'' 400), d)
                        else case handleMessage (dvMsg env) body wsAuth (msg_handler d) of
                               Ok (outs, h) \<Rightarrow>
                                 let d = handler_back h d in
                                 (Ok (http_status 202),
                                  d\<lparr>dlWorld := fold (lp_emit (dvNode env) existingConn) outs (dlWorld d)\<rparr>)
                             | _ \<Rightarrow> (Panic, d)))"

subsection \<open>Requests without a valid identity\<close>

definition unauthenticated :: "('l, 's, 'f, 'o, 'p) denv \<Rightarrow> http_req \<Rightarrow> bool" where
  "unauthenticated env r \<longleftrightarrow> hqHeader r ''Authorization'' = [] \<or>
     (\<exists>f e. dvInspect env = Some f \<and> f (hqHeader r ''Authorization'') (hqHeader r) = Err e)"

lemma lp_identity_unauthenticated:
  "unauthenticated env r \<Longrightarrow> \<exists>resp. lp_identity env r = Err resp \<and> hpStatus resp = 401"
  by (auto simp: unauthenticated_def lp_identity_def inspect_def http_error_def)

subsection \<open>Example\<close>

definition ex_denv :: "int \<Rightarrow> (nat, kv_store, unit, unit, unit) denv" where
  "ex_denv now = \<lparr>dvNode = ex_nenv now (single_codec (AckResolvedParams [])), dvBetween = (\<lambda>t. t),
     dvInspect = Some (\<lambda>h _. if h = ''Bearer t'' then Ok (''u'', False, []) else Err ''bad token''),
     dvErrText = (\<lambda>_. ''err''), dvIpHeader = [], dvNew = 2, dvAllow = ex_bucket, dvMac = (\<lambda>_. ''s''),
     dvNano = (\<lambda>k. if k = 0 then ''n'' else ''tok''), dvCv = ex_codecs, dvSrv = kvs,
     dvMarshal = (\<lambda>_. Some [1]), dvUnmarshal = (\<lambda>_. Some ex_user), dvUpgrade = True, dvGw = Gobwas.ex_env,
     dvAccept = ex_accept, dvMaxConns = 10, dvFetch = (\<lambda>_. True), dvMeanwhile = (\<lambda>d. d), dvMsg = ex_cenv\<rparr>"

definition ex_delivery :: "(nat, kv_store) delivery" where
  "ex_delivery = \<lparr>dlWorld = ex_nworld ''a'' [], dlServer = ex_server, dlIp = newIPRateLimiter, dlCache = ex_cache,
     dlTimers = [], dlMsg = ex_cmh, dlNext = 7\<rparr>"

definition ex_request :: "gostring \<Rightarrow> http_req" where
  "ex_request tok = \<lparr>hqHeader = (\<lambda>h. if h = ''Authorization'' then ''Bearer t'' else if h = ''X-Pipewave-ID'' then ''i'' else []),
     hqToken = tok, hqRemoteAddr = ''1.2.3.4:80'', hqBody = Some [1]\<rparr>"

text \<open>C16: A request whose credentials are missing or rejected by the application changes
  nothing but the address limiter, and is answered with 401 (or 429 when the address is
  over its limit) by all three endpoints that take credentials.\<close>

theorem unauthenticated_no_effect:
  assumes "unauthenticated env r"
  shows "(\<exists>resp. LongPollingEndpoint env r d = (Ok resp, d) \<and> hpStatus resp = 401) \<and>
    (\<exists>resp. LongPollingSendEndpoint env r d = (Ok resp, d) \<and> hpStatus resp = 401) \<and>
    (\<exists>resp l. IssueTmpToken env r d = (Ok resp, d\<lparr>dlIp := l\<rparr>) \<and> hpStatus resp \<in> {401, 429})"
proof (intro conjI)
  show "\<exists>resp. LongPollingEndpoint env r d = (Ok resp, d) \<and> hpStatus resp = 401"
    "\<exists>resp. LongPollingSendEndpoint env r d = (Ok resp, d) \<and> hpStatus resp = 401"
    using lp_identity_unauthenticated [OF assms] by (auto simp: LongPollingEndpoint_def LongPollingSendEndpoint_def)
  show "\<exists>resp l. IssueTmpToken env r d = (Ok resp, d\<lparr>dlIp := l\<rparr>) \<and> hpStatus resp \<in> {401, 429}"
  proof (cases "hqHeader r ''Authorization'' = []")
    case True
    then show ?thesis by (intro exI [of _ "http_error ''Missing Authorization header'' 401"] exI [of _ "dlIp d"])
        (simp add: IssueTmpToken_def http_error_def)
  next
    case False
    then obtain f e where "dvInspect env = Some f" "f (hqHeader r ''Authorization'') (hqHeader r) = Err e"
      using assms by (auto simp: unauthenticated_def)
    then have "issue_identity env r = Err (http_error e 401)" by (simp add: issue_identity_def inspect_def)
    then show ?thesis using False by (auto simp: IssueTmpToken_def http_error_def Let_def split: prod.split)
  qed
qed

theorem unauthenticated_no_effect_witness:
  "\<exists>resp. LongPollingEndpoint (ex_denv 1) ((ex_request [])\<lparr>hqHeader := (\<lambda>_. [])\<rparr>) ex_delivery = (Ok resp, ex_delivery) \<and>
     hpStatus resp = 401"
proof -
  have "unauthenticated (ex_denv 1) ((ex_request [])\<lparr>hqHeader := (\<lambda>_. [])\<rparr>)" by (simp add: unauthenticated_def)
  from unauthenticated_no_effect [OF this, of ex_delivery] show ?thesis by blast
qed

subsection \<open>From the token to the connection\<close>

lemma IssueTmpToken_token:
  assumes "IssueTmpToken env r d = (Ok resp, d1)" "hpBody resp = BToken tok iid"
  shows "\<exists>auth. issue_identity env r = Ok (auth, iid) \<and>
    Exchange (dvCv env) (dvSrv env) (dvMarshal env) (neNow (dvNode env)) (dvNano env 1) auth (dlCache d) = (Ok tok, dlCache d1)"
proof -
  have no: "hpBody e = BToken tok iid \<Longrightarrow> issue_identity env r = Err e \<Longrightarrow> False" for e
    by (auto simp: issue_identity_def inspect_def user_identity_def must_def http_error_def Let_def obind_def
        split: option.splits outcome.splits prod.splits if_splits)
  show ?thesis using assms no
    by (auto simp: IssueTmpToken_def http_error_def Let_def split: if_splits prod.splits outcome.splits)
qed

text \<open>C13: A websocket opened with an issued token carries the identity the application
  confirmed when the token was issued, whatever was issued and scanned in between: when
  the upgrade, the admission and the new-connection callback succeed within ten seconds,
  the container has the new connection registered under exactly that identity.\<close>

theorem issued_token_connects:
  assumes "kv_ok (dvSrv env) look" "issue_identity env r = Ok (auth, i)" "dvSrv env' = dvSrv env" "dvCv env' = dvCv env"
    and "IssueTmpToken env r d = (Ok resp, d1)" "hpBody resp = BToken tok iid" "tok \<noteq> []"
    and "tok \<notin> set (concat (map (tk_issues \<circ> snd) ops))"
    and "\<forall>t op. (t, op) \<in> set ops \<longrightarrow> t \<le> neNow (dvNode env') \<and> op \<noteq> TkScan tok"
    and "neNow (dvNode env) \<le> neNow (dvNode env')" "neNow (dvNode env') < neNow (dvNode env) + 10 * second"
    and "dlCache d2 = snd (tk_run (dvCv env) (dvSrv env) (dvMarshal env) (dvUnmarshal env') ops (dlCache d1))"
    and "fst (kvGETDEL (dvSrv env) (neNow (dvNode env')) (va_key (dlCache d) tok) (vaPrim (dlCache d2))) \<noteq> KvErr"
    and "hqToken r' = tok" "GobwasEndpoint env' r' d2 = (Ok resp', d3)" "hpStatus resp' = 101"
    and "dlNext d2 \<notin> set (ndClosed (wdNode (dlWorld d3)))"
    and "dvMarshal env auth = Some b" "dvUnmarshal env' b = Some auth"
  shows "GetConnection (ndConns (wdNode (dlWorld d3))) auth = Some (gw_conn auth d2)"
proof -
  have ex: "Exchange (dvCv env) (dvSrv env) (dvMarshal env) (neNow (dvNode env)) (dvNano env 1) auth (dlCache d) = (Ok tok, dlCache d1)"
    using IssueTmpToken_token [OF assms(5,6)] assms(2) by auto
  have "fst (ScanConnToken (dvCv env) (dvSrv env) (dvUnmarshal env') (neNow (dvNode env')) tok (dlCache d2)) = Ok auth"
    using scan_issued [OF assms(1,18,19) ex assms(8,9,10,12,13)] assms(11) by simp
  then obtain vk where "ScanConnToken (dvCv env') (dvSrv env') (dvUnmarshal env') (neNow (dvNode env')) (hqToken r') (dlCache d2) =
      (Ok auth, vk)"
    using assms(3,4,14) by (metis prod.collapse)
  then have "gw_open env' auth (d2\<lparr>dlCache := vk\<rparr>) = (Ok resp', d3)"
    using assms(7,14,15) by (simp add: GobwasEndpoint_def)
  then obtain w where w: "onNew (dvNode env') (dvBetween env') (gw_conn auth d2) (dlWorld d2) = (Ok (), w)" "dlWorld d3 = w"
    using assms(16) by (auto simp: gw_open_def gw_conn_def http_error_def Let_def
        split: if_splits prod.splits outcome.splits)
  then have "GetConnection (ndConns (wdNode w)) (wcAuth (gw_conn auth d2)) = Some (gw_conn auth d2)"
    using assms(17) by (intro onNew_registers) (simp_all add: gw_conn_def)
  then show ?thesis using w(2) by (simp add: gw_conn_def)
qed

lemma ex_issue_identity: "issue_identity (ex_denv 1) (ex_request []) = Ok (ex_user, [])"
  by (simp add: issue_identity_def inspect_def user_identity_def ex_denv_def ex_request_def must_def
      UserWebsocketAuthWithMetadata_def ex_user_def)

lemma ex_issue:
  "\<exists>d1. IssueTmpToken (ex_denv 1) (ex_request []) ex_delivery =
     (Ok \<lparr>hpStatus = 200, hpBody = BToken ''tok'' [], hpCookie = Some (''u'', False)\<rparr>, d1) \<and>
     dlCache d1 = snd (Exchange ex_codecs kvs (\<lambda>_. Some [1]) 1 ''tok'' ex_user ex_cache) \<and>
     dlWorld d1 = ex_nworld ''a'' [] \<and> dlServer d1 = ex_server \<and> dlNext d1 = 7"
  using ex_issue_identity
  by (auto simp: IssueTmpToken_def ex_request_def ex_denv_def ex_delivery_def Let_def ip_Allow_def newIPRateLimiter_def
      ex_bucket_def Exchange_va kvs_Set ex_user_def)

lemma consume_nothing:
  assumes "no_faults env" "wdPending w = []"
  shows "consume_pending env (\<lambda>t. t) c w = w"
proof -
  have "PG_GetAll DbOk u i [] = Ok ([], 0)" for u i
    by (simp add: PG_GetAll_def session_rows_def pg_rows_def collect_rows_def)
  then show ?thesis using assms by (simp add: consume_pending_def Hub_Consume_def)
qed

lemma onNew_first:
  assumes "no_faults env" "wdPending w = []" "wdActive w = []" "GetConnection (ndConns (wdNode w)) (wcAuth c) = None"
  shows "\<exists>w'. onNew env (\<lambda>t. t) c w = (Ok (), w') \<and> ndClosed (wdNode w') = ndClosed (wdNode w)"
proof -
  have "signal_previous env (wcAuth c) w = (Ok (), w)"
    using assms(1,3) by (simp add: signal_previous_def AC_GetInstanceConnection_def pg_row_def)
  then show ?thesis using assms by (simp add: onNew_def consume_nothing AC_AddConnection_def upd_node_def Let_def)
qed

lemma ex_gobwas:
  assumes "dlCache d1 = snd (Exchange ex_codecs kvs (\<lambda>_. Some [1]) 1 ''tok'' ex_user ex_cache)"
    and "dlWorld d1 = ex_nworld ''a'' []" "dlServer d1 = ex_server" "dlNext d1 = 7"
  shows "\<exists>d3. GobwasEndpoint (ex_denv 2) (ex_request ''tok'') d1 = (Ok (http_status 101), d3) \<and>
    ndClosed (wdNode (dlWorld d3)) = []"
proof -
  have "fst (ScanConnToken ex_codecs kvs (\<lambda>_. Some ex_user) 2 ''tok'' (dlCache d1)) =
      (if 2 < 1 + 10 * second then Ok ex_user else Err RecordNotFound)"
    by (rule scan_issued [OF kvs_ok, where mm = "\<lambda>_. Some [1]" and ops = "[]" and n = "''tok''" and vk = ex_cache])
      (use assms(1) in \<open>simp_all add: Exchange_va kvs_Set\<close>)
  then have "fst (ScanConnToken ex_codecs kvs (\<lambda>_. Some ex_user) 2 ''tok'' (dlCache d1)) = Ok ex_user"
    by (simp add: second_def)
  then obtain vk where s: "ScanConnToken ex_codecs kvs (\<lambda>_. Some ex_user) 2 ''tok'' (dlCache d1) = (Ok ex_user, vk)"
    by (cases "ScanConnToken ex_codecs kvs (\<lambda>_. Some ex_user) 2 ''tok'' (dlCache d1)") simp
  obtain gc srv where n: "NewConnection Gobwas.ex_env ex_accept 10 2 ex_user ex_server = (Ok gc, srv, [])"
    by (simp add: NewConnection_def reserveSlot_def ex_accept_def ex_server_def Let_def)
  obtain w where w: "onNew (dvNode (ex_denv 2)) (\<lambda>t. t) (gw_conn ex_user d1) (ex_nworld ''a'' []) = (Ok (), w)" "ndClosed (wdNode w) = []"
    using onNew_first [of "dvNode (ex_denv 2)" "ex_nworld ''a'' []" "gw_conn ex_user d1"]
    by (auto simp: ex_denv_def ex_nworld_def ex_node_def gw_conn_def ex_user_def GetConnection_def NewConnectionMap_def IsAnonymous_def)
  have env: "dvCv (ex_denv 2) = ex_codecs" "dvSrv (ex_denv 2) = kvs" "dvUnmarshal (ex_denv 2) = (\<lambda>_. Some ex_user)"
    "neNow (dvNode (ex_denv 2)) = 2" "dvGw (ex_denv 2) = Gobwas.ex_env" "dvAccept (ex_denv 2) = ex_accept" "dvMaxConns (ex_denv 2) = 10"
    "dvUpgrade (ex_denv 2)" "dvBetween (ex_denv 2) = (\<lambda>t. t)" "hqToken (ex_request ''tok'') = ''tok''"
    by (simp_all add: ex_denv_def ex_request_def)
  have c: "gw_conn ex_user (d1\<lparr>dlCache := vk\<rparr>) = gw_conn ex_user d1" by (simp add: gw_conn_def)
  show ?thesis using w(2) by (simp add: GobwasEndpoint_def env s gw_open_def assms(2-3) n c w(1) Let_def)
qed

theorem issued_token_connects_witness:
  "\<exists>d1 resp d3. IssueTmpToken (ex_denv 1) (ex_request []) ex_delivery = (Ok resp, d1) \<and>
     GobwasEndpoint (ex_denv 2) (ex_request ''tok'') d1 = (Ok (http_status 101), d3) \<and>
     GetConnection (ndConns (wdNode (dlWorld d3))) ex_user = Some (gw_conn ex_user d1)"
proof -
  obtain d1 where d1: "IssueTmpToken (ex_denv 1) (ex_request []) ex_delivery =
     (Ok \<lparr>hpStatus = 200, hpBody = BToken ''tok'' [], hpCookie = Some (''u'', False)\<rparr>, d1)"
     "dlCache d1 = snd (Exchange ex_codecs kvs (\<lambda>_. Some [1]) 1 ''tok'' ex_user ex_cache)"
     "dlWorld d1 = ex_nworld ''a'' []" "dlServer d1 = ex_server" "dlNext d1 = 7"
    using ex_issue by blast
  obtain d3 where d3: "GobwasEndpoint (ex_denv 2) (ex_request ''tok'') d1 = (Ok (http_status 101), d3)"
    "ndClosed (wdNode (dlWorld d3)) = []" using ex_gobwas [OF d1(2-5)] by blast
  have "GetConnection (ndConns (wdNode (dlWorld d3))) ex_user = Some (gw_conn ex_user d1)"
    by (rule issued_token_connects [of "ex_denv 1" kvs_look, OF _ ex_issue_identity _ _ d1(1) _ _ _ _ _ _ _ _ _ d3(1), where ops = "[]" and b = "[1]"])
      (simp_all add: ex_denv_def kvs_ok ex_request_def second_def d3(2) http_status_def)
  then show ?thesis using d1(1) d3(1) by blast
qed

subsection \<open>Messages of a poll\<close>

abbreviation lp_queue :: "WebsocketConn \<Rightarrow> ('l, 's) delivery \<Rightarrow> bytes list" where
  "lp_queue c d \<equiv> vk_list (wdQueues (dlWorld d)) (lpChannelName (wcAuth c))"

lemma lp_FetchMany_ok:
  "fst (lp_FetchMany True c n d) = take n (lp_queue c d)"
  "lp_queue c (snd (lp_FetchMany True c n d)) = drop n (lp_queue c d)"
  by (simp_all add: lp_FetchMany_def vk_FetchMany_def Let_def)

text \<open>C15: A poll returns the messages of its session in the order they were queued, at most
  64 of them, and loses none: what it returns followed by what is still queued is what was
  queued before, or, if the queue was empty, what was queued when the wait ended.  It
  answers 204 only if the queue is then empty.\<close>

theorem lp_poll_fifo:
  assumes "\<forall>n. dvFetch env n" "lp_poll env c d = (resp, d')"
    and "before = (if lp_queue c d = [] then lp_queue c (dvMeanwhile env (snd (lp_FetchMany True c lpQueueSize (stopIdleTimer c d))))
                   else lp_queue c d)"
  shows "if before = [] then hpStatus resp \<in> {204, 410} \<and> lp_queue c d' = []
    else \<exists>ms. hpStatus resp = 200 \<and> hpBody resp = BMsgs ms \<and> ms \<noteq> [] \<and> length ms \<le> 64 \<and> ms @ lp_queue c d' = before"
proof -
  let ?d1 = "snd (lp_FetchMany True c lpQueueSize (stopIdleTimer c d))"
  have q0: "lp_queue c (stopIdleTimer c d) = lp_queue c d" by (simp add: stopIdleTimer_def)
  have q1: "fst (lp_FetchMany True c lpQueueSize (stopIdleTimer c d)) = take 64 (lp_queue c d)"
      "lp_queue c ?d1 = drop 64 (lp_queue c d)"
    using lp_FetchMany_ok [of c lpQueueSize "stopIdleTimer c d"] q0 by (simp_all add: lpQueueSize_def)
  obtain msgs d2 where dr: "drainOrWait env c (stopIdleTimer c d) = (msgs, d2)" by (metis surj_pair)
  have resp: "resp = (case msgs of None \<Rightarrow> if lp_closed c d' then http_status 410 else http_status 204
           | Some ms \<Rightarrow> \<lparr>hpStatus = 200, hpBody = BMsgs ms, hpCookie = None\<rparr>)" "lp_queue c d' = lp_queue c d2"
    using assms(2) dr by (auto simp: lp_poll_def Let_def resetIdleTimer_def lp_closed_def split: if_splits)
  show ?thesis
  proof (cases "lp_queue c d = []")
    case False
    then have "msgs = Some (take 64 (lp_queue c d))" "d2 = ?d1"
      using dr q1(1) assms(1) by (auto simp: drainOrWait_def Let_def split_beta)
    then show ?thesis using False assms(3) resp q1(2) by (simp add: lpQueueSize_def)
  next
    case True
    let ?m = "dvMeanwhile env ?d1"
    have b: "before = lp_queue c ?m" using True assms(3) by simp
    show ?thesis
    proof (cases "lp_queue c ?m")
      case Nil
      have "msgs = None" "lp_queue c d2 = []"
        using dr q1(1) True assms(1) Nil
        by (auto simp: drainOrWait_def Let_def split_beta vk_BlockFetchOne_def split: if_splits)
      then show ?thesis using b Nil resp by (auto simp: http_status_def)
    next
      case (Cons m ms)
      let ?n = "?m\<lparr>dlWorld := (dlWorld ?m)\<lparr>wdQueues := vk_set (lpChannelName (wcAuth c)) ms (wdQueues (dlWorld ?m))\<rparr>\<rparr>"
      have "msgs = Some (m # fst (lp_FetchMany True c 63 ?n))" "d2 = snd (lp_FetchMany True c 63 ?n)"
        using dr q1(1) True assms(1) Cons
        by (auto simp: drainOrWait_def Let_def split_beta vk_BlockFetchOne_def lpQueueSize_def)
      moreover have "fst (lp_FetchMany True c 63 ?n) = take 63 ms" "lp_queue c (snd (lp_FetchMany True c 63 ?n)) = drop 63 ms"
        using lp_FetchMany_ok [of c 63 ?n] by simp_all
      ultimately show ?thesis using b Cons resp by simp
    qed
  qed
qed

theorem lp_poll_fifo_witness:
  "\<exists>resp d' ms. lp_poll (ex_denv 3) \<lparr>wcId = 7, wcAuth = ex_user, wcCore = WsCoreLongPolling\<rparr>
     (ex_delivery\<lparr>dlWorld := (ex_nworld ''a'' [])\<lparr>wdQueues := [(''lp:u:i'', [[1], [2]])]\<rparr>\<rparr>) = (resp, d') \<and>
     hpStatus resp = 200 \<and> hpBody resp = BMsgs ms \<and> ms \<noteq> []"
proof -
  let ?c = "\<lparr>wcId = 7, wcAuth = ex_user, wcCore = WsCoreLongPolling\<rparr>"
  let ?d = "ex_delivery\<lparr>dlWorld := (ex_nworld ''a'' [])\<lparr>wdQueues := [(''lp:u:i'', [[1], [2]])]\<rparr>\<rparr>"
  obtain resp d' where p: "lp_poll (ex_denv 3) ?c ?d = (resp, d')" by (metis surj_pair)
  have q: "vk_list [(''lp:u:i'', [[1], [2]])] (lpChannelName ex_user) = [[1], [2]]"
    by (simp add: lpChannelName_def ex_user_def IsAnonymous_def vk_list_def gm_get_def)
  have "if [[1], [2]] = ([] :: bytes list) then hpStatus resp \<in> {204, 410} \<and> lp_queue ?c d' = []
    else \<exists>ms. hpStatus resp = 200 \<and> hpBody resp = BMsgs ms \<and> ms \<noteq> [] \<and> length ms \<le> 64 \<and> ms @ lp_queue ?c d' = [[1], [2]]"
    by (rule lp_poll_fifo [OF _ p]) (simp_all add: q ex_denv_def)
  then show ?thesis using p by auto
qed

subsection \<open>Two polls at once\<close>

lemma lp_Close_closed: "lp_closed c (lp_Close env c d)"
  by (simp add: lp_Close_def lp_closed_def close_fields)

lemma lp_Close_queue: "lp_queue c' (lp_Close env c d) = lp_queue c' d"
  by (simp add: lp_Close_def ws_Close_def onClose_def upd_node_def Let_def split: prod.split outcome.split)

text \<open>A poll in flight can be ended by the idle timer.  The timer is stopped at the start
  of every poll, but it is started again at the end of every poll: when a client has two
  polls open and the first one ends, the timer closes the connection five seconds later
  while the second one is still waiting, which is then answered with 410.\<close>

theorem lp_idle_mid_poll:
  assumes "\<forall>n. dvFetch env n" "lp_queue c d = []" "\<not> lp_closed c d" "t + 5 * second \<le> neNow env3"
    and "dvMeanwhile env = (\<lambda>d. idle_fire env3 c (resetIdleTimer t c d))"
  shows "fst (lp_poll env c d) = http_status 410"
proof -
  let ?d1 = "snd (lp_FetchMany True c lpQueueSize (stopIdleTimer c d))"
  have q0: "lp_queue c (stopIdleTimer c d) = []" using assms(2) by (simp add: stopIdleTimer_def)
  have q1: "fst (lp_FetchMany True c lpQueueSize (stopIdleTimer c d)) = []" "lp_queue c ?d1 = []"
    using lp_FetchMany_ok [of c lpQueueSize "stopIdleTimer c d"] q0 by simp_all
  have o: "\<not> lp_closed c ?d1"
    using assms(3) by (simp add: lp_closed_def lp_FetchMany_def stopIdleTimer_def split: prod.split)
  have m: "dvMeanwhile env ?d1 = lp_Close env3 c (resetIdleTimer t c ?d1)"
    using o assms(4,5) by (simp add: idle_fire_def resetIdleTimer_def lpIdleTimeout_def)
  have q2: "lp_queue c (dvMeanwhile env ?d1) = []"
    unfolding m lp_Close_queue using o q1(2) by (simp add: resetIdleTimer_def)
  let ?m = "dvMeanwhile env ?d1"
  have dr: "drainOrWait env c (stopIdleTimer c d) =
      (None, ?m\<lparr>dlWorld := (dlWorld ?m)\<lparr>wdQueues := wdQueues (dlWorld ?m)\<rparr>\<rparr>)"
    using q1(1) q2 assms(1) by (simp add: drainOrWait_def Let_def split_beta vk_BlockFetchOne_def)
  have "lp_closed c ?m" unfolding m by (rule lp_Close_closed)
  then show ?thesis by (simp add: lp_poll_def dr resetIdleTimer_def lp_closed_def)
qed

theorem lp_idle_mid_poll_witness:
  "fst (lp_poll ((ex_denv 3)\<lparr>dvMeanwhile := (\<lambda>d. idle_fire (ex_nenv (10 * second) (single_codec (AckResolvedParams [])))
      \<lparr>wcId = 7, wcAuth = ex_user, wcCore = WsCoreLongPolling\<rparr>
      (resetIdleTimer 4 \<lparr>wcId = 7, wcAuth = ex_user, wcCore = WsCoreLongPolling\<rparr> d))\<rparr>)
    \<lparr>wcId = 7, wcAuth = ex_user, wcCore = WsCoreLongPolling\<rparr> ex_delivery) = http_status 410"
  by (rule lp_idle_mid_poll)
    (simp_all add: ex_denv_def ex_delivery_def ex_nworld_def ex_node_def vk_list_def lp_closed_def second_def)

text \<open>Sessions can share a long-polling queue.  The channel name joins the user and the
  instance id with a colon that both may contain, so a message sent to one session is put
  into the queue from which another user's session polls.\<close>

theorem lp_channel_collision:
  assumes "auUserID (wcAuth c1) = u @ '':'' @ v" "auInstanceID (wcAuth c1) = i" "u \<noteq> []"
    and "auUserID (wcAuth c2) = u" "auInstanceID (wcAuth c2) = v @ '':'' @ i"
    and "wcCore c1 = WsCoreLongPolling" "neSend env (wcId c1)"
  shows "lp_queue c2 (set_world (snd (ws_Send env c1 m (dlWorld d))) d) = lp_queue c2 d @ [m]"
proof -
  have "lpChannelName (wcAuth c1) = lpChannelName (wcAuth c2)"
    using assms(1-5) by (simp add: lpChannelName_def IsAnonymous_def)
  then show ?thesis using assms(6,7)
    by (simp add: ws_Send_def vk_Publish_def set_world_def log_ev_def Let_def)
qed

theorem lp_channel_collision_witness:
  "lp_queue \<lparr>wcId = 2, wcAuth = \<lparr>auUserID = ''a'', auInstanceID = ''b:c'', auMetadata = []\<rparr>, wcCore = WsCoreLongPolling\<rparr>
    (set_world (snd (ws_Send (ex_nenv 1 (single_codec (AckResolvedParams [])))
      \<lparr>wcId = 1, wcAuth = \<lparr>auUserID = ''a:b'', auInstanceID = ''c'', auMetadata = []\<rparr>, wcCore = WsCoreLongPolling\<rparr>
      [9] (dlWorld ex_delivery))) ex_delivery) = [[9]]"
proof -
  let ?a = "\<lparr>wcId = 1, wcAuth = \<lparr>auUserID = ''a:b'', auInstanceID = ''c'', auMetadata = []\<rparr>, wcCore = WsCoreLongPolling\<rparr>"
  let ?b = "\<lparr>wcId = 2, wcAuth = \<lparr>auUserID = ''a'', auInstanceID = ''b:c'', auMetadata = []\<rparr>, wcCore = WsCoreLongPolling\<rparr>"
  have "lp_queue ?b (set_world (snd (ws_Send (ex_nenv 1 (single_codec (AckResolvedParams []))) ?a [9] (dlWorld ex_delivery))) ex_delivery) =
      lp_queue ?b ex_delivery @ [[9]]"
    by (rule lp_channel_collision [where u = "''a''" and v = "''b''" and i = "''c''"]) simp_all
  then show ?thesis by (simp add: ex_delivery_def ex_nworld_def vk_list_def)
qed

end
