(* ===== verification/Monitoring.thy ===== *)
theory Monitoring
  imports ConnManager Repo WorkerPool Cache
begin

text \<open>
  The monitoring service of \<open>core/service/business\<close>: counts of the connections inside the
  container, of all live connections in the database, and of the tasks of the worker pool.
\<close>

record SumaryActiveConnection =
  smAnonymosConnection :: int
  smUserConnection :: int
  smTotalUser :: nat

record WorkerPoolSummary =
  wsmLength :: nat
  wsmCapacity :: nat
  wsmDropped :: nat

definition InsideActiveConnection :: "connectionMap \<Rightarrow> SumaryActiveConnection" where
  "InsideActiveConnection m =
     (let anonymousConns = GetAllAnonymousConn m;
          allConns = GetAllConnections m;
          uniqueUsers = fold (\<lambda>conn s. gm_put (auUserID (wcAuth conn)) () s) allConns []
      in \<lparr>smAnonymosConnection = int (length anonymousConns),
          smUserConnection = int (length allConns) - int (length anonymousConns),
          smTotalUser = length uniqueUsers\<rparr>)"

text \<open>The total is counted, then once more for the cache, whose answer is not used.\<close>

definition TotalActiveConnection ::
    "('f, 'o, 'p) codecs \<Rightarrow> 's kv_srv \<Rightarrow> int \<Rightarrow> int \<Rightarrow> db_fault \<Rightarrow> db_fault \<Rightarrow> ac_table \<Rightarrow> 's valkeyAdapter \<Rightarrow>
     (int, ErrorCode) outcome \<times> 's valkeyAdapter" where
  "TotalActiveConnection cv srv cutoff now fault1 fault2 t vk =
     (case AC_CountTotalActiveConnections cutoff now fault1 t of
        Ok total64 \<Rightarrow>
          (let fetch = (case AC_CountTotalActiveConnections cutoff now fault2 t of
                          Ok n \<Rightarrow> Ok (VNum KInt (int n)) | Err e \<Rightarrow> Err e | Panic \<Rightarrow> Panic)
           in case cacheThis_do cv srv now ''total_active_connection'' (5 * second) (TNum KInt) (VNum KInt 0) fetch vk of
                (Panic, vk) \<Rightarrow> (Panic, vk)
              | (_, vk) \<Rightarrow> (Ok (int total64), vk))
      | Err e \<Rightarrow> (Err e, vk)
      | Panic \<Rightarrow> (Panic, vk))"

definition WorkerPoolStats :: "'task pool \<Rightarrow> WorkerPoolSummary" where
  "WorkerPoolStats p =
     (let stat = Pool_Stat p in
      \<lparr>wsmLength = QueueLength stat, wsmCapacity = QueueCapacity stat, wsmDropped = DroppedTasks stat\<rparr>)"

lemma fold_put_keys:
  "gm_inv s \<Longrightarrow> gm_inv (fold (\<lambda>c s. gm_put (f c) () s) cs s) \<and>
     set (gm_keys (fold (\<lambda>c s. gm_put (f c) () s) cs s)) = set (gm_keys s) \<union> f ` set cs"
proof (induction cs arbitrary: s)
  case (Cons c cs)
  have "set (gm_keys (gm_put (f c) () s)) = insert (f c) (set (gm_keys s))" by (auto simp: set_gm_keys)
  then show ?case using Cons.IH [of "gm_put (f c) () s"] Cons.prems by simp
qed simp

abbreviation conn_key :: "WebsocketConn \<Rightarrow> gostring \<times> gostring" where
  "conn_key c \<equiv> auth_key (wcAuth c)"

lemma keys_of_conns:
  assumes "cm_inv m" "set cs = {c. \<exists>k \<in> K. cm_abs m k = Some c}"
  shows "conn_key ` set cs = {k \<in> K. cm_abs m k \<noteq> None}"
proof (rule set_eqI)
  fix k
  show "k \<in> conn_key ` set cs \<longleftrightarrow> k \<in> {k \<in> K. cm_abs m k \<noteq> None}"
    using assms(2) cm_abs_key [OF assms(1)] by fastforce
qed

lemma anonymous_count:
  assumes "cm_inv m"
  shows "length (GetAllAnonymousConn m) = card {i. cm_abs m ([], i) \<noteq> None}"
proof -
  have d: "distinct (map conn_key (GetAllAnonymousConn m))"
    using distinct_GetAllConnections [OF assms] by (simp add: GetAllConnections_split)
  have "conn_key ` set (GetAllAnonymousConn m) = {k \<in> {k. fst k = []}. cm_abs m k \<noteq> None}"
    by (rule keys_of_conns [OF assms]) (auto simp: set_GetAllAnonymousConn [OF assms])
  then have "set (map conn_key (GetAllAnonymousConn m)) = Pair [] ` {i. cm_abs m ([], i) \<noteq> None}"
    by (auto simp: image_iff)
  then have "length (GetAllAnonymousConn m) = card (Pair ([] :: gostring) ` {i. cm_abs m ([], i) \<noteq> None})"
    using distinct_card [OF d] by simp
  then show ?thesis by (simp add: card_image inj_on_def)
qed

lemma user_count:
  assumes "cm_inv m"
  shows "length (GetAllAuthenticatedConn m) = card {k. fst k \<noteq> [] \<and> cm_abs m k \<noteq> None}"
proof -
  have d: "distinct (map conn_key (GetAllAuthenticatedConn m))"
    using distinct_GetAllConnections [OF assms] by (simp add: GetAllConnections_split)
  have "conn_key ` set (GetAllAuthenticatedConn m) = {k \<in> {k. fst k \<noteq> []}. cm_abs m k \<noteq> None}"
    by (rule keys_of_conns [OF assms]) (auto simp: set_GetAllAuthenticatedConn [OF assms])
  then show ?thesis using distinct_card [OF d] by simp
qed

text \<open>The summary of a container counts its anonymous sessions and its user sessions
  exactly, each session once.  The number of users is the number of different user ids,
  the empty one included: all anonymous sessions together count as one more user.\<close>

theorem inside_counts_exact:
  assumes "cm_inv m"
  shows "InsideActiveConnection m =
    \<lparr>smAnonymosConnection = int (card {i. cm_abs m ([], i) \<noteq> None}),
     smUserConnection = int (card {k. fst k \<noteq> [] \<and> cm_abs m k \<noteq> None}),
     smTotalUser = card {u. \<exists>i. cm_abs m (u, i) \<noteq> None}\<rparr>"
proof -
  let ?u = "fold (\<lambda>conn s. gm_put (auUserID (wcAuth conn)) () s) (GetAllConnections m) []"
  have "conn_key ` set (GetAllConnections m) = {k \<in> UNIV. cm_abs m k \<noteq> None}"
    by (rule keys_of_conns [OF assms]) (auto simp: set_GetAllConnections [OF assms] ran_def)
  then have "fst ` conn_key ` set (GetAllConnections m) = {u. \<exists>i. cm_abs m (u, i) \<noteq> None}"
    by (simp only:) force
  then have "set (gm_keys ?u) = {u. \<exists>i. cm_abs m (u, i) \<noteq> None}"
    using fold_put_keys [of "[]" "\<lambda>c. auUserID (wcAuth c)" "GetAllConnections m"]
    by (simp add: image_image auth_key_def gm_keys_def)
  moreover have "distinct (gm_keys ?u)"
    using fold_put_keys [of "[]" "\<lambda>c. auUserID (wcAuth c)" "GetAllConnections m"] by (simp add: distinct_gm_keys)
  ultimately have "length ?u = card {u. \<exists>i. cm_abs m (u, i) \<noteq> None}"
    using distinct_card [of "gm_keys ?u"] by (simp add: gm_keys_def)
  then show ?thesis using anonymous_count [OF assms] user_count [OF assms]
    by (simp add: InsideActiveConnection_def GetAllConnections_split Let_def)
qed

theorem inside_counts_exact_witness:
  "smTotalUser (InsideActiveConnection (AddConnection (ex_conn 1 [] ''i'') (AddConnection (ex_conn 2 ''u'' ''j'') NewConnectionMap))) =
   card {u. \<exists>i. cm_abs (AddConnection (ex_conn 1 [] ''i'') (AddConnection (ex_conn 2 ''u'' ''j'') NewConnectionMap)) (u, i) \<noteq> None}"
  by (subst inside_counts_exact) (simp_all add: cm_inv_Add cm_inv_New)

end
