(* ===== verification/Config.thy ===== *)
theory Config
  imports RateLimiter GoStr
begin

text \<open>
  The configuration blocks of \<open>export/types\<close>: defaults, validation, and the origin check of
  CORS.  A block that is missing from the loaded file is a nil pointer (\<open>None\<close>); validation
  panics.  Regular expressions are a parameter (\<open>compile\<close> gives the matching predicate), and
  so is the generated container id.  Integers have the 64 bits of Go's \<open>int\<close>.
\<close>

subsection \<open>Blocks\<close>

record InfoT =
  inEnv :: gostring
  inPodName :: gostring
  inContainerID :: gostring

record CorsT =
  coEnabled :: bool
  coExactlyOrigins :: "gostring list"
  coRegexOrigins :: "gostring list"
  coCompiled :: "(gostring \<Rightarrow> bool) list"

record ActiveConnectionT =
  atHeartbeatCutoff :: int
  atPendingMsgTTL :: int
  atMaxConnections :: int

record PingCheckerT =
  pcPingIdleAfter :: int
  pcPongTimeout :: int

record WorkerPoolT =
  wtWorkers :: int
  wtBuffer :: int
  wtUpperThreshold :: int
  wtLowerThreshold :: int

record RateLimiterFullT = RateLimiterT +
  ControlFrameRate :: int
  ControlFrameBurst :: int
  IssueTokenIPRate :: int
  IssueTokenIPBurst :: int

record OtelT =
  otEnabled :: bool
  otLogLevel :: int
  otAutoInstrumentation :: bool
  otExporterType :: gostring
  otFilePath :: gostring
  otCollectorEndpoint :: gostring
  otCollectorInsecure :: bool

record ExtractHeaderT =
  ehTraceIDHeader :: gostring
  ehIpHeader :: gostring

record ValkeyT =
  vkPrimaryAddress :: gostring
  vkReplicaAddress :: gostring
  vkPassword :: gostring
  vkDatabaseIdx :: int

record DynamoTables =
  dtActiveConnection :: gostring
  dtFcmDevice :: gostring
  dtGroup :: gostring
  dtUser :: gostring
  dtUserGroup :: gostring
  dtNotiContent :: gostring
  dtGNoti :: gostring
  dtUNoti :: gostring
  dtNotiTimeBucket :: gostring
  dtPendingMessage :: gostring

record DynamoConfigT =
  dcCreateTables :: bool
  dcRegion :: gostring
  dcEndpoint :: "gostring option"
  dcRole :: "gostring option"
  dcProfile :: "gostring option"
  dcStaticAccessKey :: "gostring option"
  dcStaticSecretKey :: "gostring option"
  dcTables :: DynamoTables

record PostgresT =
  pgCreateTables :: bool
  pgHost :: gostring
  pgPort :: int
  pgDBName :: gostring
  pgUser :: gostring
  pgPassword :: gostring
  pgSSLMode :: gostring
  pgMaxConns :: int
  pgMinConns :: int

record MetricsT =
  mtEnabled :: bool
  mtPort :: int
  mtPath :: gostring
  mtMsgTypeAllowlist :: "gostring list"

type_synonym check = "(unit, unit) outcome"

definition ensure :: "bool \<Rightarrow> check" where
  "ensure b = (if b then Ok () else Panic)"

lemma ensure_Ok [simp]: "ensure b = Ok () \<longleftrightarrow> b"
  by (simp add: ensure_def)

fun all_checks :: "bool list \<Rightarrow> check" where
  "all_checks [] = Ok ()"
| "all_checks (b # bs) = obind (ensure b) (\<lambda>_. all_checks bs)"

lemma all_checks_Ok [simp]: "all_checks bs = Ok () \<longleftrightarrow> list_all (\<lambda>b. b) bs"
  by (induction bs) (auto simp: ensure_def)

lemma all_checks_cases: "all_checks bs = Ok () \<or> all_checks bs = Panic"
  by (induction bs) (auto simp: ensure_def)

subsection \<open>Info and CORS\<close>

definition Info_validate :: "InfoT \<Rightarrow> check" where
  "Info_validate r = all_checks [inEnv r \<noteq> [], inContainerID r \<noteq> []]"

definition Info_loadDefault :: "gostring \<Rightarrow> InfoT \<Rightarrow> InfoT" where
  "Info_loadDefault generated r = (if inContainerID r = [] then r\<lparr>inContainerID := generated\<rparr> else r)"

primrec compile_all :: "(gostring \<Rightarrow> (gostring \<Rightarrow> bool) option) \<Rightarrow> gostring list \<Rightarrow> ((gostring \<Rightarrow> bool) list, unit) outcome" where
  "compile_all compile [] = Ok []"
| "compile_all compile (p # ps) =
     (case compile (''^(?:'' @ p @ '')$'') of
        None \<Rightarrow> Panic
      | Some re \<Rightarrow> obind (compile_all compile ps) (\<lambda>res. Ok (re # res)))"

definition Cors_validate :: "(gostring \<Rightarrow> (gostring \<Rightarrow> bool) option) \<Rightarrow> CorsT \<Rightarrow> (CorsT, unit) outcome" where
  "Cors_validate compile c =
     (if coEnabled c then
        if length (coExactlyOrigins c) = 0 \<and> length (coRegexOrigins c) = 0 then Panic
        else obind (compile_all compile (coRegexOrigins c)) (\<lambda>res. Ok (c\<lparr>coCompiled := res\<rparr>))
      else Ok c)"

definition IsAllowedOrigin :: "CorsT \<Rightarrow> gostring \<Rightarrow> bool" where
  "IsAllowedOrigin c origin = (origin \<in> set (coExactlyOrigins c) \<or> (\<exists>re \<in> set (coCompiled c). re origin))"

text \<open>The headers \<open>corsMiddleware\<close> sets for an allowed origin, and whether it answers the
  request itself (a preflight request, status 204).\<close>

definition corsMiddleware :: "CorsT \<Rightarrow> gostring \<Rightarrow> gostring \<Rightarrow> (gostring \<times> gostring) list \<times> bool" where
  "corsMiddleware config reqMethod origin =
     (if origin \<noteq> [] \<and> IsAllowedOrigin config origin
      then [(''Access-Control-Allow-Origin'', origin),
            (''Access-Control-Allow-Methods'', ''POST, OPTIONS''),
            (''Access-Control-Allow-Headers'', ''Content-Type, Authorization, X-Pipewave-ID'')]
      else [], reqMethod = ''OPTIONS'')"

subsection \<open>Connections, ping checker, worker pool\<close>

definition ActiveConnection_validate :: "ActiveConnectionT \<Rightarrow> check" where
  "ActiveConnection_validate m =
     all_checks [atHeartbeatCutoff m > 0, atMaxConnections m \<ge> 0, atPendingMsgTTL m \<ge> atHeartbeatCutoff m]"

definition ActiveConnection_loadDefault :: "ActiveConnectionT \<Rightarrow> ActiveConnectionT" where
  "ActiveConnection_loadDefault m =
     (let m = (if atHeartbeatCutoff m = 0 then m\<lparr>atHeartbeatCutoff := 60 * second\<rparr> else m)
      in if atPendingMsgTTL m = 0 then m\<lparr>atPendingMsgTTL := sgn64 (atHeartbeatCutoff m * 2)\<rparr> else m)"

definition PingChecker_validate :: "PingCheckerT \<Rightarrow> check" where
  "PingChecker_validate p = all_checks [pcPingIdleAfter p > 0, pcPongTimeout p > 0]"

definition PingChecker_loadDefault :: "PingCheckerT \<Rightarrow> PingCheckerT" where
  "PingChecker_loadDefault p =
     (let p = (if pcPingIdleAfter p = 0 then p\<lparr>pcPingIdleAfter := 20 * second\<rparr> else p)
      in if pcPongTimeout p = 0 then p\<lparr>pcPongTimeout := 3 * second\<rparr> else p)"

definition WorkerPool_validate :: "WorkerPoolT \<Rightarrow> check" where
  "WorkerPool_validate w =
     all_checks [wtWorkers w \<ge> 0, wtBuffer w > 0, wtUpperThreshold w > 0, wtLowerThreshold w \<ge> 0,
       wtUpperThreshold w > wtLowerThreshold w]"

text \<open>Integer division truncates towards zero; the quotients here have a positive divisor.\<close>

definition go_quot :: "int \<Rightarrow> int \<Rightarrow> int" where
  "go_quot a b = (if a < 0 then - ((- a) div b) else a div b)"

definition WorkerPool_loadDefault :: "WorkerPoolT \<Rightarrow> WorkerPoolT" where
  "WorkerPool_loadDefault w =
     (let w = (if wtBuffer w = 0 then w\<lparr>wtBuffer := 4096\<rparr> else w);
          w = (if wtUpperThreshold w = 0
               then w\<lparr>wtUpperThreshold := max 1 (go_quot (sgn64 (wtBuffer w * 3)) 4)\<rparr> else w);
          w = (if wtLowerThreshold w = 0 then w\<lparr>wtLowerThreshold := go_quot (wtBuffer w) 4\<rparr> else w)
      in if wtUpperThreshold w \<le> wtLowerThreshold w
         then w\<lparr>wtLowerThreshold := wtUpperThreshold w - 1\<rparr> else w)"

subsection \<open>Rate limiter\<close>

definition RateLimiter_validate :: "RateLimiterFullT \<Rightarrow> check" where
  "RateLimiter_validate r =
     all_checks [UserRate r > 0, UserBurst r \<ge> UserRate r, AnonymousRate r > 0, AnonymousBurst r \<ge> AnonymousRate r,
       ControlFrameRate r > 0, ControlFrameBurst r \<ge> ControlFrameRate r,
       IssueTokenIPRate r > 0, IssueTokenIPBurst r \<ge> IssueTokenIPRate r]"

definition dflt :: "int \<Rightarrow> int \<Rightarrow> int" where
  "dflt d x = (if x = 0 then d else x)"

definition RateLimiter_loadDefault :: "RateLimiterFullT \<Rightarrow> RateLimiterFullT" where
  "RateLimiter_loadDefault r =
     \<lparr>UserRate = dflt 30 (UserRate r), UserBurst = dflt 60 (UserBurst r),
      AnonymousRate = dflt 5 (AnonymousRate r), AnonymousBurst = dflt 10 (AnonymousBurst r),
      ControlFrameRate = dflt 5 (ControlFrameRate r), ControlFrameBurst = dflt 10 (ControlFrameBurst r),
      IssueTokenIPRate = dflt 5 (IssueTokenIPRate r), IssueTokenIPBurst = dflt 20 (IssueTokenIPBurst r)\<rparr>"

definition AnonymousInstance_validate :: "gostring \<Rightarrow> check" where
  "AnonymousInstance_validate secret = all_checks [secret \<noteq> []]"

subsection \<open>Telemetry and metrics\<close>

definition Otel_validate :: "OtelT \<Rightarrow> check" where
  "Otel_validate o' =
     (if otEnabled o' then
        all_checks [otExporterType o' \<in> {''discard'', ''stdout'', ''file'', ''otlp-grpc'', ''otlp-http''},
          \<not> (otExporterType o' = ''file'' \<and> otFilePath o' = []),
          \<not> (otExporterType o' = ''otlp-grpc'' \<and> otCollectorEndpoint o' = []),
          \<not> (otExporterType o' = ''otlp-http'' \<and> otCollectorEndpoint o' = [])]
      else Ok ())"

definition Otel_loadDefault :: "OtelT \<Rightarrow> OtelT" where
  "Otel_loadDefault o' = (if otExporterType o' = [] then o'\<lparr>otExporterType := ''discard''\<rparr> else o')"

definition maxMetricsMsgTypeLen :: nat where
  "maxMetricsMsgTypeLen = 32"

definition printable :: "char \<Rightarrow> bool" where
  "printable c \<longleftrightarrow> \<not> (of_char c < (0x20 :: nat) \<or> of_char c > (0x7E :: nat))"

definition Metrics_validate :: "MetricsT \<Rightarrow> check" where
  "Metrics_validate m =
     (if \<not> mtEnabled m then Ok ()
      else obind (all_checks [\<not> (mtPort m \<le> 0 \<or> mtPort m > 65535), HasPrefix (mtPath m) ''/'']) (\<lambda>_.
        all_checks (concat (map (\<lambda>e. (\<not> (e = [] \<or> length e > maxMetricsMsgTypeLen)) # map printable e)
          (mtMsgTypeAllowlist m)))))"

definition Metrics_loadDefault :: "MetricsT \<Rightarrow> MetricsT" where
  "Metrics_loadDefault m =
     (let m = (if mtPort m = 0 then m\<lparr>mtPort := 9090\<rparr> else m)
      in if mtPath m = [] then m\<lparr>mtPath := ''/metrics''\<rparr> else m)"

subsection \<open>The whole environment\<close>

record EnvType =
  enInfo :: "InfoT option"
  enAutoMigration :: bool
  enActiveConnection :: "ActiveConnectionT option"
  enPingChecker :: "PingCheckerT option"
  enRateLimiter :: "RateLimiterFullT option"
  enAnonymousInstance :: "gostring option"
  enWorkerPool :: "WorkerPoolT option"
  enExtractHeader :: "ExtractHeaderT option"
  enCors :: "CorsT option"
  enOtel :: "OtelT option"
  enMetrics :: "MetricsT option"
  enValkey :: "ValkeyT option"
  enDynamoDB :: "DynamoConfigT option"
  enPostgres :: "PostgresT option"

definition zInfo :: InfoT where "zInfo = \<lparr>inEnv = [], inPodName = [], inContainerID = []\<rparr>"
definition zActiveConnection :: ActiveConnectionT where
  "zActiveConnection = \<lparr>atHeartbeatCutoff = 0, atPendingMsgTTL = 0, atMaxConnections = 0\<rparr>"
definition zPingChecker :: PingCheckerT where "zPingChecker = \<lparr>pcPingIdleAfter = 0, pcPongTimeout = 0\<rparr>"
definition zRateLimiter :: RateLimiterFullT where
  "zRateLimiter = \<lparr>UserRate = 0, UserBurst = 0, AnonymousRate = 0, AnonymousBurst = 0,
     ControlFrameRate = 0, ControlFrameBurst = 0, IssueTokenIPRate = 0, IssueTokenIPBurst = 0\<rparr>"
definition zWorkerPool :: WorkerPoolT where
  "zWorkerPool = \<lparr>wtWorkers = 0, wtBuffer = 0, wtUpperThreshold = 0, wtLowerThreshold = 0\<rparr>"
definition zCors :: CorsT where
  "zCors = \<lparr>coEnabled = False, coExactlyOrigins = [], coRegexOrigins = [], coCompiled = []\<rparr>"
definition zOtel :: OtelT where
  "zOtel = \<lparr>otEnabled = False, otLogLevel = 0, otAutoInstrumentation = False, otExporterType = [], otFilePath = [],
     otCollectorEndpoint = [], otCollectorInsecure = False\<rparr>"
definition zExtractHeader :: ExtractHeaderT where "zExtractHeader = \<lparr>ehTraceIDHeader = [], ehIpHeader = []\<rparr>"
definition zValkey :: ValkeyT where
  "zValkey = \<lparr>vkPrimaryAddress = [], vkReplicaAddress = [], vkPassword = [], vkDatabaseIdx = 0\<rparr>"
definition zDynamoDB :: DynamoConfigT where
  "zDynamoDB = \<lparr>dcCreateTables = False, dcRegion = [], dcEndpoint = None, dcRole = None, dcProfile = None,
     dcStaticAccessKey = None, dcStaticSecretKey = None,
     dcTables = \<lparr>dtActiveConnection = [], dtFcmDevice = [], dtGroup = [], dtUser = [], dtUserGroup = [],
       dtNotiContent = [], dtGNoti = [], dtUNoti = [], dtNotiTimeBucket = [], dtPendingMessage = []\<rparr>\<rparr>"
definition zPostgres :: PostgresT where
  "zPostgres = \<lparr>pgCreateTables = False, pgHost = [], pgPort = 0, pgDBName = [], pgUser = [], pgPassword = [],
     pgSSLMode = [], pgMaxConns = 0, pgMinConns = 0\<rparr>"
definition zMetrics :: MetricsT where
  "zMetrics = \<lparr>mtEnabled = False, mtPort = 0, mtPath = [], mtMsgTypeAllowlist = []\<rparr>"

lemmas zero_blocks = zInfo_def zActiveConnection_def zPingChecker_def zRateLimiter_def zWorkerPool_def
  zCors_def zOtel_def zMetrics_def

definition or_zero :: "'a \<Rightarrow> 'a option \<Rightarrow> 'a option" where
  "or_zero z p = (case p of None \<Rightarrow> Some z | Some x \<Rightarrow> Some x)"

definition ensureNonNil :: "EnvType \<Rightarrow> EnvType" where
  "ensureNonNil e = e\<lparr>enInfo := or_zero zInfo (enInfo e),
     enActiveConnection := or_zero zActiveConnection (enActiveConnection e),
     enPingChecker := or_zero zPingChecker (enPingChecker e),
     enRateLimiter := or_zero zRateLimiter (enRateLimiter e),
     enAnonymousInstance := or_zero [] (enAnonymousInstance e),
     enWorkerPool := or_zero zWorkerPool (enWorkerPool e),
     enExtractHeader := or_zero zExtractHeader (enExtractHeader e),
     enCors := or_zero zCors (enCors e),
     enOtel := or_zero zOtel (enOtel e),
     enValkey := or_zero zValkey (enValkey e),
     enDynamoDB := or_zero zDynamoDB (enDynamoDB e),
     enPostgres := or_zero zPostgres (enPostgres e)\<rparr>"

definition Env_LoadDefault :: "gostring \<Rightarrow> EnvType \<Rightarrow> EnvType" where
  "Env_LoadDefault generated e =
     (let e = ensureNonNil e in
      e\<lparr>enInfo := map_option (Info_loadDefault generated) (enInfo e),
        enActiveConnection := map_option ActiveConnection_loadDefault (enActiveConnection e),
        enPingChecker := map_option PingChecker_loadDefault (enPingChecker e),
        enRateLimiter := map_option RateLimiter_loadDefault (enRateLimiter e),
        enWorkerPool := map_option WorkerPool_loadDefault (enWorkerPool e),
        enOtel := map_option Otel_loadDefault (enOtel e),
        enMetrics := map_option Metrics_loadDefault (or_zero zMetrics (enMetrics e))\<rparr>)"

text \<open>A method on a nil block reads its fields, which panics.\<close>

definition deref :: "('a \<Rightarrow> check) \<Rightarrow> 'a option \<Rightarrow> check" where
  "deref f p = (case p of None \<Rightarrow> Panic | Some x \<Rightarrow> f x)"

definition Env_Validate :: "(gostring \<Rightarrow> (gostring \<Rightarrow> bool) option) \<Rightarrow> EnvType \<Rightarrow> (EnvType, unit) outcome" where
  "Env_Validate compile e =
     obind (deref Info_validate (enInfo e)) (\<lambda>_.
     obind (case enCors e of None \<Rightarrow> Panic | Some c \<Rightarrow> Cors_validate compile c) (\<lambda>cors.
     obind (deref ActiveConnection_validate (enActiveConnection e)) (\<lambda>_.
     obind (deref PingChecker_validate (enPingChecker e)) (\<lambda>_.
     obind (deref RateLimiter_validate (enRateLimiter e)) (\<lambda>_.
     obind (deref AnonymousInstance_validate (enAnonymousInstance e)) (\<lambda>_.
     obind (deref Otel_validate (enOtel e)) (\<lambda>_.
     obind (case enMetrics e of None \<Rightarrow> Ok () | Some m \<Rightarrow> Metrics_validate m) (\<lambda>_.
     obind (deref WorkerPool_validate (enWorkerPool e)) (\<lambda>_.
       Ok (e\<lparr>enCors := Some cors\<rparr>))))))))))"

definition minimal_env :: "InfoT \<Rightarrow> gostring \<Rightarrow> EnvType" where
  "minimal_env i secret = \<lparr>enInfo = Some i, enAutoMigration = False, enActiveConnection = None, enPingChecker = None, enRateLimiter = None,
     enAnonymousInstance = Some secret, enWorkerPool = None, enExtractHeader = None, enCors = None, enOtel = None,
     enMetrics = None, enValkey = None, enDynamoDB = None, enPostgres = None\<rparr>"

lemma or_zero_twice: "or_zero z (or_zero z p) = or_zero z p"
  by (cases p) (simp_all add: or_zero_def)

lemma or_zero_map: "or_zero z (map_option f (or_zero z' p)) = map_option f (or_zero z' p)"
  by (cases p) (simp_all add: or_zero_def)

lemma or_zero_nonnil [simp]: "or_zero z p \<noteq> None"
  by (cases p) (simp_all add: or_zero_def)

subsection \<open>Defaults are valid and stable\<close>

lemma quot_bounds:
  fixes b :: int
  assumes "0 \<le> b" "b < 2 ^ 61"
  shows "sgn64 (b * 3) = b * 3" "go_quot (b * 3) 4 = b * 3 div 4" "go_quot b 4 = b div 4"
  using assms by (simp_all add: sgn64_id go_quot_def)

lemma WorkerPool_loadDefault_eq:
  "WorkerPool_loadDefault w =
     (let b = (if wtBuffer w = 0 then 4096 else wtBuffer w);
          u = (if wtUpperThreshold w = 0 then max 1 (go_quot (sgn64 (b * 3)) 4) else wtUpperThreshold w);
          l = (if wtLowerThreshold w = 0 then go_quot b 4 else wtLowerThreshold w)
      in w\<lparr>wtBuffer := b, wtUpperThreshold := u, wtLowerThreshold := if u \<le> l then u - 1 else l\<rparr>)"
  by (cases w) (simp add: WorkerPool_loadDefault_def Let_def)

text \<open>The defaults of the worker pool always give a valid pool: whatever non-negative
  values the configuration has, missing ones included and down to a buffer of one task, the
  completed block passes validation, with a lower threshold below the upper one.\<close>

theorem worker_pool_defaults_valid:
  assumes "0 \<le> wtWorkers w" "0 \<le> wtBuffer w" "wtBuffer w < 2 ^ 61" "0 \<le> wtUpperThreshold w" "0 \<le> wtLowerThreshold w"
  shows "WorkerPool_validate (WorkerPool_loadDefault w) = Ok ()"
proof -
  define b where "b = (if wtBuffer w = 0 then 4096 else wtBuffer w)"
  have b: "0 < b" "b < 2 ^ 61" using assms(2,3) by (simp_all add: b_def)
  define u where "u = (if wtUpperThreshold w = 0 then max 1 (b * 3 div 4) else wtUpperThreshold w)"
  have u: "0 < u" using assms(4) by (cases "wtUpperThreshold w = 0") (simp_all add: u_def)
  define l where "l = (if wtLowerThreshold w = 0 then b div 4 else wtLowerThreshold w)"
  have l: "0 \<le> l" using assms(5) b by (simp add: l_def pos_imp_zdiv_nonneg_iff)
  have q: "sgn64 (b * 3) = b * 3" "go_quot (b * 3) 4 = b * 3 div 4" "go_quot b 4 = b div 4"
    using quot_bounds [of b] b by simp_all
  have "WorkerPool_loadDefault w = w\<lparr>wtBuffer := b, wtUpperThreshold := u, wtLowerThreshold := if u \<le> l then u - 1 else l\<rparr>"
    unfolding WorkerPool_loadDefault_eq Let_def b_def [symmetric] q u_def [symmetric] l_def [symmetric] ..
  then show ?thesis using assms(1) b u l by (simp add: WorkerPool_validate_def ensure_def)
qed

theorem worker_pool_defaults_valid_witness:
  "WorkerPool_validate (WorkerPool_loadDefault \<lparr>wtWorkers = 0, wtBuffer = 1, wtUpperThreshold = 0, wtLowerThreshold = 0\<rparr>) = Ok ()"
  by (rule worker_pool_defaults_valid) simp_all

lemma ActiveConnection_loadDefault_idem:
  "ActiveConnection_loadDefault (ActiveConnection_loadDefault a) = ActiveConnection_loadDefault a"
  by (cases "atHeartbeatCutoff a = 0"; cases "atPendingMsgTTL a = 0")
    (simp_all add: ActiveConnection_loadDefault_def Let_def second_def)

lemma PingChecker_loadDefault_idem: "PingChecker_loadDefault (PingChecker_loadDefault p) = PingChecker_loadDefault p"
  by (cases "pcPingIdleAfter p = 0"; cases "pcPongTimeout p = 0")
    (simp_all add: PingChecker_loadDefault_def Let_def second_def)

lemma Metrics_loadDefault_idem: "Metrics_loadDefault (Metrics_loadDefault m) = Metrics_loadDefault m"
  by (cases "mtPort m = 0"; cases "mtPath m = []") (simp_all add: Metrics_loadDefault_def Let_def)

lemma small_loadDefault_idem:
  "Info_loadDefault g (Info_loadDefault g i) = Info_loadDefault g i"
  "RateLimiter_loadDefault (RateLimiter_loadDefault r) = RateLimiter_loadDefault r"
  "Otel_loadDefault (Otel_loadDefault t) = Otel_loadDefault t"
  by (simp_all add: Info_loadDefault_def RateLimiter_loadDefault_def dflt_def Otel_loadDefault_def)

lemma WorkerPool_loadDefault_idem:
  assumes "0 \<le> wtBuffer w"
  shows "WorkerPool_loadDefault (WorkerPool_loadDefault w) = WorkerPool_loadDefault w"
proof -
  define b where "b = (if wtBuffer w = 0 then 4096 else wtBuffer w)"
  define u where "u = (if wtUpperThreshold w = 0 then max 1 (go_quot (sgn64 (b * 3)) 4) else wtUpperThreshold w)"
  define l where "l = (if wtLowerThreshold w = 0 then go_quot b 4 else wtLowerThreshold w)"
  define l' where "l' = (if u \<le> l then u - 1 else l)"
  have b: "0 < b" using assms by (simp add: b_def)
  then have q: "0 \<le> go_quot b 4" by (simp add: go_quot_def)
  have u: "u \<noteq> 0" by (auto simp: u_def max_def)
  have w: "WorkerPool_loadDefault w = w\<lparr>wtBuffer := b, wtUpperThreshold := u, wtLowerThreshold := l'\<rparr>"
    by (simp add: WorkerPool_loadDefault_eq Let_def b_def u_def l_def l'_def)
  have l0: "(if u \<le> (if l' = 0 then go_quot b 4 else l') then u - 1 else (if l' = 0 then go_quot b 4 else l')) = l'"
    using q u by (auto simp: l'_def l_def)
  show ?thesis unfolding w using b u l0 by (subst WorkerPool_loadDefault_eq) (simp add: Let_def del: if_split cong: if_cong)
qed

lemmas loadDefault_idem = ActiveConnection_loadDefault_idem PingChecker_loadDefault_idem Metrics_loadDefault_idem
  small_loadDefault_idem WorkerPool_loadDefault_idem

text \<open>Loading the defaults a second time changes nothing, for every configuration whose
  worker pool, if given, has a buffer that is not negative; and afterwards no block is
  missing, so that validation never dereferences a nil block.\<close>

theorem load_default_stable:
  assumes "\<And>w. enWorkerPool e = Some w \<Longrightarrow> 0 \<le> wtBuffer w"
  shows "Env_LoadDefault g (Env_LoadDefault g e) = Env_LoadDefault g e \<and>
     enInfo (Env_LoadDefault g e) \<noteq> None \<and> enActiveConnection (Env_LoadDefault g e) \<noteq> None \<and>
     enPingChecker (Env_LoadDefault g e) \<noteq> None \<and> enRateLimiter (Env_LoadDefault g e) \<noteq> None \<and>
     enAnonymousInstance (Env_LoadDefault g e) \<noteq> None \<and> enWorkerPool (Env_LoadDefault g e) \<noteq> None \<and>
     enExtractHeader (Env_LoadDefault g e) \<noteq> None \<and> enCors (Env_LoadDefault g e) \<noteq> None \<and>
     enOtel (Env_LoadDefault g e) \<noteq> None \<and> enMetrics (Env_LoadDefault g e) \<noteq> None \<and>
     enValkey (Env_LoadDefault g e) \<noteq> None \<and> enDynamoDB (Env_LoadDefault g e) \<noteq> None \<and> enPostgres (Env_LoadDefault g e) \<noteq> None"
proof -
  have w: "WorkerPool_loadDefault (WorkerPool_loadDefault zWorkerPool) = WorkerPool_loadDefault zWorkerPool"
    by (rule WorkerPool_loadDefault_idem) (simp add: zWorkerPool_def)
  have "or_zero zWorkerPool (map_option WorkerPool_loadDefault (or_zero zWorkerPool (enWorkerPool e))) =
      map_option WorkerPool_loadDefault (or_zero zWorkerPool (enWorkerPool e))"
    by (cases "enWorkerPool e") (simp_all add: or_zero_def)
  moreover have "map_option (WorkerPool_loadDefault \<circ> WorkerPool_loadDefault) (or_zero zWorkerPool (enWorkerPool e)) =
      map_option WorkerPool_loadDefault (or_zero zWorkerPool (enWorkerPool e))"
    using w assms by (cases "enWorkerPool e") (simp_all add: or_zero_def WorkerPool_loadDefault_idem)
  ultimately show ?thesis
    by (simp add: Env_LoadDefault_def ensureNonNil_def Let_def or_zero_map or_zero_twice option.map_comp comp_def
        loadDefault_idem)
qed

theorem load_default_stable_witness:
  "Env_LoadDefault ''c'' (Env_LoadDefault ''c'' (minimal_env zInfo ''k'')) = Env_LoadDefault ''c'' (minimal_env zInfo ''k'')"
  by (rule load_default_stable [THEN conjunct1]) (simp add: minimal_env_def)

text \<open>A configuration that names only the environment and the signing secret is complete:
  with the defaults loaded it passes validation.\<close>

theorem minimal_config_valid:
  assumes "inEnv i \<noteq> []" "secret \<noteq> []" "g \<noteq> []"
  shows "is_ok (Env_Validate compile (Env_LoadDefault g (minimal_env i secret)))"
proof -
  have "WorkerPool_validate (WorkerPool_loadDefault zWorkerPool) = Ok ()"
    by (simp add: zWorkerPool_def WorkerPool_loadDefault_def WorkerPool_validate_def go_quot_def sgn64_def ensure_def)
  then show ?thesis using assms
    by (simp add: Env_LoadDefault_def ensureNonNil_def or_zero_def minimal_env_def Let_def Env_Validate_def deref_def
        Info_validate_def Info_loadDefault_def Cors_validate_def zCors_def ActiveConnection_validate_def
        ActiveConnection_loadDefault_def zActiveConnection_def PingChecker_validate_def PingChecker_loadDefault_def
        zPingChecker_def RateLimiter_validate_def RateLimiter_loadDefault_def zRateLimiter_def dflt_def
        AnonymousInstance_validate_def Otel_validate_def Otel_loadDefault_def zOtel_def Metrics_validate_def
        Metrics_loadDefault_def zMetrics_def ensure_def second_def sgn64_def)
qed

theorem minimal_config_valid_witness:
  "is_ok (Env_Validate (\<lambda>_. None) (Env_LoadDefault ''c''
     (minimal_env \<lparr>inEnv = ''dev'', inPodName = [], inContainerID = []\<rparr> ''key'')))"
  by (rule minimal_config_valid) simp_all

subsection \<open>Origins\<close>

lemma compile_all_Ok:
  assumes "compile_all compile ps = Ok res" "\<forall>p \<in> set ps. compile (''^(?:'' @ p @ '')$'') = Some (matches p)"
  shows "res = map matches ps"
  using assms by (induction ps arbitrary: res) (auto simp: obind_eq_Ok)

text \<open>When CORS is enabled and the configuration has been validated, an origin gets the
  CORS headers exactly if it is listed or one of the configured patterns matches the whole
  of it; an origin that merely contains a match does not.\<close>

theorem cors_exact:
  assumes "coEnabled c" "Cors_validate compile c = Ok c'"
    and "\<forall>p \<in> set (coRegexOrigins c). compile (''^(?:'' @ p @ '')$'') = Some (matches p)"
  shows "fst (corsMiddleware c' reqMethod origin) \<noteq> [] \<longleftrightarrow>
    origin \<noteq> [] \<and> (origin \<in> set (coExactlyOrigins c) \<or> (\<exists>p \<in> set (coRegexOrigins c). matches p origin))"
proof -
  have "\<exists>res. compile_all compile (coRegexOrigins c) = Ok res \<and> c' = c\<lparr>coCompiled := res\<rparr>"
    using assms(1,2) by (auto simp: Cors_validate_def obind_eq_Ok split: if_splits)
  then have "coCompiled c' = map matches (coRegexOrigins c)" "coExactlyOrigins c' = coExactlyOrigins c"
    using compile_all_Ok [OF _ assms(3)] by auto
  then show ?thesis by (auto simp: corsMiddleware_def IsAllowedOrigin_def)
qed

theorem cors_exact_witness:
  "fst (corsMiddleware \<lparr>coEnabled = True, coExactlyOrigins = [''a''], coRegexOrigins = [''b''], coCompiled = [\<lambda>x. x = ''b'']\<rparr> ''POST'' ''b'') \<noteq> []"
proof -
  have v: "Cors_validate (\<lambda>_. Some (\<lambda>x. x = ''b'')) \<lparr>coEnabled = True, coExactlyOrigins = [''a''], coRegexOrigins = [''b''], coCompiled = []\<rparr> =
      Ok \<lparr>coEnabled = True, coExactlyOrigins = [''a''], coRegexOrigins = [''b''], coCompiled = [\<lambda>x. x = ''b'']\<rparr>"
    by (simp add: Cors_validate_def)
  show ?thesis by (subst cors_exact [OF _ v, where matches = "\<lambda>p x. x = p"]) simp_all
qed

end
