(* ===== verification/Webhook.thy ===== *)
theory Webhook
  imports GoStr
begin

text \<open>
  The synchronous half of \<open>server/webhook\<close>: the signed envelope, the sender, the circuit
  breaker, the retrying caller, the pinger and the health monitor.  Parameters: base64 and
  Ed25519 (\<open>signer_ops\<close>), the JSON encoder and the URL parser (\<open>post_env\<close>), and the answer
  of the receiver to each attempt.
\<close>

subsection \<open>Envelope\<close>

definition SignatureHeader :: gostring where "SignatureHeader = ''X-Pipewave-Signature''"

definition EventInspectToken :: gostring where "EventInspectToken = ''inspect_token''"
definition EventHandleMessage :: gostring where "EventHandleMessage = ''handle_message''"
definition EventOnNewConnection :: gostring where "EventOnNewConnection = ''on_new_connection''"
definition EventOnNewConnectionEstablished :: gostring where
  "EventOnNewConnectionEstablished = ''on_new_connection_established''"
definition EventOnCloseConnection :: gostring where "EventOnCloseConnection = ''on_close_connection''"
definition EventOnReadError :: gostring where "EventOnReadError = ''on_read_error''"
definition EventOnWriteError :: gostring where "EventOnWriteError = ''on_write_error''"
definition EventMessageReceived :: gostring where "EventMessageReceived = ''message_received''"
definition EventPing :: gostring where "EventPing = ''ping''"

record Meta =
  meSentAt :: int
  meCallbackID :: gostring
  meEventType :: gostring

record Body =
  bdData :: bytes
  bdMeta :: Meta

definition NewCallbackID :: "gostring \<Rightarrow> gostring" where
  "NewCallbackID nano = ''cb_'' @ nano"

subsection \<open>Signing key\<close>

record 'k signer_ops =
  soEncode :: "bytes \<Rightarrow> gostring"
  soDecode :: "gostring \<Rightarrow> bytes option"
  soFromSeed :: "bytes \<Rightarrow> 'k"
  soSeed :: "'k \<Rightarrow> bytes"
  soPublic :: "'k \<Rightarrow> bytes"
  soSign :: "'k \<Rightarrow> bytes \<Rightarrow> bytes"
  soVerify :: "bytes \<Rightarrow> bytes \<Rightarrow> bytes \<Rightarrow> bool"

record PublicKeyVerifier =
  pkAlg :: gostring
  pkPublicKeyInBase64 :: gostring

datatype keyfile = FileBytes bytes | NoFile | FileError
datatype signer_err = NotBase64 | BadSeedLength nat | ReadKeyFile | GenerateKey | PersistKeyFile

text \<open>\<open>gen\<close> is the generated key, \<open>written\<close> what a failing write leaves behind (\<open>None\<close>: the
  write succeeds).\<close>

definition LoadOrGenerateSigner ::
    "'k signer_ops \<Rightarrow> 'k option \<Rightarrow> keyfile option \<Rightarrow> keyfile \<Rightarrow> ('k, signer_err) outcome \<times> keyfile" where
  "LoadOrGenerateSigner so gen written f =
     (case f of
        FileBytes b \<Rightarrow>
          (case soDecode so (TrimSpace (bytes_str b)) of
             None \<Rightarrow> (Err NotBase64, f)
           | Some seed \<Rightarrow>
               if length seed \<noteq> 32 then (Err (BadSeedLength (length seed)), f)
               else (Ok (soFromSeed so seed), f))
      | FileError \<Rightarrow> (Err ReadKeyFile, f)
      | NoFile \<Rightarrow>
          (case gen of
             None \<Rightarrow> (Err GenerateKey, f)
           | Some priv \<Rightarrow>
               let seedB64 = soEncode so (soSeed so priv) in
               case written of
                 Some f' \<Rightarrow> (Err PersistKeyFile, f')
               | None \<Rightarrow> (Ok priv, FileBytes (str_bytes (seedB64 @ [CHR 0x0A])))))"

definition wh_Sign :: "'k signer_ops \<Rightarrow> 'k \<Rightarrow> bytes \<Rightarrow> gostring" where
  "wh_Sign so priv body = soEncode so (soSign so priv body)"

definition wh_Verify :: "'k signer_ops \<Rightarrow> 'k \<Rightarrow> bytes \<Rightarrow> gostring \<Rightarrow> bool" where
  "wh_Verify so priv body sigB64 =
     (case soDecode so sigB64 of None \<Rightarrow> False | Some s \<Rightarrow> soVerify so (soPublic so priv) body s)"

definition wh_PublicKey :: "'k signer_ops \<Rightarrow> 'k \<Rightarrow> PublicKeyVerifier" where
  "wh_PublicKey so priv = \<lparr>pkAlg = ''Ed25519'', pkPublicKeyInBase64 = soEncode so (soPublic so priv)\<rparr>"

text \<open>What base64 and Ed25519 promise: decoding inverts encoding, the encoding has no white
  space, a key is determined by its seed of 32 bytes, and a signature verifies.\<close>

definition signer_ok :: "'k signer_ops \<Rightarrow> bool" where
  "signer_ok so \<longleftrightarrow> (\<forall>b. soDecode so (soEncode so b) = Some b) \<and> (\<forall>b. \<forall>c \<in> set (soEncode so b). \<not> is_space c) \<and>
     (\<forall>k. length (soSeed so k) = 32 \<and> soFromSeed so (soSeed so k) = k) \<and>
     (\<forall>k m. soVerify so (soPublic so k) m (soSign so k m))"

subsection \<open>Sender\<close>

definition maxRespBody :: nat where "maxRespBody = 1048576"
definition ModeSync :: gostring where "ModeSync = ''sync''"
definition ModeAsync :: gostring where "ModeAsync = ''async''"
definition ModePubsub :: gostring where "ModePubsub = ''pubsub''"

datatype post_err = MarshalData | MarshalEnvelope | BuildRequest | PostFailed | ReadResponse

datatype observation =
    ObserveCall gostring gostring int "post_err option"
  | ObserveRetry gostring gostring
  | ObserveDropped gostring

record 'k Sender =
  snSigner :: "'k option"
  snUrl :: gostring
  snObs :: bool

record ('d, 'k) post_env =
  peJson :: "'d \<Rightarrow> bytes option"
  peBody :: "Body \<Rightarrow> bytes option"
  peUrlOk :: "gostring \<Rightarrow> bool"
  peSigner :: "'k signer_ops"

record wh_request =
  rqUrl :: gostring
  rqContentType :: gostring
  rqSignature :: "gostring option"
  rqBody :: bytes

text \<open>The answer to a request: none (a transport error or the timeout), or a status and a
  body, whose reading may fail.\<close>

datatype http_result = HttpFail | HttpReply int bytes bool

record wh_log =
  wlRequests :: "wh_request list"
  wlObs :: "observation list"

definition observe :: "'k Sender \<Rightarrow> observation \<Rightarrow> wh_log \<Rightarrow> wh_log" where
  "observe s ob lg = (if snObs s then lg\<lparr>wlObs := wlObs lg @ [ob]\<rparr> else lg)"

definition build_request :: "('d, 'k) post_env \<Rightarrow> 'k Sender \<Rightarrow> int \<Rightarrow> gostring \<Rightarrow> gostring \<Rightarrow> 'd \<Rightarrow> (wh_request, post_err) outcome" where
  "build_request pe s sentAt eventType callbackID d =
     (case peJson pe d of
        None \<Rightarrow> Err MarshalData
      | Some raw \<Rightarrow>
          (case peBody pe \<lparr>bdData = raw, bdMeta = \<lparr>meSentAt = sentAt, meCallbackID = callbackID, meEventType = eventType\<rparr>\<rparr> of
             None \<Rightarrow> Err MarshalEnvelope
           | Some envelope \<Rightarrow>
               if \<not> peUrlOk pe (snUrl s) then Err BuildRequest
               else Ok \<lparr>rqUrl = snUrl s, rqContentType = ''application/json'',
                        rqSignature = map_option (\<lambda>k. wh_Sign (peSigner pe) k envelope) (snSigner s), rqBody = envelope\<rparr>))"

definition PostWithMode ::
    "('d, 'k) post_env \<Rightarrow> 'k Sender \<Rightarrow> int \<Rightarrow> gostring \<Rightarrow> gostring \<Rightarrow> 'd \<Rightarrow> gostring \<Rightarrow> http_result \<Rightarrow> wh_log \<Rightarrow>
     (int \<times> bytes \<times> post_err option) \<times> wh_log" where
  "PostWithMode pe s sentAt eventType callbackID d mode hr lg =
     (let (res, lg) =
        (case build_request pe s sentAt eventType callbackID d of
           Ok req \<Rightarrow>
             (case hr of
                HttpFail \<Rightarrow> (0, [], Some PostFailed)
              | HttpReply status body readErr \<Rightarrow>
                  if readErr then (status, [], Some ReadResponse) else (status, take maxRespBody body, None),
              lg\<lparr>wlRequests := wlRequests lg @ [req]\<rparr>)
         | Err e \<Rightarrow> ((0, [], Some e), lg)
         | Panic \<Rightarrow> ((0, [], None), lg))
      in (res, observe s (ObserveCall eventType mode (fst res) (snd (snd res))) lg))"

definition Post ::
    "('d, 'k) post_env \<Rightarrow> 'k Sender \<Rightarrow> int \<Rightarrow> gostring \<Rightarrow> gostring \<Rightarrow> 'd \<Rightarrow> http_result \<Rightarrow> wh_log \<Rightarrow>
     (int \<times> bytes \<times> post_err option) \<times> wh_log" where
  "Post pe s sentAt eventType callbackID d hr lg = PostWithMode pe s sentAt eventType callbackID d ModeSync hr lg"

subsection \<open>Circuit breaker\<close>

text \<open>The difference of two times saturates in Go, which does not change its comparison with a
  duration.\<close>

record CircuitBreaker =
  cbThreshold :: int
  cbCooldown :: int
  cbFailures :: int
  cbOpenedAt :: int

definition NewCircuitBreaker :: "int \<Rightarrow> int \<Rightarrow> CircuitBreaker" where
  "NewCircuitBreaker threshold cooldown =
     \<lparr>cbThreshold = threshold, cbCooldown = cooldown, cbFailures = 0, cbOpenedAt = zero_time\<rparr>"

definition cb_Allow :: "int \<Rightarrow> CircuitBreaker \<Rightarrow> bool" where
  "cb_Allow now b = (if cbFailures b < cbThreshold b then True else now - cbOpenedAt b \<ge> cbCooldown b)"

definition cb_Record :: "int \<Rightarrow> bool \<Rightarrow> CircuitBreaker \<Rightarrow> CircuitBreaker" where
  "cb_Record now success b =
     (if success then b\<lparr>cbFailures := 0\<rparr>
      else let b = b\<lparr>cbFailures := cbFailures b + 1\<rparr>
           in if cbFailures b \<ge> cbThreshold b then b\<lparr>cbOpenedAt := now\<rparr> else b)"

definition OpenSince :: "CircuitBreaker \<Rightarrow> int option" where
  "OpenSince b = (if cbFailures b < cbThreshold b then None else Some (cbOpenedAt b))"

subsection \<open>Retrying caller\<close>

datatype call_err = ErrCircuitOpen | CallError int bytes | PostErr post_err | DecodeErr

record 'k SyncCaller =
  scSender :: "'k Sender"
  scRetryMax :: int
  scBackoff :: int

definition NewSyncCaller :: "'k Sender \<Rightarrow> int \<Rightarrow> int \<Rightarrow> 'k SyncCaller" where
  "NewSyncCaller s retryMax backoff =
     \<lparr>scSender = s, scRetryMax = (if retryMax < 1 then 1 else retryMax), scBackoff = backoff\<rparr>"

text \<open>What happens around attempt \<open>k\<close>: whether the context ends during the back-off, what
  other callers do to the shared breaker before the check and before the record, the clock
  readings, and the answer of the receiver.\<close>

record attempt =
  atDone :: bool
  atBefore :: "CircuitBreaker \<Rightarrow> CircuitBreaker"
  atAllowAt :: int
  atSentAt :: int
  atHttp :: http_result
  atDuring :: "CircuitBreaker \<Rightarrow> CircuitBreaker"
  atRecordAt :: int

type_synonym 'o call_result = "call_err option \<times> 'o option"

text \<open>\<open>dec\<close> decodes the answer into the caller's \<open>out\<close>; \<open>None\<close> is a nil \<open>out\<close>.\<close>

definition decode_reply :: "(bytes \<Rightarrow> 'o option) option \<Rightarrow> bytes \<Rightarrow> 'o call_result" where
  "decode_reply dec body =
     (case dec of
        None \<Rightarrow> (None, None)
      | Some f \<Rightarrow> if length body = 0 then (None, None)
                  else case f body of None \<Rightarrow> (Some DecodeErr, None) | Some x \<Rightarrow> (None, Some x))"

fun sync_loop ::
    "('d, 'k) post_env \<Rightarrow> 'k Sender \<Rightarrow> gostring \<Rightarrow> gostring \<Rightarrow> 'd \<Rightarrow> (bytes \<Rightarrow> 'o option) option \<Rightarrow> (nat \<Rightarrow> attempt) \<Rightarrow>
     nat \<Rightarrow> nat \<Rightarrow> call_err option \<Rightarrow> CircuitBreaker \<Rightarrow> wh_log \<Rightarrow> 'o call_result \<times> CircuitBreaker \<times> wh_log" where
  "sync_loop pe s ev cid d dec ats k 0 lastErr b lg = ((lastErr, None), b, lg)"
| "sync_loop pe s ev cid d dec ats k (Suc n) lastErr b lg =
     (let a = ats k; lg = (if k > 0 then observe s (ObserveRetry ev ModeSync) lg else lg) in
      if k > 0 \<and> atDone a then ((lastErr, None), b, lg)
      else
        let b = atBefore a b in
        if \<not> cb_Allow (atAllowAt a) b then ((Some ErrCircuitOpen, None), b, lg)
        else case Post pe s (atSentAt a) ev cid d (atHttp a) lg of
               ((status, body, err), lg) \<Rightarrow>
                 let b = atDuring a b in
                 case err of
                   Some e \<Rightarrow> sync_loop pe s ev cid d dec ats (Suc k) n (Some (PostErr e)) (cb_Record (atRecordAt a) False b) lg
                 | None \<Rightarrow>
                     if status < 200 \<or> status \<ge> 300 then
                       let b = cb_Record (atRecordAt a) (status < 500) b in
                       if status < 500 then ((Some (CallError status body), None), b, lg)
                       else sync_loop pe s ev cid d dec ats (Suc k) n (Some (CallError status body)) b lg
                     else (decode_reply dec body, cb_Record (atRecordAt a) True b, lg))"

definition Call ::
    "('d, 'k) post_env \<Rightarrow> 'k SyncCaller \<Rightarrow> gostring \<Rightarrow> gostring \<Rightarrow> 'd \<Rightarrow> (bytes \<Rightarrow> 'o option) option \<Rightarrow> (nat \<Rightarrow> attempt) \<Rightarrow>
     CircuitBreaker \<Rightarrow> wh_log \<Rightarrow> 'o call_result \<times> CircuitBreaker \<times> wh_log" where
  "Call pe c nano ev d dec ats b lg =
     sync_loop pe (scSender c) ev (NewCallbackID nano) d dec ats 0 (nat (scRetryMax c)) None b lg"

subsection \<open>Health monitor, pinger and breaker watch\<close>

record HealthMonitor =
  hmHealthy :: bool
  hmFired :: bool

definition NewHealthMonitor :: HealthMonitor where
  "NewHealthMonitor = \<lparr>hmHealthy = True, hmFired = False\<rparr>"

definition SetHealthy :: "HealthMonitor \<Rightarrow> HealthMonitor" where
  "SetHealthy m = m\<lparr>hmHealthy := True\<rparr>"

text \<open>The first component says whether \<open>onUnhealthy\<close> runs.\<close>

definition SetUnhealthy :: "HealthMonitor \<Rightarrow> bool \<times> HealthMonitor" where
  "SetUnhealthy m = (\<not> hmFired m, m\<lparr>hmFired := True, hmHealthy := False\<rparr>)"

definition NewPinger :: "int \<Rightarrow> int" where
  "NewPinger threshold = (if threshold < 1 then 1 else threshold)"

text \<open>\<open>Ping\<close>: did the receiver answer with a 2xx status?\<close>

definition Ping :: "('d, 'k) post_env \<Rightarrow> 'k Sender \<Rightarrow> gostring \<Rightarrow> 'd \<Rightarrow> int \<Rightarrow> http_result \<Rightarrow> wh_log \<Rightarrow> bool \<times> wh_log" where
  "Ping pe s nano unit_data sentAt hr lg =
     (case Post pe s sentAt EventPing (NewCallbackID nano) unit_data hr lg of
        ((status, _, err), lg) \<Rightarrow> (err = None \<and> \<not> (status < 200 \<or> status \<ge> 300), lg))"

datatype health_signal = SigHealthy | SigUnhealthy

text \<open>One tick of \<open>Run\<close>: the new streak of failures and the signal it gives.\<close>

definition ping_tick :: "int \<Rightarrow> bool \<Rightarrow> int \<Rightarrow> int \<times> health_signal option" where
  "ping_tick threshold ok streak =
     (if \<not> ok then (streak + 1, if streak + 1 \<ge> threshold then Some SigUnhealthy else None)
      else (0, Some SigHealthy))"

definition apply_signal :: "health_signal option \<Rightarrow> HealthMonitor \<Rightarrow> bool \<times> HealthMonitor" where
  "apply_signal sg m =
     (case sg of
        None \<Rightarrow> (False, m)
      | Some SigHealthy \<Rightarrow> (False, SetHealthy m)
      | Some SigUnhealthy \<Rightarrow> SetUnhealthy m)"

definition watch_interval :: "int \<Rightarrow> int" where
  "watch_interval maxOpen = (if maxOpen > 5 * second \<or> maxOpen \<le> 0 then 5 * second else maxOpen)"

definition watch_tick :: "int \<Rightarrow> int \<Rightarrow> CircuitBreaker \<Rightarrow> HealthMonitor \<Rightarrow> bool \<times> HealthMonitor" where
  "watch_tick maxOpen now b m =
     (case OpenSince b of
        Some since \<Rightarrow> if now - since \<ge> maxOpen then SetUnhealthy m else (False, m)
      | None \<Rightarrow> (False, m))"

subsection \<open>The signing key survives restarts\<close>

lemma TrimSpace_newline:
  assumes "\<forall>c \<in> set s. \<not> is_space c"
  shows "TrimSpace (s @ [CHR 0x0A]) = s"
proof (cases "s = []")
  case True
  then show ?thesis by (simp add: TrimSpace_def is_space_def)
next
  case False
  then have "dropWhile is_space (s @ [CHR 0x0A]) = s @ [CHR 0x0A]"
    using assms by (cases s) simp_all
  moreover have "dropWhile is_space (rev s) = rev s"
    using assms False by (intro dropWhile_id) (simp add: hd_rev)
  ultimately show ?thesis by (simp add: TrimSpace_def is_space_def)
qed

text \<open>The signing key survives a restart: when a first start finds no key file, generates a
  key and writes it, every later start loads the same key from the file, publishes the same
  public key and leaves the file as it is; and what the first start signed verifies with it.\<close>

theorem signing_key_stable:
  assumes "signer_ok so" "LoadOrGenerateSigner so gen None NoFile = (Ok k, f)"
  shows "LoadOrGenerateSigner so gen' w' f = (Ok k, f) \<and> wh_Verify so k m (wh_Sign so k m)"
proof -
  have f: "f = FileBytes (str_bytes (soEncode so (soSeed so k) @ [CHR 0x0A]))"
    using assms(2) by (auto simp: LoadOrGenerateSigner_def Let_def split: option.splits)
  have "TrimSpace (soEncode so (soSeed so k) @ [CHR 0x0A]) = soEncode so (soSeed so k)"
    using assms(1) by (intro TrimSpace_newline) (simp add: signer_ok_def)
  then show ?thesis
    using assms(1) by (simp add: f LoadOrGenerateSigner_def signer_ok_def wh_Verify_def wh_Sign_def)
qed

text \<open>A concrete encoding (two letters per byte) and a key that is its own seed.\<close>

definition hex2 :: "byte \<Rightarrow> gostring" where
  "hex2 b = [char_of (97 + unat b div 16), char_of (97 + unat b mod 16)]"

fun unhex :: "gostring \<Rightarrow> bytes option" where
  "unhex [] = Some []"
| "unhex [_] = None"
| "unhex (a # b # cs) = map_option (\<lambda>bs. word_of_nat (16 * (of_char a - 97) + (of_char b - 97)) # bs) (unhex cs)"

definition ex_signer :: "unit signer_ops" where
  "ex_signer = \<lparr>soEncode = \<lambda>b. concat (map hex2 b), soDecode = unhex, soFromSeed = \<lambda>_. (),
     soSeed = \<lambda>_. replicate 32 7, soPublic = \<lambda>_. [7], soSign = \<lambda>_ m. 7 # m, soVerify = \<lambda>p m s. s = p @ m\<rparr>"

lemma is_space_code: "is_space c \<Longrightarrow> of_char c \<le> (32 :: nat)"
  by (auto simp: is_space_def)

lemma hex2_ok: "unhex (hex2 b @ cs) = map_option (Cons b) (unhex cs)" "\<forall>c \<in> set (hex2 b). \<not> is_space c"
proof -
  have b: "unat b < 256" by (rule unat_byte_less)
  then have d: "unat b div 16 < 16" by linarith
  have oc: "of_char (char_of n :: char) = n" if "n < 256" for n :: nat
    using that by simp
  have "word_of_nat (16 * (unat b div 16) + unat b mod 16) = b" by simp
  then show "unhex (hex2 b @ cs) = map_option (Cons b) (unhex cs)"
    using d by (simp add: hex2_def oc comp_def)
  have "\<not> is_space (char_of n)" if "97 \<le> n" "n < 113" for n :: nat
  proof
    assume sp: "is_space (char_of n)"
    have "of_char (char_of n :: char) = n" using that by simp
    moreover have "of_char (char_of n :: char) \<le> (32 :: nat)"
      using sp by (rule is_space_code)
    ultimately show False using that by simp
  qed
  then show "\<forall>c \<in> set (hex2 b). \<not> is_space c" using d by (simp add: hex2_def)
qed

lemma ex_signer_ok: "signer_ok ex_signer"
proof -
  have "unhex (concat (map hex2 b)) = Some b" for b
    by (induction b) (simp_all add: hex2_ok(1))
  then show ?thesis using hex2_ok(2) by (auto simp: signer_ok_def ex_signer_def)
qed

theorem signing_key_stable_witness:
  "\<exists>f. LoadOrGenerateSigner ex_signer (Some ()) None NoFile = (Ok (), f) \<and> LoadOrGenerateSigner ex_signer None None f = (Ok (), f)"
proof -
  have "\<exists>f. LoadOrGenerateSigner ex_signer (Some ()) None NoFile = (Ok (), f)"
    by (simp add: LoadOrGenerateSigner_def Let_def)
  then show ?thesis using signing_key_stable [OF ex_signer_ok, THEN conjunct1] by blast
qed

subsection \<open>The breaker follows the run of failures\<close>

text \<open>The last failures in a history of records (oldest first).\<close>

definition fail_run :: "(int \<times> bool) list \<Rightarrow> (int \<times> bool) list" where
  "fail_run h = takeWhile (\<lambda>p. \<not> snd p) (rev h)"

lemma fail_run_simps [simp]:
  "fail_run [] = []"
  "fail_run (h @ [(t, True)]) = []"
  "fail_run (h @ [(t, False)]) = (t, False) # fail_run h"
  by (simp_all add: fail_run_def)

definition cb_history :: "(int \<times> bool) list \<Rightarrow> CircuitBreaker \<Rightarrow> CircuitBreaker" where
  "cb_history h b = fold (\<lambda>(t, ok). cb_Record t ok) h b"

lemma cb_history_snoc: "cb_history (h @ [(t, ok)]) b = cb_Record t ok (cb_history h b)"
  by (simp add: cb_history_def)

lemma cb_history_state:
  "cbThreshold (cb_history h (NewCircuitBreaker n c)) = n \<and> cbCooldown (cb_history h (NewCircuitBreaker n c)) = c \<and>
   cbFailures (cb_history h (NewCircuitBreaker n c)) = int (length (fail_run h)) \<and>
   (fail_run h \<noteq> [] \<and> n \<le> int (length (fail_run h)) \<longrightarrow>
      cbOpenedAt (cb_history h (NewCircuitBreaker n c)) = fst (hd (fail_run h)))"
proof (induction h rule: rev_induct)
  case Nil
  show ?case by (simp add: cb_history_def NewCircuitBreaker_def)
next
  case (snoc p h)
  obtain t ok where p: "p = (t, ok)" by (cases p)
  show ?case using snoc by (cases ok) (auto simp: p cb_history_snoc cb_Record_def Let_def)
qed

text \<open>The breaker lets a call through exactly if fewer than \<open>threshold\<close> failures have been
  recorded since the last success, or the cool-down has passed since the last failure,
  after any sequence of recorded calls.\<close>

theorem breaker_exact:
  assumes "1 \<le> n"
  shows "cb_Allow now (cb_history h (NewCircuitBreaker n c)) \<longleftrightarrow>
    int (length (fail_run h)) < n \<or> now - fst (hd (fail_run h)) \<ge> c"
proof -
  have "fail_run h \<noteq> []" if "\<not> int (length (fail_run h)) < n"
    using that assms by auto
  then show ?thesis using cb_history_state [of h n c] by (auto simp: cb_Allow_def)
qed

theorem breaker_exact_witness:
  "\<not> cb_Allow 15 (cb_history [(3, True), (4, False), (9, False)] (NewCircuitBreaker 2 10))"
  by (subst breaker_exact) (simp_all add: fail_run_def)

subsection \<open>Calls: retries, ids and outcome\<close>

lemma build_request_no_panic: "build_request pe s t ev cid d \<noteq> Panic"
  by (simp add: build_request_def split: option.split)

lemma observe_requests [simp]: "wlRequests (observe s ob lg) = wlRequests lg"
  by (simp add: observe_def)

lemma Post_requests:
  assumes "Post pe s t ev cid d hr lg = ((st, body, err), lg')"
  shows "\<exists>reqs. wlRequests lg' = wlRequests lg @ reqs \<and> length reqs \<le> 1 \<and>
    (\<forall>r \<in> set reqs. build_request pe s t ev cid d = Ok r) \<and> (err = None \<longrightarrow> reqs \<noteq> [])"
proof (cases "build_request pe s t ev cid d")
  case (Ok r)
  then show ?thesis using assms by (auto simp: Post_def PostWithMode_def Let_def)
next
  case (Err e)
  then show ?thesis using assms by (auto simp: Post_def PostWithMode_def Let_def)
next
  case Panic
  then show ?thesis by (simp add: build_request_no_panic)
qed

text \<open>What a sequence of attempts may add to the requests sent.\<close>

definition attempts_of :: "('d, 'k) post_env \<Rightarrow> 'k Sender \<Rightarrow> gostring \<Rightarrow> gostring \<Rightarrow> 'd \<Rightarrow> wh_request list \<Rightarrow> bool" where
  "attempts_of pe s ev cid d reqs \<longleftrightarrow> (\<forall>r \<in> set reqs. \<exists>t. build_request pe s t ev cid d = Ok r)"

lemma sync_loop_requests:
  "sync_loop pe s ev cid d dec ats k n e b lg = (res, b', lg') \<Longrightarrow>
   \<exists>reqs. wlRequests lg' = wlRequests lg @ reqs \<and> length reqs \<le> n \<and> attempts_of pe s ev cid d reqs \<and>
     (fst res = None \<and> (e \<noteq> None \<or> k = 0 \<and> n > 0) \<longrightarrow> reqs \<noteq> [])"
proof (induction n arbitrary: k e b lg)
  case 0
  then show ?case by (auto simp: attempts_of_def)
next
  case (Suc n)
  define a where "a = ats k"
  define lg0 where "lg0 = (if k > 0 then observe s (ObserveRetry ev ModeSync) lg else lg)"
  have lg0: "wlRequests lg0 = wlRequests lg" by (simp add: lg0_def)
  show ?case
  proof (cases "k > 0 \<and> atDone a \<or> \<not> cb_Allow (atAllowAt a) (atBefore a b)")
    case True
    then have "lg' = lg0 \<and> (k > 0 \<and> fst res = e \<or> fst res = Some ErrCircuitOpen)"
      using Suc.prems by (auto simp: a_def [symmetric] lg0_def [symmetric] Let_def split: if_splits)
    then show ?thesis using lg0 by (auto simp: attempts_of_def)
  next
    case False
    obtain st body err lg1 where p: "Post pe s (atSentAt a) ev cid d (atHttp a) lg0 = ((st, body, err), lg1)"
      by (metis prod_cases3 surj_pair)
    obtain reqs where r: "wlRequests lg1 = wlRequests lg @ reqs" "length reqs \<le> 1" "attempts_of pe s ev cid d reqs" "err = None \<longrightarrow> reqs \<noteq> []"
      using Post_requests [OF p] lg0 by (auto simp: attempts_of_def)
    consider (stop) "lg' = lg1" "err = None" | (again) e1 b1 where "sync_loop pe s ev cid d dec ats (Suc k) n (Some e1) b1 lg1 = (res, b', lg')"
      using Suc.prems False p
      by (auto simp: a_def [symmetric] lg0_def [symmetric] Let_def split: option.splits if_splits)
    then show ?thesis
    proof cases
      case stop
      then show ?thesis using r by auto
    next
      case again
      from Suc.IH [OF this] obtain reqs' where
        "wlRequests lg' = wlRequests lg1 @ reqs'" "length reqs' \<le> n" "attempts_of pe s ev cid d reqs'" "fst res = None \<longrightarrow> reqs' \<noteq> []"
        by auto
      then show ?thesis using r by (intro exI [of _ "reqs @ reqs'"]) (auto simp: attempts_of_def)
    qed
  qed
qed

text \<open>A call to the application's webhook posts at most the configured number of times, at
  least one, whatever the receiver answers and whatever other calls do to the shared
  breaker; every post carries the event, the data and the same callback id, signed, and
  only its sending time differs; and a call succeeds only if it posted.\<close>

theorem sync_call_bounded:
  assumes "Call pe (NewSyncCaller s retryMax backoff) nano ev d dec ats b lg = (res, b', lg')"
  shows "\<exists>reqs. wlRequests lg' = wlRequests lg @ reqs \<and> int (length reqs) \<le> max 1 retryMax \<and>
    (\<forall>r \<in> set reqs. \<exists>t. build_request pe s t ev (NewCallbackID nano) d = Ok r) \<and> (fst res = None \<longrightarrow> reqs \<noteq> [])"
proof -
  have "sync_loop pe s ev (NewCallbackID nano) d dec ats 0 (nat (max 1 retryMax)) None b lg = (res, b', lg')"
    using assms by (simp add: Call_def NewSyncCaller_def max_def split: if_splits)
  from sync_loop_requests [OF this] show ?thesis by (auto simp: attempts_of_def)
qed

text \<open>The outcome of an attempt that reached the receiver.\<close>

primrec retryable :: "http_result \<Rightarrow> bool" where
  "retryable HttpFail = True"
| "retryable (HttpReply status _ readErr) = (readErr \<or> status \<ge> 500)"

primrec final_reply :: "(bytes \<Rightarrow> 'o option) option \<Rightarrow> http_result \<Rightarrow> 'o call_result" where
  "final_reply dec HttpFail = (Some (PostErr PostFailed), None)"
| "final_reply dec (HttpReply status body readErr) =
     (if readErr then (Some (PostErr ReadResponse), None)
      else if status < 200 \<or> status \<ge> 300 then (Some (CallError status (take maxRespBody body)), None)
      else decode_reply dec (take maxRespBody body))"

definition undisturbed :: "('d, 'k) post_env \<Rightarrow> 'k Sender \<Rightarrow> gostring \<Rightarrow> gostring \<Rightarrow> 'd \<Rightarrow> (nat \<Rightarrow> attempt) \<Rightarrow> bool" where
  "undisturbed pe s ev cid d ats \<longleftrightarrow> (\<forall>t. \<exists>r. build_request pe s t ev cid d = Ok r) \<and>
     (\<forall>k. \<not> atDone (ats k) \<and> atBefore (ats k) = (\<lambda>b. b) \<and> atDuring (ats k) = (\<lambda>b. b))"

lemma sync_step:
  assumes "undisturbed pe s ev cid d ats" "cbFailures b < cbThreshold b"
  shows "\<exists>r lg1. wlRequests lg1 = wlRequests lg @ [r] \<and>
    sync_loop pe s ev cid d dec ats k (Suc n) e b lg =
      (if retryable (atHttp (ats k))
       then sync_loop pe s ev cid d dec ats (Suc k) n (fst (final_reply dec (atHttp (ats k)))) (cb_Record (atRecordAt (ats k)) False b) lg1
       else (final_reply dec (atHttp (ats k)), cb_Record (atRecordAt (ats k)) True b, lg1))"
proof -
  define a where "a = ats k"
  define lg0 where "lg0 = (if k > 0 then observe s (ObserveRetry ev ModeSync) lg else lg)"
  have lg0: "wlRequests lg0 = wlRequests lg" by (simp add: lg0_def)
  obtain r where r: "build_request pe s (atSentAt a) ev cid d = Ok r"
    using assms(1) by (auto simp: undisturbed_def)
  have q: "\<not> atDone a" "atBefore a b = b" "atDuring a b = b"
    using assms(1) by (simp_all add: undisturbed_def a_def)
  have al: "cb_Allow (atAllowAt a) b" using assms(2) by (simp add: cb_Allow_def)
  define lg1 where "lg1 = snd (Post pe s (atSentAt a) ev cid d (atHttp a) lg0)"
  have lg1: "wlRequests lg1 = wlRequests lg @ [r]"
    using r lg0 by (simp add: lg1_def Post_def PostWithMode_def Let_def)
  have "Post pe s (atSentAt a) ev cid d (atHttp a) lg0 =
      ((case atHttp a of HttpFail \<Rightarrow> (0, [], Some PostFailed)
        | HttpReply status body readErr \<Rightarrow> if readErr then (status, [], Some ReadResponse) else (status, take maxRespBody body, None)), lg1)"
    using r by (simp add: lg1_def Post_def PostWithMode_def Let_def)
  then have "sync_loop pe s ev cid d dec ats k (Suc n) e b lg =
      (if retryable (atHttp a)
       then sync_loop pe s ev cid d dec ats (Suc k) n (fst (final_reply dec (atHttp a))) (cb_Record (atRecordAt a) False b) lg1
       else (final_reply dec (atHttp a), cb_Record (atRecordAt a) True b, lg1))"
    using q al by (cases "atHttp a") (auto simp: a_def [symmetric] lg0_def [symmetric] Let_def)
  then show ?thesis using lg1 unfolding a_def by blast
qed

lemma cb_Record_simps [simp]:
  "cbThreshold (cb_Record t ok b) = cbThreshold b"
  "cbFailures (cb_Record t True b) = 0"
  "cbFailures (cb_Record t False b) = cbFailures b + 1"
  by (simp_all add: cb_Record_def Let_def)

declare sync_loop.simps(2) [simp del]

lemma sync_loop_answered:
  assumes "undisturbed pe s ev cid d ats" "cbFailures b + int n \<le> cbThreshold b"
    and "k < n" "\<forall>j < k. retryable (atHttp (ats (i + j)))" "\<not> retryable (atHttp (ats (i + k)))"
  shows "\<exists>b' lg'. sync_loop pe s ev cid d dec ats i n e b lg = (final_reply dec (atHttp (ats (i + k))), b', lg') \<and>
    cbFailures b' = 0 \<and> length (wlRequests lg') = length (wlRequests lg) + k + 1"
  using assms(2-)
proof (induction k arbitrary: i n e b lg)
  case 0
  then obtain m where n: "n = Suc m" by (cases n) simp_all
  then have "cbFailures b < cbThreshold b" using "0.prems"(1) by simp
  from sync_step [OF assms(1) this, of lg dec i m e] obtain r lg1 where
    st: "wlRequests lg1 = wlRequests lg @ [r]"
      "sync_loop pe s ev cid d dec ats i n e b lg = (final_reply dec (atHttp (ats i)), cb_Record (atRecordAt (ats i)) True b, lg1)"
    using "0.prems"(4) n by auto
  show ?case using st by simp
next
  case (Suc k)
  then obtain m where n: "n = Suc m" by (cases n) simp_all
  then have "cbFailures b < cbThreshold b" using Suc.prems(1) by simp
  from sync_step [OF assms(1) this, of lg dec i m e] obtain r lg1 where
    st: "wlRequests lg1 = wlRequests lg @ [r]"
      "sync_loop pe s ev cid d dec ats i n e b lg =
         sync_loop pe s ev cid d dec ats (Suc i) m (fst (final_reply dec (atHttp (ats i)))) (cb_Record (atRecordAt (ats i)) False b) lg1"
    using Suc.prems(3) [rule_format, of 0] n by auto
  have "\<forall>j < k. retryable (atHttp (ats (Suc i + j)))" using Suc.prems(3) by force
  then have "\<exists>b' lg'. sync_loop pe s ev cid d dec ats (Suc i) m (fst (final_reply dec (atHttp (ats i))))
      (cb_Record (atRecordAt (ats i)) False b) lg1 = (final_reply dec (atHttp (ats (Suc i + k))), b', lg') \<and>
    cbFailures b' = 0 \<and> length (wlRequests lg') = length (wlRequests lg1) + k + 1"
    using Suc.prems n by (intro Suc.IH) auto
  then show ?case using st by auto
qed

lemma sync_loop_exhausted:
  assumes "undisturbed pe s ev cid d ats" "cbFailures b + int n \<le> cbThreshold b"
    and "\<forall>j < n. retryable (atHttp (ats (i + j)))"
  shows "\<exists>b' lg'. sync_loop pe s ev cid d dec ats i n e b lg =
      ((if n = 0 then e else fst (final_reply dec (atHttp (ats (i + n - 1)))), None), b', lg') \<and>
    cbFailures b' = cbFailures b + int n \<and> length (wlRequests lg') = length (wlRequests lg) + n"
  using assms(2-)
proof (induction n arbitrary: i e b lg)
  case 0
  show ?case by simp
next
  case (Suc n)
  then have "cbFailures b < cbThreshold b" by simp
  from sync_step [OF assms(1) this, of lg dec i n e] obtain r lg1 where
    st: "wlRequests lg1 = wlRequests lg @ [r]"
      "sync_loop pe s ev cid d dec ats i (Suc n) e b lg =
         sync_loop pe s ev cid d dec ats (Suc i) n (fst (final_reply dec (atHttp (ats i)))) (cb_Record (atRecordAt (ats i)) False b) lg1"
    using Suc.prems(2) [rule_format, of 0] by auto
  have "\<forall>j < n. retryable (atHttp (ats (Suc i + j)))" using Suc.prems(2) by force
  then have "\<exists>b' lg'. sync_loop pe s ev cid d dec ats (Suc i) n (fst (final_reply dec (atHttp (ats i))))
      (cb_Record (atRecordAt (ats i)) False b) lg1 =
      ((if n = 0 then fst (final_reply dec (atHttp (ats i))) else fst (final_reply dec (atHttp (ats (Suc i + n - 1)))), None), b', lg') \<and>
    cbFailures b' = cbFailures (cb_Record (atRecordAt (ats i)) False b) + int n \<and> length (wlRequests lg') = length (wlRequests lg1) + n"
    using Suc.prems by (intro Suc.IH) auto
  then show ?case using st by auto
qed

text \<open>C20: What a call returns: with a closed breaker that tolerates the retries and without
  interference, the first answer that is neither a transport error nor a server error
  decides; it is posted for the last time then, a 4xx answer is not repeated, and the count
  of failures is reset.  If every attempt fails that way, the call posts \<open>retryMax\<close> times,
  returns the last error and leaves the breaker with as many failures more.\<close>

theorem sync_call_outcome:
  assumes "undisturbed pe s ev (NewCallbackID nano) d ats" "1 \<le> n" "cbFailures b + int n \<le> cbThreshold b"
    and "Call pe (NewSyncCaller s (int n) backoff) nano ev d dec ats b lg = (res, b', lg')"
  shows "(\<forall>k < n. (\<forall>j < k. retryable (atHttp (ats j))) \<and> \<not> retryable (atHttp (ats k)) \<longrightarrow>
      res = final_reply dec (atHttp (ats k)) \<and> length (wlRequests lg') = length (wlRequests lg) + k + 1 \<and> cbFailures b' = 0) \<and>
    ((\<forall>j < n. retryable (atHttp (ats j))) \<longrightarrow>
      res = (fst (final_reply dec (atHttp (ats (n - 1)))), None) \<and> length (wlRequests lg') = length (wlRequests lg) + n \<and>
      cbFailures b' = cbFailures b + int n)"
proof -
  have c: "sync_loop pe s ev (NewCallbackID nano) d dec ats 0 n None b lg = (res, b', lg')"
    using assms(2,4) by (simp add: Call_def NewSyncCaller_def)
  show ?thesis
    using sync_loop_answered [OF assms(1,3), where i = 0 and dec = dec and e = None and lg = lg]
      sync_loop_exhausted [OF assms(1,3), where i = 0 and dec = dec and e = None and lg = lg] assms(2) c
    by fastforce
qed

text \<open>An example: data that is already encoded, and a receiver that answers 503 first and
  200 then.\<close>

definition ex_pe :: "(bytes, unit) post_env" where
  "ex_pe = \<lparr>peJson = Some, peBody = \<lambda>b. Some (bdData b @ str_bytes (meCallbackID (bdMeta b))), peUrlOk = \<lambda>_. True, peSigner = ex_signer\<rparr>"

definition ex_sender :: "unit Sender" where
  "ex_sender = \<lparr>snSigner = None, snUrl = ''http://b'', snObs = True\<rparr>"

definition ex_attempt :: "http_result \<Rightarrow> attempt" where
  "ex_attempt hr = \<lparr>atDone = False, atBefore = \<lambda>b. b, atAllowAt = 0, atSentAt = 0, atHttp = hr, atDuring = \<lambda>b. b, atRecordAt = 0\<rparr>"

definition ex_ats :: "nat \<Rightarrow> attempt" where
  "ex_ats k = ex_attempt (if k = 0 then HttpReply 503 [] False else HttpReply 200 [1] False)"

lemma ex_undisturbed: "undisturbed ex_pe ex_sender ev cid d ex_ats"
  by (simp add: undisturbed_def ex_ats_def ex_attempt_def build_request_def ex_pe_def ex_sender_def)

lemma ex_build: "build_request ex_pe ex_sender t ev cid d =
    Ok \<lparr>rqUrl = ''http://b'', rqContentType = ''application/json'', rqSignature = None, rqBody = d @ str_bytes cid\<rparr>"
  by (simp add: build_request_def ex_pe_def ex_sender_def)

theorem sync_call_outcome_witness:
  "\<exists>b' lg'. Call ex_pe (NewSyncCaller ex_sender 3 0) ''x'' EventPing [] (Some Some) ex_ats (NewCircuitBreaker 5 0) \<lparr>wlRequests = [], wlObs = []\<rparr> =
     ((None, Some [1]), b', lg') \<and> length (wlRequests lg') = 2 \<and> cbFailures b' = 0"
proof -
  obtain res b' lg' where c: "Call ex_pe (NewSyncCaller ex_sender (int 3) 0) ''x'' EventPing [] (Some Some) ex_ats (NewCircuitBreaker 5 0)
      \<lparr>wlRequests = [], wlObs = []\<rparr> = (res, b', lg')"
    by (metis surj_pair)
  have "res = final_reply (Some Some) (atHttp (ex_ats 1)) \<and> length (wlRequests lg') = 2 \<and> cbFailures b' = 0"
    using sync_call_outcome [OF ex_undisturbed _ _ c, THEN conjunct1, rule_format, of 1]
    by (simp add: NewCircuitBreaker_def ex_ats_def ex_attempt_def)
  then show ?thesis using c by (simp add: ex_ats_def ex_attempt_def decode_reply_def maxRespBody_def)
qed

theorem sync_call_bounded_witness:
  "\<exists>reqs. wlRequests (snd (snd (Call ex_pe (NewSyncCaller ex_sender 3 0) ''x'' EventPing [] (Some Some) ex_ats (NewCircuitBreaker 5 0)
     \<lparr>wlRequests = [], wlObs = []\<rparr>))) = reqs \<and> length reqs \<le> 3 \<and> (\<forall>r \<in> set reqs. rqBody r = str_bytes ''cb_x'')"
proof -
  obtain res b' lg' where c: "Call ex_pe (NewSyncCaller ex_sender 3 0) ''x'' EventPing [] (Some Some) ex_ats (NewCircuitBreaker 5 0)
      \<lparr>wlRequests = [], wlObs = []\<rparr> = (res, b', lg')"
    by (metis surj_pair)
  from sync_call_bounded [OF c] show ?thesis using c by (auto simp: ex_build NewCallbackID_def)
qed

text \<open>While the breaker is open a call does not touch the receiver: when the failures since
  the last success have reached the threshold and the cool-down since the last of them has
  not passed, the call fails at once with the circuit-open error, posts nothing and leaves
  the breaker as it is.\<close>

theorem open_breaker_no_post:
  assumes "1 \<le> n" "n \<le> int (length (fail_run h))" "now - fst (hd (fail_run h)) < cool"
    and "atBefore (ats 0) = (\<lambda>b. b)" "atAllowAt (ats 0) = now"
  shows "Call pe (NewSyncCaller s retryMax backoff) nano ev d dec ats (cb_history h (NewCircuitBreaker n cool)) lg =
    ((Some ErrCircuitOpen, None), cb_history h (NewCircuitBreaker n cool), lg)"
proof -
  have "fail_run h \<noteq> []" using assms(1,2) by auto
  then have "\<not> cb_Allow now (cb_history h (NewCircuitBreaker n cool))"
    using assms(2,3) cb_history_state [of h n cool] by (simp add: cb_Allow_def)
  moreover obtain m where "nat (scRetryMax (NewSyncCaller s retryMax backoff)) = Suc m"
    by (cases "nat (scRetryMax (NewSyncCaller s retryMax backoff))") (auto simp: NewSyncCaller_def split: if_splits)
  ultimately show ?thesis using assms(4,5) by (simp add: Call_def sync_loop.simps(2) NewSyncCaller_def)
qed

theorem open_breaker_no_post_witness:
  "Call ex_pe (NewSyncCaller ex_sender 3 0) ''x'' EventPing [] (Some Some) ex_ats (cb_history [(-1, False)] (NewCircuitBreaker 1 10)) \<lparr>wlRequests = [], wlObs = []\<rparr> =
    ((Some ErrCircuitOpen, None), cb_history [(-1, False)] (NewCircuitBreaker 1 10), \<lparr>wlRequests = [], wlObs = []\<rparr>)"
  by (rule open_breaker_no_post [where now = 0]) (simp_all add: fail_run_def ex_ats_def ex_attempt_def)

subsection \<open>Health\<close>

datatype hm_op = OpHealthy | OpUnhealthy

text \<open>A sequence of signals from any of the sources; the first component counts the runs of
  \<open>onUnhealthy\<close>.\<close>

fun hm_run :: "hm_op list \<Rightarrow> HealthMonitor \<Rightarrow> nat \<times> HealthMonitor" where
  "hm_run [] m = (0, m)"
| "hm_run (OpHealthy # ops) m = hm_run ops (SetHealthy m)"
| "hm_run (OpUnhealthy # ops) m =
     (case SetUnhealthy m of (fire, m) \<Rightarrow>
        case hm_run ops m of (k, m) \<Rightarrow> ((if fire then 1 else 0) + k, m))"

lemma hm_run_state:
  "hm_run ops m = (k, m') \<Longrightarrow> k = (if OpUnhealthy \<in> set ops \<and> \<not> hmFired m then 1 else 0) \<and>
     hmHealthy m' = (if ops = [] then hmHealthy m else last ops = OpHealthy)"
proof (induction ops m arbitrary: k m' rule: hm_run.induct)
  case (2 ops m)
  then show ?case by (auto simp: SetHealthy_def)
next
  case (3 ops m)
  obtain j m1 where r: "hm_run ops (m\<lparr>hmFired := True, hmHealthy := False\<rparr>) = (j, m1)" by fastforce
  then have "k = (if hmFired m then j else 1 + j)" "m' = m1"
    using "3.prems" by (auto simp: SetUnhealthy_def)
  moreover have "j = 0 \<and> hmHealthy m1 = (if ops = [] then False else last ops = OpHealthy)"
    using "3.IH" [OF _ r] by (simp add: SetUnhealthy_def)
  ultimately show ?case by auto
qed simp

text \<open>However the pinger and the breaker watch interleave, the action for an unhealthy
  backend runs at most once, exactly if some source ever reports a failure, and the health
  flag is the last report.\<close>

theorem health_action_once:
  "hm_run ops NewHealthMonitor = (k, m) \<Longrightarrow>
     k = (if OpUnhealthy \<in> set ops then 1 else 0) \<and> hmHealthy m = (ops = [] \<or> last ops = OpHealthy)"
  using hm_run_state [of ops NewHealthMonitor k m] by (auto simp: NewHealthMonitor_def)

theorem health_action_once_witness:
  "fst (hm_run [OpUnhealthy, OpHealthy, OpUnhealthy] NewHealthMonitor) = 1"
proof -
  obtain k m where r: "hm_run [OpUnhealthy, OpHealthy, OpUnhealthy] NewHealthMonitor = (k, m)" by fastforce
  from health_action_once [OF r] r show ?thesis by simp
qed

fun ping_run :: "int \<Rightarrow> bool list \<Rightarrow> int \<Rightarrow> HealthMonitor \<Rightarrow> int \<times> HealthMonitor" where
  "ping_run threshold [] streak m = (streak, m)"
| "ping_run threshold (ok # oks) streak m =
     (case ping_tick threshold ok streak of (streak, sg) \<Rightarrow>
        ping_run threshold oks streak (snd (apply_signal sg m)))"

lemma ping_run_append:
  "ping_run n (xs @ ys) st m = (case ping_run n xs st m of (st, m) \<Rightarrow> ping_run n ys st m)"
  by (induction xs arbitrary: st m) (simp_all split: prod.split)

lemma ping_run_state:
  assumes "1 \<le> n"
  shows "\<exists>m. ping_run n oks 0 NewHealthMonitor = (int (length (takeWhile Not (rev oks))), m) \<and>
    (hmHealthy m \<longleftrightarrow> int (length (takeWhile Not (rev oks))) < n)"
proof (induction oks rule: rev_induct)
  case Nil
  then show ?case using assms by (simp add: NewHealthMonitor_def)
next
  case (snoc ok oks)
  then show ?case using assms
    by (cases ok) (auto simp: ping_run_append ping_tick_def apply_signal_def SetHealthy_def SetUnhealthy_def)
qed

text \<open>With the pinger as the only source the server reports itself healthy exactly while
  fewer than the configured number of pings have failed since the last successful one.\<close>

theorem ping_health_exact:
  "hmHealthy (snd (ping_run (NewPinger threshold) oks 0 NewHealthMonitor)) \<longleftrightarrow>
     int (length (takeWhile Not (rev oks))) < max 1 threshold"
proof -
  have "NewPinger threshold = max 1 threshold" by (simp add: NewPinger_def)
  then show ?thesis using ping_run_state [of "max 1 threshold" oks] by auto
qed

text \<open>The breaker after failing probes, one per cool-down.\<close>

primrec failing_probes :: "int \<Rightarrow> nat \<Rightarrow> CircuitBreaker \<Rightarrow> CircuitBreaker" where
  "failing_probes t0 0 b = b"
| "failing_probes t0 (Suc n) b = cb_Record (t0 + int (Suc n) * cbCooldown b) False (failing_probes t0 n b)"

lemma failing_probes_state:
  assumes "OpenSince b = Some t0" "0 \<le> cbThreshold b"
  shows "OpenSince (failing_probes t0 n b) = Some (t0 + int n * cbCooldown b) \<and> cbCooldown (failing_probes t0 n b) = cbCooldown b \<and>
    cbThreshold (failing_probes t0 n b) = cbThreshold b"
proof (induction n)
  case 0
  then show ?case using assms(1) by simp
next
  case (Suc n)
  then show ?case by (auto simp: OpenSince_def cb_Record_def Let_def split: if_splits)
qed

text \<open>The breaker watch can miss an outage of any length.  Every failing probe moves the
  opening time of the breaker, so when one call per cool-down probes the dead backend and
  the cool-down is not longer than the configured limit, the watch reports nothing, however
  many cool-downs the breaker stays open.\<close>

theorem watch_misses_outage:
  assumes "OpenSince b = Some t0" "0 \<le> cbThreshold b" "cbCooldown b \<le> maxOpen"
    and "t0 + int n * cbCooldown b \<le> t" "t < t0 + int (Suc n) * cbCooldown b"
  shows "cb_Allow (t0 + int (Suc n) * cbCooldown b) (failing_probes t0 n b) \<and>
    OpenSince (failing_probes t0 n b) \<noteq> None \<and> watch_tick maxOpen t (failing_probes t0 n b) m = (False, m)"
proof -
  note st = failing_probes_state [OF assms(1,2), of n]
  then have "cbOpenedAt (failing_probes t0 n b) = t0 + int n * cbCooldown b"
    by (auto simp: OpenSince_def split: if_splits)
  then have "cb_Allow (t0 + int (Suc n) * cbCooldown b) (failing_probes t0 n b)"
    using st by (simp add: cb_Allow_def algebra_simps)
  moreover have "t - (t0 + int n * cbCooldown b) < maxOpen"
    using assms(3,5) by (simp add: algebra_simps)
  ultimately show ?thesis using st by (simp add: watch_tick_def)
qed

theorem watch_misses_outage_witness:
  "watch_tick 60 1005 (failing_probes 0 100 (cb_history [(0, False)] (NewCircuitBreaker 1 10))) NewHealthMonitor = (False, NewHealthMonitor)"
proof -
  have b: "OpenSince (cb_history [(0, False)] (NewCircuitBreaker 1 10)) = Some 0" "cbThreshold (cb_history [(0, False)] (NewCircuitBreaker 1 10)) = 1"
    "cbCooldown (cb_history [(0, False)] (NewCircuitBreaker 1 10)) = 10"
    using cb_history_state [of "[(0, False)]" 1 10] by (simp_all add: fail_run_def OpenSince_def)
  from watch_misses_outage [OF b(1), of 60 100 1005 NewHealthMonitor] show ?thesis by (simp add: b)
qed

text \<open>The watch never reports the backend healthy again: without a pinger the flag it cleared
  stays cleared after the breaker has closed.\<close>

lemma watch_never_recovers: "\<not> hmHealthy m \<Longrightarrow> \<not> hmHealthy (snd (watch_tick maxOpen now b m))"
  by (simp add: watch_tick_def SetUnhealthy_def split: option.split)

end
