(* ===== verification/AsyncCallbacks.thy ===== *)
theory AsyncCallbacks
  imports Webhook
begin

text \<open>
  Asynchronous callback events: the webhook dispatcher with its in-memory retries
  (\<open>server/webhook/async.go\<close>) and the pub/sub transport (\<open>server/callback\<close>).  Both have a
  bounded queue, one delivering goroutine and a shutdown; their steps are the atomic
  actions of the emitters, the loop, the retry timers and the shutdown.
\<close>

subsection \<open>The transport contract\<close>

text \<open>\<open>callback.AsyncTransport\<close>: emitting never blocks; an event joins the end of the queue
  if there is room and it can be encoded, and is dropped otherwise.\<close>

locale async_transport =
  fixes emit :: "'e \<Rightarrow> gostring \<Rightarrow> 'd \<Rightarrow> 's \<Rightarrow> 's"
    and pending :: "'s \<Rightarrow> gostring list"
    and capacity :: nat
    and encodable :: "'e \<Rightarrow> gostring \<Rightarrow> 'd \<Rightarrow> bool"
  assumes emit_room: "length (pending s) < capacity \<Longrightarrow> encodable e ev d \<Longrightarrow> pending (emit e ev d s) = pending s @ [ev]"
    and emit_drop: "capacity \<le> length (pending s) \<or> \<not> encodable e ev d \<Longrightarrow> pending (emit e ev d s) = pending s"
begin

lemma pending_bounded: "length (pending s) \<le> capacity \<Longrightarrow> length (pending (emit e ev d s)) \<le> capacity"
  using emit_room emit_drop by (cases "length (pending s) < capacity \<and> encodable e ev d") auto

lemma pending_burst:
  assumes "length (pending s) \<le> capacity"
  shows "pending (fold (\<lambda>(e, ev, d). emit e ev d) evs s) =
    pending s @ take (capacity - length (pending s)) (map (\<lambda>(e, ev, d). ev) (filter (\<lambda>(e, ev, d). encodable e ev d) evs))"
  using assms
proof (induction evs arbitrary: s)
  case (Cons x evs)
  obtain e ev d where x: "x = (e, ev, d)" by (cases x)
  have len: "length (pending (emit e ev d s)) \<le> capacity" using Cons.prems by (rule pending_bounded)
  show ?case
  proof (cases "length (pending s) < capacity \<and> encodable e ev d")
    case True
    then obtain k where k: "capacity - length (pending s) = Suc k" by (metis zero_less_diff gr0_conv_Suc)
    then have "capacity - length (pending s @ [ev]) = k" by simp
    then show ?thesis using Cons.IH [OF len] True k by (simp add: x emit_room)
  next
    case False
    then have "pending (emit e ev d s) = pending s" using emit_drop by auto
    then show ?thesis using Cons.IH [OF len] False by (auto simp: x)
  qed
qed simp

end

subsection \<open>Webhook dispatcher\<close>

definition DefaultBackoff :: "int list" where
  "DefaultBackoff = [second, 5 * second, 30 * second, 120 * second, 600 * second]"

definition asyncQueueSize :: nat where "asyncQueueSize = 1024"

record 'd asyncJob =
  jbEventType :: gostring
  jbCallbackID :: gostring
  jbData :: 'd
  jbAttempt :: nat

datatype drop_reason = DropFull | DropMax | DropClosed

text \<open>\<open>adRunning\<close> is the job the loop delivers, \<open>adTimers\<close> the jobs that wait for their
  retry with the time it is due.  The last four components record what happened: the ids of
  all events, the answer to every post, and the jobs delivered and dropped.\<close>

record 'd AsyncDispatcher =
  adBackoff :: "int list"
  adRetryMax :: int
  adQueue :: "'d asyncJob list"
  adClosed :: bool
  adExited :: bool
  adRunning :: "'d asyncJob option"
  adTimers :: "(int \<times> 'd asyncJob) list"
  adEmitted :: "gostring list"
  adPosts :: "(gostring \<times> bool) list"
  adDelivered :: "'d asyncJob list"
  adDropped :: "(drop_reason \<times> 'd asyncJob) list"

definition NewAsyncDispatcher :: "int \<Rightarrow> int list \<Rightarrow> 'd AsyncDispatcher" where
  "NewAsyncDispatcher retryMax backoff =
     \<lparr>adBackoff = (if length backoff = 0 then DefaultBackoff else backoff), adRetryMax = retryMax, adQueue = [],
      adClosed = False, adExited = False, adRunning = None, adTimers = [],
      adEmitted = [], adPosts = [], adDelivered = [], adDropped = []\<rparr>"

definition ad_drop :: "drop_reason \<Rightarrow> 'd asyncJob \<Rightarrow> 'd AsyncDispatcher \<Rightarrow> 'd AsyncDispatcher" where
  "ad_drop why job s = s\<lparr>adDropped := adDropped s @ [(why, job)]\<rparr>"

text \<open>The non-blocking send to the queue.\<close>

definition ad_enqueue :: "'d asyncJob \<Rightarrow> 'd AsyncDispatcher \<Rightarrow> 'd AsyncDispatcher" where
  "ad_enqueue job s =
     (if length (adQueue s) < asyncQueueSize then s\<lparr>adQueue := adQueue s @ [job]\<rparr> else ad_drop DropFull job s)"

definition ad_Emit :: "gostring \<Rightarrow> gostring \<Rightarrow> 'd \<Rightarrow> 'd AsyncDispatcher \<Rightarrow> 'd AsyncDispatcher" where
  "ad_Emit nano eventType d s =
     (let job = \<lparr>jbEventType = eventType, jbCallbackID = NewCallbackID nano, jbData = d, jbAttempt = 0\<rparr>
      in ad_enqueue job (s\<lparr>adEmitted := adEmitted s @ [NewCallbackID nano]\<rparr>))"

definition ad_Shutdown :: "'d AsyncDispatcher \<Rightarrow> 'd AsyncDispatcher" where
  "ad_Shutdown s = s\<lparr>adClosed := True\<rparr>"

text \<open>The loop takes a job, before and after the shutdown; it ends when it finds the queue
  empty after the shutdown.\<close>

definition loop_take :: "'d AsyncDispatcher \<Rightarrow> 'd AsyncDispatcher option" where
  "loop_take s =
     (if adExited s \<or> adRunning s \<noteq> None then None
      else case adQueue s of [] \<Rightarrow> None | job # q \<Rightarrow> Some (s\<lparr>adQueue := q, adRunning := Some job\<rparr>))"

definition loop_exit :: "'d AsyncDispatcher \<Rightarrow> 'd AsyncDispatcher option" where
  "loop_exit s =
     (if \<not> adExited s \<and> adRunning s = None \<and> adClosed s \<and> adQueue s = [] then Some (s\<lparr>adExited := True\<rparr>) else None)"

text \<open>The end of \<open>deliver\<close>: the post of the running job has been answered (\<open>ok\<close>: no error
  and a 2xx status).  The metrics of retries and drops are not modelled.\<close>

definition ad_deliver :: "int \<Rightarrow> bool \<Rightarrow> 'd AsyncDispatcher \<Rightarrow> ('d AsyncDispatcher, unit) outcome option" where
  "ad_deliver now ok s =
     (case adRunning s of
        None \<Rightarrow> None
      | Some job \<Rightarrow> Some
          (let s = s\<lparr>adRunning := None, adPosts := adPosts s @ [(jbCallbackID job, ok)]\<rparr>;
               job = job\<lparr>jbAttempt := jbAttempt job + 1\<rparr> in
           if ok then Ok (s\<lparr>adDelivered := adDelivered s @ [job]\<rparr>)
           else if int (jbAttempt job) \<ge> adRetryMax s then Ok (ad_drop DropMax job s)
           else obind (index_at (adBackoff s) (min (jbAttempt job - 1) (length (adBackoff s) - 1))) (\<lambda>delay.
             Ok (s\<lparr>adTimers := adTimers s @ [(now + delay, job)]\<rparr>))))"

text \<open>A retry timer fires.  When the dispatcher is closed and the queue has room, \<open>select\<close>
  picks either branch (\<open>seeClosed\<close>).\<close>

definition ad_fire :: "int \<Rightarrow> nat \<Rightarrow> bool \<Rightarrow> 'd AsyncDispatcher \<Rightarrow> 'd AsyncDispatcher option" where
  "ad_fire now i seeClosed s =
     (if i < length (adTimers s) \<and> fst (adTimers s ! i) \<le> now then
        let job = snd (adTimers s ! i); s = s\<lparr>adTimers := take i (adTimers s) @ drop (Suc i) (adTimers s)\<rparr> in
        Some (if adClosed s \<and> (seeClosed \<or> \<not> length (adQueue s) < asyncQueueSize) then ad_drop DropClosed job s
              else ad_enqueue job s)
      else None)"

inductive ad_step :: "'d AsyncDispatcher \<Rightarrow> 'd AsyncDispatcher \<Rightarrow> bool" where
  emit: "NewCallbackID nano \<notin> set (adEmitted s) \<Longrightarrow> ad_step s (ad_Emit nano ev d s)"
| shutdown: "ad_step s (ad_Shutdown s)"
| take: "loop_take s = Some s' \<Longrightarrow> ad_step s s'"
| exit: "loop_exit s = Some s' \<Longrightarrow> ad_step s s'"
| deliver: "ad_deliver now ok s = Some (Ok s') \<Longrightarrow> ad_step s s'"
| fire: "ad_fire now i seeClosed s = Some s' \<Longrightarrow> ad_step s s'"

subsection \<open>Every event is accounted for\<close>

definition ad_waiting :: "'d AsyncDispatcher \<Rightarrow> 'd asyncJob multiset" where
  "ad_waiting s = mset (adQueue s) + mset (case adRunning s of None \<Rightarrow> [] | Some j \<Rightarrow> [j]) + mset (map snd (adTimers s))"

definition posts_of :: "gostring \<Rightarrow> (gostring \<times> bool) list \<Rightarrow> bool list" where
  "posts_of i ps = map snd (filter (\<lambda>p. fst p = i) ps)"

lemma posts_of_snoc: "posts_of i (ps @ [(j, ok)]) = posts_of i ps @ (if i = j then [ok] else [])"
  by (simp add: posts_of_def)

lemma posts_of_fresh: "i \<notin> fst ` set ps \<Longrightarrow> posts_of i ps = []"
  by (auto simp: posts_of_def filter_empty_conv)

definition max_posts :: "'d AsyncDispatcher \<Rightarrow> nat" where
  "max_posts s = nat (max 1 (adRetryMax s))"

definition ad_inv :: "'d AsyncDispatcher \<Rightarrow> bool" where
  "ad_inv s \<longleftrightarrow>
     adBackoff s \<noteq> [] \<and> length (adQueue s) \<le> asyncQueueSize \<and> (adExited s \<longrightarrow> adRunning s = None) \<and>
     distinct (adEmitted s) \<and> fst ` set (adPosts s) \<subseteq> set (adEmitted s) \<and>
     image_mset jbCallbackID (ad_waiting s + mset (adDelivered s) + mset (map snd (adDropped s))) = mset (adEmitted s) \<and>
     (\<forall>j \<in># ad_waiting s. jbAttempt j < max_posts s \<and> posts_of (jbCallbackID j) (adPosts s) = replicate (jbAttempt j) False) \<and>
     (\<forall>j \<in> set (adDelivered s). 1 \<le> jbAttempt j \<and> jbAttempt j \<le> max_posts s \<and>
        posts_of (jbCallbackID j) (adPosts s) = replicate (jbAttempt j - 1) False @ [True]) \<and>
     (\<forall>(why, j) \<in> set (adDropped s). jbAttempt j \<le> max_posts s \<and> (why = DropMax \<longrightarrow> jbAttempt j = max_posts s) \<and>
        (why = DropClosed \<longrightarrow> adClosed s) \<and> posts_of (jbCallbackID j) (adPosts s) = replicate (jbAttempt j) False)"

lemma waiting_enqueue:
  "length (adQueue s) < asyncQueueSize \<Longrightarrow> ad_waiting (ad_enqueue j s) = add_mset j (ad_waiting s)"
  by (simp add: ad_enqueue_def ad_waiting_def split: option.split)

lemma waiting_nth:
  "i < length xs \<Longrightarrow> mset (map snd (take i xs @ drop (Suc i) xs)) + {#snd (xs ! i)#} = mset (map snd xs)"
proof -
  assume "i < length xs"
  then have "mset (map snd xs) = mset (map snd (take i xs @ xs ! i # drop (Suc i) xs))"
    by (simp add: id_take_nth_drop [symmetric])
  then show ?thesis by simp
qed

text \<open>Joining the queue, or being dropped because it is full, keeps the invariant of a job
  that is neither waiting nor finished.\<close>

lemma ad_inv_drop:
  assumes "ad_inv (s\<lparr>adTimers := adTimers s @ [(t, j)]\<rparr>)" "why \<noteq> DropMax" "why = DropClosed \<longrightarrow> adClosed s"
  shows "ad_inv (ad_drop why j s)"
proof -
  let ?s1 = "s\<lparr>adTimers := adTimers s @ [(t, j)]\<rparr>"
  have w: "ad_waiting ?s1 = add_mset j (ad_waiting s)" by (simp add: ad_waiting_def)
  have d: "ad_waiting (ad_drop why j s) = ad_waiting s" by (simp add: ad_waiting_def ad_drop_def)
  have m: "max_posts ?s1 = max_posts s" "max_posts (ad_drop why j s) = max_posts s"
    by (simp_all add: max_posts_def ad_drop_def)
  show ?thesis using assms unfolding ad_inv_def w d m
    by (auto simp: ad_drop_def)
qed

lemma ad_inv_enqueue:
  assumes "ad_inv (s\<lparr>adTimers := adTimers s @ [(t, j)]\<rparr>)"
  shows "ad_inv (ad_enqueue j s)"
proof (cases "length (adQueue s) < asyncQueueSize")
  case True
  let ?s1 = "s\<lparr>adTimers := adTimers s @ [(t, j)]\<rparr>"
  have w: "ad_waiting (ad_enqueue j s) = ad_waiting ?s1"
    using waiting_enqueue [OF True] by (simp add: ad_waiting_def)
  have m: "max_posts (ad_enqueue j s) = max_posts ?s1" using True by (simp add: max_posts_def ad_enqueue_def)
  show ?thesis using assms True unfolding ad_inv_def w m by (simp add: ad_enqueue_def)
next
  case False
  then show ?thesis using ad_inv_drop [OF assms, of DropFull] by (simp add: ad_enqueue_def)
qed

lemma ad_inv_emit:
  assumes "ad_inv s" "NewCallbackID nano \<notin> set (adEmitted s)"
  shows "ad_inv (ad_Emit nano ev d s)"
proof -
  let ?id = "NewCallbackID nano"
  let ?s = "s\<lparr>adEmitted := adEmitted s @ [?id]\<rparr>"
  let ?j = "\<lparr>jbEventType = ev, jbCallbackID = ?id, jbData = d, jbAttempt = 0\<rparr>"
  have "posts_of ?id (adPosts s) = []" using assms by (intro posts_of_fresh) (auto simp: ad_inv_def)
  moreover have "max_posts s > 0" by (simp add: max_posts_def)
  moreover have "ad_waiting (?s\<lparr>adTimers := adTimers ?s @ [(0, ?j)]\<rparr>) = add_mset ?j (ad_waiting s)"
    by (simp add: ad_waiting_def)
  moreover have "max_posts (?s\<lparr>adTimers := adTimers ?s @ [(0, ?j)]\<rparr>) = max_posts s" by (simp add: max_posts_def)
  ultimately have "ad_inv (?s\<lparr>adTimers := adTimers ?s @ [(0, ?j)]\<rparr>)"
    using assms unfolding ad_inv_def by auto
  then show ?thesis unfolding ad_Emit_def Let_def by (rule ad_inv_enqueue)
qed

lemma ad_inv_fire:
  assumes "ad_inv s" "ad_fire now i sc s = Some s'"
  shows "ad_inv s'"
proof -
  define j where "j = snd (adTimers s ! i)"
  define s0 where "s0 = s\<lparr>adTimers := take i (adTimers s) @ drop (Suc i) (adTimers s)\<rparr>"
  have i: "i < length (adTimers s)" using assms(2) by (simp add: ad_fire_def split: if_splits)
  have s': "s' = (if adClosed s0 \<and> (sc \<or> \<not> length (adQueue s0) < asyncQueueSize) then ad_drop DropClosed j s0 else ad_enqueue j s0)"
    using assms(2) by (auto simp: ad_fire_def Let_def j_def s0_def split: if_splits)
  let ?s1 = "s0\<lparr>adTimers := adTimers s0 @ [(0, j)]\<rparr>"
  have w: "ad_waiting ?s1 = ad_waiting s"
    using waiting_nth [OF i] by (simp add: ad_waiting_def s0_def j_def)
  have m: "max_posts ?s1 = max_posts s" by (simp add: max_posts_def s0_def)
  have "ad_inv ?s1" using assms(1) unfolding ad_inv_def w m by (simp add: s0_def)
  then show ?thesis unfolding s' using ad_inv_drop [of s0 0 j DropClosed] ad_inv_enqueue [of s0 0 j] by simp
qed

lemma ids_disjoint:
  assumes "image_mset f (add_mset j M) = mset xs" "distinct xs" "k \<in># M"
  shows "f k \<noteq> f j"
proof
  assume "f k = f j"
  have "count (image_mset f (add_mset j M)) (f j) \<le> 1"
    using assms(1,2) by (simp add: distinct_count_atmost_1 del: image_mset_add_mset)
  moreover have "0 < count (image_mset f M) (f j)"
    unfolding count_greater_zero_iff using assms(3) \<open>f k = f j\<close> by (metis image_eqI set_image_mset)
  ultimately show False by simp
qed

text \<open>The state between the post of a job and its next station.\<close>

lemma ad_inv_posted:
  assumes "ad_inv s" "adRunning s = Some j"
    and s0: "s0 = s\<lparr>adRunning := None, adPosts := adPosts s @ [(jbCallbackID j, ok)]\<rparr>"
  shows "adBackoff s0 \<noteq> []" "length (adQueue s0) \<le> asyncQueueSize" "adRunning s0 = None" "distinct (adEmitted s0)"
    "fst ` set (adPosts s0) \<subseteq> set (adEmitted s0)" "max_posts s0 = max_posts s"
    "add_mset (jbCallbackID j) (image_mset jbCallbackID (ad_waiting s0 + mset (adDelivered s0) + mset (map snd (adDropped s0)))) = mset (adEmitted s0)"
    "\<forall>k \<in># ad_waiting s0. jbAttempt k < max_posts s \<and> posts_of (jbCallbackID k) (adPosts s0) = replicate (jbAttempt k) False"
    "\<forall>k \<in> set (adDelivered s0). 1 \<le> jbAttempt k \<and> jbAttempt k \<le> max_posts s \<and>
        posts_of (jbCallbackID k) (adPosts s0) = replicate (jbAttempt k - 1) False @ [True]"
    "\<forall>(why, k) \<in> set (adDropped s0). jbAttempt k \<le> max_posts s \<and> (why = DropMax \<longrightarrow> jbAttempt k = max_posts s) \<and>
        (why = DropClosed \<longrightarrow> adClosed s0) \<and> posts_of (jbCallbackID k) (adPosts s0) = replicate (jbAttempt k) False"
    "jbAttempt j < max_posts s" "posts_of (jbCallbackID j) (adPosts s0) = replicate (jbAttempt j) False @ [ok]"
proof -
  let ?M = "ad_waiting s0 + mset (adDelivered s0) + mset (map snd (adDropped s0))"
  have w: "ad_waiting s = add_mset j (ad_waiting s0)" using assms(2) by (simp add: s0 ad_waiting_def)
  have emi: "adEmitted s0 = adEmitted s" "adDelivered s0 = adDelivered s" "adDropped s0 = adDropped s" by (simp_all add: s0)
  have cons: "image_mset jbCallbackID (add_mset j ?M) = mset (adEmitted s)" "distinct (adEmitted s)"
    using assms(1) by (simp_all add: ad_inv_def w emi)
  have other: "jbCallbackID k \<noteq> jbCallbackID j" if "k \<in># ?M" for k
    using ids_disjoint [OF cons that] .
  have same: "posts_of (jbCallbackID k) (adPosts s0) = posts_of (jbCallbackID k) (adPosts s)" if "k \<in># ?M" for k
    using other [OF that] by (simp add: s0 posts_of_snoc)
  show "add_mset (jbCallbackID j) (image_mset jbCallbackID ?M) = mset (adEmitted s0)" using cons(1) emi by simp
  show "fst ` set (adPosts s0) \<subseteq> set (adEmitted s0)"
    using assms(1) cons(1) [symmetric] by (auto simp: ad_inv_def s0 set_mset_mset [symmetric] simp del: set_mset_mset)
  show "adBackoff s0 \<noteq> []" "length (adQueue s0) \<le> asyncQueueSize" "adRunning s0 = None" "distinct (adEmitted s0)" "max_posts s0 = max_posts s"
    using assms(1) by (simp_all add: ad_inv_def s0 max_posts_def)
  show "\<forall>k \<in># ad_waiting s0. jbAttempt k < max_posts s \<and> posts_of (jbCallbackID k) (adPosts s0) = replicate (jbAttempt k) False"
    using assms(1) same by (simp add: ad_inv_def w)
  show "\<forall>k \<in> set (adDelivered s0). 1 \<le> jbAttempt k \<and> jbAttempt k \<le> max_posts s \<and>
        posts_of (jbCallbackID k) (adPosts s0) = replicate (jbAttempt k - 1) False @ [True]"
    using assms(1) same by (simp add: ad_inv_def emi)
  have "posts_of (jbCallbackID k) (adPosts s0) = posts_of (jbCallbackID k) (adPosts s)" if "(why, k) \<in> set (adDropped s)" for why k
    using that by (intro same) (auto simp: emi intro: rev_image_eqI)
  then show "\<forall>(why, k) \<in> set (adDropped s0). jbAttempt k \<le> max_posts s \<and> (why = DropMax \<longrightarrow> jbAttempt k = max_posts s) \<and>
        (why = DropClosed \<longrightarrow> adClosed s0) \<and> posts_of (jbCallbackID k) (adPosts s0) = replicate (jbAttempt k) False"
    using assms(1) by (auto simp: ad_inv_def emi s0)
  show "jbAttempt j < max_posts s" "posts_of (jbCallbackID j) (adPosts s0) = replicate (jbAttempt j) False @ [ok]"
    using assms(1) by (simp_all add: ad_inv_def w s0 posts_of_snoc)
qed

lemma ad_inv_deliver:
  assumes "ad_inv s" "ad_deliver now ok s = Some r"
  shows "\<exists>s'. r = Ok s' \<and> ad_inv s'"
proof -
  obtain j where j: "adRunning s = Some j" using assms(2) by (auto simp: ad_deliver_def split: option.splits)
  define s0 where "s0 = s\<lparr>adRunning := None, adPosts := adPosts s @ [(jbCallbackID j, ok)]\<rparr>"
  define j' where "j' = j\<lparr>jbAttempt := jbAttempt j + 1\<rparr>"
  note p = ad_inv_posted [OF assms(1) j s0_def]
  have j'_simps: "jbCallbackID j' = jbCallbackID j" "jbAttempt j' = Suc (jbAttempt j)" by (simp_all add: j'_def)
  have r: "r = (if ok then Ok (s0\<lparr>adDelivered := adDelivered s0 @ [j']\<rparr>)
           else if int (jbAttempt j') \<ge> adRetryMax s0 then Ok (ad_drop DropMax j' s0)
           else obind (index_at (adBackoff s0) (min (jbAttempt j' - 1) (length (adBackoff s0) - 1))) (\<lambda>delay.
             Ok (s0\<lparr>adTimers := adTimers s0 @ [(now + delay, j')]\<rparr>)))"
    using assms(2) unfolding ad_deliver_def j option.case Let_def s0_def [symmetric] j'_def [symmetric] by simp
  have idx: "min (jbAttempt j' - 1) (length (adBackoff s0) - 1) < length (adBackoff s0)" using p(1) by (cases "adBackoff s0") simp_all
  define t where "t = now + adBackoff s0 ! min (jbAttempt j' - 1) (length (adBackoff s0) - 1)"
  have r': "r = (if ok then Ok (s0\<lparr>adDelivered := adDelivered s0 @ [j']\<rparr>)
           else if int (jbAttempt j') \<ge> adRetryMax s0 then Ok (ad_drop DropMax j' s0)
           else Ok (s0\<lparr>adTimers := adTimers s0 @ [(t, j')]\<rparr>))"
    using r unfolding index_at_Ok [OF idx] obind.simps t_def .
  consider (ok) "ok" "r = Ok (s0\<lparr>adDelivered := adDelivered s0 @ [j']\<rparr>)"
    | (max) "\<not> ok" "int (jbAttempt j') \<ge> adRetryMax s0" "r = Ok (ad_drop DropMax j' s0)"
    | (retry) "\<not> ok" "\<not> int (jbAttempt j') \<ge> adRetryMax s0" "r = Ok (s0\<lparr>adTimers := adTimers s0 @ [(t, j')]\<rparr>)"
    using r' by (cases ok; cases "int (jbAttempt j') \<ge> adRetryMax s0") simp_all
  then show ?thesis
  proof cases
    case ok
    have w: "ad_waiting (s0\<lparr>adDelivered := adDelivered s0 @ [j']\<rparr>) = ad_waiting s0" "max_posts (s0\<lparr>adDelivered := adDelivered s0 @ [j']\<rparr>) = max_posts s"
      using p(6) by (simp_all add: ad_waiting_def max_posts_def)
    have "ad_inv (s0\<lparr>adDelivered := adDelivered s0 @ [j']\<rparr>)"
      using p ok(1) unfolding ad_inv_def w by (simp add: j'_simps)
    then show ?thesis using ok by blast
  next
    case max
    have w: "ad_waiting (ad_drop DropMax j' s0) = ad_waiting s0" "max_posts (ad_drop DropMax j' s0) = max_posts s"
      using p(6) by (simp_all add: ad_waiting_def max_posts_def ad_drop_def)
    have mp: "max_posts s = Suc (jbAttempt j)" using max(2) p(6,11) by (auto simp: j'_simps max_posts_def)
    have "ad_inv (ad_drop DropMax j' s0)"
      using p max(1) unfolding ad_inv_def w mp by (simp add: j'_simps ad_drop_def replicate_append_same)
    then show ?thesis using max by blast
  next
    case retry
    have w: "ad_waiting (s0\<lparr>adTimers := adTimers s0 @ [(t, j')]\<rparr>) = add_mset j' (ad_waiting s0)" "max_posts (s0\<lparr>adTimers := adTimers s0 @ [(t, j')]\<rparr>) = max_posts s"
      using p(6) by (simp_all add: ad_waiting_def max_posts_def)
    have "Suc (jbAttempt j) < max_posts s" using retry(2) p(6) by (simp add: j'_simps max_posts_def)
    then have "ad_inv (s0\<lparr>adTimers := adTimers s0 @ [(t, j')]\<rparr>)"
      using p retry(1) unfolding ad_inv_def w by (simp add: j'_simps replicate_append_same)
    then show ?thesis using retry by blast
  qed
qed

lemma ad_inv_step:
  assumes "ad_inv s" "ad_step s s'"
  shows "ad_inv s'"
  using assms(2,1)
proof cases
  case (emit nano ev d)
  then show ?thesis using assms(1) by (simp add: ad_inv_emit)
next
  case shutdown
  have "ad_waiting (ad_Shutdown s) = ad_waiting s" "max_posts (ad_Shutdown s) = max_posts s"
    by (simp_all add: ad_Shutdown_def ad_waiting_def max_posts_def)
  then show ?thesis using shutdown assms(1) by (auto simp: ad_inv_def ad_Shutdown_def)
next
  case take
  then obtain job q where q: "adQueue s = job # q" "adRunning s = None" "\<not> adExited s"
    and s': "s' = s\<lparr>adQueue := q, adRunning := Some job\<rparr>"
    by (auto simp: loop_take_def split: if_splits list.splits)
  then have "ad_waiting s' = ad_waiting s" "max_posts s' = max_posts s"
    by (simp_all add: ad_waiting_def max_posts_def)
  then show ?thesis using assms(1) q s' by (auto simp: ad_inv_def)
next
  case exit
  then have "s' = s\<lparr>adExited := True\<rparr>" "adRunning s = None" by (auto simp: loop_exit_def split: if_splits)
  moreover from this have "ad_waiting s' = ad_waiting s" "max_posts s' = max_posts s"
    by (simp_all add: ad_waiting_def max_posts_def)
  ultimately show ?thesis using assms(1) by (auto simp: ad_inv_def)
next
  case (deliver now ok)
  then show ?thesis using ad_inv_deliver [OF assms(1)] by fastforce
next
  case (fire now i sc)
  then show ?thesis using ad_inv_fire [OF assms(1)] by blast
qed

definition ad_init :: "'d AsyncDispatcher \<Rightarrow> bool" where
  "ad_init s \<longleftrightarrow> (\<exists>retryMax backoff. s = NewAsyncDispatcher retryMax backoff)"

interpretation ad: step_invariant ad_init ad_step ad_inv
proof
  show "ad_inv s" if "ad_init s" for s :: "'d AsyncDispatcher"
    using that by (auto simp: ad_init_def ad_inv_def NewAsyncDispatcher_def ad_waiting_def DefaultBackoff_def split: if_splits)
qed (rule ad_inv_step)

text \<open>C17: Every asynchronous event is accounted for, in any interleaving of emitters, delivery,
  retry timers and shutdown: it is waiting, delivered or dropped, in exactly one of these
  ways; it is posted at most \<open>retryMax\<close> times (at least once is allowed), always with its own
  id; a delivered event has been accepted by the receiver exactly once, by its last post; an
  event dropped for its number of attempts has used all of them; and a delivery never
  panics on the retry schedule.\<close>

theorem async_events_accounted:
  assumes "reachable ad_init ad_step s"
  shows "distinct (adEmitted s) \<and>
    image_mset jbCallbackID (ad_waiting s + mset (adDelivered s) + mset (map snd (adDropped s))) = mset (adEmitted s) \<and>
    (\<forall>i. int (length (posts_of i (adPosts s))) \<le> max 1 (adRetryMax s)) \<and>
    (\<forall>j \<in> set (adDelivered s). \<exists>k. posts_of (jbCallbackID j) (adPosts s) = replicate k False @ [True]) \<and>
    (\<forall>j. (DropMax, j) \<in> set (adDropped s) \<longrightarrow> posts_of (jbCallbackID j) (adPosts s) = replicate (nat (max 1 (adRetryMax s))) False) \<and>
    (\<forall>now ok. ad_deliver now ok s \<noteq> Some Panic)"
proof -
  have inv: "ad_inv s" using assms by (rule ad.reachable_invar)
  have bound: "length (posts_of i (adPosts s)) \<le> max_posts s" for i
  proof (cases "i \<in> set (adEmitted s)")
    case True
    then have "i \<in># image_mset jbCallbackID (ad_waiting s + mset (adDelivered s) + mset (map snd (adDropped s)))"
      using inv by (simp add: ad_inv_def)
    then obtain j where "i = jbCallbackID j" "j \<in># ad_waiting s \<or> j \<in> set (adDelivered s) \<or> (\<exists>why. (why, j) \<in> set (adDropped s))"
      by force
    then show ?thesis using inv by (fastforce simp: ad_inv_def)
  next
    case False
    then have "posts_of i (adPosts s) = []" using inv by (intro posts_of_fresh) (auto simp: ad_inv_def)
    then show ?thesis by simp
  qed
  have "\<forall>i. int (length (posts_of i (adPosts s))) \<le> max 1 (adRetryMax s)"
    using bound by (simp add: max_posts_def le_nat_iff)
  moreover have "\<forall>now ok. ad_deliver now ok s \<noteq> Some Panic" using ad_inv_deliver [OF inv] by blast
  moreover have "\<forall>j \<in> set (adDelivered s). \<exists>k. posts_of (jbCallbackID j) (adPosts s) = replicate k False @ [True]"
    using inv unfolding ad_inv_def by metis
  moreover have "posts_of (jbCallbackID j) (adPosts s) = replicate (max_posts s) False" if "(DropMax, j) \<in> set (adDropped s)" for j
    using inv that by (fastforce simp: ad_inv_def)
  moreover have "distinct (adEmitted s)"
    "image_mset jbCallbackID (ad_waiting s + mset (adDelivered s) + mset (map snd (adDropped s))) = mset (adEmitted s)"
    using inv by (simp_all add: ad_inv_def)
  ultimately show ?thesis unfolding max_posts_def by (intro conjI) (assumption | simp)+
qed

text \<open>An event that is refused once, retried and accepted.\<close>

definition ex_dispatcher :: "unit AsyncDispatcher" where
  "ex_dispatcher = NewAsyncDispatcher 3 [10]"

definition ex_run :: "unit AsyncDispatcher option" where
  "ex_run = (case loop_take (ad_Emit ''x'' EventOnCloseConnection () ex_dispatcher) of
     None \<Rightarrow> None
   | Some s \<Rightarrow> (case ad_deliver 100 False s of
       Some (Ok s) \<Rightarrow> (case ad_fire 110 0 False s of
         None \<Rightarrow> None
       | Some s \<Rightarrow> (case loop_take s of
           None \<Rightarrow> None
         | Some s \<Rightarrow> (case ad_deliver 120 True s of Some (Ok s) \<Rightarrow> Some s | _ \<Rightarrow> None)))
     | _ \<Rightarrow> None))"

lemma ex_run_posts: "\<exists>s. ex_run = Some s \<and> adPosts s = [(''cb_x'', False), (''cb_x'', True)] \<and> map jbCallbackID (adDelivered s) = [''cb_x'']"
  by (simp add: ex_run_def ex_dispatcher_def NewAsyncDispatcher_def ad_Emit_def ad_enqueue_def asyncQueueSize_def
      loop_take_def ad_deliver_def ad_fire_def index_at_def NewCallbackID_def Let_def)

lemma ex_run_reachable:
  assumes "ex_run = Some s"
  shows "reachable ad_init ad_step s"
proof -
  have r0: "reachable ad_init ad_step (ad_Emit ''x'' EventOnCloseConnection () ex_dispatcher)"
  proof (rule reach_step)
    show "reachable ad_init ad_step ex_dispatcher" by (rule reach_init) (auto simp: ad_init_def ex_dispatcher_def)
    show "ad_step ex_dispatcher (ad_Emit ''x'' EventOnCloseConnection () ex_dispatcher)"
      by (rule ad_step.emit) (simp add: ex_dispatcher_def NewAsyncDispatcher_def)
  qed
  obtain s1 s2 s3 s4 where st: "loop_take (ad_Emit ''x'' EventOnCloseConnection () ex_dispatcher) = Some s1" "ad_deliver 100 False s1 = Some (Ok s2)"
    "ad_fire 110 0 False s2 = Some s3" "loop_take s3 = Some s4" "ad_deliver 120 True s4 = Some (Ok s)"
    using assms by (auto simp: ex_run_def split: option.splits outcome.splits)
  note r1 = reach_step [OF r0 ad_step.take [OF st(1)]]
  note r2 = reach_step [OF r1 ad_step.deliver [OF st(2)]]
  note r3 = reach_step [OF r2 ad_step.fire [OF st(3)]]
  note r4 = reach_step [OF r3 ad_step.take [OF st(4)]]
  show ?thesis by (rule reach_step [OF r4 ad_step.deliver [OF st(5)]])
qed

theorem async_events_accounted_witness:
  "\<exists>s k. ex_run = Some s \<and> posts_of ''cb_x'' (adPosts s) = replicate k False @ [True]"
proof -
  obtain s where s: "ex_run = Some s" "map jbCallbackID (adDelivered s) = [''cb_x'']"
    using ex_run_posts by (elim exE conjE)
  then obtain j where "adDelivered s = [j]" "jbCallbackID j = ''cb_x''" by (auto simp: map_eq_Cons_conv)
  moreover have "\<forall>j \<in> set (adDelivered s). \<exists>k. posts_of (jbCallbackID j) (adPosts s) = replicate k False @ [True]"
    by (rule async_events_accounted [OF ex_run_reachable [OF s(1)], THEN conjunct2, THEN conjunct2, THEN conjunct2, THEN conjunct1])
  ultimately show ?thesis using s(1) by auto
qed

interpretation adt: async_transport ad_Emit "\<lambda>s. map jbEventType (adQueue s)" asyncQueueSize "\<lambda>_ _ _. True"
  by unfold_locales (auto simp: ad_Emit_def ad_enqueue_def ad_drop_def Let_def)

subsection \<open>Pub/sub transport\<close>

definition dropLogInterval :: int where "dropLogInterval = 5 * second"
definition queueSize :: nat where "queueSize = 1024"

record pubsubJob =
  pjSubject :: gostring
  pjEventType :: gostring
  pjPayload :: bytes

text \<open>\<open>psAccepted\<close>, \<open>psPublished\<close> and \<open>psLogs\<close> record the jobs that entered the queue, the
  publications with their results and the times of the warnings.\<close>

record PubsubTransport =
  psPrefix :: gostring
  psObs :: bool
  psQueue :: "pubsubJob list"
  psClosed :: bool
  psExited :: bool
  psRunning :: "pubsubJob option"
  psLastDropLog :: int
  psDrops :: "observation list"
  psAccepted :: "pubsubJob list"
  psPublished :: "(pubsubJob \<times> bool) list"
  psLogs :: "int list"

definition NewPubsubTransport :: "gostring \<Rightarrow> bool \<Rightarrow> PubsubTransport" where
  "NewPubsubTransport subjectPrefix obs =
     \<lparr>psPrefix = subjectPrefix, psObs = obs, psQueue = [], psClosed = False, psExited = False, psRunning = None,
      psLastDropLog = 0, psDrops = [], psAccepted = [], psPublished = [], psLogs = []\<rparr>"

text \<open>The clock readings, the random id, the encoders, and the time stamp that the warning
  loaded, which another emitter may have replaced since.\<close>

record 'd ps_env =
  pvJson :: "'d \<Rightarrow> bytes option"
  pvBody :: "Body \<Rightarrow> bytes option"
  pvSentAt :: int
  pvNano :: gostring
  pvNow :: int
  pvLoaded :: int

definition logDropRateLimited :: "int \<Rightarrow> int \<Rightarrow> PubsubTransport \<Rightarrow> PubsubTransport" where
  "logDropRateLimited now loaded t =
     (if now - loaded < dropLogInterval then t
      else if psLastDropLog t = loaded then t\<lparr>psLastDropLog := now, psLogs := psLogs t @ [now]\<rparr>
      else t)"

definition ps_encode :: "'d ps_env \<Rightarrow> gostring \<Rightarrow> 'd \<Rightarrow> bytes option" where
  "ps_encode e eventType d =
     (case pvJson e d of
        None \<Rightarrow> None
      | Some raw \<Rightarrow> pvBody e \<lparr>bdData = raw, bdMeta = \<lparr>meSentAt = pvSentAt e, meCallbackID = NewCallbackID (pvNano e), meEventType = eventType\<rparr>\<rparr>)"

definition ps_Emit :: "'d ps_env \<Rightarrow> gostring \<Rightarrow> 'd \<Rightarrow> PubsubTransport \<Rightarrow> PubsubTransport" where
  "ps_Emit e eventType d t =
     (case ps_encode e eventType d of
        None \<Rightarrow> t
      | Some payload \<Rightarrow>
          let job = \<lparr>pjSubject = psPrefix t @ ''.'' @ eventType, pjEventType = eventType, pjPayload = payload\<rparr> in
          if length (psQueue t) < queueSize then t\<lparr>psQueue := psQueue t @ [job], psAccepted := psAccepted t @ [job]\<rparr>
          else logDropRateLimited (pvNow e) (pvLoaded e)
                 (if psObs t then t\<lparr>psDrops := psDrops t @ [ObserveDropped eventType]\<rparr> else t))"

definition ps_Shutdown :: "PubsubTransport \<Rightarrow> PubsubTransport" where
  "ps_Shutdown t = t\<lparr>psClosed := True\<rparr>"

definition ps_take :: "PubsubTransport \<Rightarrow> PubsubTransport option" where
  "ps_take t =
     (if psExited t \<or> psRunning t \<noteq> None then None
      else case psQueue t of [] \<Rightarrow> None | job # q \<Rightarrow> Some (t\<lparr>psQueue := q, psRunning := Some job\<rparr>))"

definition ps_exit :: "PubsubTransport \<Rightarrow> PubsubTransport option" where
  "ps_exit t =
     (if \<not> psExited t \<and> psRunning t = None \<and> psClosed t \<and> psQueue t = [] then Some (t\<lparr>psExited := True\<rparr>) else None)"

definition ps_deliver :: "bool \<Rightarrow> PubsubTransport \<Rightarrow> PubsubTransport option" where
  "ps_deliver ok t =
     (case psRunning t of
        None \<Rightarrow> None
      | Some job \<Rightarrow> Some (t\<lparr>psRunning := None, psPublished := psPublished t @ [(job, ok)]\<rparr>))"

definition HealthyFunc :: "bool option \<Rightarrow> bool" where
  "HealthyFunc healthcheck = (case healthcheck of None \<Rightarrow> True | Some nil \<Rightarrow> nil)"

text \<open>The data of an event only matters through its encoding, so the steps take it as bytes
  with an arbitrary encoder.\<close>

inductive ps_step :: "PubsubTransport \<Rightarrow> PubsubTransport \<Rightarrow> bool" where
  ps_emit: "ps_step t (ps_Emit (e :: bytes ps_env) ev d t)"
| ps_shutdown: "ps_step t (ps_Shutdown t)"
| ps_taken: "ps_take t = Some t' \<Longrightarrow> ps_step t t'"
| ps_exited: "ps_exit t = Some t' \<Longrightarrow> ps_step t t'"
| ps_delivered: "ps_deliver ok t = Some t' \<Longrightarrow> ps_step t t'"

interpretation pst: async_transport ps_Emit "\<lambda>t. map pjEventType (psQueue t)" queueSize
  "\<lambda>e ev d. ps_encode e ev d \<noteq> None"
  by unfold_locales (auto simp: ps_Emit_def logDropRateLimited_def Let_def split: option.splits)

definition spaced :: "int list \<Rightarrow> bool" where
  "spaced ts \<longleftrightarrow> (\<forall>i. Suc i < length ts \<longrightarrow> ts ! i + dropLogInterval \<le> ts ! Suc i)"

lemma spaced_snoc:
  assumes "spaced ts" "ts \<noteq> [] \<longrightarrow> last ts + dropLogInterval \<le> t"
  shows "spaced (ts @ [t])"
  unfolding spaced_def
proof (intro allI impI)
  fix i assume i: "Suc i < length (ts @ [t])"
  show "(ts @ [t]) ! i + dropLogInterval \<le> (ts @ [t]) ! Suc i"
  proof (cases "Suc i < length ts")
    case True
    then show ?thesis using assms(1) by (simp add: spaced_def nth_append)
  next
    case False
    then have "length ts = Suc i" using i by simp
    moreover from this have "last ts = ts ! i" by (metis last_conv_nth diff_Suc_1 length_0_conv nat.distinct(1))
    ultimately show ?thesis using assms(2) by (auto simp: nth_append)
  qed
qed

definition well_subject :: "gostring \<Rightarrow> pubsubJob \<Rightarrow> bool" where
  "well_subject p j \<longleftrightarrow> pjSubject j = p @ ''.'' @ pjEventType j"

definition ps_inv :: "PubsubTransport \<Rightarrow> bool" where
  "ps_inv t \<longleftrightarrow>
     psAccepted t = map fst (psPublished t) @ (case psRunning t of None \<Rightarrow> [] | Some j \<Rightarrow> [j]) @ psQueue t \<and>
     length (psQueue t) \<le> queueSize \<and> (\<forall>j \<in> set (psAccepted t). well_subject (psPrefix t) j) \<and>
     spaced (psLogs t) \<and> (psLogs t \<noteq> [] \<longrightarrow> psLastDropLog t = last (psLogs t))"

lemma ps_inv_logged:
  "ps_inv t \<Longrightarrow> spaced (psLogs t @ [now]) \<Longrightarrow> ps_inv (t\<lparr>psLastDropLog := now, psLogs := psLogs t @ [now]\<rparr>)"
  unfolding ps_inv_def by (elim conjE) (intro conjI; simp (no_asm_simp))

lemma ps_inv_log:
  assumes "ps_inv t"
  shows "ps_inv (logDropRateLimited now loaded t)"
proof (cases "\<not> now - loaded < dropLogInterval \<and> psLastDropLog t = loaded")
  case True
  then have "psLogs t \<noteq> [] \<longrightarrow> last (psLogs t) + dropLogInterval \<le> now" using assms by (auto simp: ps_inv_def)
  then have "spaced (psLogs t @ [now])" using assms by (intro spaced_snoc) (simp_all add: ps_inv_def)
  moreover have "logDropRateLimited now loaded t = t\<lparr>psLastDropLog := now, psLogs := psLogs t @ [now]\<rparr>"
    using True by (simp add: logDropRateLimited_def)
  ultimately show ?thesis using assms by (simp only: ps_inv_logged)
next
  case False
  then show ?thesis using assms by (auto simp: logDropRateLimited_def)
qed

lemma ps_inv_step:
  assumes "ps_inv t" "ps_step t t'"
  shows "ps_inv t'"
  using assms(2)
proof cases
  case (ps_emit e ev d)
  have d: "ps_inv (if psObs t then t\<lparr>psDrops := psDrops t @ [ObserveDropped ev]\<rparr> else t)" using assms(1) by (simp add: ps_inv_def)
  show ?thesis
  proof (cases "ps_encode e ev d")
    case None
    then show ?thesis using assms(1) by (simp add: ps_emit ps_Emit_def)
  next
    case (Some payload)
    let ?j = "\<lparr>pjSubject = psPrefix t @ ''.'' @ ev, pjEventType = ev, pjPayload = payload\<rparr>"
    have "well_subject (psPrefix t) ?j" by (simp add: well_subject_def)
    then have "ps_inv (t\<lparr>psQueue := psQueue t @ [?j], psAccepted := psAccepted t @ [?j]\<rparr>)" if "length (psQueue t) < queueSize"
      using assms(1) that by (simp add: ps_inv_def)
    then show ?thesis using ps_inv_log [OF d] Some by (simp add: ps_emit ps_Emit_def Let_def)
  qed
next
  case ps_shutdown
  then show ?thesis using assms(1) by (simp add: ps_inv_def ps_Shutdown_def)
next
  case ps_taken
  then show ?thesis using assms(1) by (auto simp: ps_inv_def ps_take_def split: if_splits list.splits)
next
  case ps_exited
  then show ?thesis using assms(1) by (auto simp: ps_inv_def ps_exit_def split: if_splits)
next
  case (ps_delivered ok)
  then show ?thesis using assms(1) by (auto simp: ps_inv_def ps_deliver_def split: option.splits)
qed

interpretation ps: step_invariant "\<lambda>t. \<exists>p obs. t = NewPubsubTransport p obs" ps_step ps_inv
proof
  show "ps_inv t" if "\<exists>p obs. t = NewPubsubTransport p obs" for t
    using that by (auto simp: ps_inv_def NewPubsubTransport_def spaced_def)
qed (rule ps_inv_step)

text \<open>The pub/sub transport publishes every accepted event once, in the order the events
  were emitted, under the subject of its type, in any interleaving of emitters, delivery and
  shutdown; its queue stays within 1024 events; and two warnings about dropped events are at
  least five seconds apart, even when emitters race for them.\<close>

theorem pubsub_in_order:
  assumes "reachable (\<lambda>t. \<exists>p obs. t = NewPubsubTransport p obs) ps_step t"
  shows "psAccepted t = map fst (psPublished t) @ (case psRunning t of None \<Rightarrow> [] | Some j \<Rightarrow> [j]) @ psQueue t \<and>
    length (psQueue t) \<le> 1024 \<and> (\<forall>j \<in> set (psAccepted t). pjSubject j = psPrefix t @ ''.'' @ pjEventType j) \<and>
    (\<forall>i. Suc i < length (psLogs t) \<longrightarrow> psLogs t ! i + 5 * second \<le> psLogs t ! Suc i)"
  using ps.reachable_invar [OF assms] unfolding ps_inv_def queueSize_def spaced_def dropLogInterval_def well_subject_def by blast

definition ex_ps_env :: "bytes ps_env" where
  "ex_ps_env = \<lparr>pvJson = Some, pvBody = \<lambda>b. Some (bdData b), pvSentAt = 0, pvNano = ''x'', pvNow = 0, pvLoaded = 0\<rparr>"

definition ex_transport :: PubsubTransport where
  "ex_transport = ps_Emit ex_ps_env EventOnCloseConnection [1] (NewPubsubTransport ''p'' True)"

theorem pubsub_in_order_witness:
  "map pjSubject (psAccepted ex_transport) = [''p.on_close_connection'']"
proof -
  have "reachable (\<lambda>t. \<exists>p obs. t = NewPubsubTransport p obs) ps_step ex_transport"
    unfolding ex_transport_def by (rule reach_step, rule reach_init, blast, rule ps_step.ps_emit)
  then have "\<forall>j \<in> set (psAccepted ex_transport). pjSubject j = psPrefix ex_transport @ ''.'' @ pjEventType j"
    by (rule pubsub_in_order [THEN conjunct2, THEN conjunct2, THEN conjunct1])
  then show ?thesis
    by (simp add: ex_transport_def ps_Emit_def ps_encode_def ex_ps_env_def NewPubsubTransport_def queueSize_def
        EventOnCloseConnection_def Let_def)
qed

end
