(* ===== verification/ServerConfig.thy ===== *)
theory ServerConfig
  imports GoStr
begin

text \<open>
  The configuration of the stand-alone server (\<open>server/config\<close>): its defaults and its
  validation, whose errors are values.  Reading the files and the environment is a
  parameter: \<open>Load\<close> takes the decoded section.
\<close>

subsection \<open>Sections\<close>

definition AuthModeJWT :: gostring where "AuthModeJWT = ''jwt''"
definition AuthModeWebhook :: gostring where "AuthModeWebhook = ''webhook''"
definition HandleMsgModeSync :: gostring where "HandleMsgModeSync = ''sync''"
definition HandleMsgModeForward :: gostring where "HandleMsgModeForward = ''forward''"
definition HandleMsgModeDisabled :: gostring where "HandleMsgModeDisabled = ''disabled''"
definition SignatureModeEnabled :: gostring where "SignatureModeEnabled = ''enabled''"
definition SignatureModeDisabled :: gostring where "SignatureModeDisabled = ''disabled''"
definition RepositoryPostgres :: gostring where "RepositoryPostgres = ''postgres''"
definition RepositoryDynamoDB :: gostring where "RepositoryDynamoDB = ''dynamodb''"
definition UnhealthyActionShutdown :: gostring where "UnhealthyActionShutdown = ''shutdown''"
definition UnhealthyActionLogOnly :: gostring where "UnhealthyActionLogOnly = ''log-only''"
definition TransportWebhook :: gostring where "TransportWebhook = ''webhook''"
definition TransportPubsub :: gostring where "TransportPubsub = ''pubsub''"
definition PubsubDriverNATSJS :: gostring where "PubsubDriverNATSJS = ''natsjs''"

lemmas server_consts = AuthModeJWT_def AuthModeWebhook_def HandleMsgModeSync_def HandleMsgModeForward_def
  HandleMsgModeDisabled_def SignatureModeEnabled_def SignatureModeDisabled_def RepositoryPostgres_def
  RepositoryDynamoDB_def UnhealthyActionShutdown_def UnhealthyActionLogOnly_def TransportWebhook_def
  TransportPubsub_def PubsubDriverNATSJS_def

record JWTT =
  jwJWKSURL :: gostring
  jwPublicKeyPEMFile :: gostring
  jwUserIDClaim :: gostring
  jwMetadataClaims :: "gostring list"

record AuthT =
  aMode :: gostring
  aJWT :: JWTT

record SyncRetryT =
  srMax :: int
  srBackoff :: int

record BreakerT =
  brThreshold :: int
  brCooldown :: int

record PingT =
  piEnabled :: bool
  piPath :: gostring
  piInterval :: int
  piTimeout :: int
  piBootCheck :: bool
  piFailThreshold :: int

record SignatureT =
  sgMode :: gostring
  sgSigningKeyFile :: gostring

record HandleMsgT =
  hdMode :: gostring
  hdTimeout :: int

record CallbackPubsubT =
  cpDriver :: gostring
  cpURL :: gostring
  cpStream :: gostring
  cpSubjectPrefix :: gostring

record CallbacksT =
  cbBaseURL :: gostring
  cbSignature :: SignatureT
  cbHandleMessage :: HandleMsgT
  cbSyncTimeout :: int
  cbAsyncRetryMax :: int
  cbAsyncBackoff :: "int list"
  cbSyncRetry :: SyncRetryT
  cbBreaker :: BreakerT
  cbPing :: PingT
  cbUnhealthyAction :: gostring
  cbBreakerOpenShutdown :: int
  cbTransport :: gostring
  cbPubsub :: CallbackPubsubT

record ServerConfigT =
  svClientAddr :: gostring
  svAdminAddr :: gostring
  svAPIKeys :: "gostring list"
  svRepository :: gostring
  svAuth :: AuthT
  svCallbacks :: CallbacksT

subsection \<open>Defaults\<close>

definition dstr :: "gostring \<Rightarrow> gostring \<Rightarrow> gostring" where
  "dstr d s = (if s = [] then d else s)"

definition dpos :: "int \<Rightarrow> int \<Rightarrow> int" where
  "dpos d n = (if n \<le> 0 then d else n)"

definition ping_default :: "PingT \<Rightarrow> PingT" where
  "ping_default p =
     (if piEnabled p then
        p\<lparr>piPath := dstr ''/pipewave/ping'' (piPath p), piInterval := dpos (30 * second) (piInterval p),
          piTimeout := dpos (3 * second) (piTimeout p), piFailThreshold := dpos 3 (piFailThreshold p), piBootCheck := True\<rparr>
      else p)"

definition pubsub_default :: "CallbackPubsubT \<Rightarrow> CallbackPubsubT" where
  "pubsub_default p = p\<lparr>cpDriver := dstr PubsubDriverNATSJS (cpDriver p), cpStream := dstr ''PIPEWAVE_EVENTS'' (cpStream p),
     cpSubjectPrefix := dstr ''pipewave.events'' (cpSubjectPrefix p)\<rparr>"

definition callbacks_default :: "CallbacksT \<Rightarrow> CallbacksT" where
  "callbacks_default c =
     (let c = c\<lparr>cbSignature := \<lparr>sgMode = dstr SignatureModeEnabled (sgMode (cbSignature c)),
                               sgSigningKeyFile = dstr ''webhook_ed25519.key'' (sgSigningKeyFile (cbSignature c))\<rparr>,
                cbHandleMessage := \<lparr>hdMode = dstr HandleMsgModeSync (hdMode (cbHandleMessage c)),
                                    hdTimeout = dpos (5 * second) (hdTimeout (cbHandleMessage c))\<rparr>,
                cbSyncTimeout := dpos (3 * second) (cbSyncTimeout c),
                cbAsyncRetryMax := dpos 6 (cbAsyncRetryMax c),
                cbSyncRetry := \<lparr>srMax = dpos 1 (srMax (cbSyncRetry c)), srBackoff = dpos 100000000 (srBackoff (cbSyncRetry c))\<rparr>,
                cbBreaker := \<lparr>brThreshold = dpos 5 (brThreshold (cbBreaker c)), brCooldown = dpos (10 * second) (brCooldown (cbBreaker c))\<rparr>,
                cbPing := ping_default (cbPing c),
                cbUnhealthyAction := dstr UnhealthyActionLogOnly (cbUnhealthyAction c),
                cbTransport := dstr TransportWebhook (cbTransport c)\<rparr>
      in if cbTransport c = TransportPubsub then c\<lparr>cbPubsub := pubsub_default (cbPubsub c)\<rparr> else c)"

definition server_loadDefault :: "ServerConfigT \<Rightarrow> ServerConfigT" where
  "server_loadDefault c =
     c\<lparr>svClientAddr := dstr '':8080'' (svClientAddr c), svAdminAddr := dstr '':8081'' (svAdminAddr c),
       svRepository := dstr RepositoryPostgres (svRepository c),
       svAuth := (svAuth c)\<lparr>aJWT := (aJWT (svAuth c))\<lparr>jwUserIDClaim := dstr ''sub'' (jwUserIDClaim (aJWT (svAuth c)))\<rparr>\<rparr>,
       svCallbacks := callbacks_default (svCallbacks c)\<rparr>"

subsection \<open>Validation\<close>

datatype config_err =
    NoApiKeys | JwtWithoutKey | BadAuthMode gostring | NoBaseURL | NoPubsubURL | BadDriver gostring
  | BadTransport gostring | BadHandleMode gostring | BadSignatureMode gostring | BadRepository gostring
  | BadUnhealthyAction gostring | BadRetryMax int | Unmarshal

fun first_err :: "(bool \<times> config_err) list \<Rightarrow> (unit, config_err) outcome" where
  "first_err [] = Ok ()"
| "first_err ((bad, e) # cs) = (if bad then Err e else first_err cs)"

lemma first_err_Ok [simp]: "first_err cs = Ok () \<longleftrightarrow> list_all (\<lambda>(bad, e). \<not> bad) cs"
  by (induction cs rule: first_err.induct) auto

definition auth_checks :: "AuthT \<Rightarrow> (bool \<times> config_err) list" where
  "auth_checks a =
     (if aMode a = AuthModeWebhook then []
      else if aMode a = AuthModeJWT then [(jwJWKSURL (aJWT a) = [] \<and> jwPublicKeyPEMFile (aJWT a) = [], JwtWithoutKey)]
      else [(True, BadAuthMode (aMode a))])"

definition transport_checks :: "CallbacksT \<Rightarrow> (bool \<times> config_err) list" where
  "transport_checks c =
     (if cbTransport c = TransportWebhook then []
      else if cbTransport c = TransportPubsub then
        [(cpURL (cbPubsub c) = [], NoPubsubURL), (cpDriver (cbPubsub c) \<noteq> PubsubDriverNATSJS, BadDriver (cpDriver (cbPubsub c)))]
      else [(True, BadTransport (cbTransport c))])"

definition server_validate :: "ServerConfigT \<Rightarrow> (unit, config_err) outcome" where
  "server_validate c =
     (let b = svCallbacks c in
      first_err ([(length (svAPIKeys c) = 0, NoApiKeys)] @ auth_checks (svAuth c) @ [(cbBaseURL b = [], NoBaseURL)] @
        transport_checks b @
        [(hdMode (cbHandleMessage b) \<notin> {HandleMsgModeSync, HandleMsgModeForward, HandleMsgModeDisabled}, BadHandleMode (hdMode (cbHandleMessage b))),
         (sgMode (cbSignature b) \<notin> {SignatureModeEnabled, SignatureModeDisabled}, BadSignatureMode (sgMode (cbSignature b))),
         (svRepository c \<notin> {RepositoryPostgres, RepositoryDynamoDB}, BadRepository (svRepository c)),
         (cbUnhealthyAction b \<notin> {UnhealthyActionShutdown, UnhealthyActionLogOnly}, BadUnhealthyAction (cbUnhealthyAction b)),
         (srMax (cbSyncRetry b) < 1, BadRetryMax (srMax (cbSyncRetry b)))]))"

text \<open>\<open>Load\<close>: the section as decoded from the files (\<open>None\<close>: decoding failed).\<close>

definition Load :: "ServerConfigT option \<Rightarrow> (ServerConfigT, config_err) outcome" where
  "Load decoded =
     (case decoded of
        None \<Rightarrow> Err Unmarshal
      | Some c \<Rightarrow> let cfg = server_loadDefault c in obind (server_validate cfg) (\<lambda>_. Ok cfg))"

subsection \<open>What is accepted, and what an accepted configuration guarantees\<close>

lemma dstr_idem [simp]: "dstr d (dstr d s) = dstr d s"
  by (simp add: dstr_def)

lemma dpos_idem [simp]: "dpos d (dpos d n) = dpos d n"
  by (simp add: dpos_def)

lemma dstr_mem: "dstr d s \<in> insert d V \<longleftrightarrow> s \<in> insert [] (insert d V)" if "d \<noteq> []" "[] \<notin> V"
  using that by (auto simp: dstr_def)

lemma dpos_pos [simp]: "0 < d \<Longrightarrow> 0 < dpos d n"
  by (simp add: dpos_def)

definition acceptable :: "ServerConfigT \<Rightarrow> bool" where
  "acceptable c \<longleftrightarrow> (let b = svCallbacks c; a = svAuth c in
     svAPIKeys c \<noteq> [] \<and> (aMode a = ''webhook'' \<or> aMode a = ''jwt'' \<and> (jwJWKSURL (aJWT a) \<noteq> [] \<or> jwPublicKeyPEMFile (aJWT a) \<noteq> [])) \<and>
     cbBaseURL b \<noteq> [] \<and>
     (cbTransport b \<in> {[], ''webhook''} \<or> cbTransport b = ''pubsub'' \<and> cpURL (cbPubsub b) \<noteq> [] \<and> cpDriver (cbPubsub b) \<in> {[], ''natsjs''}) \<and>
     hdMode (cbHandleMessage b) \<in> {[], ''sync'', ''forward'', ''disabled''} \<and> sgMode (cbSignature b) \<in> {[], ''enabled'', ''disabled''} \<and>
     svRepository c \<in> {[], ''postgres'', ''dynamodb''} \<and> cbUnhealthyAction b \<in> {[], ''shutdown'', ''log-only''})"

lemma auth_checks_default:
  "list_all (\<lambda>(bad, e). \<not> bad) (auth_checks (a\<lparr>aJWT := (aJWT a)\<lparr>jwUserIDClaim := u\<rparr>\<rparr>)) \<longleftrightarrow>
     aMode a = ''webhook'' \<or> aMode a = ''jwt'' \<and> (jwJWKSURL (aJWT a) \<noteq> [] \<or> jwPublicKeyPEMFile (aJWT a) \<noteq> [])"
  by (auto simp: auth_checks_def server_consts)

lemma transport_checks_default:
  "list_all (\<lambda>(bad, e). \<not> bad) (transport_checks (callbacks_default b)) \<longleftrightarrow>
     cbTransport b \<in> {[], ''webhook''} \<or>
     cbTransport b = ''pubsub'' \<and> cpURL (cbPubsub b) \<noteq> [] \<and> cpDriver (cbPubsub b) \<in> {[], ''natsjs''}"
  by (cases "cbTransport b = []"; cases "cbTransport b = ''pubsub''")
    (auto simp: transport_checks_def callbacks_default_def pubsub_default_def Let_def dstr_def server_consts)

lemma callbacks_default_modes:
  "hdMode (cbHandleMessage (callbacks_default b)) = dstr ''sync'' (hdMode (cbHandleMessage b))"
  "sgMode (cbSignature (callbacks_default b)) = dstr ''enabled'' (sgMode (cbSignature b))"
  "cbUnhealthyAction (callbacks_default b) = dstr ''log-only'' (cbUnhealthyAction b)"
  "cbBaseURL (callbacks_default b) = cbBaseURL b"
  "srMax (cbSyncRetry (callbacks_default b)) = dpos 1 (srMax (cbSyncRetry b))"
  by (simp_all add: callbacks_default_def Let_def server_consts)

lemma validate_default_iff: "server_validate (server_loadDefault c) = Ok () \<longleftrightarrow> acceptable c"
proof -
  have m: "dstr ''sync'' s \<in> {''sync'', ''forward'', ''disabled''} \<longleftrightarrow> s \<in> {[], ''sync'', ''forward'', ''disabled''}"
    "dstr ''enabled'' s \<in> {''enabled'', ''disabled''} \<longleftrightarrow> s \<in> {[], ''enabled'', ''disabled''}"
    "dstr ''postgres'' s \<in> {''postgres'', ''dynamodb''} \<longleftrightarrow> s \<in> {[], ''postgres'', ''dynamodb''}"
    "dstr ''log-only'' s \<in> {''shutdown'', ''log-only''} \<longleftrightarrow> s \<in> {[], ''shutdown'', ''log-only''}" for s
    by (auto simp: dstr_def)
  have r: "\<not> dpos 1 n < 1" for n by (simp add: dpos_def)
  show ?thesis
    unfolding server_validate_def server_loadDefault_def Let_def first_err_Ok list_all_append
    by (simp add: auth_checks_default transport_checks_default callbacks_default_modes m r acceptable_def Let_def
        RepositoryPostgres_def RepositoryDynamoDB_def HandleMsgModeSync_def HandleMsgModeForward_def HandleMsgModeDisabled_def
        SignatureModeEnabled_def SignatureModeDisabled_def UnhealthyActionShutdown_def UnhealthyActionLogOnly_def
        del: insert_iff)
qed


lemma callbacks_default_idem: "callbacks_default (callbacks_default b) = callbacks_default b"
proof -
  have p: "ping_default (ping_default p) = ping_default p" for p by (simp add: ping_default_def)
  have q: "pubsub_default (pubsub_default p) = pubsub_default p" for p by (simp add: pubsub_default_def)
  have t: "dstr TransportWebhook TransportPubsub = TransportPubsub" by (simp add: dstr_def server_consts)
  show ?thesis
    by (cases "dstr TransportWebhook (cbTransport b) = TransportPubsub") (simp_all add: callbacks_default_def Let_def p q t)
qed

lemma server_loadDefault_idem: "server_loadDefault (server_loadDefault c) = server_loadDefault c"
  by (simp add: server_loadDefault_def callbacks_default_idem)

text \<open>An accepted configuration has positive time-outs, retry counts, breaker threshold and
  cool-down, and loading it again changes nothing.\<close>

theorem server_config_sound:
  assumes "Load (Some c) = Ok cfg"
  shows "0 < hdTimeout (cbHandleMessage (svCallbacks cfg)) \<and> 0 < cbSyncTimeout (svCallbacks cfg) \<and>
    0 < cbAsyncRetryMax (svCallbacks cfg) \<and> 1 \<le> srMax (cbSyncRetry (svCallbacks cfg)) \<and> 0 < srBackoff (cbSyncRetry (svCallbacks cfg)) \<and>
    1 \<le> brThreshold (cbBreaker (svCallbacks cfg)) \<and> 0 < brCooldown (cbBreaker (svCallbacks cfg)) \<and>
    (piEnabled (cbPing (svCallbacks cfg)) \<longrightarrow> piBootCheck (cbPing (svCallbacks cfg)) \<and> 0 < piInterval (cbPing (svCallbacks cfg)) \<and>
       1 \<le> piFailThreshold (cbPing (svCallbacks cfg))) \<and>
    Load (Some cfg) = Ok cfg"
proof -
  have cfg: "cfg = server_loadDefault c" "server_validate (server_loadDefault c) = Ok ()"
    using assms by (auto simp: Load_def Let_def obind_eq_Ok)
  have "Load (Some cfg) = Ok cfg" unfolding cfg(1) by (simp add: Load_def Let_def cfg(2) server_loadDefault_idem)
  then show ?thesis unfolding cfg(1)
    by (simp add: server_loadDefault_def callbacks_default_def ping_default_def Let_def dpos_def second_def)
qed

definition ex_srvcfg :: ServerConfigT where
  "ex_srvcfg = \<lparr>svClientAddr = [], svAdminAddr = [], svAPIKeys = [''key''], svRepository = [],
     svAuth = \<lparr>aMode = ''webhook'', aJWT = \<lparr>jwJWKSURL = [], jwPublicKeyPEMFile = [], jwUserIDClaim = [], jwMetadataClaims = []\<rparr>\<rparr>,
     svCallbacks = \<lparr>cbBaseURL = ''http://b'', cbSignature = \<lparr>sgMode = [], sgSigningKeyFile = []\<rparr>, cbHandleMessage = \<lparr>hdMode = [], hdTimeout = 0\<rparr>,
       cbSyncTimeout = 0, cbAsyncRetryMax = 0, cbAsyncBackoff = [], cbSyncRetry = \<lparr>srMax = 0, srBackoff = 0\<rparr>,
       cbBreaker = \<lparr>brThreshold = 0, brCooldown = 0\<rparr>,
       cbPing = \<lparr>piEnabled = True, piPath = [], piInterval = 0, piTimeout = 0, piBootCheck = False, piFailThreshold = 0\<rparr>,
       cbUnhealthyAction = [], cbBreakerOpenShutdown = 0, cbTransport = [],
       cbPubsub = \<lparr>cpDriver = [], cpURL = [], cpStream = [], cpSubjectPrefix = []\<rparr>\<rparr>\<rparr>"

theorem server_config_sound_witness:
  "\<exists>cfg. Load (Some ex_srvcfg) = Ok cfg \<and> Load (Some cfg) = Ok cfg \<and> 1 \<le> brThreshold (cbBreaker (svCallbacks cfg))"
proof -
  have "Load (Some ex_srvcfg) = Ok (server_loadDefault ex_srvcfg)"
    using validate_default_iff [of ex_srvcfg] by (simp add: Load_def Let_def acceptable_def ex_srvcfg_def)
  from server_config_sound [OF this] this show ?thesis by blast
qed

end
