(* ===== verification/RestApi.thy ===== *)
theory RestApi
  imports Routing Monitoring
begin

text \<open>
  The administration API of the stand-alone server (\<open>server/restapi\<close>): the router, the key
  check, the handlers and the clean-up service they call.  A handler maps a request and the
  state of the container to a response and the new state.  Parameters: the JSON decoder of
  each request type, the text of an error, and what the services have as parameters.
\<close>

subsection \<open>Requests and responses\<close>

record sendToSessionReq =
  ssUserID :: gostring
  ssInstanceID :: gostring
  ssMsgType :: gostring
  ssPayload :: payload
  ssAckTimeoutMs :: int

record sendToUserReq =
  suUserID :: gostring
  suMsgType :: gostring
  suPayload :: payload
  suAckTimeoutMs :: int

record sendToUsersReq =
  smUserIDs :: "gostring list"
  smMsgType :: gostring
  smPayload :: payload

record broadcastReq =
  bcTarget :: gostring
  bcMsgType :: gostring
  bcPayload :: payload
  bcInstanceIDs :: "gostring list"

record sessionDTO =
  sdInstanceID :: gostring
  sdHolderID :: gostring
  sdConnectionType :: WsCoreType
  sdStatus :: WsStatus
  sdConnectedAt :: int

datatype rest_body =
    RSent | RAcked bool | RErr ErrorCode gostring | RDisconnected | ROnline bool
  | RResults "(gostring, bool) gomap" | RSessions "sessionDTO list" | RDone
  | RConnections SumaryActiveConnection int | RWorkerPool WorkerPoolSummary
  | RPublicKey gostring | RNoPublicKey | RHealthy bool | RNone

record rest_resp =
  rrStatus :: nat
  rrBody :: rest_body

record rest_req =
  rtMethod :: gostring
  rtPath :: "gostring list"
  rtAuthorization :: gostring
  rtBody :: bytes

record ('s, 't) rest_state =
  rsWorld :: world
  rsCache :: "'s valkeyAdapter"
  rsPool :: "'t pool"

record ('s, 'f, 'o, 'p) rest_env =
  reNode :: nenv
  reNano :: gostring
  reMeanwhile :: "world \<Rightarrow> world"
  reWait :: "int \<Rightarrow> wait_event"
  reErrText :: "ErrorCode \<Rightarrow> gostring"
  reDecSession :: "bytes \<Rightarrow> (sendToSessionReq, gostring) outcome"
  reDecUser :: "bytes \<Rightarrow> (sendToUserReq, gostring) outcome"
  reDecUsers :: "bytes \<Rightarrow> (sendToUsersReq, gostring) outcome"
  reDecBroadcast :: "bytes \<Rightarrow> (broadcastReq, gostring) outcome"
  reDecBatch :: "bytes \<Rightarrow> (gostring list, gostring) outcome"
  reCv :: "('f, 'o, 'p) codecs"
  reSrv :: "'s kv_srv"
  reCount1 :: db_fault
  reCount2 :: db_fault
  reCleanActive :: db_fault
  reCleanPending :: db_fault
  rePublicKey :: gostring
  reKeys :: "gostring list"
  reHealthy :: bool
  reExtraHealthy :: "bool option"

type_synonym ('s, 't) rest_result = "(rest_resp, unit) outcome \<times> ('s, 't) rest_state"

definition writeJSON :: "nat \<Rightarrow> rest_body \<Rightarrow> rest_resp" where
  "writeJSON status v = \<lparr>rrStatus = status, rrBody = v\<rparr>"

definition writeAError :: "('s, 'f, 'o, 'p) rest_env \<Rightarrow> ErrorCode \<Rightarrow> rest_resp" where
  "writeAError env e = writeJSON (HttpCode e) (RErr e (reErrText env e))"

definition writeBadRequest :: "gostring \<Rightarrow> rest_resp" where
  "writeBadRequest msg = writeJSON 400 (RErr ErrInvalidInput msg)"

definition writeUnauthorized :: rest_resp where
  "writeUnauthorized = writeJSON 401 (RErr LogicErrMissingAuthHeader ''missing or invalid API key'')"

text \<open>\<open>decodeBody\<close> followed by the rest of the handler.\<close>

definition decodeBody :: "('r, gostring) outcome \<Rightarrow> ('r \<Rightarrow> ('s, 't) rest_result) \<Rightarrow> ('s, 't) rest_state \<Rightarrow> ('s, 't) rest_result" where
  "decodeBody dec k st =
     (case dec of
        Ok req \<Rightarrow> k req
      | Err e \<Rightarrow> (Ok (writeBadRequest (''invalid JSON body: '' @ e)), st)
      | Panic \<Rightarrow> (Panic, st))"

text \<open>Run a service on the container and write its error or its result.\<close>

definition reply :: "('s, 'f, 'o, 'p) rest_env \<Rightarrow> 'a svc \<Rightarrow> ('a \<Rightarrow> rest_body) \<Rightarrow> ('s, 't) rest_state \<Rightarrow> ('s, 't) rest_result" where
  "reply env m body st =
     (case m of (r, w) \<Rightarrow>
        ((case r of
            Ok x \<Rightarrow> Ok (writeJSON 200 (body x))
          | Err e \<Rightarrow> Ok (writeAError env e)
          | Panic \<Rightarrow> Panic), st\<lparr>rsWorld := w\<rparr>))"

subsection \<open>Handlers\<close>

definition ack_timeout :: "int \<Rightarrow> int" where
  "ack_timeout ms = sgn64 (ms * 1000000)"

definition sendToSession :: "('s, 'f, 'o, 'p) rest_env \<Rightarrow> rest_req \<Rightarrow> ('s, 't) rest_state \<Rightarrow> ('s, 't) rest_result" where
  "sendToSession env r st = decodeBody (reDecSession env (rtBody r)) (\<lambda>req.
     if ssUserID req = [] \<or> ssInstanceID req = [] \<or> ssMsgType req = []
     then (Ok (writeBadRequest ''user_id, instance_id and msg_type are required''), st)
     else if ssAckTimeoutMs req > 0 then
       reply env (SendToSessionWithAck (reNode env) (reNano env) (reMeanwhile env) (reWait env (ack_timeout (ssAckTimeoutMs req)))
                   (ssUserID req) (ssInstanceID req) (ssMsgType req) (ssPayload req) (rsWorld st)) RAcked st
     else reply env (SendToSession (reNode env) (ssUserID req) (ssInstanceID req) (ssMsgType req) (ssPayload req) (rsWorld st))
            (\<lambda>_. RSent) st) st"

definition sendToUser :: "('s, 'f, 'o, 'p) rest_env \<Rightarrow> rest_req \<Rightarrow> ('s, 't) rest_state \<Rightarrow> ('s, 't) rest_result" where
  "sendToUser env r st = decodeBody (reDecUser env (rtBody r)) (\<lambda>req.
     if suUserID req = [] \<or> suMsgType req = []
     then (Ok (writeBadRequest ''user_id and msg_type are required''), st)
     else if suAckTimeoutMs req > 0 then
       reply env (SendToUserWithAck (reNode env) (reNano env) (reMeanwhile env) (reWait env (ack_timeout (suAckTimeoutMs req)))
                   (suUserID req) (suMsgType req) (suPayload req) (rsWorld st)) RAcked st
     else reply env (SendToUser (reNode env) (suUserID req) (suMsgType req) (suPayload req) (rsWorld st)) (\<lambda>_. RSent) st) st"

definition sendToUsers :: "('s, 'f, 'o, 'p) rest_env \<Rightarrow> rest_req \<Rightarrow> ('s, 't) rest_state \<Rightarrow> ('s, 't) rest_result" where
  "sendToUsers env r st = decodeBody (reDecUsers env (rtBody r)) (\<lambda>req.
     if length (smUserIDs req) = 0 \<or> smMsgType req = []
     then (Ok (writeBadRequest ''user_ids and msg_type are required''), st)
     else reply env (SendToUsers (reNode env) (smUserIDs req) (smMsgType req) (smPayload req) (rsWorld st)) (\<lambda>_. RSent) st) st"

definition broadcast :: "('s, 'f, 'o, 'p) rest_env \<Rightarrow> rest_req \<Rightarrow> ('s, 't) rest_state \<Rightarrow> ('s, 't) rest_result" where
  "broadcast env r st = decodeBody (reDecBroadcast env (rtBody r)) (\<lambda>req.
     if bcMsgType req = [] then (Ok (writeBadRequest ''msg_type is required''), st)
     else if bcTarget req = ''all'' then
       reply env (SendToAll (reNode env) (bcMsgType req) (bcPayload req) (rsWorld st)) (\<lambda>_. RSent) st
     else if bcTarget req = ''authenticated'' then
       reply env (SendToAuthenticated (reNode env) (bcMsgType req) (bcPayload req) (rsWorld st)) (\<lambda>_. RSent) st
     else if bcTarget req = ''anonymous'' then
       reply env (SendToAnonymous (reNode env) (bcMsgType req) (bcPayload req) (length (bcInstanceIDs req) = 0) (bcInstanceIDs req) (rsWorld st))
         (\<lambda>_. RSent) st
     else (Ok (writeBadRequest ''target must be one of \"all\", \"authenticated\", \"anonymous\"''), st)) st"

definition disconnectSession :: "('s, 'f, 'o, 'p) rest_env \<Rightarrow> gostring \<Rightarrow> gostring \<Rightarrow> ('s, 't) rest_state \<Rightarrow> ('s, 't) rest_result" where
  "disconnectSession env userID instanceID st =
     reply env (DisconnectSession (reNode env) userID instanceID (rsWorld st)) (\<lambda>_. RDisconnected) st"

definition disconnectUser :: "('s, 'f, 'o, 'p) rest_env \<Rightarrow> gostring \<Rightarrow> ('s, 't) rest_state \<Rightarrow> ('s, 't) rest_result" where
  "disconnectUser env userID st = reply env (DisconnectUser (reNode env) userID (rsWorld st)) (\<lambda>_. RDisconnected) st"

definition checkOnline :: "('s, 'f, 'o, 'p) rest_env \<Rightarrow> gostring \<Rightarrow> ('s, 't) rest_state \<Rightarrow> ('s, 't) rest_result" where
  "checkOnline env userID st = reply env (CheckOnline (reNode env) userID (rsWorld st), rsWorld st) ROnline st"

definition checkOnlineBatch :: "('s, 'f, 'o, 'p) rest_env \<Rightarrow> rest_req \<Rightarrow> ('s, 't) rest_state \<Rightarrow> ('s, 't) rest_result" where
  "checkOnlineBatch env r st = decodeBody (reDecBatch env (rtBody r)) (\<lambda>userIDs.
     if length userIDs = 0 then (Ok (writeBadRequest ''user_ids is required''), st)
     else reply env (CheckOnlineMultiple (reNode env) userIDs (rsWorld st), rsWorld st) RResults st) st"

definition to_dto :: "SessionInfo \<Rightarrow> sessionDTO" where
  "to_dto s = \<lparr>sdInstanceID = siInstanceID s, sdHolderID = siHolderID s, sdConnectionType = siConnectionType s,
     sdStatus = siStatus s, sdConnectedAt = siConnectedAt s\<rparr>"

definition getUserSessions :: "('s, 'f, 'o, 'p) rest_env \<Rightarrow> gostring \<Rightarrow> ('s, 't) rest_state \<Rightarrow> ('s, 't) rest_result" where
  "getUserSessions env userID st =
     reply env (GetUserSessions (reNode env) userID (rsWorld st), rsWorld st) (\<lambda>sessions. RSessions (map to_dto sessions)) st"

text \<open>Both tables are cleaned up even if the first statement fails.\<close>

definition CleanUp :: "nenv \<Rightarrow> db_fault \<Rightarrow> db_fault \<Rightarrow> world \<Rightarrow> unit svc" where
  "CleanUp env f1 f2 w =
     (case AC_CleanUpExpiredConnections (neNow env) f1 (wdActive w) of (err1, active) \<Rightarrow>
        case PG_CleanUp (neNow env) f2 (wdPending w) of (err2, pend) \<Rightarrow>
          let w = w\<lparr>wdActive := active, wdPending := pend\<rparr> in
          case (err1, err2) of
            (Ok _, Ok _) \<Rightarrow> (Ok (), w)
          | (Panic, _) \<Rightarrow> (Panic, w)
          | (_, Panic) \<Rightarrow> (Panic, w)
          | _ \<Rightarrow> (Err ErrUnexpectedBussiness, w))"

definition cleanup :: "('s, 'f, 'o, 'p) rest_env \<Rightarrow> ('s, 't) rest_state \<Rightarrow> ('s, 't) rest_result" where
  "cleanup env st =
     reply env (CleanUp (reNode env) (reCleanActive env) (reCleanPending env) (rsWorld st)) (\<lambda>_. RDone) st"

definition monitoringConnections :: "('s, 'f, 'o, 'p) rest_env \<Rightarrow> ('s, 't) rest_state \<Rightarrow> ('s, 't) rest_result" where
  "monitoringConnections env st =
     (let inside = InsideActiveConnection (ndConns (wdNode (rsWorld st))) in
      case TotalActiveConnection (reCv env) (reSrv env) (neCutoff (reNode env)) (neNow (reNode env)) (reCount1 env) (reCount2 env)
             (wdActive (rsWorld st)) (rsCache st) of
        (Ok n, vk) \<Rightarrow> (Ok (writeJSON 200 (RConnections inside n)), st\<lparr>rsCache := vk\<rparr>)
      | (Err e, vk) \<Rightarrow> (Ok (writeAError env e), st\<lparr>rsCache := vk\<rparr>)
      | (Panic, vk) \<Rightarrow> (Panic, st\<lparr>rsCache := vk\<rparr>))"

definition monitoringWorkerPool :: "('s, 't) rest_state \<Rightarrow> ('s, 't) rest_result" where
  "monitoringWorkerPool st = (Ok (writeJSON 200 (RWorkerPool (WorkerPoolStats (rsPool st)))), st)"

definition webhookPublicKey :: "('s, 'f, 'o, 'p) rest_env \<Rightarrow> ('s, 't) rest_state \<Rightarrow> ('s, 't) rest_result" where
  "webhookPublicKey env st =
     (if rePublicKey env = [] then (Ok (writeJSON 404 RNoPublicKey), st)
      else (Ok (writeJSON 200 (RPublicKey (rePublicKey env))), st))"

subsection \<open>Router\<close>

datatype seg = Lit gostring | Var

datatype api_handler =
    HSession | HUser | HUsers | HBroadcast | HDisconnectSession | HDisconnectUser | HSessions | HOnline | HOnlineBatch
  | HCleanup | HConnections | HWorkerPool | HPublicKey

definition api_routes :: "(gostring \<times> seg list \<times> api_handler) list" where
  "api_routes =
     [(''POST'', [Lit ''messages'', Lit ''session''], HSession),
      (''POST'', [Lit ''messages'', Lit ''user''], HUser),
      (''POST'', [Lit ''messages'', Lit ''users''], HUsers),
      (''POST'', [Lit ''messages'', Lit ''broadcast''], HBroadcast),
      (''DELETE'', [Lit ''sessions'', Var, Var], HDisconnectSession),
      (''DELETE'', [Lit ''sessions'', Var], HDisconnectUser),
      (''GET'', [Lit ''sessions'', Var], HSessions),
      (''GET'', [Lit ''presence'', Var], HOnline),
      (''POST'', [Lit ''presence'', Lit ''batch''], HOnlineBatch),
      (''POST'', [Lit ''maintenance'', Lit ''cleanup''], HCleanup),
      (''GET'', [Lit ''monitoring'', Lit ''connections''], HConnections),
      (''GET'', [Lit ''monitoring'', Lit ''worker-pool''], HWorkerPool),
      (''GET'', [Lit ''webhook'', Lit ''public-key''], HPublicKey)]"

text \<open>A wildcard stands for one segment; the values of the wildcards are returned.  A pattern
  for \<open>GET\<close> also serves \<open>HEAD\<close>.  No two patterns of the table match the same request, so the
  precedence rules of the mux are not needed.\<close>

fun match_segs :: "seg list \<Rightarrow> gostring list \<Rightarrow> gostring list option" where
  "match_segs [] [] = Some []"
| "match_segs (Lit l # ps) (s # ss) = (if s = l then match_segs ps ss else None)"
| "match_segs (Var # ps) (s # ss) = (if s = [] then None else map_option (Cons s) (match_segs ps ss))"
| "match_segs _ _ = None"

definition method_ok :: "gostring \<Rightarrow> gostring \<Rightarrow> bool" where
  "method_ok pat m \<longleftrightarrow> m = pat \<or> pat = ''GET'' \<and> m = ''HEAD''"

datatype routed = Handler api_handler "gostring list" | NotFound | MethodNotAllowed

fun find_route :: "gostring \<Rightarrow> gostring list \<Rightarrow> (gostring \<times> seg list \<times> api_handler) list \<Rightarrow> bool \<Rightarrow> routed" where
  "find_route m path [] seen = (if seen then MethodNotAllowed else NotFound)"
| "find_route m path ((pat, segs, h) # rs) seen =
     (case match_segs segs path of
        None \<Rightarrow> find_route m path rs seen
      | Some vals \<Rightarrow> if method_ok pat m then Handler h vals else find_route m path rs True)"

primrec run_handler :: "('s, 'f, 'o, 'p) rest_env \<Rightarrow> rest_req \<Rightarrow> gostring list \<Rightarrow> ('s, 't) rest_state \<Rightarrow> api_handler \<Rightarrow> ('s, 't) rest_result" where
  "run_handler env r vals st HSession = sendToSession env r st"
| "run_handler env r vals st HUser = sendToUser env r st"
| "run_handler env r vals st HUsers = sendToUsers env r st"
| "run_handler env r vals st HBroadcast = broadcast env r st"
| "run_handler env r vals st HDisconnectSession = disconnectSession env (vals ! 0) (vals ! 1) st"
| "run_handler env r vals st HDisconnectUser = disconnectUser env (vals ! 0) st"
| "run_handler env r vals st HSessions = getUserSessions env (vals ! 0) st"
| "run_handler env r vals st HOnline = checkOnline env (vals ! 0) st"
| "run_handler env r vals st HOnlineBatch = checkOnlineBatch env r st"
| "run_handler env r vals st HCleanup = cleanup env st"
| "run_handler env r vals st HConnections = monitoringConnections env st"
| "run_handler env r vals st HWorkerPool = monitoringWorkerPool st"
| "run_handler env r vals st HPublicKey = webhookPublicKey env st"

definition api_mux :: "('s, 'f, 'o, 'p) rest_env \<Rightarrow> rest_req \<Rightarrow> gostring list \<Rightarrow> ('s, 't) rest_state \<Rightarrow> ('s, 't) rest_result" where
  "api_mux env r path st =
     (case find_route (rtMethod r) path api_routes False of
        Handler h vals \<Rightarrow> run_handler env r vals st h
      | NotFound \<Rightarrow> (Ok (writeJSON 404 RNone), st)
      | MethodNotAllowed \<Rightarrow> (Ok (writeJSON 405 RNone), st))"

fun matchAnyKey :: "gostring \<Rightarrow> gostring list \<Rightarrow> bool \<Rightarrow> bool" where
  "matchAnyKey got [] ok = ok"
| "matchAnyKey got (k # keys) ok = matchAnyKey got keys (if got = k then True else ok)"

definition bearer :: "gostring \<Rightarrow> gostring" where
  "bearer authz = TrimSpace (drop (length ''Bearer '') authz)"

definition requireAPIKey :: "gostring list \<Rightarrow> (rest_req \<Rightarrow> ('s, 't) rest_state \<Rightarrow> ('s, 't) rest_result) \<Rightarrow> rest_req \<Rightarrow> ('s, 't) rest_state \<Rightarrow> ('s, 't) rest_result" where
  "requireAPIKey keys h r st =
     (if \<not> HasPrefix (rtAuthorization r) ''Bearer '' then (Ok writeUnauthorized, st)
      else let got = bearer (rtAuthorization r) in
        if got = [] \<or> \<not> matchAnyKey got keys False then (Ok writeUnauthorized, st) else h r st)"

definition healthz :: "('s, 'f, 'o, 'p) rest_env \<Rightarrow> ('s, 't) rest_state \<Rightarrow> ('s, 't) rest_result" where
  "healthz env st =
     (let healthy = (reHealthy env \<and> (case reExtraHealthy env of None \<Rightarrow> True | Some h \<Rightarrow> h)) in
      (Ok (if healthy then writeJSON 200 (RHealthy True) else writeJSON 503 (RHealthy False)), st))"

text \<open>
  The path \<open>/api/v1\<close> without a trailing slash is redirected by the mux.  \<open>rtPath\<close> is a clean path:
  the mux redirects a path with empty or dot segments to its clean form before any handler runs.
\<close>

definition admin_mux :: "('s, 'f, 'o, 'p) rest_env \<Rightarrow> rest_req \<Rightarrow> ('s, 't) rest_state \<Rightarrow> ('s, 't) rest_result" where
  "admin_mux env r st =
     (case rtPath r of
        [p] \<Rightarrow> if p = ''healthz'' then (if method_ok ''GET'' (rtMethod r) then healthz env st else (Ok (writeJSON 405 RNone), st))
               else (Ok (writeJSON 404 RNone), st)
      | p # v # path \<Rightarrow>
          if p = ''api'' \<and> v = ''v1'' then
            if path = [] then (Ok (writeJSON 301 RNone), st)
            else requireAPIKey (reKeys env) (\<lambda>r. api_mux env r path) r st
          else (Ok (writeJSON 404 RNone), st)
      | [] \<Rightarrow> (Ok (writeJSON 404 RNone), st))"

subsection \<open>Only key holders have an effect\<close>

lemma matchAnyKey_iff: "matchAnyKey got keys ok \<longleftrightarrow> ok \<or> got \<in> set keys"
  by (induction got keys ok rule: matchAnyKey.induct) auto

definition has_key :: "gostring list \<Rightarrow> gostring \<Rightarrow> bool" where
  "has_key keys authz \<longleftrightarrow> (\<exists>t. authz = ''Bearer '' @ t \<and> TrimSpace t \<in> set keys \<and> TrimSpace t \<noteq> [])"

lemma requireAPIKey_iff:
  "requireAPIKey keys h r st = (if has_key keys (rtAuthorization r) then h r st else (Ok writeUnauthorized, st))"
  by (auto simp: requireAPIKey_def has_key_def HasPrefix_iff bearer_def matchAnyKey_iff Let_def)

text \<open>C21: Every request to the administration API without a configured, non-empty key changes
  nothing: the state is kept for every method, path and body, and a request under
  \<open>/api/v1/\<close> is answered with 401 before its path is looked up.\<close>

theorem rest_requires_key:
  assumes "\<not> has_key (reKeys env) (rtAuthorization r)"
  shows "snd (admin_mux env r st) = st \<and> (\<forall>p ps. rtPath r = ''api'' # ''v1'' # p # ps \<longrightarrow> admin_mux env r st = (Ok writeUnauthorized, st))"
  using assms by (auto simp: admin_mux_def requireAPIKey_iff healthz_def Let_def split: list.splits)

text \<open>With a key, a request to send to a session does exactly what the service does: the
  container ends in the state the service leaves it in, the answer is 200 if the service
  succeeded and otherwise the status of its error code; a request that asks for an
  acknowledgement reports its result.  A body that cannot be decoded or lacks a required
  field is answered with 400 and has no effect.\<close>

theorem rest_send_to_session_exact:
  assumes "has_key (reKeys env) (rtAuthorization r)" "rtMethod r = ''POST''" "rtPath r = [''api'', ''v1'', ''messages'', ''session'']"
  shows "admin_mux env r st =
    (case reDecSession env (rtBody r) of
       Err e \<Rightarrow> (Ok (writeBadRequest (''invalid JSON body: '' @ e)), st)
     | Panic \<Rightarrow> (Panic, st)
     | Ok req \<Rightarrow>
         if ssUserID req = [] \<or> ssInstanceID req = [] \<or> ssMsgType req = []
         then (Ok (writeBadRequest ''user_id, instance_id and msg_type are required''), st)
         else if ssAckTimeoutMs req > 0 then
           reply env (SendToSessionWithAck (reNode env) (reNano env) (reMeanwhile env) (reWait env (ack_timeout (ssAckTimeoutMs req)))
             (ssUserID req) (ssInstanceID req) (ssMsgType req) (ssPayload req) (rsWorld st)) RAcked st
         else (case SendToSession (reNode env) (ssUserID req) (ssInstanceID req) (ssMsgType req) (ssPayload req) (rsWorld st) of
                 (Ok _, w) \<Rightarrow> (Ok \<lparr>rrStatus = 200, rrBody = RSent\<rparr>, st\<lparr>rsWorld := w\<rparr>)
               | (Err e, w) \<Rightarrow> (Ok \<lparr>rrStatus = HttpCode e, rrBody = RErr e (reErrText env e)\<rparr>, st\<lparr>rsWorld := w\<rparr>)
               | (Panic, w) \<Rightarrow> (Panic, st\<lparr>rsWorld := w\<rparr>)))"
  using assms
  by (simp add: admin_mux_def requireAPIKey_iff api_mux_def api_routes_def method_ok_def sendToSession_def decodeBody_def
      reply_def writeJSON_def writeAError_def split: outcome.split prod.split)

subsection \<open>Routing is unambiguous\<close>

fun overlap :: "seg list \<Rightarrow> seg list \<Rightarrow> bool" where
  "overlap [] [] = True"
| "overlap (Lit a # ps) (Lit b # qs) = (a = b \<and> overlap ps qs)"
| "overlap (Var # ps) (_ # qs) = overlap ps qs"
| "overlap (_ # ps) (Var # qs) = overlap ps qs"
| "overlap _ _ = False"

lemma match_segs_length: "match_segs ps path = Some v \<Longrightarrow> length ps = length path"
  by (induction ps path arbitrary: v rule: match_segs.induct) (auto split: if_splits)

lemma overlap_sound: "\<lbrakk>match_segs ps path = Some v; match_segs qs path = Some w\<rbrakk> \<Longrightarrow> overlap ps qs"
proof (induction ps qs arbitrary: path v w rule: overlap.induct)
  case (2 a ps b qs)
  then show ?case by (cases path) (auto split: if_splits)
next
  case (3 ps q qs)
  then show ?case by (cases path; cases q) (auto split: if_splits)
next
  case (4 v ps qs)
  then show ?case by (cases path) (auto split: if_splits)
qed (auto dest!: match_segs_length)

definition methods_clash :: "gostring \<Rightarrow> gostring \<Rightarrow> bool" where
  "methods_clash p q \<longleftrightarrow> p = q \<or> p = ''GET'' \<and> q = ''HEAD'' \<or> p = ''HEAD'' \<and> q = ''GET''"

fun table_ok :: "(gostring \<times> seg list \<times> api_handler) list \<Rightarrow> bool" where
  "table_ok [] = True"
| "table_ok ((m, ps, h) # rs) = (list_all (\<lambda>(m', qs, h'). \<not> (methods_clash m m' \<and> overlap ps qs)) rs \<and> table_ok rs)"

lemma api_routes_ok: "table_ok api_routes"
  by (simp add: api_routes_def methods_clash_def)

lemma table_ok_unique:
  assumes "table_ok rs" "(p, ps, h) \<in> set rs" "(q, qs, h') \<in> set rs"
    and "method_ok p m" "method_ok q m" "match_segs ps path = Some v" "match_segs qs path = Some w"
  shows "(p, ps, h) = (q, qs, h')"
  using assms(1-3)
proof (induction rs rule: table_ok.induct)
  case (2 a as ah rs)
  have "overlap ps qs" "overlap qs ps" using assms(6,7) overlap_sound by blast+
  moreover have "methods_clash p q" "methods_clash q p" using assms(4,5) by (auto simp: method_ok_def methods_clash_def)
  ultimately show ?case using 2 by (auto simp: list_all_iff)
qed simp

text \<open>The routing table is unambiguous: no method and path match two different entries, so
  which handler runs does not depend on the order of registration or on the precedence
  rules of the router.\<close>

theorem rest_routes_unambiguous:
  assumes "(p, ps, h) \<in> set api_routes" "(q, qs, h') \<in> set api_routes" "method_ok p m" "method_ok q m"
    and "match_segs ps path = Some v" "match_segs qs path = Some w"
  shows "h = h' \<and> v = w"
  using table_ok_unique [OF api_routes_ok assms] assms(5,6) by auto

theorem rest_routes_unambiguous_witness:
  "\<exists>p ps. (p, ps, HOnline) \<in> set api_routes \<and> method_ok p ''GET'' \<and> match_segs ps [''presence'', ''batch''] = Some [''batch''] \<and>
     (\<forall>q qs h w. (q, qs, h) \<in> set api_routes \<and> method_ok q ''GET'' \<and> match_segs qs [''presence'', ''batch''] = Some w \<longrightarrow> HOnline = h)"
proof -
  have m: "(''GET'', [Lit ''presence'', Var], HOnline) \<in> set api_routes" by (simp add: api_routes_def)
  have "method_ok ''GET'' ''GET''" "match_segs [Lit ''presence'', Var] [''presence'', ''batch''] = Some [''batch'']"
    by (simp_all add: method_ok_def)
  then show ?thesis using rest_routes_unambiguous [OF m] m by blast
qed

subsection \<open>Clean-up and time-outs\<close>

text \<open>The clean-up removes exactly the expired connection rows and the expired pending
  messages.  A failure of one statement does not keep the other from running, and it is
  reported: with both statements healthy the answer is success and nothing that has not
  expired is lost.\<close>

theorem cleanup_exact:
  "CleanUp env f1 f2 w =
     (if f1 \<noteq> DbFail \<and> f2 \<noteq> DbFail then Ok () else Err ErrUnexpectedBussiness,
      w\<lparr>wdActive := (if f1 = DbFail then wdActive w else filter (\<lambda>r. neNow env \<le> acTTL r) (wdActive w)),
        wdPending := (if f2 = DbFail then wdPending w else filter (\<lambda>r. neNow env \<le> pmExpiresAt r) (wdPending w))\<rparr>)"
  by (simp add: CleanUp_def AC_CleanUpExpiredConnections_def PG_CleanUp_def pg_exec_def Let_def not_less)

text \<open>A large acknowledgement time-out overflows: the product of milliseconds and a million
  wraps around, so a positive \<open>ack_timeout_ms\<close> can become a negative duration, with which the
  caller does not wait at all.\<close>

theorem ack_timeout_overflow:
  "0 < (9223372036855 :: int) \<and> ack_timeout 9223372036855 < 0 \<and> (\<forall>ms. 0 < ms \<and> ms \<le> 9223372036854 \<longrightarrow> ack_timeout ms = ms * 1000000)"
  by (auto simp: ack_timeout_def sgn64_def)

subsection \<open>An example\<close>

definition ex_rest :: "(kv_store, unit, unit, unit) rest_env" where
  "ex_rest = \<lparr>reNode = ex_nenv 1 (single_codec (AckResolvedParams [])), reNano = ''n'', reMeanwhile = \<lambda>w. w, reWait = \<lambda>_. TimerFired, reErrText = \<lambda>_. [],
     reDecSession = \<lambda>_. Ok \<lparr>ssUserID = ''u'', ssInstanceID = ''i'', ssMsgType = ''t'', ssPayload = None, ssAckTimeoutMs = 0\<rparr>,
     reDecUser = \<lambda>_. Err [], reDecUsers = \<lambda>_. Err [], reDecBroadcast = \<lambda>_. Err [], reDecBatch = \<lambda>_. Err [],
     reCv = ex_codecs, reSrv = kvs, reCount1 = DbOk, reCount2 = DbOk, reCleanActive = DbOk, reCleanPending = DbOk,
     rePublicKey = [], reKeys = [''k''], reHealthy = True, reExtraHealthy = None\<rparr>"

definition ex_rest_state :: "(kv_store, unit) rest_state" where
  "ex_rest_state = \<lparr>rsWorld = ex_nworld ''c'' [], rsCache = ex_cache,
     rsPool = NewPool 1 1\<rparr>"

definition ex_rest_req :: "gostring \<Rightarrow> rest_req" where
  "ex_rest_req authz = \<lparr>rtMethod = ''POST'', rtPath = [''api'', ''v1'', ''messages'', ''session''], rtAuthorization = authz, rtBody = []\<rparr>"

theorem rest_requires_key_witness:
  "admin_mux ex_rest (ex_rest_req ''Bearer '') ex_rest_state = (Ok writeUnauthorized, ex_rest_state)"
proof -
  have "\<not> has_key (reKeys ex_rest) (rtAuthorization (ex_rest_req ''Bearer ''))"
    by (simp add: has_key_def ex_rest_def ex_rest_req_def TrimSpace_def)
  from rest_requires_key [OF this, of ex_rest_state] show ?thesis by (simp add: ex_rest_req_def)
qed

theorem rest_send_to_session_exact_witness:
  "\<exists>resp. fst (admin_mux ex_rest (ex_rest_req ''Bearer k'') ex_rest_state) = Ok resp \<and> rrStatus resp = 200"
proof -
  have k: "has_key (reKeys ex_rest) (rtAuthorization (ex_rest_req ''Bearer k''))"
    by (auto simp: has_key_def ex_rest_def ex_rest_req_def TrimSpace_def is_space_def intro!: exI [of _ "''k''"])
  have f: "findSessionConn (reNode ex_rest) ''u'' ''i'' (rsWorld ex_rest_state) = Ok SNotFound"
    by code_simp
  have "SendToSession (reNode ex_rest) ''u'' ''i'' ''t'' None (rsWorld ex_rest_state) = (Ok (), rsWorld ex_rest_state)"
    by (simp add: SendToSession_def svc_then_def f)
  moreover have "reDecSession ex_rest b = Ok \<lparr>ssUserID = ''u'', ssInstanceID = ''i'', ssMsgType = ''t'', ssPayload = None, ssAckTimeoutMs = 0\<rparr>" for b
    by (simp add: ex_rest_def)
  moreover have "rtMethod (ex_rest_req a) = ''POST''" "rtPath (ex_rest_req a) = [''api'', ''v1'', ''messages'', ''session'']" for a
    by (simp_all add: ex_rest_req_def)
  ultimately show ?thesis using rest_send_to_session_exact [OF k, of ex_rest_state] by simp
qed

end
