(* ===== verification/ServerFns.thy ===== *)
theory ServerFns
  imports AsyncCallbacks ServerConfig Endpoints
begin

text \<open>
  The application hooks of the stand-alone server (\<open>server/fns\<close>), which forward to the
  webhook or to the event transport, and the local check of JSON web tokens
  (\<open>server/authn\<close>).  Parameters: the JSON decoders, the verification of a token by the JWT
  library, and the transport (any that meets the contract of \<open>async_transport\<close>).
\<close>

subsection \<open>Wire data\<close>

record authDTO =
  adUserID :: gostring
  adInstanceID :: gostring
  adMetadata :: "(gostring, gostring) gomap"

definition toAuthDTO :: "WebsocketAuth \<Rightarrow> authDTO" where
  "toAuthDTO a = \<lparr>adUserID = auUserID a, adInstanceID = auInstanceID a, adMetadata = auMetadata a\<rparr>"

datatype fns_data =
    InspectTokenReq gostring "gostring \<Rightarrow> gostring"
  | HandleMessageReq authDTO gostring bytes
  | AuthEvent authDTO
  | ErrorEvent authDTO gostring

record inspectTokenResp =
  irUserID :: gostring
  irIsAnonymous :: bool
  irMetadata :: "(gostring, gostring) gomap"

record handleMessageResp =
  hrOutputType :: gostring
  hrData :: bytes

subsection \<open>Hooks\<close>

text \<open>\<open>feDecError\<close> decodes the body of a deliberate rejection; \<open>feEmit\<close> is the transport.\<close>

record ('k, 'e, 's) fns_env =
  fePost :: "(fns_data, 'k) post_env"
  feCaller :: "'k SyncCaller"
  feNano :: gostring
  feAttempts :: "nat \<Rightarrow> attempt"
  feEmit :: "'e \<Rightarrow> gostring \<Rightarrow> fns_data \<Rightarrow> 's \<Rightarrow> 's"
  feEmitEnv :: 'e
  feDecInspect :: "bytes \<Rightarrow> inspectTokenResp option"
  feDecHandle :: "bytes \<Rightarrow> handleMessageResp option"
  feDecError :: "bytes \<Rightarrow> gostring option"
  feMode :: gostring
  feOverride :: "(gostring \<Rightarrow> (gostring \<Rightarrow> gostring) \<Rightarrow> (inspected, gostring) outcome) option"

record 's fns_state =
  fsBreaker :: CircuitBreaker
  fsLog :: wh_log
  fsTransport :: 's

definition sanitizeCallError :: "(bytes \<Rightarrow> gostring option) \<Rightarrow> gostring \<Rightarrow> gostring \<Rightarrow> call_err \<Rightarrow> gostring" where
  "sanitizeCallError dec hook genericMsg err =
     (case err of
        CallError status body \<Rightarrow>
          if status \<ge> 400 \<and> status < 500 then
            (case dec body of
               Some msg \<Rightarrow> if msg \<noteq> [] then msg else hook @ '' rejected''
             | None \<Rightarrow> hook @ '' rejected'')
          else genericMsg
      | _ \<Rightarrow> genericMsg)"

definition fns_call ::
    "('k, 'e, 's) fns_env \<Rightarrow> gostring \<Rightarrow> fns_data \<Rightarrow> (bytes \<Rightarrow> 'o option) option \<Rightarrow> 's fns_state \<Rightarrow> 'o call_result \<times> 's fns_state" where
  "fns_call env ev d dec st =
     (case Call (fePost env) (feCaller env) (feNano env) ev d dec (feAttempts env) (fsBreaker st) (fsLog st) of
        (res, b, lg) \<Rightarrow> (res, st\<lparr>fsBreaker := b, fsLog := lg\<rparr>))"

definition fns_emit :: "('k, 'e, 's) fns_env \<Rightarrow> gostring \<Rightarrow> fns_data \<Rightarrow> 's fns_state \<Rightarrow> 's fns_state" where
  "fns_emit env ev d st = st\<lparr>fsTransport := feEmit env (feEmitEnv env) ev d (fsTransport st)\<rparr>"

definition zero_inspect :: inspectTokenResp where
  "zero_inspect = \<lparr>irUserID = [], irIsAnonymous = False, irMetadata = []\<rparr>"

definition inspectToken ::
    "('k, 'e, 's) fns_env \<Rightarrow> gostring \<Rightarrow> (gostring \<Rightarrow> gostring) \<Rightarrow> 's fns_state \<Rightarrow> (inspected, gostring) outcome \<times> 's fns_state" where
  "inspectToken env token headers st =
     (case feOverride env of
        Some f \<Rightarrow> (f token headers, st)
      | None \<Rightarrow>
          (case fns_call env EventInspectToken (InspectTokenReq token headers) (Some (feDecInspect env)) st of
             ((Some err, _), st) \<Rightarrow> (Err (sanitizeCallError (feDecError env) EventInspectToken ''authentication failed'' err), st)
           | ((None, out), st) \<Rightarrow>
               let resp = (case out of Some x \<Rightarrow> x | None \<Rightarrow> zero_inspect) in
               if \<not> irIsAnonymous resp \<and> irUserID resp = [] then (Err ''authentication failed'', st)
               else (Ok (irUserID resp, irIsAnonymous resp, irMetadata resp), st)))"

definition HandleMessage ::
    "('k, 'e, 's) fns_env \<Rightarrow> WebsocketAuth \<Rightarrow> gostring \<Rightarrow> bytes \<Rightarrow> 's fns_state \<Rightarrow> (gostring \<times> bytes, gostring) outcome \<times> 's fns_state" where
  "HandleMessage env auth inputType d st =
     (let req = HandleMessageReq (toAuthDTO auth) inputType d in
      if feMode env = HandleMsgModeForward then (Ok ([], []), fns_emit env EventMessageReceived req st)
      else if feMode env = HandleMsgModeDisabled then (Ok ([], []), st)
      else case fns_call env EventHandleMessage req (Some (feDecHandle env)) st of
             ((Some err, _), st) \<Rightarrow> (Err (sanitizeCallError (feDecError env) EventHandleMessage ''upstream error'' err), st)
           | ((None, Some resp), st) \<Rightarrow> (Ok (hrOutputType resp, hrData resp), st)
           | ((None, None), st) \<Rightarrow> (Ok ([], []), st))"

definition OnNewConnection :: "('k, 'e, 's) fns_env \<Rightarrow> WebsocketAuth \<Rightarrow> 's fns_state \<Rightarrow> (unit, gostring) outcome \<times> 's fns_state" where
  "OnNewConnection env auth st =
     (case fns_call env EventOnNewConnection (AuthEvent (toAuthDTO auth)) (None :: (bytes \<Rightarrow> unit option) option) st of
        ((Some err, _), st) \<Rightarrow> (Err (sanitizeCallError (feDecError env) EventOnNewConnection ''connection rejected'' err), st)
      | ((None, _), st) \<Rightarrow> (Ok (), fns_emit env EventOnNewConnectionEstablished (AuthEvent (toAuthDTO auth)) st))"

definition OnCloseConnection :: "('k, 'e, 's) fns_env \<Rightarrow> WebsocketAuth \<Rightarrow> 's fns_state \<Rightarrow> 's fns_state" where
  "OnCloseConnection env auth st = fns_emit env EventOnCloseConnection (AuthEvent (toAuthDTO auth)) st"

definition OnReadError :: "('k, 'e, 's) fns_env \<Rightarrow> WebsocketAuth \<Rightarrow> gostring \<Rightarrow> 's fns_state \<Rightarrow> 's fns_state" where
  "OnReadError env auth err st = fns_emit env EventOnReadError (ErrorEvent (toAuthDTO auth) err) st"

definition OnWriteError :: "('k, 'e, 's) fns_env \<Rightarrow> WebsocketAuth \<Rightarrow> gostring \<Rightarrow> 's fns_state \<Rightarrow> 's fns_state" where
  "OnWriteError env auth err st = fns_emit env EventOnWriteError (ErrorEvent (toAuthDTO auth) err) st"

subsection \<open>JSON web tokens\<close>

datatype claim = ClaimString gostring | ClaimOther

definition allowedAlgs :: "gostring list" where
  "allowedAlgs = [''RS256'', ''RS384'', ''RS512'', ''ES256'', ''ES384'', ''ES512'', ''EdDSA'']"

text \<open>\<open>parse algs token\<close> is the library call: the claims of a token that one of the
  algorithms verifies and that has not expired, or an error text.\<close>

definition TrimPrefix :: "gostring \<Rightarrow> gostring \<Rightarrow> gostring" where
  "TrimPrefix s p = (if HasPrefix s p then drop (length p) s else s)"

definition NewJWTInspector :: "gostring \<Rightarrow> gostring" where
  "NewJWTInspector userIDClaim = (if userIDClaim = [] then ''sub'' else userIDClaim)"

definition jwt_InspectToken ::
    "(gostring list \<Rightarrow> gostring \<Rightarrow> ((gostring, claim) gomap, gostring) outcome) \<Rightarrow> gostring \<Rightarrow> gostring list \<Rightarrow> gostring \<Rightarrow>
     (gostring \<Rightarrow> gostring) \<Rightarrow> (inspected, gostring) outcome" where
  "jwt_InspectToken parse userIDClaim metadataClaims token headers =
     (let token = TrimSpace (TrimPrefix (TrimSpace token) ''Bearer '') in
      case parse allowedAlgs token of
        Err e \<Rightarrow> Err (''authn: verify jwt: '' @ e)
      | Panic \<Rightarrow> Panic
      | Ok claims \<Rightarrow>
          (case gm_get claims userIDClaim of
             Some (ClaimString userID) \<Rightarrow>
               if userID = [] then Err (''authn: claim missing or not a string: '' @ userIDClaim)
               else Ok (userID, False,
                        fold (\<lambda>name m. case gm_get claims name of Some (ClaimString v) \<Rightarrow> gm_put name v m | _ \<Rightarrow> m) metadataClaims [])
           | _ \<Rightarrow> Err (''authn: claim missing or not a string: '' @ userIDClaim)))"

subsection \<open>Fail closed\<close>

lemma Post_answered:
  assumes "Post pe s t ev cid d hr lg = ((st, body, None), lg')"
  shows "\<exists>b0. hr = HttpReply st b0 False \<and> body = take maxRespBody b0"
proof (cases "build_request pe s t ev cid d")
  case (Ok r)
  then show ?thesis using assms by (cases hr) (auto simp: Post_def PostWithMode_def Let_def split: if_splits)
next
  case (Err e)
  then show ?thesis using assms by (auto simp: Post_def PostWithMode_def Let_def)
next
  case Panic
  then show ?thesis by (simp add: build_request_no_panic)
qed

text \<open>The receiver has answered an attempt with a 2xx status and a body that decodes to \<open>out\<close>.\<close>

definition accepted_by :: "(nat \<Rightarrow> attempt) \<Rightarrow> (bytes \<Rightarrow> 'o option) option \<Rightarrow> 'o option \<Rightarrow> bool" where
  "accepted_by ats dec out \<longleftrightarrow> (\<exists>j st body. atHttp (ats j) = HttpReply st body False \<and> 200 \<le> st \<and> st < 300 \<and>
     decode_reply dec (take maxRespBody body) = (None, out))"

lemma sync_loop_success:
  "\<lbrakk>sync_loop pe s ev cid d dec ats k n e b lg = ((None, out), b', lg'); e \<noteq> None \<or> k = 0 \<and> 0 < n\<rbrakk> \<Longrightarrow> accepted_by ats dec out"
proof (induction n arbitrary: k e b lg)
  case 0
  then show ?case by auto
next
  case (Suc n)
  define a where "a = ats k"
  define lg0 where "lg0 = (if k > 0 then observe s (ObserveRetry ev ModeSync) lg else lg)"
  have go: "\<not> (k > 0 \<and> atDone a \<or> \<not> cb_Allow (atAllowAt a) (atBefore a b))"
    using Suc.prems by (auto simp: sync_loop.simps(2) a_def [symmetric] lg0_def [symmetric] Let_def split: if_splits)
  obtain st body err lg1 where p: "Post pe s (atSentAt a) ev cid d (atHttp a) lg0 = ((st, body, err), lg1)"
    by (metis prod_cases3 surj_pair)
  show ?case
  proof (cases err)
    case (Some e')
    then have "\<exists>b1. sync_loop pe s ev cid d dec ats (Suc k) n (Some (PostErr e')) b1 lg1 = ((None, out), b', lg')"
      using Suc.prems(1) go p by (auto simp: sync_loop.simps(2) a_def [symmetric] lg0_def [symmetric] Let_def)
    then show ?thesis using Suc.IH by blast
  next
    case None
    obtain b0 where b0: "atHttp a = HttpReply st b0 False" "body = take maxRespBody b0" using Post_answered [OF p [unfolded None]] by blast
    show ?thesis
    proof (cases "st < 200 \<or> st \<ge> 300")
      case True
      then have "\<exists>b1. sync_loop pe s ev cid d dec ats (Suc k) n (Some (CallError st body)) b1 lg1 = ((None, out), b', lg')"
        using Suc.prems(1) go p None
        by (auto simp: sync_loop.simps(2) a_def [symmetric] lg0_def [symmetric] Let_def split: if_splits)
      then show ?thesis using Suc.IH by blast
    next
      case False
      then have "decode_reply dec body = (None, out)"
        using Suc.prems(1) go p None
        by (auto simp: sync_loop.simps(2) a_def [symmetric] lg0_def [symmetric] Let_def split: if_splits)
      then show ?thesis using b0 False unfolding accepted_by_def a_def by (metis not_le)
    qed
  qed
qed

lemma fns_call_success:
  assumes "fns_call env ev d dec st = ((None, out), st')" "1 \<le> scRetryMax (feCaller env)"
  shows "accepted_by (feAttempts env) dec out"
proof -
  obtain b lg where "sync_loop (fePost env) (scSender (feCaller env)) ev (NewCallbackID (feNano env)) d dec (feAttempts env) 0
      (nat (scRetryMax (feCaller env))) None (fsBreaker st) (fsLog st) = ((None, out), b, lg)"
    using assms(1) by (auto simp: fns_call_def Call_def split: prod.splits)
  then show ?thesis using assms(2) by (auto intro: sync_loop_success)
qed

lemma fns_call_transport [simp]: "fns_call env ev d dec st = (res, st') \<Longrightarrow> fsTransport st' = fsTransport st"
  by (auto simp: fns_call_def split: prod.splits)

text \<open>C18: Authentication through the webhook fails closed: a token is accepted only if the
  application answered an attempt with a 2xx status and a decodable body, the identity is
  the one in that body, and it is anonymous or has a non-empty user id.  Rejections,
  server errors, an open breaker, bad bodies and empty answers all end in an error.\<close>

theorem inspect_fails_closed:
  assumes "feOverride env = None" "1 \<le> scRetryMax (feCaller env)"
    and "inspectToken env token headers st = (Ok (userID, isAnonymous, metadata), st')"
  shows "(isAnonymous \<or> userID \<noteq> []) \<and>
    accepted_by (feAttempts env) (Some (feDecInspect env)) (Some \<lparr>irUserID = userID, irIsAnonymous = isAnonymous, irMetadata = metadata\<rparr>)"
proof -
  obtain err out st1 where c: "fns_call env EventInspectToken (InspectTokenReq token headers) (Some (feDecInspect env)) st = ((err, out), st1)"
    by (metis surj_pair)
  define resp where "resp = (case out of Some x \<Rightarrow> x | None \<Rightarrow> zero_inspect)"
  have r: "err = None" "\<not> (\<not> irIsAnonymous resp \<and> irUserID resp = [])"
    "userID = irUserID resp" "isAnonymous = irIsAnonymous resp" "metadata = irMetadata resp"
    using assms(1,3) c by (auto simp: inspectToken_def Let_def resp_def split: option.splits if_splits)
  have acc: "accepted_by (feAttempts env) (Some (feDecInspect env)) out" using fns_call_success [OF _ assms(2)] c r(1) by blast
  have "out \<noteq> None" using r(2) by (cases out) (simp_all add: resp_def zero_inspect_def)
  then have "out = Some resp" by (auto simp: resp_def)
  then have "accepted_by (feAttempts env) (Some (feDecInspect env))
      (Some \<lparr>irUserID = irUserID resp, irIsAnonymous = irIsAnonymous resp, irMetadata = irMetadata resp\<rparr>)" using acc by (cases resp) simp
  then show ?thesis using r(2) unfolding r(3-5) by blast
qed

text \<open>C19: A connection is admitted only by a 2xx answer of the application, and exactly the
  admitted connections are announced: the event for an established connection is emitted
  if and only if the hook succeeds, and a refused connection leaves the transport alone.\<close>

theorem admission_fails_closed:
  assumes "1 \<le> scRetryMax (feCaller env)" "OnNewConnection env auth st = (res, st')"
  shows "(res = Ok () \<longrightarrow> accepted_by (feAttempts env) (None :: (bytes \<Rightarrow> unit option) option) None \<and>
      fsTransport st' = feEmit env (feEmitEnv env) EventOnNewConnectionEstablished (AuthEvent (toAuthDTO auth)) (fsTransport st)) \<and>
    (res \<noteq> Ok () \<longrightarrow> fsTransport st' = fsTransport st)"
proof -
  obtain err out st1 where c: "fns_call env EventOnNewConnection (AuthEvent (toAuthDTO auth)) (None :: (bytes \<Rightarrow> unit option) option) st = ((err, out), st1)"
    by (metis surj_pair)
  have t: "fsTransport st1 = fsTransport st" using c by (rule fns_call_transport)
  show ?thesis
  proof (cases err)
    case None
    then have acc: "accepted_by (feAttempts env) (None :: (bytes \<Rightarrow> unit option) option) out"
      using fns_call_success [OF _ assms(1)] c by blast
    then have "out = None" by (auto simp: accepted_by_def decode_reply_def)
    then show ?thesis using assms(2) c acc t None by (auto simp: OnNewConnection_def fns_emit_def)
  next
    case (Some e)
    then show ?thesis using assms(2) c t by (auto simp: OnNewConnection_def)
  qed
qed

text \<open>Clients never see the callback's internals: whatever goes wrong in a callback, the
  error text a hook returns is its own fixed text, or the message that the application put
  into the body of a deliberate 4xx rejection.\<close>

theorem callback_errors_sanitized:
  assumes "sanitizeCallError dec hook generic err = msg"
  shows "msg = generic \<or> msg = hook @ '' rejected'' \<or>
    (\<exists>status body. err = CallError status body \<and> 400 \<le> status \<and> status < 500 \<and> dec body = Some msg)"
  using assms by (cases err) (auto simp: sanitizeCallError_def split: if_splits option.splits)

theorem callback_errors_sanitized_witness:
  "sanitizeCallError (\<lambda>b. if b = [1] then Some ''banned'' else None) EventOnNewConnection ''connection rejected'' (CallError 403 [1]) = ''banned'' \<and>
   sanitizeCallError (\<lambda>b. None) EventOnNewConnection ''connection rejected'' (CallError 502 [1]) = ''connection rejected''"
  using callback_errors_sanitized [OF refl, of "\<lambda>b. None" EventOnNewConnection "''connection rejected''" "CallError 502 [1]"]
  by (auto simp: sanitizeCallError_def)

subsection \<open>Tokens checked locally\<close>

lemma jwt_metadata:
  "gm_get (fold (\<lambda>name m. case gm_get claims name of Some (ClaimString v) \<Rightarrow> gm_put name v m | _ \<Rightarrow> m) names m0) n =
     (if n \<in> set names then (case gm_get claims n of Some (ClaimString v) \<Rightarrow> Some v | _ \<Rightarrow> gm_get m0 n) else gm_get m0 n)"
  by (induction names arbitrary: m0) (auto split: option.split claim.split)

text \<open>A JSON web token is accepted exactly if the library verifies it with one of the
  asymmetric algorithms and its user claim is a non-empty string; the identity is that
  claim, never anonymous, with the configured claims that are strings as metadata.\<close>

theorem jwt_accepts_exactly:
  "jwt_InspectToken parse userIDClaim metadataClaims token headers = Ok (userID, isAnonymous, metadata) \<longleftrightarrow>
     \<not> isAnonymous \<and> userID \<noteq> [] \<and>
     (\<exists>claims. parse allowedAlgs (TrimSpace (TrimPrefix (TrimSpace token) ''Bearer '')) = Ok claims \<and>
        gm_get claims userIDClaim = Some (ClaimString userID) \<and>
        metadata = fold (\<lambda>name m. case gm_get claims name of Some (ClaimString v) \<Rightarrow> gm_put name v m | _ \<Rightarrow> m) metadataClaims [])"
  by (auto simp: jwt_InspectToken_def Let_def split: outcome.splits option.splits claim.splits if_splits)

text \<open>What the hooks of the server return never makes the endpoints panic.\<close>

definition server_inspect :: "('k, 'e, 's) fns_env \<Rightarrow> 's fns_state \<Rightarrow> gostring \<Rightarrow> (gostring \<Rightarrow> gostring) \<Rightarrow> (inspected, gostring) outcome" where
  "server_inspect fe st token headers = fst (inspectToken fe token headers st)"

lemma webhook_inspect_safe:
  assumes "feOverride fe = None"
  shows "safe (server_inspect fe st token headers) (\<lambda>(u, anon, md). anon \<or> u \<noteq> [])"
  using assms by (auto simp: server_inspect_def inspectToken_def safe_def Let_def split: option.splits prod.splits if_splits)

lemma jwt_inspect_safe:
  assumes "feOverride fe = Some (jwt_InspectToken parse c mc)" "\<forall>t. parse allowedAlgs t \<noteq> Panic"
  shows "safe (server_inspect fe st token headers) (\<lambda>(u, anon, md). anon \<or> u \<noteq> [])"
  using assms
  by (auto simp: server_inspect_def inspectToken_def safe_def jwt_InspectToken_def Let_def
      split: outcome.splits option.splits claim.splits if_splits)

lemma mint_nonempty: "mintOrReadAnonymousInstanceID mac now n v \<noteq> []"
  by (auto simp: mintOrReadAnonymousInstanceID_def readAnonymousInstanceID_def signer_sign_def split: option.splits)

lemma issue_identity_safe:
  assumes "dvInspect env = Some f" "safe (f (hqHeader r ''Authorization'') (hqHeader r)) (\<lambda>(u, anon, md). anon \<or> u \<noteq> [])"
  shows "issue_identity env r \<noteq> Panic"
  using assms mint_nonempty
  by (auto simp: issue_identity_def inspect_def safe_def user_identity_def must_def AnonymousUserWebsocketAuthWithMetadata_def
      UserWebsocketAuthWithMetadata_def Let_def split: outcome.splits)

text \<open>With the hooks of the stand-alone server, webhook or JSON web tokens, issuing a
  connection token never panics, whatever the client sends, the application answers, the
  breaker does and the cache replies; in particular an application that returns an empty
  user id cannot bring the endpoint down.\<close>

theorem server_issue_no_panic:
  assumes "dvInspect env = Some (server_inspect fe st)"
    and "feOverride fe = None \<or> (\<exists>parse c mc. feOverride fe = Some (jwt_InspectToken parse c mc) \<and> (\<forall>t. parse allowedAlgs t \<noteq> Panic))"
  shows "fst (IssueTmpToken env r d) \<noteq> Panic"
proof -
  have "safe (server_inspect fe st (hqHeader r ''Authorization'') (hqHeader r)) (\<lambda>(u, anon, md). anon \<or> u \<noteq> [])"
    using assms(2) webhook_inspect_safe jwt_inspect_safe by blast
  then have "issue_identity env r \<noteq> Panic" using assms(1) by (rule issue_identity_safe [rotated])
  then show ?thesis
    by (auto simp: IssueTmpToken_def Exchange_def Let_def split: prod.splits outcome.splits)
qed

subsection \<open>Events of a connection\<close>

text \<open>Over any transport that keeps the contract, the events of a connection are queued in the
  order of its life.\<close>

locale fns_transport = async_transport emit pending capacity encodable
  for emit :: "'e \<Rightarrow> gostring \<Rightarrow> fns_data \<Rightarrow> 's \<Rightarrow> 's"
    and pending :: "'s \<Rightarrow> gostring list"
    and capacity :: nat
    and encodable :: "'e \<Rightarrow> gostring \<Rightarrow> fns_data \<Rightarrow> bool"
begin

lemma emitted: "\<lbrakk>feEmit env = emit; length (pending (fsTransport st)) < capacity; encodable (feEmitEnv env) ev d\<rbrakk> \<Longrightarrow>
    pending (fsTransport (fns_emit env ev d st)) = pending (fsTransport st) @ [ev]"
  by (simp add: fns_emit_def emit_room)

lemma lifecycle:
  assumes "feEmit env = emit" "feEmit env' = emit" "Suc (length (pending (fsTransport st))) < capacity"
    and "\<forall>ev d. encodable (feEmitEnv env) ev d" "\<forall>ev d. encodable (feEmitEnv env') ev d"
    and "OnNewConnection env auth st = (Ok (), st1)"
  shows "pending (fsTransport (OnCloseConnection env' auth st1)) =
    pending (fsTransport st) @ [EventOnNewConnectionEstablished, EventOnCloseConnection]"
proof -
  obtain err out st0 where c: "fns_call env EventOnNewConnection (AuthEvent (toAuthDTO auth)) (None :: (bytes \<Rightarrow> unit option) option) st = ((err, out), st0)"
    by (metis surj_pair)
  have t: "fsTransport st0 = fsTransport st" using c by (rule fns_call_transport)
  have "st1 = fns_emit env EventOnNewConnectionEstablished (AuthEvent (toAuthDTO auth)) st0"
    using assms(6) c by (auto simp: OnNewConnection_def split: option.splits)
  then have p: "pending (fsTransport st1) = pending (fsTransport st) @ [EventOnNewConnectionEstablished]"
    using emitted [OF assms(1), of st0] assms(3,4) t by simp
  then show ?thesis using emitted [OF assms(2), of st1] assms(3,5) by (simp add: OnCloseConnection_def)
qed

end

interpretation adf: fns_transport ad_Emit "\<lambda>s. map jbEventType (adQueue s)" asyncQueueSize "\<lambda>_ _ _. True"
  by unfold_locales

interpretation psf: fns_transport ps_Emit "\<lambda>t. map pjEventType (psQueue t)" queueSize "\<lambda>e ev d. ps_encode e ev d \<noteq> None"
  by unfold_locales

text \<open>An admitted connection that closes leaves its two events in the queue in that order,
  after everything queued before, over the webhook dispatcher and over the pub/sub
  transport alike, as long as the queue has room for both.\<close>

theorem lifecycle_events_queued:
  "\<lbrakk>feEmit env = ad_Emit; feEmit env' = ad_Emit; Suc (length (adQueue (fsTransport st))) < 1024; OnNewConnection env auth st = (Ok (), st1)\<rbrakk> \<Longrightarrow>
     map jbEventType (adQueue (fsTransport (OnCloseConnection env' auth st1))) =
     map jbEventType (adQueue (fsTransport st)) @ [EventOnNewConnectionEstablished, EventOnCloseConnection]"
  using adf.lifecycle [of env env' st auth st1] by (simp add: asyncQueueSize_def)

lemma lifecycle_events_published:
  "\<lbrakk>feEmit env = ps_Emit; feEmit env' = ps_Emit; Suc (length (psQueue (fsTransport st))) < 1024; OnNewConnection env auth st = (Ok (), st1);
    \<forall>ev d. ps_encode (feEmitEnv env) ev d \<noteq> None; \<forall>ev d. ps_encode (feEmitEnv env') ev d \<noteq> None\<rbrakk> \<Longrightarrow>
     map pjEventType (psQueue (fsTransport (OnCloseConnection env' auth st1))) =
     map pjEventType (psQueue (fsTransport st)) @ [EventOnNewConnectionEstablished, EventOnCloseConnection]"
  using psf.lifecycle [of env env' st auth st1] by (simp add: queueSize_def)

subsection \<open>An example\<close>

definition ex_fe :: "(unit, gostring, fns_data AsyncDispatcher) fns_env" where
  "ex_fe = \<lparr>fePost = \<lparr>peJson = \<lambda>_. Some [], peBody = \<lambda>b. Some (bdData b), peUrlOk = \<lambda>_. True, peSigner = ex_signer\<rparr>,
     feCaller = NewSyncCaller ex_sender 1 0, feNano = ''x'', feAttempts = \<lambda>_. ex_attempt (HttpReply 200 [1] False), feEmit = ad_Emit,
     feEmitEnv = ''y'', feDecInspect = \<lambda>_. Some \<lparr>irUserID = ''u'', irIsAnonymous = False, irMetadata = []\<rparr>, feDecHandle = \<lambda>_. None,
     feDecError = \<lambda>_. None, feMode = HandleMsgModeSync, feOverride = None\<rparr>"

definition ex_fs :: "fns_data AsyncDispatcher fns_state" where
  "ex_fs = \<lparr>fsBreaker = NewCircuitBreaker 1 0, fsLog = \<lparr>wlRequests = [], wlObs = []\<rparr>, fsTransport = NewAsyncDispatcher 3 []\<rparr>"

lemmas ex_fns_defs = ex_fe_def ex_fs_def fns_call_def Call_def NewSyncCaller_def sync_loop.simps NewCircuitBreaker_def cb_Allow_def
  ex_attempt_def Post_def PostWithMode_def build_request_def ex_sender_def observe_def decode_reply_def maxRespBody_def cb_Record_def

lemma ex_fns_inspect: "\<exists>st'. inspectToken ex_fe ''t'' (\<lambda>_. []) ex_fs = (Ok (''u'', False, []), st')"
  by (simp add: inspectToken_def ex_fns_defs Let_def)

lemma ex_fns_new: "\<exists>st'. OnNewConnection ex_fe ex_user ex_fs = (Ok (), st')"
  by (simp add: OnNewConnection_def ex_fns_defs Let_def)

theorem inspect_fails_closed_witness:
  "accepted_by (feAttempts ex_fe) (Some (feDecInspect ex_fe)) (Some \<lparr>irUserID = ''u'', irIsAnonymous = False, irMetadata = []\<rparr>)"
  using inspect_fails_closed [of ex_fe "''t''" "\<lambda>_. []" ex_fs "''u''" False "[]"] ex_fns_inspect
  by (auto simp: ex_fe_def NewSyncCaller_def)

theorem admission_fails_closed_witness:
  "\<exists>st'. OnNewConnection ex_fe ex_user ex_fs = (Ok (), st') \<and> fsTransport st' = ad_Emit ''y'' EventOnNewConnectionEstablished (AuthEvent (toAuthDTO ex_user)) (fsTransport ex_fs)"
proof -
  obtain st' where st: "OnNewConnection ex_fe ex_user ex_fs = (Ok (), st')" using ex_fns_new by blast
  have "1 \<le> scRetryMax (feCaller ex_fe)" "feEmit ex_fe = ad_Emit" "feEmitEnv ex_fe = ''y''" by (simp_all add: ex_fe_def NewSyncCaller_def)
  then show ?thesis using admission_fails_closed [OF _ st] st by simp
qed

theorem lifecycle_events_queued_witness:
  "\<exists>st1. OnNewConnection ex_fe ex_user ex_fs = (Ok (), st1) \<and>
     map jbEventType (adQueue (fsTransport (OnCloseConnection ex_fe ex_user st1))) = [EventOnNewConnectionEstablished, EventOnCloseConnection]"
proof -
  obtain st' where st: "OnNewConnection ex_fe ex_user ex_fs = (Ok (), st')" using ex_fns_new by blast
  have "feEmit ex_fe = ad_Emit" "adQueue (fsTransport ex_fs) = []" by (simp_all add: ex_fe_def ex_fs_def NewAsyncDispatcher_def)
  then show ?thesis using lifecycle_events_queued [OF _ _ _ st, of ex_fe] st by simp
qed

theorem server_issue_no_panic_witness:
  "fst (IssueTmpToken ((ex_denv 2)\<lparr>dvInspect := Some (server_inspect ex_fe ex_fs)\<rparr>) (ex_request ''t'') ex_delivery) \<noteq> Panic"
  by (rule server_issue_no_panic [where fe = ex_fe and st = ex_fs]) (simp_all add: ex_fe_def)

end
