(* ===== verification/DdbActive.thy ===== *)
theory DdbActive
  imports Repo DdbBatch GoStr
begin

text \<open>
  The DynamoDB repositories of active connections and users
  (\<open>core/repository/impl-dynamodb\<close>).  An item is a map from attribute names to tagged
  values, a table is a list of items, and an update expression is a list of assignments.
  The SDK's conversions between Go values and attribute values, the comparisons of the service and
  its check of key values are the fields of \<open>ddb_service\<close>, with their documented behaviour
  as the predicate \<open>ddb_documented\<close>.  The writes simulate the Postgres statements of \<open>Repo\<close>.
\<close>

subsection \<open>Attribute values and times\<close>

datatype AttributeValue = AvS gostring | AvN gostring

text \<open>A time is stored as its Unix milliseconds; reading \<open>0\<close> gives the zero time.\<close>

definition UnixMilli :: "int \<Rightarrow> int" where "UnixMilli t = t div 1000000"

definition MarshalDynamoDBAttributeValue :: "int \<Rightarrow> AttributeValue" where
  "MarshalDynamoDBAttributeValue t = AvN (FormatInt (UnixMilli t))"

definition fromDynamoNumber :: "gostring \<Rightarrow> (int, ErrorCode) outcome" where
  "fromDynamoNumber rawStr =
     (if rawStr = ''0'' then Ok zero_time
      else case ParseInt 64 rawStr of
             None \<Rightarrow> Err ErrUnmarshal
           | Some millisec \<Rightarrow> Ok (millisec * 1000000))"

fun UnmarshalDynamoDBAttributeValue :: "AttributeValue \<Rightarrow> (int, ErrorCode) outcome" where
  "UnmarshalDynamoDBAttributeValue (AvN v) = fromDynamoNumber v"
| "UnmarshalDynamoDBAttributeValue (AvS v) = Err ErrUnmarshal"

subsection \<open>The service\<close>

type_synonym ddb_item = "(gostring, AttributeValue) gomap"

record ddb_service =
  dsString :: "gostring \<Rightarrow> AttributeValue"
  dsInt :: "int \<Rightarrow> AttributeValue"
  dsTime :: "int \<Rightarrow> AttributeValue"
  dsToString :: "AttributeValue \<Rightarrow> gostring option"
  dsToInt8 :: "AttributeValue \<Rightarrow> int option"
  dsGreater :: "AttributeValue \<Rightarrow> AttributeValue \<Rightarrow> bool"
  dsLess :: "AttributeValue \<Rightarrow> AttributeValue \<Rightarrow> bool"
  dsKeyOk :: "AttributeValue \<Rightarrow> bool"

text \<open>
  Documented: strings become string values and integers decimal numbers, and are read back;
  a \<open>time.Time\<close> becomes a string (RFC 3339); values of different types do not compare; and
  an empty string is refused as a key.
\<close>

definition ddb_documented :: "ddb_service \<Rightarrow> bool" where
  "ddb_documented ds \<longleftrightarrow>
     (\<forall>s. dsString ds s = AvS s \<and> dsToString ds (AvS s) = Some s) \<and>
     (\<forall>i. dsInt ds i = AvN (FormatInt i)) \<and>
     (\<forall>i. int_range 8 i \<longrightarrow> dsToInt8 ds (AvN (FormatInt i)) = Some i) \<and>
     (\<forall>t. \<exists>s. dsTime ds t = AvS s) \<and>
     (\<forall>i j. int_range 64 i \<and> int_range 64 j \<longrightarrow>
        (dsGreater ds (AvN (FormatInt i)) (AvN (FormatInt j)) \<longleftrightarrow> j < i) \<and>
        (dsLess ds (AvN (FormatInt i)) (AvN (FormatInt j)) \<longleftrightarrow> i < j)) \<and>
     (\<forall>n s. \<not> dsGreater ds (AvN n) (AvS s) \<and> \<not> dsLess ds (AvN n) (AvS s)) \<and>
     (\<forall>s. dsKeyOk ds (AvS s) \<longleftrightarrow> s \<noteq> [])"

text \<open>An assignment of an update expression; \<open>if_not_exists\<close> looks at the item as it was.\<close>

datatype ddb_set = SetValue gostring AttributeValue | SetIfNotExists gostring AttributeValue

fun apply_set :: "ddb_item \<Rightarrow> ddb_set \<Rightarrow> ddb_item \<Rightarrow> ddb_item" where
  "apply_set old (SetValue f v) it = gm_put f v it"
| "apply_set old (SetIfNotExists f v) it = gm_put f (case gm_get old f of None \<Rightarrow> v | Some w \<Rightarrow> w) it"

definition apply_sets :: "ddb_set list \<Rightarrow> ddb_item \<Rightarrow> ddb_item" where
  "apply_sets sets it = fold (apply_set it) sets it"

type_synonym ddb_key = "(gostring \<times> AttributeValue) list"

definition has_item_key :: "ddb_key \<Rightarrow> ddb_item \<Rightarrow> bool" where
  "has_item_key key it \<longleftrightarrow> (\<forall>(f, v) \<in> set key. gm_get it f = Some v)"

datatype update_result = Updated ddb_item | ConditionFailed | UpdateFailed

text \<open>
  \<open>UpdateItem\<close> creates the item unless a condition asks for it to exist.  \<open>fails\<close>: the request
  is not carried out.
\<close>

definition UpdateItem ::
    "ddb_service \<Rightarrow> bool \<Rightarrow> bool \<Rightarrow> ddb_key \<Rightarrow> ddb_set list \<Rightarrow> ddb_item list \<Rightarrow> update_result \<times> ddb_item list" where
  "UpdateItem ds fails mustExist key sets t =
     (if fails \<or> \<not> list_all (dsKeyOk ds \<circ> snd) key then (UpdateFailed, t)
      else case find (has_item_key key) t of
             Some it \<Rightarrow> (Updated (apply_sets sets it), map (\<lambda>it. if has_item_key key it then apply_sets sets it else it) t)
           | None \<Rightarrow>
               if mustExist then (ConditionFailed, t)
               else (Updated (apply_sets sets key), t @ [apply_sets sets key]))"

definition DeleteItem ::
    "ddb_service \<Rightarrow> bool \<Rightarrow> ddb_key \<Rightarrow> ddb_item list \<Rightarrow> bool \<times> ddb_item list" where
  "DeleteItem ds fails key t =
     (if fails \<or> \<not> list_all (dsKeyOk ds \<circ> snd) key then (False, t)
      else (True, filter (\<lambda>it. \<not> has_item_key key it) t))"

text \<open>\<open>repohelper.IsConditionalCheckFailedException\<close> makes an update of a missing item succeed.\<close>

fun update_error :: "update_result \<Rightarrow> (unit, ErrorCode) outcome" where
  "update_error (Updated _) = Ok ()"
| "update_error ConditionFailed = Ok ()"
| "update_error UpdateFailed = Err ErrUnexpectedDynamoDB"

subsection \<open>Reading an item\<close>

text \<open>A field whose attribute is missing keeps its zero value.\<close>

definition read_string :: "ddb_service \<Rightarrow> ddb_item \<Rightarrow> gostring \<Rightarrow> gostring option" where
  "read_string ds it f = (case gm_get it f of None \<Rightarrow> Some [] | Some v \<Rightarrow> dsToString ds v)"

definition read_int8 :: "ddb_service \<Rightarrow> ddb_item \<Rightarrow> gostring \<Rightarrow> int option" where
  "read_int8 ds it f = (case gm_get it f of None \<Rightarrow> Some 0 | Some v \<Rightarrow> dsToInt8 ds v)"

definition read_time :: "ddb_item \<Rightarrow> gostring \<Rightarrow> int option" where
  "read_time it f =
     (case gm_get it f of
        None \<Rightarrow> Some zero_time
      | Some v \<Rightarrow> (case UnmarshalDynamoDBAttributeValue v of Ok t \<Rightarrow> Some t | _ \<Rightarrow> None))"

subsection \<open>Active connections\<close>

definition FieldUserID :: gostring where "FieldUserID = ''UserID''"
definition FieldInstanceID :: gostring where "FieldInstanceID = ''InstanceID''"
definition FieldHolderID :: gostring where "FieldHolderID = ''HolderID''"
definition FieldConnectionType :: gostring where "FieldConnectionType = ''ConnectionType''"
definition FieldStatus :: gostring where "FieldStatus = ''Status''"
definition FieldConnectedAt :: gostring where "FieldConnectedAt = ''ConnectedAt''"
definition FieldLastHeartbeat :: gostring where "FieldLastHeartbeat = ''LastHeartbeat''"
definition FieldTTL :: gostring where "FieldTTL = ''TTL''"
definition FieldTTLSeconds :: gostring where "FieldTTLSeconds = ''TTLSeconds''"

definition active_fields :: "gostring list" where
  "active_fields = [FieldUserID, FieldInstanceID, FieldHolderID, FieldConnectionType, FieldStatus,
     FieldConnectedAt, FieldLastHeartbeat, FieldTTL, FieldTTLSeconds]"

lemmas field_defs = FieldUserID_def FieldInstanceID_def FieldHolderID_def FieldConnectionType_def FieldStatus_def
  FieldConnectedAt_def FieldLastHeartbeat_def FieldTTL_def FieldTTLSeconds_def

text \<open>The numbers of the two enumerations.\<close>

fun core_num :: "WsCoreType \<Rightarrow> int" where
  "core_num WsCoreGobwas = 1"
| "core_num WsCoreLongPolling = 2"
| "core_num (WsCoreOther n) = n"

definition core_of_num :: "int \<Rightarrow> WsCoreType" where
  "core_of_num n = (if n = 1 then WsCoreGobwas else if n = 2 then WsCoreLongPolling else WsCoreOther n)"

fun status_num :: "WsStatus \<Rightarrow> int" where
  "status_num WsStatusConnected = 1"
| "status_num WsStatusTempDisconnected = 2"
| "status_num WsStatusTransferring = 3"
| "status_num (WsStatusOther n) = n"

definition status_of_num :: "int \<Rightarrow> WsStatus" where
  "status_of_num n = (if n = 1 then WsStatusConnected else if n = 2 then WsStatusTempDisconnected
     else if n = 3 then WsStatusTransferring else WsStatusOther n)"

definition active_fromDynamoMap :: "ddb_service \<Rightarrow> ddb_item \<Rightarrow> ActiveConnection option" where
  "active_fromDynamoMap ds it =
     (case (read_string ds it FieldUserID, read_string ds it FieldInstanceID, read_string ds it FieldHolderID,
            read_int8 ds it FieldConnectionType, read_int8 ds it FieldStatus,
            read_time it FieldConnectedAt, read_time it FieldLastHeartbeat, read_time it FieldTTL) of
        (Some u, Some i, Some h, Some c, Some s, Some ca, Some lh, Some ttl) \<Rightarrow>
          Some \<lparr>acUserID = u, acInstanceID = i, acHolderID = h, acConnectionType = core_of_num c,
            acStatus = status_of_num s, acConnectedAt = ca, acLastHeartbeat = lh, acTTL = ttl\<rparr>
      | _ \<Rightarrow> None)"

definition active_item_key :: "ddb_service \<Rightarrow> gostring \<Rightarrow> gostring \<Rightarrow> ddb_key" where
  "active_item_key ds userID instanceID = [(FieldUserID, dsString ds userID), (FieldInstanceID, dsString ds instanceID)]"

definition create_update :: "ddb_service \<Rightarrow> int \<Rightarrow> gostring \<Rightarrow> WsCoreType \<Rightarrow> ddb_set list" where
  "create_update ds now holderID connectionType =
     (let nowMilli = MarshalDynamoDBAttributeValue now; ttlAt = now + heartbeat_ttl in
      [SetValue FieldHolderID (dsString ds holderID),
       SetValue FieldConnectionType (dsInt ds (core_num connectionType)),
       SetValue FieldStatus (dsInt ds (status_num WsStatusConnected)),
       SetIfNotExists FieldConnectedAt nowMilli,
       SetValue FieldLastHeartbeat nowMilli,
       SetValue FieldTTL (MarshalDynamoDBAttributeValue ttlAt),
       SetValue FieldTTLSeconds (dsInt ds (ttlAt div second))])"

definition DA_Create ::
    "ddb_service \<Rightarrow> int \<Rightarrow> bool \<Rightarrow> gostring \<Rightarrow> gostring \<Rightarrow> gostring \<Rightarrow> WsCoreType \<Rightarrow> ddb_item list \<Rightarrow>
     (ActiveConnection, ErrorCode) outcome \<times> ddb_item list" where
  "DA_Create ds now fails userID instanceID holderID connectionType t =
     (case UpdateItem ds fails False (active_item_key ds userID instanceID) (create_update ds now holderID connectionType) t of
        (Updated it, t) \<Rightarrow> ((case active_fromDynamoMap ds it of Some r \<Rightarrow> Ok r | None \<Rightarrow> Panic), t)
      | (_, t) \<Rightarrow> (Err ErrUnexpectedDynamoDB, t))"

definition DA_AddConnection ::
    "ddb_service \<Rightarrow> gostring \<Rightarrow> int \<Rightarrow> bool \<Rightarrow> gostring \<Rightarrow> gostring \<Rightarrow> WsCoreType \<Rightarrow> ddb_item list \<Rightarrow>
     (unit, ErrorCode) outcome \<times> ddb_item list" where
  "DA_AddConnection ds containerID now fails userID instanceID connectionType t =
     (case DA_Create ds now fails userID instanceID containerID connectionType t of
        (r, t) \<Rightarrow> (obind r (\<lambda>_. Ok ()), t))"

definition DA_UpdateStatus ::
    "ddb_service \<Rightarrow> bool \<Rightarrow> gostring \<Rightarrow> gostring \<Rightarrow> WsStatus \<Rightarrow> ddb_item list \<Rightarrow> (unit, ErrorCode) outcome \<times> ddb_item list" where
  "DA_UpdateStatus ds fails userID instanceID status t =
     apfst update_error (UpdateItem ds fails True (active_item_key ds userID instanceID)
       [SetValue FieldStatus (dsInt ds (status_num status))] t)"

definition DA_UpdateStatusTransferring ::
    "ddb_service \<Rightarrow> bool \<Rightarrow> gostring \<Rightarrow> gostring \<Rightarrow> ddb_item list \<Rightarrow> (unit, ErrorCode) outcome \<times> ddb_item list" where
  "DA_UpdateStatusTransferring ds fails userID instanceID t =
     apfst update_error (UpdateItem ds fails True (active_item_key ds userID instanceID)
       [SetValue FieldStatus (dsInt ds (status_num WsStatusTransferring)), SetValue FieldHolderID (dsString ds [])] t)"

definition heartbeat_update :: "ddb_service \<Rightarrow> int \<Rightarrow> ddb_set list" where
  "heartbeat_update ds now =
     (let ttl = now + heartbeat_ttl in
      [SetValue FieldLastHeartbeat (MarshalDynamoDBAttributeValue now),
       SetValue FieldTTL (MarshalDynamoDBAttributeValue ttl),
       SetValue FieldTTLSeconds (dsInt ds (ttl div second))])"

definition DA_UpdateHeartBeat ::
    "ddb_service \<Rightarrow> int \<Rightarrow> bool \<Rightarrow> gostring \<Rightarrow> gostring \<Rightarrow> ddb_item list \<Rightarrow> (unit, ErrorCode) outcome \<times> ddb_item list" where
  "DA_UpdateHeartBeat ds now fails userID instanceID t =
     apfst update_error (UpdateItem ds fails True (active_item_key ds userID instanceID) (heartbeat_update ds now) t)"

definition DA_RemoveConnection ::
    "ddb_service \<Rightarrow> bool \<Rightarrow> gostring \<Rightarrow> gostring \<Rightarrow> ddb_item list \<Rightarrow> (unit, ErrorCode) outcome \<times> ddb_item list" where
  "DA_RemoveConnection ds fails userID instanceID t =
     (case DeleteItem ds fails (active_item_key ds userID instanceID) t of
        (ok, t) \<Rightarrow> (if ok then Ok () else Err ErrUnexpectedDynamoDB, t))"

text \<open>The filter of the listings compares the stored heartbeat with a \<open>time.Time\<close>.\<close>

definition recent :: "ddb_service \<Rightarrow> int \<Rightarrow> int \<Rightarrow> ddb_item \<Rightarrow> bool" where
  "recent ds cutoff now it \<longleftrightarrow>
     (case gm_get it FieldLastHeartbeat of None \<Rightarrow> False | Some v \<Rightarrow> dsGreater ds v (dsTime ds (now - cutoff)))"

definition of_user :: "ddb_service \<Rightarrow> gostring \<Rightarrow> ddb_item \<Rightarrow> bool" where
  "of_user ds userID it \<longleftrightarrow> gm_get it FieldUserID = Some (dsString ds userID)"

definition DA_CountActive ::
    "ddb_service \<Rightarrow> int \<Rightarrow> int \<Rightarrow> bool \<Rightarrow> gostring \<Rightarrow> ddb_item list \<Rightarrow> (nat, ErrorCode) outcome" where
  "DA_CountActive ds cutoff now fails userID t =
     (if fails then Err ErrUnexpectedDynamoDB
      else Ok (length (filter (\<lambda>it. of_user ds userID it \<and> recent ds cutoff now it) t)))"

text \<open>\<open>fails u\<close>: the query for the user \<open>u\<close> fails.\<close>

fun DA_CountActiveBatch ::
    "ddb_service \<Rightarrow> int \<Rightarrow> int \<Rightarrow> (gostring \<Rightarrow> bool) \<Rightarrow> gostring list \<Rightarrow> ddb_item list \<Rightarrow> (gostring, nat) gomap \<Rightarrow>
     ((gostring, nat) gomap, ErrorCode) outcome" where
  "DA_CountActiveBatch ds cutoff now fails [] t result = Ok result"
| "DA_CountActiveBatch ds cutoff now fails (u # us) t result =
     obind (DA_CountActive ds cutoff now (fails u) u t) (\<lambda>n. DA_CountActiveBatch ds cutoff now fails us t (gm_put u n result))"

definition DA_CountTotalActive ::
    "ddb_service \<Rightarrow> int \<Rightarrow> int \<Rightarrow> bool \<Rightarrow> ddb_item list \<Rightarrow> (nat, ErrorCode) outcome" where
  "DA_CountTotalActive ds cutoff now fails t =
     (if fails then Err ErrUnexpectedDynamoDB else Ok (length (filter (recent ds cutoff now) t)))"

fun decode_items :: "ddb_service \<Rightarrow> ddb_item list \<Rightarrow> (ActiveConnection list, ErrorCode) outcome" where
  "decode_items ds [] = Ok []"
| "decode_items ds (it # its) =
     (case active_fromDynamoMap ds it of
        None \<Rightarrow> Err ErrUnexpectedDynamoDB
      | Some r \<Rightarrow> obind (decode_items ds its) (\<lambda>rs. Ok (r # rs)))"

definition DA_GetActiveConnections ::
    "ddb_service \<Rightarrow> int \<Rightarrow> int \<Rightarrow> bool \<Rightarrow> gostring \<Rightarrow> ddb_item list \<Rightarrow> (ActiveConnection list, ErrorCode) outcome" where
  "DA_GetActiveConnections ds cutoff now fails userID t =
     (if fails then Err ErrUnexpectedDynamoDB
      else decode_items ds (filter (\<lambda>it. of_user ds userID it \<and> recent ds cutoff now it) t))"

fun DA_GetActiveConnectionsByUserIDs ::
    "ddb_service \<Rightarrow> int \<Rightarrow> int \<Rightarrow> (gostring \<Rightarrow> bool) \<Rightarrow> gostring list \<Rightarrow> ddb_item list \<Rightarrow> (ActiveConnection list, ErrorCode) outcome" where
  "DA_GetActiveConnectionsByUserIDs ds cutoff now fails [] t = Ok []"
| "DA_GetActiveConnectionsByUserIDs ds cutoff now fails (u # us) t =
     obind (DA_GetActiveConnections ds cutoff now (fails u) u t) (\<lambda>items.
     obind (DA_GetActiveConnectionsByUserIDs ds cutoff now fails us t) (\<lambda>result. Ok (items @ result)))"

definition DA_GetInstanceConnection ::
    "ddb_service \<Rightarrow> int \<Rightarrow> int \<Rightarrow> bool \<Rightarrow> gostring \<Rightarrow> gostring \<Rightarrow> ddb_item list \<Rightarrow> (ActiveConnection, ErrorCode) outcome" where
  "DA_GetInstanceConnection ds cutoff now fails userID instanceID t =
     (if fails \<or> \<not> list_all (dsKeyOk ds \<circ> snd) (active_item_key ds userID instanceID) then Err ErrUnexpectedDynamoDB
      else case find (has_item_key (active_item_key ds userID instanceID)) t of
             None \<Rightarrow> Err RecordNotFound
           | Some it \<Rightarrow>
               (case active_fromDynamoMap ds it of
                  None \<Rightarrow> Err ErrUnexpectedDynamoDB
                | Some entity \<Rightarrow> if acLastHeartbeat entity < now - cutoff then Err RecordNotFound else Ok entity))"

text \<open>
  The table and the coming answers of \<open>BatchWriteItem\<close>, as for the buffered messages: \<open>None\<close>
  fails, \<open>Some n\<close> processes the first \<open>n\<close> requests.  A request is the key of an item to delete.
\<close>

type_synonym da_world = "ddb_item list \<times> nat option list"

definition delete_keys :: "ddb_key list \<Rightarrow> ddb_item list \<Rightarrow> ddb_item list" where
  "delete_keys keys t = filter (\<lambda>it. \<not> (\<exists>k \<in> set keys. has_item_key k it)) t"

definition da_client :: "(ddb_key, da_world) batch_client" where
  "da_client = (\<lambda>(t, script) reqs. case script of
       [] \<Rightarrow> (Some [], (delete_keys reqs t, []))
     | None # s \<Rightarrow> (None, (t, s))
     | Some n # s \<Rightarrow> (Some (drop n reqs), (delete_keys (take n reqs) t, s)))"

definition expired_item :: "ddb_service \<Rightarrow> int \<Rightarrow> ddb_item \<Rightarrow> bool" where
  "expired_item ds now it \<longleftrightarrow>
     (case gm_get it FieldTTL of None \<Rightarrow> False | Some v \<Rightarrow> dsLess ds v (dsInt ds (UnixMilli now)))"

text \<open>The keys of the scanned items, read into a struct and written back.\<close>

fun scanned_keys :: "ddb_service \<Rightarrow> ddb_item list \<Rightarrow> ddb_key list option" where
  "scanned_keys ds [] = Some []"
| "scanned_keys ds (it # its) =
     (case (read_string ds it FieldUserID, read_string ds it FieldInstanceID) of
        (Some u, Some i) \<Rightarrow> map_option ((#) (active_item_key ds u i)) (scanned_keys ds its)
      | _ \<Rightarrow> None)"

definition DA_CleanUpExpiredConnections ::
    "ddb_service \<Rightarrow> int \<Rightarrow> bool \<Rightarrow> da_world \<Rightarrow> (unit, ErrorCode) outcome \<times> da_world" where
  "DA_CleanUpExpiredConnections ds now scanFails w =
     (if scanFails then (Err ErrUnexpectedDynamoDB, w)
      else case scanned_keys ds (filter (expired_item ds now) (fst w)) of
             None \<Rightarrow> (Err ErrUnexpectedDynamoDB, w)
           | Some keys \<Rightarrow>
               if length keys = 0 then (Ok (), w)
               else case RecursiveBatchWriteItem da_client keys 2 w of
                      ((unprocessedItems, failed), w) \<Rightarrow>
                        if failed then (Err ErrUnexpectedDynamoDB, w)
                        else if length unprocessedItems > 0 then (Err ErrUnexpectedDynamoDB, w)
                        else (Ok (), w))"

subsection \<open>Users\<close>

definition UserFieldID :: gostring where "UserFieldID = ''ID''"
definition UserFieldLastHeartbeat :: gostring where "UserFieldLastHeartbeat = ''LastHeartbeat''"
definition UserFieldCreatedAt :: gostring where "UserFieldCreatedAt = ''create_at''"

lemmas user_field_defs = UserFieldID_def UserFieldLastHeartbeat_def UserFieldCreatedAt_def

definition user_toDynamoMap :: "ddb_service \<Rightarrow> User \<Rightarrow> ddb_item" where
  "user_toDynamoMap ds e =
     [(UserFieldID, dsString ds (usID e)),
      (UserFieldLastHeartbeat, MarshalDynamoDBAttributeValue (usLastHeartbeat e)),
      (UserFieldCreatedAt, MarshalDynamoDBAttributeValue (usCreatedAt e))]"

definition user_fromDynamoMap :: "ddb_service \<Rightarrow> ddb_item \<Rightarrow> User option" where
  "user_fromDynamoMap ds it =
     (case (read_string ds it UserFieldID, read_time it UserFieldLastHeartbeat, read_time it UserFieldCreatedAt) of
        (Some u, Some lh, Some ca) \<Rightarrow> Some \<lparr>usID = u, usLastHeartbeat = lh, usCreatedAt = ca\<rparr>
      | _ \<Rightarrow> None)"

definition user_item_key :: "ddb_service \<Rightarrow> gostring \<Rightarrow> ddb_key" where
  "user_item_key ds userID = [(UserFieldID, dsString ds userID)]"

definition DU_Create ::
    "ddb_service \<Rightarrow> int \<Rightarrow> bool \<Rightarrow> gostring \<Rightarrow> ddb_item list \<Rightarrow> (User, ErrorCode) outcome \<times> ddb_item list" where
  "DU_Create ds now fails userID t =
     (let result = \<lparr>usID = userID, usLastHeartbeat = now, usCreatedAt = now\<rparr> in
      if fails \<or> \<not> list_all (dsKeyOk ds \<circ> snd) (user_item_key ds userID) \<or> find (has_item_key (user_item_key ds userID)) t \<noteq> None
      then (Err ErrUnexpectedDynamoDB, t)
      else (Ok result, t @ [user_toDynamoMap ds result]))"

definition DU_Upsert ::
    "ddb_service \<Rightarrow> int \<Rightarrow> bool \<Rightarrow> gostring \<Rightarrow> ddb_item list \<Rightarrow> (User, ErrorCode) outcome \<times> ddb_item list" where
  "DU_Upsert ds now fails userID t =
     (let nowMilli = MarshalDynamoDBAttributeValue now in
      case UpdateItem ds fails False (user_item_key ds userID)
             [SetValue UserFieldLastHeartbeat nowMilli, SetIfNotExists UserFieldCreatedAt nowMilli] t of
        (Updated it, t) \<Rightarrow> ((case user_fromDynamoMap ds it of Some u \<Rightarrow> Ok u | None \<Rightarrow> Panic), t)
      | (_, t) \<Rightarrow> (Err ErrUnexpectedDynamoDB, t))"

definition DU_UpdateLastHeartbeat ::
    "ddb_service \<Rightarrow> int \<Rightarrow> bool \<Rightarrow> gostring \<Rightarrow> ddb_item list \<Rightarrow> (unit, ErrorCode) outcome \<times> ddb_item list" where
  "DU_UpdateLastHeartbeat ds now fails userID t =
     apfst update_error (UpdateItem ds fails True (user_item_key ds userID)
       [SetValue UserFieldLastHeartbeat (MarshalDynamoDBAttributeValue now)] t)"

definition DU_Get :: "ddb_service \<Rightarrow> bool \<Rightarrow> gostring \<Rightarrow> ddb_item list \<Rightarrow> (User, ErrorCode) outcome" where
  "DU_Get ds fails userID t =
     (if fails then Err ErrUnexpectedDynamoDB
      else let items = filter (has_item_key (user_item_key ds userID)) t in
        if length items = 0 then Err RecordNotFound
        else if length items \<noteq> 1 then Err ErrUnexpectedDynamoDB
        else case user_fromDynamoMap ds (hd items) of
               None \<Rightarrow> Err ErrUnexpectedDynamoDB
             | Some result \<Rightarrow> Ok result)"

subsection \<open>Stored times\<close>

definition time_ok :: "int \<Rightarrow> bool" where
  "time_ok t \<longleftrightarrow> int_range 64 (UnixMilli t)"

definition ms_time :: "int \<Rightarrow> int" where
  "ms_time t = (if UnixMilli t = 0 then zero_time else UnixMilli t * 1000000)"

lemma show_nat_0: "show_nat 0 = ''0''"
  by code_simp

lemma FormatInt_0: "FormatInt i = ''0'' \<longleftrightarrow> i = 0"
proof
  assume a: "FormatInt i = ''0''"
  then have i: "0 \<le> i" by (auto simp: FormatInt_def split: if_splits)
  then have "FormatUint (nat i) = FormatUint 0" using a by (simp add: FormatInt_def FormatUint_def show_nat_0)
  then have "Some (nat i) = Some 0" using ParseUint_FormatUint [of "nat i" "nat i"] ParseUint_FormatUint [of 0 "nat i"] by simp
  then show "i = 0" using i by simp
qed (simp add: FormatInt_def show_nat_0)

text \<open>Reading back what was stored.\<close>

lemma unmarshal_marshal:
  "time_ok t \<Longrightarrow> UnmarshalDynamoDBAttributeValue (MarshalDynamoDBAttributeValue t) = Ok (ms_time t)"
  by (simp add: MarshalDynamoDBAttributeValue_def fromDynamoNumber_def ms_time_def FormatInt_0 ParseInt_FormatInt time_ok_def)

text \<open>A stored time is read back without an error, cut to whole milliseconds; only the first
  millisecond of 1970 is read back as the zero time.\<close>

theorem time_roundtrip:
  assumes "time_ok t" "UnixMilli t \<noteq> 0"
  shows "\<exists>t'. UnmarshalDynamoDBAttributeValue (MarshalDynamoDBAttributeValue t) = Ok t' \<and> t' \<le> t \<and> t < t' + 1000000"
  using unmarshal_marshal [OF assms(1)] assms(2) by (auto simp: ms_time_def UnixMilli_def)

theorem time_roundtrip_witness:
  "\<exists>t'. UnmarshalDynamoDBAttributeValue (MarshalDynamoDBAttributeValue 1500000) = Ok t' \<and> t' \<le> 1500000 \<and> 1500000 < t' + 1000000"
  by (rule time_roundtrip) (simp_all add: time_ok_def UnixMilli_def int_range_def)

subsection \<open>Well-typed items\<close>

datatype av_type = TyS | TyN

fun type_of_av :: "AttributeValue \<Rightarrow> av_type" where
  "type_of_av (AvS _) = TyS"
| "type_of_av (AvN _) = TyN"

text \<open>
  The type each attribute of an active connection has in the row struct; the table itself
  declares only the key attributes, with the same types.
\<close>

definition active_schema :: "(gostring \<times> av_type) list" where
  "active_schema = zip active_fields [TyS, TyS, TyS, TyN, TyN, TyN, TyN, TyN, TyN]"

definition item_typed :: "ddb_item \<Rightarrow> bool" where
  "item_typed it \<longleftrightarrow> (\<forall>f v. gm_get it f = Some v \<longrightarrow> map_of active_schema f = Some (type_of_av v))"

fun set_typed :: "ddb_set \<Rightarrow> bool" where
  "set_typed (SetValue f v) \<longleftrightarrow> map_of active_schema f = Some (type_of_av v)"
| "set_typed (SetIfNotExists f v) \<longleftrightarrow> map_of active_schema f = Some (type_of_av v)"

lemma schema_type [simp]:
  "map_of active_schema FieldUserID = Some TyS" "map_of active_schema FieldInstanceID = Some TyS"
  "map_of active_schema FieldHolderID = Some TyS" "map_of active_schema FieldConnectionType = Some TyN"
  "map_of active_schema FieldStatus = Some TyN" "map_of active_schema FieldConnectedAt = Some TyN"
  "map_of active_schema FieldLastHeartbeat = Some TyN" "map_of active_schema FieldTTL = Some TyN"
  "map_of active_schema FieldTTLSeconds = Some TyN"
  by (simp_all add: active_schema_def active_fields_def field_defs)

lemma item_typed_set: "\<lbrakk>item_typed old; item_typed it; set_typed s\<rbrakk> \<Longrightarrow> item_typed (apply_set old s it)"
  by (cases s) (auto simp: item_typed_def split: option.splits if_splits)

lemma item_typed_sets: "\<lbrakk>item_typed it; list_all set_typed sets\<rbrakk> \<Longrightarrow> item_typed (apply_sets sets it)"
proof -
  have "\<lbrakk>item_typed it'; list_all set_typed sets\<rbrakk> \<Longrightarrow> item_typed (fold (apply_set it) sets it')" if "item_typed it" for it'
    using that by (induction sets arbitrary: it') (simp_all add: item_typed_set)
  then show "\<lbrakk>item_typed it; list_all set_typed sets\<rbrakk> \<Longrightarrow> item_typed (apply_sets sets it)"
    unfolding apply_sets_def by blast
qed

lemma UpdateItem_typed:
  assumes "list_all item_typed t" "list_all set_typed sets" "item_typed key"
  shows "list_all item_typed (snd (UpdateItem ds fails mustExist key sets t))"
  using assms by (auto simp: UpdateItem_def list_all_iff item_typed_sets split: option.split)

lemma documentedD:
  assumes "ddb_documented ds"
  shows "dsString ds s = AvS s" "dsToString ds (AvS s) = Some s" "dsInt ds i = AvN (FormatInt i)"
    and "int_range 8 i \<Longrightarrow> dsToInt8 ds (AvN (FormatInt i)) = Some i"
    and "int_range 64 i \<Longrightarrow> int_range 64 j \<Longrightarrow> dsLess ds (AvN (FormatInt i)) (AvN (FormatInt j)) \<longleftrightarrow> i < j"
    and "dsKeyOk ds (AvS s) \<longleftrightarrow> s \<noteq> []"
    and "\<not> dsGreater ds (AvN n) (dsTime ds t)"
proof -
  note d = assms [unfolded ddb_documented_def]
  show "dsString ds s = AvS s" "dsToString ds (AvS s) = Some s" by (rule d [THEN conjunct1, THEN spec, THEN conjunct1] d [THEN conjunct1, THEN spec, THEN conjunct2])+
  note d = d [THEN conjunct2]
  show "dsInt ds i = AvN (FormatInt i)" by (rule d [THEN conjunct1, THEN spec])
  note d = d [THEN conjunct2]
  show "int_range 8 i \<Longrightarrow> dsToInt8 ds (AvN (FormatInt i)) = Some i" by (rule d [THEN conjunct1, THEN spec, THEN mp])
  note d = d [THEN conjunct2]
  obtain z where z: "dsTime ds t = AvS z" using d [THEN conjunct1, THEN spec, of t] by (rule exE)
  note d = d [THEN conjunct2]
  show "int_range 64 i \<Longrightarrow> int_range 64 j \<Longrightarrow> dsLess ds (AvN (FormatInt i)) (AvN (FormatInt j)) \<longleftrightarrow> i < j"
    by (rule d [THEN conjunct1, THEN spec, THEN spec, THEN mp, THEN conjunct2]) simp
  note d = d [THEN conjunct2]
  show "\<not> dsGreater ds (AvN n) (dsTime ds t)" unfolding z by (rule d [THEN conjunct1, THEN spec, THEN spec, THEN conjunct1])
  show "dsKeyOk ds (AvS s) \<longleftrightarrow> s \<noteq> []" by (rule d [THEN conjunct2, THEN spec])
qed

lemma type_encoded [simp]:
  "type_of_av (MarshalDynamoDBAttributeValue t) = TyN"
  "ddb_documented ds \<Longrightarrow> type_of_av (dsString ds s) = TyS"
  "ddb_documented ds \<Longrightarrow> type_of_av (dsInt ds i) = TyN"
  by (simp_all add: MarshalDynamoDBAttributeValue_def documentedD)

lemma updates_typed:
  assumes "ddb_documented ds"
  shows "list_all set_typed (create_update ds now h ct)" "list_all set_typed (heartbeat_update ds now)"
    and "item_typed (active_item_key ds u i)"
  using assms by (auto simp: create_update_def heartbeat_update_def active_item_key_def item_typed_def gm_get_def
      Let_def split: if_splits)

text \<open>The statements of \<open>Repo\<close> on this back end; a fault of the database fails the request.\<close>

fun da_apply :: "ddb_service \<Rightarrow> db_fault \<Rightarrow> ac_op \<Rightarrow> da_world \<Rightarrow> (unit, ErrorCode) outcome \<times> da_world" where
  "da_apply ds f (OpAdd c now u i ct) (t, s) = apsnd (\<lambda>t. (t, s)) (DA_AddConnection ds c now (f = DbFail) u i ct t)"
| "da_apply ds f (OpStatus u i st) (t, s) = apsnd (\<lambda>t. (t, s)) (DA_UpdateStatus ds (f = DbFail) u i st t)"
| "da_apply ds f (OpTransferring u i) (t, s) = apsnd (\<lambda>t. (t, s)) (DA_UpdateStatusTransferring ds (f = DbFail) u i t)"
| "da_apply ds f (OpHeartBeat now u i) (t, s) = apsnd (\<lambda>t. (t, s)) (DA_UpdateHeartBeat ds now (f = DbFail) u i t)"
| "da_apply ds f (OpRemove u i) (t, s) = apsnd (\<lambda>t. (t, s)) (DA_RemoveConnection ds (f = DbFail) u i t)"
| "da_apply ds f (OpCleanUp now) w = DA_CleanUpExpiredConnections ds now (f = DbFail) w"

definition da_run :: "ddb_service \<Rightarrow> (db_fault \<times> ac_op) list \<Rightarrow> da_world \<Rightarrow> da_world" where
  "da_run ds ops w = fold (\<lambda>(f, op) w. snd (da_apply ds f op w)) ops w"

lemma da_client_keeps: "da_client (t, s) reqs = (r, w') \<Longrightarrow> \<exists>ks. set ks \<subseteq> set reqs \<and> fst w' = delete_keys ks t"
  unfolding da_client_def
  by (auto simp: delete_keys_def split: list.splits option.splits
      intro: exI [of _ "[]"] exI [of _ reqs] dest: in_set_takeD)

lemma da_client_left: "da_client w reqs = (Some left, w') \<Longrightarrow> set left \<subseteq> set reqs"
  by (cases w) (auto simp: da_client_def dest: in_set_dropD split: list.splits option.splits)

lemma cleanup_subset:
  assumes "DA_CleanUpExpiredConnections ds now sf w = (r, w')"
  shows "set (fst w') \<subseteq> set (fst w)"
proof -
  have keep: "set (fst w') \<subseteq> set (fst w)" if "RecursiveBatchWriteItem da_client keys 2 w = (x, w')" for keys x w'
  proof (rule batch_write_keeps [where P = "\<lambda>v. set (fst v) \<subseteq> set (fst w)", OF _ _ that])
    fix v reqs r v' assume a: "set (fst v) \<subseteq> set (fst w)" "set reqs \<subseteq> set keys" "da_client v reqs = (r, v')"
    then obtain ks where "fst v' = delete_keys ks (fst v)" using da_client_keeps [of "fst v" "snd v" reqs r v'] by auto
    then show "set (fst v') \<subseteq> set (fst w) \<and> (\<forall>left. r = Some left \<longrightarrow> set left \<subseteq> set keys)"
      using a da_client_left by (fastforce simp: delete_keys_def)
  qed simp
  show ?thesis using assms keep
    by (auto simp: DA_CleanUpExpiredConnections_def split: if_splits option.splits prod.splits)
qed

text \<open>What the updating statements do to the table is what \<open>UpdateItem\<close> does.\<close>

lemma update_tables:
  "snd (DA_AddConnection ds c now fails u i ct t) = snd (UpdateItem ds fails False (active_item_key ds u i) (create_update ds now c ct) t)"
  "snd (DA_UpdateStatus ds fails u i st t) = snd (UpdateItem ds fails True (active_item_key ds u i)
     [SetValue FieldStatus (dsInt ds (status_num st))] t)"
  "snd (DA_UpdateStatusTransferring ds fails u i t) = snd (UpdateItem ds fails True (active_item_key ds u i)
     [SetValue FieldStatus (dsInt ds (status_num WsStatusTransferring)), SetValue FieldHolderID (dsString ds [])] t)"
  "snd (DA_UpdateHeartBeat ds now fails u i t) = snd (UpdateItem ds fails True (active_item_key ds u i) (heartbeat_update ds now) t)"
  by (simp_all add: DA_AddConnection_def DA_Create_def DA_UpdateStatus_def DA_UpdateStatusTransferring_def DA_UpdateHeartBeat_def
      split: prod.split update_result.split)

lemma da_apply_typed:
  assumes "ddb_documented ds" "list_all item_typed (fst w)"
  shows "list_all item_typed (fst (snd (da_apply ds f op w)))"
proof -
  obtain t s where w: "w = (t, s)" by (cases w)
  show ?thesis
  proof (cases op)
    case (OpCleanUp now)
    obtain r w' where "DA_CleanUpExpiredConnections ds now (f = DbFail) w = (r, w')"
      by (cases "DA_CleanUpExpiredConnections ds now (f = DbFail) w")
    then show ?thesis using cleanup_subset [of ds now "f = DbFail" w r w'] assms(2) OpCleanUp by (auto simp: list_all_iff)
  next
    case (OpRemove u i)
    then show ?thesis using assms(2) w by (auto simp: DA_RemoveConnection_def DeleteItem_def list_all_iff split: prod.splits if_splits)
  next
    case (OpAdd c now u i ct)
    then show ?thesis using UpdateItem_typed [OF _ updates_typed(1,3) [OF assms(1)]] assms w by (simp add: update_tables)
  next
    case (OpStatus u i st)
    then show ?thesis using UpdateItem_typed [OF _ _ updates_typed(3) [OF assms(1)]] assms w by (simp add: update_tables)
  next
    case (OpTransferring u i)
    then show ?thesis using UpdateItem_typed [OF _ _ updates_typed(3) [OF assms(1)]] assms w by (simp add: update_tables)
  next
    case (OpHeartBeat now u i)
    then show ?thesis using UpdateItem_typed [OF _ updates_typed(2,3) [OF assms(1)]] assms w by (simp add: update_tables)
  qed
qed

lemma da_run_typed: "\<lbrakk>ddb_documented ds; list_all item_typed (fst w)\<rbrakk> \<Longrightarrow> list_all item_typed (fst (da_run ds ops w))"
proof (induction ops arbitrary: w)
  case (Cons p ops)
  then show ?case using da_apply_typed [of ds w "fst p" "snd p"] by (simp add: da_run_def split_def)
qed (simp add: da_run_def)

text \<open>C26: Every item that any sequence of statements leaves in the table is well typed, failed and
  partly carried out ones included: it has only the attributes of the row struct, each with the
  type it has there; names and ids are strings, enumerations and all times are numbers.\<close>

theorem ddb_items_typed:
  assumes "ddb_documented ds" "it \<in> set (fst (da_run ds ops ([], script)))" "gm_get it f = Some v"
  shows "map_of active_schema f = Some (type_of_av v)"
  using da_run_typed [OF assms(1), of "([], script)" ops] assms(2,3) by (auto simp: list_all_iff item_typed_def)

lemma typed_not_recent: "\<lbrakk>ddb_documented ds; item_typed it\<rbrakk> \<Longrightarrow> \<not> recent ds cutoff now it"
proof -
  assume a: "ddb_documented ds" "item_typed it"
  show ?thesis
  proof (cases "gm_get it FieldLastHeartbeat")
    case (Some v)
    then have "type_of_av v = TyN" using a(2) schema_type(7) unfolding item_typed_def by fastforce
    then obtain n where "v = AvN n" by (cases v) simp_all
    then show ?thesis using Some documentedD(7) [OF a(1)] by (simp add: recent_def)
  qed (simp add: recent_def)
qed

text \<open>The listings and counts of this back end never see a connection: the stored heartbeat is
  a number and the filter compares it with a string, which the service answers with false.
  Whatever was written before, a user has no connections and the total is zero.\<close>

theorem ddb_listings_empty:
  assumes "ddb_documented ds" "t = fst (da_run ds ops ([], script))"
  shows "DA_GetActiveConnections ds cutoff now False u t = Ok [] \<and>
    DA_CountActive ds cutoff now False u t = Ok 0 \<and> DA_CountTotalActive ds cutoff now False t = Ok 0"
proof -
  have "\<not> recent ds cutoff now it" if "it \<in> set t" for it
    using that da_run_typed [OF assms(1), of "([], script)" ops] assms typed_not_recent
    by (auto simp: list_all_iff)
  then have "filter (\<lambda>it. of_user ds u it \<and> recent ds cutoff now it) t = []" "filter (recent ds cutoff now) t = []"
    by (auto simp: filter_empty_conv)
  then show ?thesis by (simp add: DA_GetActiveConnections_def DA_CountActive_def DA_CountTotalActive_def)
qed

subsection \<open>Simulation of the Postgres statements\<close>

definition row_ok :: "ActiveConnection \<Rightarrow> bool" where
  "row_ok r \<longleftrightarrow> time_ok (acConnectedAt r) \<and> time_ok (acLastHeartbeat r) \<and> time_ok (acTTL r) \<and>
     int_range 8 (core_num (acConnectionType r)) \<and> core_of_num (core_num (acConnectionType r)) = acConnectionType r \<and>
     int_range 8 (status_num (acStatus r)) \<and> status_of_num (status_num (acStatus r)) = acStatus r"

text \<open>An item that stores a row.\<close>

definition stores :: "ddb_service \<Rightarrow> ddb_item \<Rightarrow> ActiveConnection \<Rightarrow> bool" where
  "stores ds it r \<longleftrightarrow>
     gm_get it FieldUserID = Some (AvS (acUserID r)) \<and>
     gm_get it FieldInstanceID = Some (AvS (acInstanceID r)) \<and>
     gm_get it FieldHolderID = Some (AvS (acHolderID r)) \<and>
     gm_get it FieldConnectionType = Some (AvN (FormatInt (core_num (acConnectionType r)))) \<and>
     gm_get it FieldStatus = Some (AvN (FormatInt (status_num (acStatus r)))) \<and>
     gm_get it FieldConnectedAt = Some (MarshalDynamoDBAttributeValue (acConnectedAt r)) \<and>
     gm_get it FieldLastHeartbeat = Some (MarshalDynamoDBAttributeValue (acLastHeartbeat r)) \<and>
     gm_get it FieldTTL = Some (MarshalDynamoDBAttributeValue (acTTL r)) \<and> row_ok r"

definition ms_row :: "ActiveConnection \<Rightarrow> ActiveConnection" where
  "ms_row r = r\<lparr>acConnectedAt := ms_time (acConnectedAt r), acLastHeartbeat := ms_time (acLastHeartbeat r), acTTL := ms_time (acTTL r)\<rparr>"

lemma stores_decodes: "\<lbrakk>ddb_documented ds; stores ds it r\<rbrakk> \<Longrightarrow> active_fromDynamoMap ds it = Some (ms_row r)"
  by (simp add: stores_def row_ok_def active_fromDynamoMap_def read_string_def read_int8_def read_time_def documentedD
      unmarshal_marshal ms_row_def)

lemma stores_key:
  "\<lbrakk>ddb_documented ds; stores ds it r\<rbrakk> \<Longrightarrow> has_item_key (active_item_key ds u i) it \<longleftrightarrow> ac_key r = (u, i)"
  by (auto simp: stores_def has_item_key_def active_item_key_def documentedD ac_key_def)

lemma key_accepted: "\<lbrakk>ddb_documented ds; u \<noteq> []; i \<noteq> []\<rbrakk> \<Longrightarrow> list_all (dsKeyOk ds \<circ> snd) (active_item_key ds u i)"
  by (simp add: active_item_key_def documentedD)

text \<open>Lists that correspond element by element.\<close>

lemma sim_map:
  "\<lbrakk>list_all2 R t rows; \<And>it r. R it r \<Longrightarrow> P it \<longleftrightarrow> Q r; \<And>it r. R it r \<Longrightarrow> R (g it) (f r)\<rbrakk> \<Longrightarrow>
   list_all2 R (map (\<lambda>it. if P it then g it else it) t) (map (\<lambda>r. if Q r then f r else r) rows)"
  by (induction rule: list_all2_induct) auto

lemma sim_filter:
  "\<lbrakk>list_all2 R t rows; \<And>it r. R it r \<Longrightarrow> P it \<longleftrightarrow> Q r\<rbrakk> \<Longrightarrow> list_all2 R (filter P t) (filter Q rows)"
  by (induction rule: list_all2_induct) auto

lemma sim_find:
  "\<lbrakk>list_all2 R t rows; \<And>it r. R it r \<Longrightarrow> P it \<longleftrightarrow> Q r\<rbrakk> \<Longrightarrow> rel_option R (find P t) (find Q rows)"
  by (induction rule: list_all2_induct) auto

lemma sim_member: "\<lbrakk>list_all2 R t rows; it \<in> set t\<rbrakk> \<Longrightarrow> \<exists>r \<in> set rows. R it r"
  by (induction rule: list_all2_induct) auto

lemma find_ac_row:
  assumes "ddb_documented ds" "list_all2 (stores ds) t rows"
  shows "rel_option (stores ds) (find (has_item_key (active_item_key ds u i)) t) (ac_row rows u i)"
  unfolding ac_row_def by (rule sim_find [OF assms(2)]) (rule stores_key [OF assms(1)])

lemma find_ac_row_None:
  assumes "ddb_documented ds" "list_all2 (stores ds) t rows"
  shows "find (has_item_key (active_item_key ds u i)) t = None \<longleftrightarrow> (\<forall>r \<in> set rows. ac_key r \<noteq> (u, i))"
proof -
  have "find (has_item_key (active_item_key ds u i)) t = None \<longleftrightarrow> ac_row rows u i = None"
    using find_ac_row [OF assms, of u i] by (cases "ac_row rows u i") (auto simp: option_rel_Some2)
  then show ?thesis by (auto simp: ac_row_def find_None_iff)
qed

definition core_ok :: "WsCoreType \<Rightarrow> bool" where
  "core_ok ct \<longleftrightarrow> int_range 8 (core_num ct) \<and> core_of_num (core_num ct) = ct"

definition status_ok :: "WsStatus \<Rightarrow> bool" where
  "status_ok st \<longleftrightarrow> int_range 8 (status_num st) \<and> status_of_num (status_num st) = st"

lemma status_ok_constants [simp]: "status_ok WsStatusConnected" "status_ok WsStatusTempDisconnected" "status_ok WsStatusTransferring"
  by (simp_all add: status_ok_def status_of_num_def int_range_def)

text \<open>
  The statements the two back ends agree on: ids that can be a key, times whose milliseconds
  fit, proper enumeration values.  The clean-up is treated below.
\<close>

fun sane_op :: "ac_op \<Rightarrow> bool" where
  "sane_op (OpAdd c now u i ct) \<longleftrightarrow> u \<noteq> [] \<and> i \<noteq> [] \<and> time_ok now \<and> time_ok (now + heartbeat_ttl) \<and> core_ok ct"
| "sane_op (OpStatus u i st) \<longleftrightarrow> u \<noteq> [] \<and> i \<noteq> [] \<and> status_ok st"
| "sane_op (OpTransferring u i) \<longleftrightarrow> u \<noteq> [] \<and> i \<noteq> []"
| "sane_op (OpHeartBeat now u i) \<longleftrightarrow> u \<noteq> [] \<and> i \<noteq> [] \<and> time_ok now \<and> time_ok (now + heartbeat_ttl)"
| "sane_op (OpRemove u i) \<longleftrightarrow> u \<noteq> [] \<and> i \<noteq> []"
| "sane_op (OpCleanUp now) \<longleftrightarrow> False"

abbreviation new_row :: "gostring \<Rightarrow> int \<Rightarrow> gostring \<Rightarrow> gostring \<Rightarrow> WsCoreType \<Rightarrow> ActiveConnection" where
  "new_row c now u i ct \<equiv> \<lparr>acUserID = u, acInstanceID = i, acHolderID = c, acConnectionType = ct, acStatus = WsStatusConnected,
     acConnectedAt = now, acLastHeartbeat = now, acTTL = now + heartbeat_ttl\<rparr>"

lemmas stores_update = stores_def apply_sets_def field_defs documentedD row_ok_def

lemma stores_status:
  "\<lbrakk>ddb_documented ds; stores ds it r; status_ok st\<rbrakk> \<Longrightarrow>
   stores ds (apply_sets [SetValue FieldStatus (dsInt ds (status_num st))] it) (r\<lparr>acStatus := st\<rparr>)"
  by (simp add: stores_update status_ok_def)

lemma stores_transferring:
  "\<lbrakk>ddb_documented ds; stores ds it r\<rbrakk> \<Longrightarrow>
   stores ds (apply_sets [SetValue FieldStatus (dsInt ds (status_num WsStatusTransferring)), SetValue FieldHolderID (dsString ds [])] it)
     (r\<lparr>acStatus := WsStatusTransferring, acHolderID := []\<rparr>)"
  using status_ok_constants(3) by (simp add: stores_update status_ok_def)

lemma stores_heartbeat:
  "\<lbrakk>ddb_documented ds; stores ds it r; time_ok now; time_ok (now + heartbeat_ttl)\<rbrakk> \<Longrightarrow>
   stores ds (apply_sets (heartbeat_update ds now) it) (r\<lparr>acLastHeartbeat := now, acTTL := now + heartbeat_ttl\<rparr>)"
  by (simp add: stores_update heartbeat_update_def Let_def)

lemma stores_reconnect:
  "\<lbrakk>ddb_documented ds; stores ds it r; time_ok now; time_ok (now + heartbeat_ttl); core_ok ct\<rbrakk> \<Longrightarrow>
   stores ds (apply_sets (create_update ds now c ct) it)
     (r\<lparr>acHolderID := c, acConnectionType := ct, acStatus := WsStatusConnected, acLastHeartbeat := now, acTTL := now + heartbeat_ttl\<rparr>)"
  using status_ok_constants(1) by (simp add: stores_update create_update_def Let_def core_ok_def status_ok_def)

lemma stores_new:
  "\<lbrakk>ddb_documented ds; time_ok now; time_ok (now + heartbeat_ttl); core_ok ct\<rbrakk> \<Longrightarrow>
   stores ds (apply_sets (create_update ds now c ct) (active_item_key ds u i)) (new_row c now u i ct)"
  using status_ok_constants(1)
  by (simp add: stores_update create_update_def active_item_key_def gm_get_def gm_put_def Let_def core_ok_def status_ok_def)

lemma sim_update:
  assumes "ddb_documented ds" "list_all2 (stores ds) t rows" "u \<noteq> []" "i \<noteq> []"
    and "\<And>it r. stores ds it r \<Longrightarrow> stores ds (apply_sets sets it) (f r)"
    and "UpdateItem ds fails True (active_item_key ds u i) sets t = (r, t')"
  shows "update_error r = (if fails then Err ErrUnexpectedDynamoDB else Ok ()) \<and>
    list_all2 (stores ds) t' (if fails then rows else ac_where u i f rows)"
proof (cases "fails \<or> find (has_item_key (active_item_key ds u i)) t = None")
  case True
  have "ac_where u i f rows = rows" if "find (has_item_key (active_item_key ds u i)) t = None"
    using find_ac_row_None [OF assms(1,2), of u i] that unfolding ac_where_def by (auto simp: ac_key_def intro!: map_idI)
  then show ?thesis using True assms(2,6) key_accepted [OF assms(1,3,4)]
    by (auto simp: UpdateItem_def split: if_splits option.splits)
next
  case False
  then have "t' = map (\<lambda>it. if has_item_key (active_item_key ds u i) it then apply_sets sets it else it) t" "\<exists>it. r = Updated it"
    using assms(6) key_accepted [OF assms(1,3,4)] by (auto simp: UpdateItem_def split: option.splits)
  then show ?thesis using False sim_map [OF assms(2) stores_key [OF assms(1), of _ _ u i] assms(5)]
    by (auto simp: ac_where_def ac_key_def)
qed

lemma sim_create:
  assumes "ddb_documented ds" "list_all2 (stores ds) t rows" "sane_op (OpAdd c now u i ct)"
    and "DA_AddConnection ds c now False u i ct t = (r, t')"
  shows "r = Ok () \<and> list_all2 (stores ds) t' (ac_upsert (new_row c now u i ct) rows)"
proof -
  have sane: "u \<noteq> []" "i \<noteq> []" "time_ok now" "time_ok (now + heartbeat_ttl)" "core_ok ct" using assms(3) by simp_all
  note keys = key_accepted [OF assms(1) sane(1,2)]
  let ?K = "active_item_key ds u i" and ?sets = "create_update ds now c ct"
  let ?g = "\<lambda>r. r\<lparr>acHolderID := c, acConnectionType := ct, acStatus := WsStatusConnected, acLastHeartbeat := now, acTTL := now + heartbeat_ttl\<rparr>"
  have ex: "(\<exists>r \<in> set rows. ac_key r = (u, i)) \<longleftrightarrow> find (has_item_key ?K) t \<noteq> None"
    by (subst find_ac_row_None [OF assms(1,2)]) blast
  show ?thesis
  proof (cases "find (has_item_key ?K) t")
    case None
    then show ?thesis using assms(2,4) keys ex stores_new [OF assms(1) sane(3-5), of c u i]
      by (auto simp: DA_AddConnection_def DA_Create_def UpdateItem_def stores_decodes [OF assms(1)] ac_upsert_def ac_key_def
          intro: list_all2_appendI)
  next
    case (Some it)
    obtain r0 where "stores ds it r0" using find_ac_row [OF assms(1,2), of u i] Some by (auto simp: option_rel_Some1)
    then have "active_fromDynamoMap ds (apply_sets ?sets it) \<noteq> None"
      using stores_decodes [OF assms(1) stores_reconnect [OF assms(1) _ sane(3-5)]] by simp
    moreover have "list_all2 (stores ds) (map (\<lambda>it. if has_item_key ?K it then apply_sets ?sets it else it) t)
        (map (\<lambda>r. if ac_key r = (u, i) then ?g r else r) rows)"
      by (rule sim_map [OF assms(2) stores_key [OF assms(1)] stores_reconnect [OF assms(1) _ sane(3-5)]])
    ultimately show ?thesis using assms(4) keys ex Some
      by (auto simp: DA_AddConnection_def DA_Create_def UpdateItem_def ac_upsert_def ac_key_def
          cong: if_cong)
  qed
qed

lemma sim_apply:
  assumes "ddb_documented ds" "list_all2 (stores ds) (fst w) rows" "sane_op op"
  shows "list_all2 (stores ds) (fst (snd (da_apply ds f op w))) (snd (ac_apply f op rows)) \<and>
    (fst (da_apply ds f op w) = Ok () \<longleftrightarrow> f \<noteq> DbFail)"
proof -
  obtain t s where w: "w = (t, s)" by (cases w)
  have t: "list_all2 (stores ds) t rows" using assms(2) w by simp
  note upd = sim_update [OF assms(1) t, where fails = "f = DbFail"]
  show ?thesis
  proof (cases op)
    case (OpAdd c now u i ct)
    obtain r t' where d: "DA_AddConnection ds c now (f = DbFail) u i ct t = (r, t')" by (cases "DA_AddConnection ds c now (f = DbFail) u i ct t")
    show ?thesis
    proof (cases "f = DbFail")
      case False
      then show ?thesis using sim_create [OF assms(1) t, of c now u i ct r t'] assms(3) OpAdd w d
        by (simp add: AC_AddConnection_def pg_exec_def)
    next
      case True
      then have "t' = t" "r = Err ErrUnexpectedDynamoDB" using d by (auto simp: DA_AddConnection_def DA_Create_def UpdateItem_def)
      then show ?thesis using True OpAdd w d t by (simp add: AC_AddConnection_def pg_exec_def)
    qed
  next
    case (OpStatus u i st)
    obtain r t' where d: "UpdateItem ds (f = DbFail) True (active_item_key ds u i) [SetValue FieldStatus (dsInt ds (status_num st))] t = (r, t')"
      by (metis surj_pair)
    have sane: "u \<noteq> []" "i \<noteq> []" "status_ok st" using assms(3) OpStatus by simp_all
    show ?thesis using upd [OF sane(1,2) stores_status [OF assms(1) _ sane(3)] d] d OpStatus w
      by (auto simp: DA_UpdateStatus_def AC_UpdateStatus_def pg_exec_def)
  next
    case (OpTransferring u i)
    obtain r t' where d: "UpdateItem ds (f = DbFail) True (active_item_key ds u i)
        [SetValue FieldStatus (dsInt ds (status_num WsStatusTransferring)), SetValue FieldHolderID (dsString ds [])] t = (r, t')"
      by (metis surj_pair)
    have sane: "u \<noteq> []" "i \<noteq> []" using assms(3) OpTransferring by simp_all
    show ?thesis using upd [OF sane stores_transferring [OF assms(1)] d] d OpTransferring w
      by (auto simp: DA_UpdateStatusTransferring_def AC_UpdateStatusTransferring_def pg_exec_def)
  next
    case (OpHeartBeat now u i)
    obtain r t' where d: "UpdateItem ds (f = DbFail) True (active_item_key ds u i) (heartbeat_update ds now) t = (r, t')"
      by (metis surj_pair)
    have sane: "u \<noteq> []" "i \<noteq> []" "time_ok now" "time_ok (now + heartbeat_ttl)" using assms(3) OpHeartBeat by simp_all
    show ?thesis using upd [OF sane(1,2) stores_heartbeat [OF assms(1) _ sane(3,4)] d] d OpHeartBeat w
      by (auto simp: DA_UpdateHeartBeat_def AC_UpdateHeartBeat_def pg_exec_def)
  next
    case (OpRemove u i)
    have "list_all2 (stores ds) (filter (\<lambda>it. \<not> has_item_key (active_item_key ds u i) it) t)
        (filter (\<lambda>r. \<not> (acUserID r = u \<and> acInstanceID r = i)) rows)"
      by (rule sim_filter [OF t]) (simp add: stores_key [OF assms(1)] ac_key_def)
    then show ?thesis using OpRemove assms(3) w t key_accepted [OF assms(1), of u i]
      by (auto simp: DA_RemoveConnection_def DeleteItem_def AC_RemoveConnection_def pg_exec_def)
  qed (use assms(3) in simp)
qed

lemma sim_run:
  assumes "ddb_documented ds"
  shows "\<lbrakk>list_all2 (stores ds) (fst w) rows; \<forall>(f, op) \<in> set ops. sane_op op\<rbrakk> \<Longrightarrow>
    list_all2 (stores ds) (fst (da_run ds ops w)) (fold (\<lambda>(f, op) t. snd (ac_apply f op t)) ops rows)"
proof (induction ops arbitrary: w rows)
  case (Cons p ops)
  obtain f op where p: "p = (f, op)" by (cases p)
  have "list_all2 (stores ds) (fst (snd (da_apply ds f op w))) (snd (ac_apply f op rows))"
    using sim_apply [OF assms Cons.prems(1), of op f] Cons.prems(2) p by auto
  then show ?case using Cons.IH Cons.prems(2) by (simp add: da_run_def p)
qed (simp add: da_run_def)

text \<open>C23: The two back ends agree on sessions: after the same sequence of statements, with failures
  in the same places, looking a session up in DynamoDB gives the row that Postgres holds,
  with its times in whole milliseconds, unless its heartbeat is older than the cutoff; and
  it is not found if Postgres has no row.  In particular the time of the first connect
  survives reconnects in both.\<close>

theorem ddb_simulates_postgres:
  assumes "ddb_documented ds" "\<forall>(f, op) \<in> set ops. sane_op op" "u \<noteq> []" "i \<noteq> []"
  shows "DA_GetInstanceConnection ds cutoff now False u i (fst (da_run ds ops ([], script))) =
    (case ac_row (fold (\<lambda>(f, op) t. snd (ac_apply f op t)) ops []) u i of
       None \<Rightarrow> Err RecordNotFound
     | Some r \<Rightarrow> if ms_time (acLastHeartbeat r) < now - cutoff then Err RecordNotFound else Ok (ms_row r))"
proof -
  have "list_all2 (stores ds) (fst (da_run ds ops ([], script))) (fold (\<lambda>(f, op) t. snd (ac_apply f op t)) ops [])"
    by (rule sim_run [OF assms(1) _ assms(2)]) simp
  from find_ac_row [OF assms(1) this, of u i] show ?thesis
    using key_accepted [OF assms(1,3,4)]
    by (auto simp: DA_GetInstanceConnection_def stores_decodes [OF assms(1)] ms_row_def option_rel_Some1 split: option.splits)
qed

subsection \<open>Clean-up\<close>

definition da_gone :: "da_world \<Rightarrow> ddb_key set" where
  "da_gone w = {k. \<not> (\<exists>it \<in> set (fst w). has_item_key k it)}"

lemma set_minus_drop: "set reqs - set (drop n reqs) \<subseteq> set (take n reqs)"
  by (metis Diff_subset_conv append_take_drop_id set_append sup_commute order_refl)

lemma delete_keys_gone: "set keys \<subseteq> da_gone (delete_keys keys t, s)"
  by (auto simp: da_gone_def delete_keys_def)

interpretation daw: batch_writer da_client da_gone
proof unfold_locales
  fix w reqs left w'
  assume a: "da_client w reqs = (Some left, w')"
  then show "set left \<subseteq> set reqs" by (rule da_client_left)
  have "\<exists>ks. fst w' = delete_keys ks (fst w) \<and> set reqs - set left \<subseteq> set ks"
    using a set_minus_drop by (cases w) (fastforce simp: da_client_def split: list.splits option.splits)
  then obtain ks where "fst w' = delete_keys ks (fst w)" "set reqs - set left \<subseteq> set ks" by blast
  then show "set reqs - set left \<subseteq> da_gone w'" using delete_keys_gone [of ks "fst w" "snd w'"] by (cases w') auto
next
  fix w reqs r w'
  assume "da_client w reqs = (r, w')"
  then obtain ks where "fst w' = delete_keys ks (fst w)" using da_client_keeps [of "fst w" "snd w" reqs r w'] by auto
  then show "da_gone w \<subseteq> da_gone w'" by (auto simp: da_gone_def delete_keys_def)
qed

lemma scanned_keys_stored:
  assumes "ddb_documented ds" "list_all2 (stores ds) t rows"
  shows "scanned_keys ds t = Some (map (\<lambda>r. active_item_key ds (acUserID r) (acInstanceID r)) rows)"
  using assms(2) by (induction rule: list_all2_induct) (simp_all add: stores_def read_string_def documentedD [OF assms(1)])

lemma stores_expired:
  "\<lbrakk>ddb_documented ds; stores ds it r; time_ok now\<rbrakk> \<Longrightarrow> expired_item ds now it \<longleftrightarrow> UnixMilli (acTTL r) < UnixMilli now"
  by (simp add: stores_def row_ok_def expired_item_def MarshalDynamoDBAttributeValue_def documentedD time_ok_def)

lemma cleanup_keeps:
  assumes "\<And>k it. \<lbrakk>k \<in> set keys; it \<in> set t; has_item_key k it\<rbrakk> \<Longrightarrow> P it"
    and "RecursiveBatchWriteItem da_client keys n (t, s) = (x, w')"
  shows "set (fst w') \<subseteq> set t \<and> filter (\<lambda>it. \<not> P it) (fst w') = filter (\<lambda>it. \<not> P it) t"
proof (rule batch_write_keeps [where P = "\<lambda>v. set (fst v) \<subseteq> set t \<and> filter (\<lambda>it. \<not> P it) (fst v) = filter (\<lambda>it. \<not> P it) t", OF _ _ assms(2)])
  fix v reqs r v'
  assume a: "set (fst v) \<subseteq> set t \<and> filter (\<lambda>it. \<not> P it) (fst v) = filter (\<lambda>it. \<not> P it) t"
    "set reqs \<subseteq> set keys" "da_client v reqs = (r, v')"
  obtain ks where ks: "set ks \<subseteq> set reqs" "fst v' = delete_keys ks (fst v)" using da_client_keeps [of "fst v" "snd v" reqs r v'] a(3) by auto
  have "\<not> P it \<longrightarrow> \<not> (\<exists>k \<in> set ks. has_item_key k it)" if "it \<in> set (fst v)" for it
    using that assms(1) ks(1) a(1,2) by blast
  then have "filter (\<lambda>it. \<not> P it) (fst v') = filter (\<lambda>it. \<not> P it) (fst v)"
    unfolding ks(2) delete_keys_def filter_filter by (auto intro: filter_cong)
  then show "(set (fst v') \<subseteq> set t \<and> filter (\<lambda>it. \<not> P it) (fst v') = filter (\<lambda>it. \<not> P it) t) \<and>
      (\<forall>left. r = Some left \<longrightarrow> set left \<subseteq> set keys)"
    using a da_client_left ks(2) by (fastforce simp: delete_keys_def)
qed simp

text \<open>The clean-up removes expired connections only, whatever the batched deletes do; when it
  reports success, exactly the expired ones are gone and the others are untouched.\<close>

theorem ddb_cleanup_exact:
  assumes "ddb_documented ds" "list_all2 (stores ds) t rows" "ac_inv rows" "time_ok now"
    and "DA_CleanUpExpiredConnections ds now scanFails (t, script) = (res, w')"
  shows "filter (\<lambda>it. \<not> expired_item ds now it) (fst w') = filter (\<lambda>it. \<not> expired_item ds now it) t \<and>
    (res = Ok () \<longrightarrow> list_all2 (stores ds) (fst w') (filter (\<lambda>r. \<not> UnixMilli (acTTL r) < UnixMilli now) rows))"
proof -
  let ?exp = "\<lambda>r. UnixMilli (acTTL r) < UnixMilli now" and ?key = "\<lambda>r. active_item_key ds (acUserID r) (acInstanceID r)"
  let ?live = "\<lambda>t. filter (\<lambda>it. \<not> expired_item ds now it) t"
  note exp = stores_expired [OF assms(1) _ assms(4)]
  have live: "list_all2 (stores ds) (?live t) (filter (\<lambda>r. \<not> ?exp r) rows)"
    by (rule sim_filter [OF assms(2)]) (simp add: exp)
  have "list_all2 (stores ds) (filter (expired_item ds now) t) (filter ?exp rows)" by (rule sim_filter [OF assms(2)]) (rule exp)
  then have keys: "scanned_keys ds (filter (expired_item ds now) t) = Some (map ?key (filter ?exp rows))"
    by (rule scanned_keys_stored [OF assms(1)])
  have hit: "expired_item ds now it" if k: "k \<in> set (map ?key (filter ?exp rows))" "it \<in> set t" "has_item_key k it" for k it
  proof -
    obtain r where r: "r \<in> set rows" "?exp r" "k = ?key r" using k(1) by auto
    obtain r' where r': "r' \<in> set rows" "stores ds it r'" using sim_member [OF assms(2) k(2)] by blast
    then have "ac_key r' = ac_key r" using k(3) stores_key [OF assms(1) r'(2)] r(3) by (simp add: ac_key_def)
    then have "r' = r" using assms(3) r(1) r'(1) by (auto simp: ac_inv_def distinct_map dest: inj_onD)
    then show ?thesis using exp [OF r'(2)] r(2) by simp
  qed
  show ?thesis
  proof (cases "scanFails \<or> filter ?exp rows = []")
    case True
    then have "w' = (t, script)" "res = Ok () \<Longrightarrow> filter ?exp rows = []"
      using assms(5) keys by (auto simp: DA_CleanUpExpiredConnections_def split: if_splits)
    then show ?thesis using assms(2) by (auto simp: filter_empty_conv filter_id_conv [THEN iffD2])
  next
    case False
    obtain left failed where b: "RecursiveBatchWriteItem da_client (map ?key (filter ?exp rows)) 2 (t, script) = ((left, failed), w')"
      and ok: "res = Ok () \<Longrightarrow> left = [] \<and> \<not> failed"
      using assms(5) keys False by (auto simp: DA_CleanUpExpiredConnections_def split: prod.splits if_splits)
    have kept: "set (fst w') \<subseteq> set t \<and> ?live (fst w') = ?live t" by (rule cleanup_keeps [OF _ b]) (rule hit)
    have gone: "\<not> expired_item ds now it" if fin: "res = Ok ()" "it \<in> set (fst w')" for it
    proof
      assume e: "expired_item ds now it"
      obtain r where r: "r \<in> set rows" "stores ds it r"
        using fin(2) kept sim_member [OF assms(2)] by blast
      then have "?key r \<in> set (map ?key (filter ?exp rows))" using exp [OF r(2)] e by auto
      then have "?key r \<in> da_gone w'" using daw.batch_write_applied [OF b] ok [OF fin(1)] by auto
      then show False using fin(2) stores_key [OF assms(1) r(2)] by (auto simp: da_gone_def ac_key_def)
    qed
    then have "fst w' = ?live t" if "res = Ok ()" using kept that by (metis filter_True)
    then show ?thesis using kept live by auto
  qed
qed

subsection \<open>Users\<close>

text \<open>The statements on users, on both back ends.\<close>

datatype us_op = UsUpsert int gostring | UsHeartbeat int gostring

fun us_apply :: "db_fault \<Rightarrow> us_op \<Rightarrow> User list \<Rightarrow> User list" where
  "us_apply f (UsUpsert now u) t = snd (User_Upsert now f u t)"
| "us_apply f (UsHeartbeat now u) t = snd (User_UpdateLastHeartbeat now f u t)"

fun du_apply :: "ddb_service \<Rightarrow> db_fault \<Rightarrow> us_op \<Rightarrow> ddb_item list \<Rightarrow> ddb_item list" where
  "du_apply ds f (UsUpsert now u) t = snd (DU_Upsert ds now (f = DbFail) u t)"
| "du_apply ds f (UsHeartbeat now u) t = snd (DU_UpdateLastHeartbeat ds now (f = DbFail) u t)"

fun sane_us :: "us_op \<Rightarrow> bool" where
  "sane_us (UsUpsert now u) \<longleftrightarrow> u \<noteq> [] \<and> time_ok now"
| "sane_us (UsHeartbeat now u) \<longleftrightarrow> u \<noteq> [] \<and> time_ok now"

definition stores_user :: "ddb_item \<Rightarrow> User \<Rightarrow> bool" where
  "stores_user it r \<longleftrightarrow>
     gm_get it UserFieldID = Some (AvS (usID r)) \<and>
     gm_get it UserFieldLastHeartbeat = Some (MarshalDynamoDBAttributeValue (usLastHeartbeat r)) \<and>
     gm_get it UserFieldCreatedAt = Some (MarshalDynamoDBAttributeValue (usCreatedAt r)) \<and>
     time_ok (usLastHeartbeat r) \<and> time_ok (usCreatedAt r)"

definition ms_user :: "User \<Rightarrow> User" where
  "ms_user r = r\<lparr>usLastHeartbeat := ms_time (usLastHeartbeat r), usCreatedAt := ms_time (usCreatedAt r)\<rparr>"

lemma stores_user_decodes: "\<lbrakk>ddb_documented ds; stores_user it r\<rbrakk> \<Longrightarrow> user_fromDynamoMap ds it = Some (ms_user r)"
  by (simp add: stores_user_def user_fromDynamoMap_def read_string_def read_time_def documentedD unmarshal_marshal ms_user_def)

lemma stores_user_key: "\<lbrakk>ddb_documented ds; stores_user it r\<rbrakk> \<Longrightarrow> has_item_key (user_item_key ds u) it \<longleftrightarrow> usID r = u"
  by (auto simp: stores_user_def has_item_key_def user_item_key_def documentedD)

lemma stores_user_heartbeat:
  "\<lbrakk>stores_user it r; time_ok now\<rbrakk> \<Longrightarrow>
   stores_user (apply_sets [SetValue UserFieldLastHeartbeat (MarshalDynamoDBAttributeValue now)] it) (r\<lparr>usLastHeartbeat := now\<rparr>)"
  "\<lbrakk>stores_user it r; time_ok now\<rbrakk> \<Longrightarrow>
   stores_user (apply_sets [SetValue UserFieldLastHeartbeat (MarshalDynamoDBAttributeValue now),
     SetIfNotExists UserFieldCreatedAt (MarshalDynamoDBAttributeValue now)] it) (r\<lparr>usLastHeartbeat := now\<rparr>)"
  by (simp_all add: stores_user_def apply_sets_def user_field_defs)

lemma stores_user_new:
  "\<lbrakk>ddb_documented ds; time_ok now\<rbrakk> \<Longrightarrow>
   stores_user (apply_sets [SetValue UserFieldLastHeartbeat (MarshalDynamoDBAttributeValue now),
     SetIfNotExists UserFieldCreatedAt (MarshalDynamoDBAttributeValue now)] (user_item_key ds u))
     \<lparr>usID = u, usLastHeartbeat = now, usCreatedAt = now\<rparr>"
  by (simp add: stores_user_def apply_sets_def user_field_defs user_item_key_def gm_get_def gm_put_def documentedD)

lemma find_user_None:
  assumes "ddb_documented ds" "list_all2 stores_user t rows"
  shows "find (has_item_key (user_item_key ds u)) t = None \<longleftrightarrow> (\<forall>r \<in> set rows. usID r \<noteq> u)"
proof -
  have "rel_option stores_user (find (has_item_key (user_item_key ds u)) t) (find (\<lambda>r. usID r = u) rows)"
    by (rule sim_find [OF assms(2)]) (rule stores_user_key [OF assms(1)])
  then have "find (has_item_key (user_item_key ds u)) t = None \<longleftrightarrow> find (\<lambda>r. usID r = u) rows = None"
    by (cases "find (\<lambda>r. usID r = u) rows") (auto simp: option_rel_Some2)
  then show ?thesis by (auto simp: find_None_iff)
qed

lemma DU_Upsert_table:
  "snd (DU_Upsert ds now fails u t) = snd (UpdateItem ds fails False (user_item_key ds u)
     [SetValue UserFieldLastHeartbeat (MarshalDynamoDBAttributeValue now), SetIfNotExists UserFieldCreatedAt (MarshalDynamoDBAttributeValue now)] t)"
  by (simp add: DU_Upsert_def Let_def split: prod.split update_result.split)

lemma sim_user:
  assumes "ddb_documented ds" "list_all2 stores_user t rows" "sane_us op"
  shows "list_all2 stores_user (du_apply ds f op t) (us_apply f op rows)"
proof (cases op)
  case (UsUpsert now u)
  have sane: "u \<noteq> []" "time_ok now" using assms(3) UsUpsert by simp_all
  have k: "list_all (dsKeyOk ds \<circ> snd) (user_item_key ds u)" using sane(1) by (simp add: user_item_key_def documentedD [OF assms(1)])
  have "list_all2 stores_user (map (\<lambda>it. if has_item_key (user_item_key ds u) it then apply_sets
      [SetValue UserFieldLastHeartbeat (MarshalDynamoDBAttributeValue now), SetIfNotExists UserFieldCreatedAt (MarshalDynamoDBAttributeValue now)] it else it) t)
      (map (\<lambda>r. if usID r = u then r\<lparr>usLastHeartbeat := now\<rparr> else r) rows)"
    by (rule sim_map [OF assms(2) stores_user_key [OF assms(1)] stores_user_heartbeat(2) [OF _ sane(2)]])
  then show ?thesis using assms(2) UsUpsert k find_user_None [OF assms(1,2), of u] stores_user_new [OF assms(1) sane(2), of u]
    by (auto simp: DU_Upsert_table UpdateItem_def User_Upsert_def pg_exec_def split: option.splits intro: list_all2_appendI)
next
  case (UsHeartbeat now u)
  have sane: "u \<noteq> []" "time_ok now" using assms(3) UsHeartbeat by simp_all
  have k: "list_all (dsKeyOk ds \<circ> snd) (user_item_key ds u)" using sane(1) by (simp add: user_item_key_def documentedD [OF assms(1)])
  have "list_all2 stores_user (map (\<lambda>it. if has_item_key (user_item_key ds u) it
      then apply_sets [SetValue UserFieldLastHeartbeat (MarshalDynamoDBAttributeValue now)] it else it) t)
      (map (\<lambda>r. if usID r = u then r\<lparr>usLastHeartbeat := now\<rparr> else r) rows)"
    by (rule sim_map [OF assms(2) stores_user_key [OF assms(1)] stores_user_heartbeat(1) [OF _ sane(2)]])
  moreover have "map (\<lambda>r. if usID r = u then r\<lparr>usLastHeartbeat := now\<rparr> else r) rows = rows" if "\<forall>r \<in> set rows. usID r \<noteq> u"
    using that by (auto intro: map_idI)
  ultimately show ?thesis using assms(2) UsHeartbeat k find_user_None [OF assms(1,2), of u]
    by (auto simp: DU_UpdateLastHeartbeat_def UpdateItem_def User_UpdateLastHeartbeat_def pg_exec_def split: option.splits)
qed

lemma users_distinct: "distinct (map usID (fold (\<lambda>(f, op). us_apply f op) ops rows))" if "distinct (map usID rows)"
  using that
proof (induction ops arbitrary: rows)
  case (Cons p ops)
  obtain f op where p: "p = (f, op)" by (cases p)
  have m: "map usID (map (\<lambda>u. if usID u = x then u\<lparr>usLastHeartbeat := now\<rparr> else u) rows) = map usID rows" for x now by simp
  have "distinct (map usID (us_apply f op rows))"
    using Cons.prems m by (cases op) (auto simp: User_Upsert_def User_UpdateLastHeartbeat_def pg_exec_def simp del: map_map)
  then show ?case using Cons.IH by (simp add: p)
qed simp

text \<open>The two back ends agree on users: after the same sequence of upserts and heartbeats, with
  failures in the same places, DynamoDB returns the user that Postgres returns, with times in
  whole milliseconds, and the same error for an unknown user.  The creation time is the one
  of the first upsert.\<close>

theorem ddb_users_agree:
  assumes "ddb_documented ds" "\<forall>(f, op) \<in> set ops. sane_us op"
  shows "DU_Get ds False u (fold (\<lambda>(f, op). du_apply ds f op) ops []) =
    obind (User_Get DbOk u (fold (\<lambda>(f, op). us_apply f op) ops [])) (\<lambda>r. Ok (ms_user r))"
proof -
  define t where "t = fold (\<lambda>(f, op). du_apply ds f op) ops []"
  define rows where "rows = fold (\<lambda>(f, op). us_apply f op) ops []"
  have "list_all2 stores_user (fold (\<lambda>(f, op). du_apply ds f op) ops t0) (fold (\<lambda>(f, op). us_apply f op) ops rows0)"
    if "list_all2 stores_user t0 rows0" for t0 rows0
    using that assms(2)
  proof (induction ops arbitrary: t0 rows0)
    case (Cons p ops)
    then show ?case using sim_user [OF assms(1), of t0 rows0 "snd p" "fst p"] by (auto simp: split_def)
  qed simp
  then have "list_all2 stores_user t rows" by (simp add: t_def rows_def)
  then have sim: "list_all2 stores_user (filter (has_item_key (user_item_key ds u)) t) (filter (\<lambda>r. usID r = u) rows)"
    by (rule sim_filter) (rule stores_user_key [OF assms(1)])
  have "distinct (map usID (filter (\<lambda>r. usID r = u) rows))" using users_distinct [of "[]" ops] by (simp add: rows_def distinct_map_filter)
  then have one: "filter (\<lambda>r. usID r = u) rows = r # rs \<Longrightarrow> rs = []" for r rs
    by (cases rs) (auto dest: Cons_eq_filterD simp: filter_eq_Cons_iff)
  show ?thesis unfolding t_def [symmetric] rows_def [symmetric]
    using sim one by (cases "filter (\<lambda>r. usID r = u) rows")
      (auto simp: DU_Get_def User_Get_def pg_row_def Let_def list_all2_Cons2 stores_user_decodes [OF assms(1)])
qed

subsection \<open>Examples\<close>

definition ex_num :: "gostring \<Rightarrow> int" where
  "ex_num s = (case ParseInt 64 s of Some i \<Rightarrow> i | None \<Rightarrow> 0)"

fun ex_cmp :: "(int \<Rightarrow> int \<Rightarrow> bool) \<Rightarrow> AttributeValue \<Rightarrow> AttributeValue \<Rightarrow> bool" where
  "ex_cmp c (AvN a) (AvN b) = c (ex_num a) (ex_num b)"
| "ex_cmp c _ _ = False"

definition ex_ds :: ddb_service where
  "ex_ds = \<lparr>dsString = AvS, dsInt = \<lambda>i. AvN (FormatInt i), dsTime = \<lambda>t. AvS (FormatInt t),
     dsToString = \<lambda>v. case v of AvS s \<Rightarrow> Some s | AvN _ \<Rightarrow> None,
     dsToInt8 = \<lambda>v. case v of AvN n \<Rightarrow> ParseInt 8 n | AvS _ \<Rightarrow> None,
     dsGreater = ex_cmp (>), dsLess = ex_cmp (<), dsKeyOk = \<lambda>v. v \<noteq> AvS []\<rparr>"

lemma ex_ds_documented: "ddb_documented ex_ds"
  by (simp add: ddb_documented_def ex_ds_def ex_num_def ParseInt_FormatInt)

abbreviation ex_add :: "db_fault \<times> ac_op" where
  "ex_add \<equiv> (DbOk, OpAdd ''pod'' (90 * second) ''u'' ''i'' WsCoreGobwas)"

lemma ex_add_sane: "sane_op (snd ex_add)"
  by (simp add: time_ok_def UnixMilli_def second_def heartbeat_ttl_def GlobalHeartbeatRateDuration_def core_ok_def
      int_range_def core_of_num_def)

lemma ex_add_row: "ac_row (snd (ac_apply DbOk (snd ex_add) [])) ''u'' ''i'' = Some (new_row ''pod'' (90 * second) ''u'' ''i'' WsCoreGobwas)"
  by (simp add: AC_AddConnection_def pg_exec_def ac_upsert_def ac_row_def ac_key_def)

lemma ex_lookup:
  "DA_GetInstanceConnection ex_ds (60 * second) (100 * second) False ''u'' ''i'' (fst (da_run ex_ds [ex_add] ([], []))) =
   Ok (ms_row (new_row ''pod'' (90 * second) ''u'' ''i'' WsCoreGobwas))" if
  "DA_GetInstanceConnection ex_ds (60 * second) (100 * second) False ''u'' ''i'' (fst (da_run ex_ds [ex_add] ([], []))) =
    (case ac_row (fold (\<lambda>(f, op) t. snd (ac_apply f op t)) [ex_add] []) ''u'' ''i'' of
       None \<Rightarrow> Err RecordNotFound
     | Some r \<Rightarrow> if ms_time (acLastHeartbeat r) < 100 * second - 60 * second then Err RecordNotFound else Ok (ms_row r))"
  using that ex_add_row by (simp add: ms_time_def UnixMilli_def second_def)

theorem ddb_simulates_postgres_witness:
  "DA_GetInstanceConnection ex_ds (60 * second) (100 * second) False ''u'' ''i'' (fst (da_run ex_ds [ex_add] ([], []))) =
   Ok (ms_row (new_row ''pod'' (90 * second) ''u'' ''i'' WsCoreGobwas))"
  by (rule ex_lookup, rule ddb_simulates_postgres [OF ex_ds_documented]) (use ex_add_sane in auto)

theorem ddb_listings_empty_witness:
  "DA_GetActiveConnections ex_ds (60 * second) (100 * second) False ''u'' (fst (da_run ex_ds [ex_add] ([], []))) = Ok []"
  using ddb_listings_empty [OF ex_ds_documented refl] by blast

abbreviation ex_item :: ddb_item where
  "ex_item \<equiv> apply_sets (create_update ex_ds (90 * second) ''pod'' WsCoreGobwas) (active_item_key ex_ds ''u'' ''i'')"

lemma ex_table: "fst (da_run ex_ds [ex_add] ([], [])) = [ex_item]"
  using key_accepted [OF ex_ds_documented, of "''u''" "''i''"] by (simp add: da_run_def update_tables UpdateItem_def)

lemma ex_stores: "list_all2 (stores ex_ds) [ex_item] [new_row ''pod'' (90 * second) ''u'' ''i'' WsCoreGobwas]"
  using stores_new [OF ex_ds_documented, of "90 * second" WsCoreGobwas "''pod''" "''u''" "''i''"] ex_add_sane by simp

theorem ddb_items_typed_witness: "\<exists>v. gm_get ex_item FieldTTL = Some v \<and> type_of_av v = TyN"
proof -
  obtain v where v: "gm_get ex_item FieldTTL = Some v" using ex_stores by (auto simp: stores_def)
  have "map_of active_schema FieldTTL = Some (type_of_av v)"
    by (rule ddb_items_typed [OF ex_ds_documented _ v, of "[ex_add]" "[]"]) (simp add: ex_table)
  then show ?thesis using v by simp
qed

theorem ddb_cleanup_exact_witness:
  "DA_CleanUpExpiredConnections ex_ds (1000 * second) False ([ex_item], []) = (Ok (), ([], []))"
proof -
  define w where "w = DA_CleanUpExpiredConnections ex_ds (1000 * second) False ([ex_item], [])"
  have now: "time_ok (1000 * second)" by (simp add: time_ok_def UnixMilli_def second_def int_range_def)
  have inv: "ac_inv [new_row ''pod'' (90 * second) ''u'' ''i'' WsCoreGobwas]" by (simp add: ac_inv_def)
  have e: "expired_item ex_ds (1000 * second) ex_item"
    using stores_expired [OF ex_ds_documented _ now] ex_stores
    by (simp add: UnixMilli_def second_def heartbeat_ttl_def GlobalHeartbeatRateDuration_def)
  have k: "scanned_keys ex_ds [ex_item] = Some [active_item_key ex_ds ''u'' ''i'']"
    using scanned_keys_stored [OF ex_ds_documented ex_stores] by simp
  have "fst w = Ok () \<and> snd (snd w) = []"
    by (simp add: w_def DA_CleanUpExpiredConnections_def e k RecursiveBatchWriteItem_def chunk.simps write_chunk.simps da_client_def
        del: scanned_keys.simps)
  moreover have "fst (snd w) = []"
    using ddb_cleanup_exact [OF ex_ds_documented ex_stores inv now, of False "[]" "fst w" "snd w"] calculation e
    by (simp add: w_def UnixMilli_def second_def heartbeat_ttl_def GlobalHeartbeatRateDuration_def)
  ultimately show ?thesis unfolding w_def by (metis prod.collapse)
qed

theorem ddb_users_agree_witness:
  "DU_Get ex_ds False ''u'' (fold (\<lambda>(f, op). du_apply ex_ds f op) [(DbOk, UsUpsert (2 * second) ''u''), (DbOk, UsUpsert (5 * second) ''u'')] []) =
   Ok \<lparr>usID = ''u'', usLastHeartbeat = 5 * second, usCreatedAt = 2 * second\<rparr>"
  by (subst ddb_users_agree [OF ex_ds_documented])
    (simp_all add: time_ok_def UnixMilli_def second_def int_range_def User_Upsert_def User_Get_def pg_exec_def pg_row_def ms_user_def ms_time_def)

end
