(* ===== verification/Metrics.thy ===== *)
theory Metrics
  imports Config Monitoring Message Webhook
begin

text \<open>
  The metrics of \<open>pkg/metrics\<close>, \<open>mediator/delivery/conn_metrics.go\<close> and
  \<open>provider/metrics-provider\<close>: label sanitising, the counters, the gauges that are read at
  every scrape, and the life of the listener.  An instrument is a map from the values of its
  labels to what was recorded under them; the telemetry SDK is not modelled.
\<close>

subsection \<open>Labels\<close>

definition MsgTypeOther :: gostring where "MsgTypeOther = ''other''"
definition MsgTypeHeartbeat :: gostring where "MsgTypeHeartbeat = ''heartbeat''"
definition MsgTypeAck :: gostring where "MsgTypeAck = ''ack''"
definition maxMsgTypeLen :: nat where "maxMsgTypeLen = 32"

definition BuildAllowlist :: "gostring list \<Rightarrow> (gostring, unit) gomap" where
  "BuildAllowlist entries = fold (\<lambda>e. gm_put e ()) entries []"

definition isPrintableASCII :: "gostring \<Rightarrow> bool" where
  "isPrintableASCII s \<longleftrightarrow> list_all (\<lambda>c. \<not> (of_char c < (0x20 :: nat) \<or> of_char c > (0x7E :: nat))) s"

definition sysLabel :: "gostring \<Rightarrow> gostring option" where
  "sysLabel raw =
     (case raw of
        [c] \<Rightarrow> if of_char c = (202 :: nat) then Some MsgTypeHeartbeat
               else if of_char c = (203 :: nat) then Some MsgTypeAck else None
      | _ \<Rightarrow> None)"

definition SanitizeMsgType :: "gostring \<Rightarrow> (gostring, unit) gomap \<Rightarrow> gostring" where
  "SanitizeMsgType raw allowlist =
     (case sysLabel raw of
        Some l \<Rightarrow> l
      | None \<Rightarrow>
          if raw = [] \<or> length raw > maxMsgTypeLen then MsgTypeOther
          else if \<not> gm_has allowlist raw then MsgTypeOther
          else if \<not> isPrintableASCII raw then MsgTypeOther
          else raw)"

definition authKind :: "WebsocketAuth \<Rightarrow> gostring" where
  "authKind auth = (if IsAnonymous auth then ''anon'' else ''user'')"

definition transportKind :: "WsCoreType \<Rightarrow> gostring" where
  "transportKind coreType = (if coreType = WsCoreLongPolling then ''longpoll'' else ''ws'')"

text \<open>What \<open>errors.Is\<close> and \<open>errors.As\<close> find in the chain of an error.\<close>

record error_chain =
  ecDeadline :: bool
  ecRefused :: bool
  ecDNS :: bool
  ecNetTimeout :: bool

definition ClassifyCallbackError :: "error_chain option \<Rightarrow> int \<Rightarrow> gostring" where
  "ClassifyCallbackError err statusCode =
     (case err of
        Some e \<Rightarrow>
          if ecDeadline e then ''timeout''
          else if ecRefused e then ''conn_refused''
          else if ecDNS e then ''dns''
          else if ecNetTimeout e then ''timeout''
          else ''other''
      | None \<Rightarrow>
          if statusCode \<ge> 500 then ''status_5xx''
          else if statusCode \<ge> 400 then ''status_4xx''
          else '''')"

subsection \<open>Counters and histograms\<close>

type_synonym counter = "(gostring list, nat) gomap"
type_synonym histogram = "(gostring list, int list) gomap"

definition counter_value :: "counter \<Rightarrow> gostring list \<Rightarrow> nat" where
  "counter_value c ls = (case gm_get c ls of None \<Rightarrow> 0 | Some n \<Rightarrow> n)"

definition counter_add :: "gostring list \<Rightarrow> counter \<Rightarrow> counter" where
  "counter_add ls c = gm_put ls (Suc (counter_value c ls)) c"

definition hist_record :: "int \<Rightarrow> gostring list \<Rightarrow> histogram \<Rightarrow> histogram" where
  "hist_record d ls h = gm_put ls ((case gm_get h ls of None \<Rightarrow> [] | Some ds \<Rightarrow> ds) @ [d]) h"

record PipewaveMetrics =
  pmConnAccepted :: counter
  pmConnRejected :: counter
  pmConnDuration :: histogram
  pmClientMsgs :: counter
  pmClientMsgDur :: histogram
  pmMsgTypeAllowlist :: "(gostring, unit) gomap"

definition NewMetrics :: "gostring list \<Rightarrow> PipewaveMetrics" where
  "NewMetrics allowlist = \<lparr>pmConnAccepted = [], pmConnRejected = [], pmConnDuration = [], pmClientMsgs = [], pmClientMsgDur = [],
     pmMsgTypeAllowlist = BuildAllowlist allowlist\<rparr>"

definition RecordConnectionAccepted :: "gostring \<Rightarrow> gostring \<Rightarrow> PipewaveMetrics \<Rightarrow> PipewaveMetrics" where
  "RecordConnectionAccepted transport auth m = m\<lparr>pmConnAccepted := counter_add [transport, auth] (pmConnAccepted m)\<rparr>"

definition RecordConnectionRejected :: "gostring \<Rightarrow> gostring \<Rightarrow> PipewaveMetrics \<Rightarrow> PipewaveMetrics" where
  "RecordConnectionRejected transport reason m = m\<lparr>pmConnRejected := counter_add [transport, reason] (pmConnRejected m)\<rparr>"

definition RecordConnectionDuration :: "int \<Rightarrow> gostring \<Rightarrow> PipewaveMetrics \<Rightarrow> PipewaveMetrics" where
  "RecordConnectionDuration d auth m = m\<lparr>pmConnDuration := hist_record d [auth] (pmConnDuration m)\<rparr>"

definition RecordClientMessage :: "gostring \<Rightarrow> gostring \<Rightarrow> int \<Rightarrow> PipewaveMetrics \<Rightarrow> PipewaveMetrics" where
  "RecordClientMessage rawMsgType outc d m =
     (let msgType = SanitizeMsgType rawMsgType (pmMsgTypeAllowlist m) in
      m\<lparr>pmClientMsgs := counter_add [msgType, outc] (pmClientMsgs m),
        pmClientMsgDur := hist_record d [msgType] (pmClientMsgDur m)\<rparr>)"

record CallbackMetrics =
  cmDuration :: histogram
  cmErrors :: counter
  cmRetries :: counter
  cmDropped :: counter

definition NewCallbackMetrics :: CallbackMetrics where
  "NewCallbackMetrics = \<lparr>cmDuration = [], cmErrors = [], cmRetries = [], cmDropped = []\<rparr>"

definition cm_ObserveCall :: "gostring \<Rightarrow> gostring \<Rightarrow> int \<Rightarrow> int \<Rightarrow> error_chain option \<Rightarrow> CallbackMetrics \<Rightarrow> CallbackMetrics" where
  "cm_ObserveCall eventType mode d statusCode err c =
     (let c = c\<lparr>cmDuration := hist_record d [eventType, mode] (cmDuration c)\<rparr>;
          reason = ClassifyCallbackError err statusCode in
      if reason = [] then c
      else c\<lparr>cmErrors := counter_add [eventType, mode, reason] (cmErrors c)\<rparr>)"

definition cm_ObserveRetry :: "gostring \<Rightarrow> gostring \<Rightarrow> CallbackMetrics \<Rightarrow> CallbackMetrics" where
  "cm_ObserveRetry eventType mode c = c\<lparr>cmRetries := counter_add [eventType, mode] (cmRetries c)\<rparr>"

definition cm_ObserveDropped :: "gostring \<Rightarrow> CallbackMetrics \<Rightarrow> CallbackMetrics" where
  "cm_ObserveDropped eventType c = c\<lparr>cmDropped := counter_add [eventType] (cmDropped c)\<rparr>"

subsection \<open>Gauges\<close>

text \<open>
  The callback of the connection gauges: the cached reading and what the stats source answers
  now; the result are the three observed values, if any, and the new cache.
\<close>

definition scrape_connections ::
    "(SumaryActiveConnection option, ErrorCode) outcome \<Rightarrow> SumaryActiveConnection option \<Rightarrow>
     (int \<times> int \<times> int) option \<times> SumaryActiveConnection option" where
  "scrape_connections answer cache =
     (let observed = (\<lambda>s. Some (smAnonymosConnection s, smUserConnection s, int (smTotalUser s))) in
      case answer of
        Ok (Some s) \<Rightarrow> (observed s, Some s)
      | _ \<Rightarrow> (case cache of None \<Rightarrow> (None, None) | Some s \<Rightarrow> (observed s, Some s)))"

definition breaker_gauge :: "CircuitBreaker \<Rightarrow> int" where
  "breaker_gauge b = (case OpenSince b of Some _ \<Rightarrow> 1 | None \<Rightarrow> 0)"

subsection \<open>The provider\<close>

text \<open>
  \<open>mpvRunning\<close> says whether the listener accepts requests.  \<open>ListenAndServe\<close> and \<open>Shutdown\<close>
  run in different goroutines; \<open>Shutdown\<close> looks at the server field once.
\<close>

record MetricsProvider =
  mpvAllowlist :: "(gostring, unit) gomap"
  mpvMeter :: bool
  mpvHandler :: bool
  mpvSrv :: bool
  mpvRunning :: bool
  mpvDone :: "bool option"

definition newProvider :: "bool \<Rightarrow> MetricsT option \<Rightarrow> MetricsProvider" where
  "newProvider exporterFails cfg =
     (let cfg = (case cfg of None \<Rightarrow> zMetrics | Some c \<Rightarrow> c) in
      if \<not> mtEnabled cfg \<or> exporterFails
      then \<lparr>mpvAllowlist = BuildAllowlist [], mpvMeter = False, mpvHandler = False, mpvSrv = False, mpvRunning = False, mpvDone = None\<rparr>
      else \<lparr>mpvAllowlist = BuildAllowlist (mtMsgTypeAllowlist cfg), mpvMeter = True, mpvHandler = True, mpvSrv = False,
        mpvRunning = False, mpvDone = None\<rparr>)"

definition mp_listen :: "bool \<Rightarrow> MetricsProvider \<Rightarrow> MetricsProvider" where
  "mp_listen bindFails p = (if \<not> mpvHandler p \<or> bindFails then p else p\<lparr>mpvSrv := True, mpvRunning := True\<rparr>)"

text \<open>The result is whether the call returns an error.\<close>

definition mp_Shutdown :: "bool \<Rightarrow> bool \<Rightarrow> MetricsProvider \<Rightarrow> bool \<times> MetricsProvider" where
  "mp_Shutdown srvFails meterFails p =
     (case mpvDone p of
        Some err \<Rightarrow> (err, p)
      | None \<Rightarrow>
          let p' = (if mpvSrv p then p\<lparr>mpvRunning := False\<rparr> else p);
              err = (mpvSrv p \<and> srvFails \<or> mpvMeter p \<and> meterFails)
          in (err, p'\<lparr>mpvDone := Some err\<rparr>))"

subsection \<open>Bounded labels\<close>

definition known_labels :: "gostring list \<Rightarrow> gostring set" where
  "known_labels allow = {MsgTypeOther, MsgTypeHeartbeat, MsgTypeAck} \<union> {e \<in> set allow. length e \<le> maxMsgTypeLen \<and> isPrintableASCII e}"

lemma has_fold_allow: "gm_has (fold (\<lambda>e. gm_put e ()) es m) e \<longleftrightarrow> e \<in> set es \<or> gm_has m e"
  by (induction es arbitrary: m) (auto simp: gm_has_def)

lemma BuildAllowlist_has [simp]: "gm_has (BuildAllowlist es) e \<longleftrightarrow> e \<in> set es"
  by (simp add: BuildAllowlist_def has_fold_allow) (simp add: gm_has_def)

lemma SanitizeMsgType_known: "SanitizeMsgType raw (BuildAllowlist allow) \<in> known_labels allow"
  by (auto simp: SanitizeMsgType_def known_labels_def sysLabel_def split: option.splits list.splits if_splits)

lemma card_known_labels: "card (known_labels allow) \<le> card (set allow) + 3"
proof -
  have "card (known_labels allow) \<le> card {MsgTypeOther, MsgTypeHeartbeat, MsgTypeAck} +
      card {e \<in> set allow. length e \<le> maxMsgTypeLen \<and> isPrintableASCII e}"
    unfolding known_labels_def by (rule card_Un_le)
  also have "\<dots> \<le> 3 + card (set allow)"
    by (intro add_mono card_mono) (auto simp: card_insert_if)
  finally show ?thesis by simp
qed

lemma known_labels_readable: "l \<in> known_labels allow \<Longrightarrow> length l \<le> 32 \<and> isPrintableASCII l"
  by (auto simp: known_labels_def maxMsgTypeLen_def MsgTypeOther_def MsgTypeHeartbeat_def MsgTypeAck_def isPrintableASCII_def)

lemma counter_keys: "set (gm_keys (counter_add ls c)) = insert ls (set (gm_keys c))"
  by (auto simp: set_gm_keys counter_add_def)

lemma counter_inv: "gm_inv c \<Longrightarrow> gm_inv (counter_add ls c)"
  by (simp add: counter_add_def)

lemma gm_vals_sum_put: "gm_inv m \<Longrightarrow> sum_list (gm_vals (gm_put k v m)) + (case gm_get m k of None \<Rightarrow> 0 | Some w \<Rightarrow> w) =
    sum_list (gm_vals m) + (v :: nat)"
  by (induction m) (auto simp: gm_vals_def gm_put_def gm_get_def gm_inv_def split: option.splits dest: map_of_SomeD)

lemma counter_sum: "gm_inv c \<Longrightarrow> sum_list (gm_vals (counter_add ls c)) = Suc (sum_list (gm_vals c))"
  using gm_vals_sum_put [of c ls "Suc (counter_value c ls)"] by (simp add: counter_add_def counter_value_def split: option.splits)

definition record_all :: "(gostring \<times> gostring \<times> int) list \<Rightarrow> PipewaveMetrics \<Rightarrow> PipewaveMetrics" where
  "record_all ms m = fold (\<lambda>(raw, outc, d). RecordClientMessage raw outc d) ms m"

lemma record_all_inv:
  assumes "gm_inv (pmClientMsgs m)" "pmMsgTypeAllowlist m = BuildAllowlist allow"
  shows "gm_inv (pmClientMsgs (record_all ms m)) \<and>
    set (gm_keys (pmClientMsgs (record_all ms m))) \<subseteq> set (gm_keys (pmClientMsgs m)) \<union>
      {[l, outc] |l outc. l \<in> known_labels allow \<and> outc \<in> (fst \<circ> snd) ` set ms} \<and>
    sum_list (gm_vals (pmClientMsgs (record_all ms m))) = sum_list (gm_vals (pmClientMsgs m)) + length ms"
  using assms
proof (induction ms arbitrary: m)
  case (Cons p ms)
  obtain raw outc d where p: "p = (raw, outc, d)" by (cases p)
  let ?m = "RecordClientMessage raw outc d m"
  have 1: "gm_inv (pmClientMsgs ?m)" "pmMsgTypeAllowlist ?m = BuildAllowlist allow"
    "sum_list (gm_vals (pmClientMsgs ?m)) = Suc (sum_list (gm_vals (pmClientMsgs m)))"
    using Cons.prems by (simp_all add: RecordClientMessage_def Let_def counter_inv counter_sum)
  have 2: "set (gm_keys (pmClientMsgs ?m)) = insert [SanitizeMsgType raw (BuildAllowlist allow), outc] (set (gm_keys (pmClientMsgs m)))"
    using Cons.prems(2) by (simp add: RecordClientMessage_def Let_def counter_keys)
  have step: "record_all (p # ms) m = record_all ms ?m" by (simp add: record_all_def p)
  note ih = Cons.IH [OF 1(1,2)]
  have "set (gm_keys (pmClientMsgs (record_all ms ?m))) \<subseteq> set (gm_keys (pmClientMsgs m)) \<union>
      {[l, outc] |l outc. l \<in> known_labels allow \<and> outc \<in> (fst \<circ> snd) ` set (p # ms)}"
  proof
    fix x assume "x \<in> set (gm_keys (pmClientMsgs (record_all ms ?m)))"
    then have "x = [SanitizeMsgType raw (BuildAllowlist allow), outc] \<or> x \<in> set (gm_keys (pmClientMsgs m)) \<or>
        (\<exists>l o'. x = [l, o'] \<and> l \<in> known_labels allow \<and> o' \<in> (fst \<circ> snd) ` set ms)"
      using ih 2 by blast
    then show "x \<in> set (gm_keys (pmClientMsgs m)) \<union>
        {[l, outc] |l outc. l \<in> known_labels allow \<and> outc \<in> (fst \<circ> snd) ` set (p # ms)}"
      using SanitizeMsgType_known [of raw allow] p by auto
  qed
  then show ?case using ih 1(3) unfolding step by simp
qed (simp add: record_all_def)

text \<open>C27: Clients cannot inflate the metrics: whatever message types arrive, the client message
  counter has at most three series more than the allowlist has entries for every outcome,
  every label is printable and at most 32 characters long, and every message is counted
  exactly once.\<close>

theorem metrics_cardinality:
  assumes "\<forall>(raw, outc, d) \<in> set ms. outc \<in> set outcs"
  shows "length (pmClientMsgs (record_all ms (NewMetrics allow))) \<le> (card (set allow) + 3) * card (set outcs) \<and>
    (\<forall>ls \<in> set (gm_keys (pmClientMsgs (record_all ms (NewMetrics allow)))). length (hd ls) \<le> 32 \<and> isPrintableASCII (hd ls)) \<and>
    sum_list (gm_vals (pmClientMsgs (record_all ms (NewMetrics allow)))) = length ms"
proof -
  let ?c = "pmClientMsgs (record_all ms (NewMetrics allow))"
  have inv: "gm_inv ?c" "set (gm_keys ?c) \<subseteq> {[l, outc] |l outc. l \<in> known_labels allow \<and> outc \<in> (fst \<circ> snd) ` set ms}"
    "sum_list (gm_vals ?c) = length ms"
    using record_all_inv [of "NewMetrics allow" allow ms] by (simp_all add: NewMetrics_def gm_keys_def gm_vals_def)
  let ?S = "(\<lambda>(l, outc). [l, outc]) ` (known_labels allow \<times> set outcs)"
  have fin: "finite (known_labels allow)" by (simp add: known_labels_def)
  have sub: "set (gm_keys ?c) \<subseteq> ?S" using inv(2) assms by force
  have "length ?c = card (set (gm_keys ?c))" using distinct_card [OF distinct_gm_keys [OF inv(1)]] by (simp add: gm_keys_def)
  also have "\<dots> \<le> card ?S" by (rule card_mono [OF _ sub]) (use fin in simp)
  also have "\<dots> \<le> card (known_labels allow \<times> set outcs)" by (rule card_image_le) (use fin in simp)
  also have "\<dots> \<le> (card (set allow) + 3) * card (set outcs)" by (simp add: card_cartesian_product card_known_labels)
  finally have "length ?c \<le> (card (set allow) + 3) * card (set outcs)" .
  moreover have "\<forall>ls \<in> set (gm_keys ?c). length (hd ls) \<le> 32 \<and> isPrintableASCII (hd ls)"
    using inv(2) known_labels_readable by fastforce
  ultimately show ?thesis using inv(3) by blast
qed

theorem metrics_cardinality_witness:
  "length (pmClientMsgs (record_all [(''a'', ''ok'', 1), (''b'', ''ok'', 2), (''c'', ''ok'', 3)] (NewMetrics [''a'']))) \<le> 4"
  using metrics_cardinality [of "[(''a'', ''ok'', 1), (''b'', ''ok'', 2), (''c'', ''ok'', 3)]" "[''ok'']" "[''a'']"] by simp

text \<open>What the configuration accepts keeps its label: every entry of a validated allowlist is
  reported under its own name.\<close>

theorem allowlisted_label_kept:
  assumes "Metrics_validate cfg = Ok ()" "mtEnabled cfg" "e \<in> set (mtMsgTypeAllowlist cfg)"
  shows "SanitizeMsgType e (BuildAllowlist (mtMsgTypeAllowlist cfg)) = e"
proof -
  have "all_checks (concat (map (\<lambda>e. (\<not> (e = [] \<or> length e > maxMetricsMsgTypeLen)) # map printable e) (mtMsgTypeAllowlist cfg))) = Ok ()"
    using assms(1,2) by (auto simp: Metrics_validate_def obind_eq_Ok)
  then have "\<forall>b \<in> set (concat (map (\<lambda>e. (\<not> (e = [] \<or> length e > maxMetricsMsgTypeLen)) # map printable e) (mtMsgTypeAllowlist cfg))). b"
    by (simp only: all_checks_Ok list_all_iff)
  then have e: "e \<noteq> []" "length e \<le> 32" "\<forall>c \<in> set e. printable c"
    using assms(3) by (auto simp: maxMetricsMsgTypeLen_def)
  have "sysLabel e = None"
    using e(3) by (auto simp: sysLabel_def printable_def split: list.splits)
  moreover have "isPrintableASCII e" using e(3) by (auto simp: isPrintableASCII_def printable_def list_all_iff)
  ultimately show ?thesis using e(1,2) assms(3) by (simp add: SanitizeMsgType_def maxMsgTypeLen_def)
qed

theorem allowlisted_label_kept_witness:
  "SanitizeMsgType ''chat'' (BuildAllowlist [''chat'']) = ''chat''"
proof -
  let ?cfg = "\<lparr>mtEnabled = True, mtPort = 9090, mtPath = ''/metrics'', mtMsgTypeAllowlist = [''chat'']\<rparr>"
  have "Metrics_validate ?cfg = Ok ()"
    by (simp add: Metrics_validate_def HasPrefix_def maxMetricsMsgTypeLen_def printable_def ensure_def)
  from allowlisted_label_kept [OF this, of "''chat''"] show ?thesis by simp
qed

text \<open>Heartbeats and acknowledgements are counted as \<open>other\<close>: the labels for them are chosen
  by the bytes 202 and 203, but on the wire both carry a sentinel text as their type, also
  when it is put on the allowlist.\<close>

theorem control_messages_other:
  "SanitizeMsgType MessageTypeHeartbeat (BuildAllowlist allow) = MsgTypeOther \<and>
   SanitizeMsgType MessageTypeAck (BuildAllowlist allow) = MsgTypeOther"
  by (simp add: SanitizeMsgType_def sysLabel_def MessageTypeHeartbeat_def MessageTypeAck_def isPrintableASCII_def)

subsection \<open>Callbacks\<close>

definition call_reasons :: "gostring set" where
  "call_reasons = {''timeout'', ''conn_refused'', ''dns'', ''status_4xx'', ''status_5xx'', ''other''}"

definition call_failed :: "error_chain option \<Rightarrow> int \<Rightarrow> bool" where
  "call_failed err status \<longleftrightarrow> err \<noteq> None \<or> status \<ge> 400"

lemma Classify_reason:
  "(if call_failed err status then ClassifyCallbackError err status \<in> call_reasons else ClassifyCallbackError err status = [])"
  by (cases err) (simp_all add: call_failed_def ClassifyCallbackError_def call_reasons_def)

lemma Classify_nonempty: "ClassifyCallbackError err status = [] \<longleftrightarrow> \<not> call_failed err status"
  by (cases err) (auto simp: call_failed_def ClassifyCallbackError_def)

definition observe_calls :: "(gostring \<times> gostring \<times> int \<times> int \<times> error_chain option) list \<Rightarrow> CallbackMetrics \<Rightarrow> CallbackMetrics" where
  "observe_calls cs c = fold (\<lambda>(ev, mode, d, status, err). cm_ObserveCall ev mode d status err) cs c"

text \<open>The error counter of the callbacks counts exactly the failed attempts, transport errors
  and answers from 400 on, each once, under one of six reasons.\<close>

theorem callback_errors_exact:
  "sum_list (gm_vals (cmErrors (observe_calls cs NewCallbackMetrics))) =
     length (filter (\<lambda>(ev, mode, d, status, err). call_failed err status) cs) \<and>
   (\<forall>ls \<in> set (gm_keys (cmErrors (observe_calls cs NewCallbackMetrics))). last ls \<in> call_reasons)"
proof -
  have "gm_inv (cmErrors c) \<Longrightarrow>
      sum_list (gm_vals (cmErrors (observe_calls cs c))) = sum_list (gm_vals (cmErrors c)) +
        length (filter (\<lambda>(ev, mode, d, status, err). call_failed err status) cs) \<and>
      (\<forall>ls \<in> set (gm_keys (cmErrors (observe_calls cs c))). ls \<in> set (gm_keys (cmErrors c)) \<or> last ls \<in> call_reasons)" for c
  proof (induction cs arbitrary: c)
    case (Cons p cs)
    obtain ev mode d status err where p: "p = (ev, mode, d, status, err)" by (cases p)
    let ?c = "cm_ObserveCall ev mode d status err c"
    have "gm_inv (cmErrors ?c) \<and> sum_list (gm_vals (cmErrors ?c)) = sum_list (gm_vals (cmErrors c)) + (if call_failed err status then 1 else 0) \<and>
        (\<forall>ls \<in> set (gm_keys (cmErrors ?c)). ls \<in> set (gm_keys (cmErrors c)) \<or> last ls \<in> call_reasons)"
      using Cons.prems Classify_reason [of err status]
      by (auto simp: cm_ObserveCall_def Let_def Classify_nonempty counter_inv counter_sum counter_keys split: if_splits)
    moreover have "observe_calls (p # cs) c = observe_calls cs ?c" by (simp add: observe_calls_def p)
    ultimately show ?case using Cons.IH [of ?c] by (auto simp: p)
  qed (simp add: observe_calls_def)
  from this [of NewCallbackMetrics] show ?thesis by (simp add: NewCallbackMetrics_def gm_keys_def gm_vals_def)
qed

subsection \<open>Scrapes and shutdown\<close>

definition scrapes :: "(SumaryActiveConnection option, ErrorCode) outcome list \<Rightarrow> SumaryActiveConnection option" where
  "scrapes answers = fold (\<lambda>a cache. snd (scrape_connections a cache)) answers None"

lemma scrape_error: "snd (scrape_connections (Err e) cache) = cache"
  by (simp add: scrape_connections_def split: option.split)

lemma scrape_errors: "fold (\<lambda>a cache. snd (scrape_connections a cache)) (map Err es) cache = cache"
  by (induction es) (simp_all add: scrape_error)

text \<open>A failing scrape never shows as zero connections: it reports the last successful
  reading, and nothing at all before the first one; a successful scrape reports what the
  connection manager holds now.\<close>

theorem scrape_last_reading:
  "fst (scrape_connections (Ok (Some (InsideActiveConnection m))) (scrapes answers)) =
     Some (smAnonymosConnection (InsideActiveConnection m), smUserConnection (InsideActiveConnection m), int (smTotalUser (InsideActiveConnection m))) \<and>
   fst (scrape_connections (Err e) (scrapes (answers @ [Ok (Some s)] @ map Err es))) =
     Some (smAnonymosConnection s, smUserConnection s, int (smTotalUser s)) \<and>
   fst (scrape_connections (Err e) (scrapes (map Err es))) = None"
proof -
  have "scrapes (answers @ [Ok (Some s)] @ map Err es) = Some s" "scrapes (map Err es) = None"
    by (simp_all add: scrapes_def scrape_errors) (simp add: scrape_connections_def)
  then show ?thesis by (simp add: scrape_connections_def)
qed

text \<open>Shutting the metrics provider down is idempotent: every later call returns what the
  first one returned and changes nothing; disabled metrics never listen.\<close>

theorem metrics_shutdown_once:
  assumes "mp_Shutdown a b p = (err, p')"
  shows "mp_Shutdown a' b' p' = (err, p') \<and> \<not> mpvRunning (mp_listen bf (newProvider True cfg))"
  using assms by (auto simp: mp_Shutdown_def mp_listen_def newProvider_def Let_def split: option.splits)

theorem metrics_shutdown_once_witness:
  "mp_Shutdown True True (snd (mp_Shutdown False False (newProvider False None))) =
   (False, snd (mp_Shutdown False False (newProvider False None)))"
  using metrics_shutdown_once [of False False "newProvider False None" False "snd (mp_Shutdown False False (newProvider False None))" True True]
  by (simp add: mp_Shutdown_def newProvider_def zMetrics_def Let_def)

text \<open>A listener that starts after the shutdown is never stopped: \<open>Shutdown\<close> finds no server,
  and later calls of it do nothing.\<close>

theorem late_listener_survives:
  assumes "mtEnabled cfg"
  shows "let p = mp_listen False (snd (mp_Shutdown a b (newProvider False (Some cfg)))) in
    mpvRunning p \<and> mpvRunning (snd (mp_Shutdown a' b' p))"
  using assms by (simp add: newProvider_def mp_Shutdown_def mp_listen_def Let_def)

theorem late_listener_survives_witness:
  "mpvRunning (mp_listen False (snd (mp_Shutdown False False (newProvider False (Some (zMetrics\<lparr>mtEnabled := True\<rparr>))))))"
  using late_listener_survives [of "zMetrics\<lparr>mtEnabled := True\<rparr>" False False False False] by (simp add: Let_def)

end
