(* ===== verification/Migrations.thy ===== *)
theory Migrations
  imports GoStr
begin

text \<open>
  The schema migrations of the Postgres back end: the list of embedded migrations
  (\<open>provider/postgres/migrations/migrations.go\<close>) and the transaction that brings a database
  up to date (\<open>provider/postgres/migration.go\<close>).  The database is the version row and the list
  of the migrations whose statements were committed, in order.  Starting containers race for
  the version row: the insert waits for a concurrent insert of the same key, and the
  selection locks the row, so the transactions take effect one after the other.
\<close>

subsection \<open>The embedded migrations\<close>

record Migration =
  mgVersion :: int
  mgName :: gostring
  mgSQL :: gostring

definition parseVersion :: "gostring \<Rightarrow> (int, gostring) outcome" where
  "parseVersion name =
     (let digits = takeWhile is_digit name in
      if digits = [] then Err ''migration file does not start with a numeric version''
      else case ParseInt 64 digits of
             None \<Rightarrow> Err ''invalid migration version''
           | Some version \<Rightarrow> Ok version)"

text \<open>An entry is the name of an embedded file and its content, \<open>None\<close> if it cannot be read.\<close>

type_synonym entry = "gostring \<times> gostring option"

fun load_entries :: "entry list \<Rightarrow> (int, gostring) gomap \<Rightarrow> Migration list \<Rightarrow> (Migration list, gostring) outcome" where
  "load_entries [] seenVersions loaded = Ok loaded"
| "load_entries ((name, content) # entries) seenVersions loaded =
     (case content of
        None \<Rightarrow> Err ''failed to read embedded migration''
      | Some body \<Rightarrow>
          obind (parseVersion name) (\<lambda>version.
            if gm_has seenVersions version then Err ''duplicated migration version''
            else load_entries entries (gm_put version name seenVersions)
                   (loaded @ [\<lparr>mgVersion = version, mgName = name, mgSQL = body\<rparr>])))"

definition AllMigrations :: "entry list option \<Rightarrow> (Migration list, gostring) outcome" where
  "AllMigrations glob =
     (case glob of
        None \<Rightarrow> Err ''failed to list embedded migrations''
      | Some entries \<Rightarrow> obind (load_entries entries [] []) (\<lambda>loaded. Ok (sort_key mgVersion loaded)))"

definition latest_of :: "Migration list \<Rightarrow> int" where
  "latest_of ms = (if ms = [] then 0 else mgVersion (last ms))"

definition LatestVersion :: "entry list option \<Rightarrow> (int, gostring) outcome" where
  "LatestVersion glob = obind (AllMigrations glob) (\<lambda>ms. Ok (latest_of ms))"

subsection \<open>The transaction\<close>

record pg_schema =
  scTable :: bool
  scRow :: "int option"
  scApplied :: "Migration list"

text \<open>A commit can fail, or succeed although the client sees an error.\<close>

datatype commit_fault = CommitOk | CommitFails | CommitUnknown

record mig_env =
  meEnsure :: bool
  meBegin :: bool
  meBootstrap :: bool
  meRead :: bool
  meUpdate :: bool
  meExec :: "Migration \<Rightarrow> bool"
  meCommit :: commit_fault

definition ensureSchemaVersionTable :: "mig_env \<Rightarrow> pg_schema \<Rightarrow> (unit, gostring) outcome \<times> pg_schema" where
  "ensureSchemaVersionTable env db =
     (if meEnsure env then (Err ''failed to ensure schema_version table'', db) else (Ok (), db\<lparr>scTable := True\<rparr>))"

definition bootstrapSchemaVersion :: "mig_env \<Rightarrow> int \<Rightarrow> pg_schema \<Rightarrow> (bool, gostring) outcome \<times> pg_schema" where
  "bootstrapSchemaVersion env latestVersion db =
     (if meBootstrap env then (Err ''failed to bootstrap schema_version row'', db)
      else case scRow db of
             None \<Rightarrow> (Ok True, db\<lparr>scRow := Some latestVersion\<rparr>)
           | Some _ \<Rightarrow> (Ok False, db))"

definition getSchemaVersionForUpdate :: "mig_env \<Rightarrow> pg_schema \<Rightarrow> (int, gostring) outcome" where
  "getSchemaVersionForUpdate env db =
     (if meRead env then Err ''failed to read schema version for update''
      else case scRow db of None \<Rightarrow> Err ''schema_version row is missing'' | Some v \<Rightarrow> Ok v)"

definition getSchemaVersion :: "mig_env \<Rightarrow> pg_schema \<Rightarrow> (int option, gostring) outcome" where
  "getSchemaVersion env db = (if meRead env then Err ''failed to read schema version'' else Ok (scRow db))"

fun runPostgresMigrations :: "mig_env \<Rightarrow> Migration list \<Rightarrow> pg_schema \<Rightarrow> (unit, gostring) outcome \<times> pg_schema" where
  "runPostgresMigrations env [] db = (Ok (), db)"
| "runPostgresMigrations env (m # ms) db =
     (if meExec env m then (Err ''failed to run migration'', db)
      else runPostgresMigrations env ms (db\<lparr>scApplied := scApplied db @ [m]\<rparr>))"

definition selectPostgresMigrations :: "Migration list \<Rightarrow> int \<Rightarrow> int \<Rightarrow> Migration list" where
  "selectPostgresMigrations migrations currentVersion latestVersion =
     filter (\<lambda>m. mgVersion m > currentVersion \<and> mgVersion m \<le> latestVersion) migrations"

text \<open>Commit the transaction's view \<open>tx\<close> of the database \<open>db\<close>; every other exit rolls back to \<open>db\<close>.\<close>

definition commit_tx :: "mig_env \<Rightarrow> pg_schema \<Rightarrow> pg_schema \<Rightarrow> (unit, gostring) outcome \<times> pg_schema" where
  "commit_tx env tx db =
     (case meCommit env of
        CommitOk \<Rightarrow> (Ok (), tx)
      | CommitFails \<Rightarrow> (Err ''failed to commit migration transaction'', db)
      | CommitUnknown \<Rightarrow> (Err ''failed to commit migration transaction'', tx))"

definition run_tx :: "mig_env \<Rightarrow> Migration list \<Rightarrow> pg_schema \<Rightarrow> (unit, gostring) outcome \<times> pg_schema" where
  "run_tx env migrations db =
     (let latestVersion = latest_of migrations in
      case bootstrapSchemaVersion env latestVersion db of
        (Err e, _) \<Rightarrow> (Err e, db)
      | (Panic, _) \<Rightarrow> (Panic, db)
      | (Ok inserted, tx) \<Rightarrow>
          if inserted then
            (case runPostgresMigrations env migrations tx of
               (Ok _, tx) \<Rightarrow> commit_tx env tx db
             | (r, _) \<Rightarrow> (r, db))
          else
            case getSchemaVersionForUpdate env tx of
              Err e \<Rightarrow> (Err e, db)
            | Panic \<Rightarrow> (Panic, db)
            | Ok currentVersion \<Rightarrow>
                if currentVersion > latestVersion then (Err ''database schema version is newer than application version'', db)
                else if currentVersion = latestVersion then commit_tx env tx db
                else if meUpdate env then (Err ''failed to advance schema version'', db)
                else if scRow tx \<noteq> Some currentVersion then (Err ''expected 1 updated row'', db)
                else (case runPostgresMigrations env (selectPostgresMigrations migrations currentVersion latestVersion)
                             (tx\<lparr>scRow := Some latestVersion\<rparr>) of
                        (Ok _, tx) \<Rightarrow> commit_tx env tx db
                      | (r, _) \<Rightarrow> (r, db)))"

definition RunMigration :: "mig_env \<Rightarrow> entry list option \<Rightarrow> pg_schema \<Rightarrow> (unit, gostring) outcome \<times> pg_schema" where
  "RunMigration env glob db =
     (case AllMigrations glob of
        Err e \<Rightarrow> (Err e, db)
      | Panic \<Rightarrow> (Panic, db)
      | Ok migrations \<Rightarrow>
          (case ensureSchemaVersionTable env db of
             (Ok _, db) \<Rightarrow>
               if meBegin env then (Err ''failed to begin migration transaction'', db) else run_tx env migrations db
           | (r, db) \<Rightarrow> (r, db)))"

definition VerifyMigration :: "mig_env \<Rightarrow> entry list option \<Rightarrow> pg_schema \<Rightarrow> (unit, gostring) outcome \<times> pg_schema" where
  "VerifyMigration env glob db =
     (case LatestVersion glob of
        Err e \<Rightarrow> (Err e, db)
      | Panic \<Rightarrow> (Panic, db)
      | Ok latestVersion \<Rightarrow>
          (case ensureSchemaVersionTable env db of
             (Ok _, db) \<Rightarrow>
               ((case getSchemaVersion env db of
                   Err e \<Rightarrow> Err e
                 | Panic \<Rightarrow> Panic
                 | Ok None \<Rightarrow> Err ''schema_version row is missing''
                 | Ok (Some currentVersion) \<Rightarrow>
                     if currentVersion \<noteq> latestVersion then
                       (if currentVersion > latestVersion then Err ''database schema version is newer than application version''
                        else Err ''migration has not been run yet'')
                     else Ok ()), db)
           | (r, db) \<Rightarrow> (r, db)))"

definition HandleStartupMigration :: "bool \<Rightarrow> mig_env \<Rightarrow> entry list option \<Rightarrow> pg_schema \<Rightarrow> (unit, gostring) outcome \<times> pg_schema" where
  "HandleStartupMigration autoMigration env glob db =
     (if autoMigration then RunMigration env glob db else VerifyMigration env glob db)"

subsection \<open>Loading\<close>

lemma load_entries_Ok:
  "load_entries es seen loaded = Ok ms \<Longrightarrow>
   (\<forall>m \<in> set loaded. gm_has seen (mgVersion m)) \<Longrightarrow> distinct (map mgVersion loaded) \<Longrightarrow>
   distinct (map mgVersion ms) \<and> map mgName ms = map mgName loaded @ map fst es \<and>
   (\<forall>m \<in> set ms. m \<in> set loaded \<or> parseVersion (mgName m) = Ok (mgVersion m) \<and> (mgName m, Some (mgSQL m)) \<in> set es)"
proof (induction es seen loaded rule: load_entries.induct)
  case (2 name content entries seen loaded)
  obtain body version where b: "content = Some body" "parseVersion name = Ok version" "\<not> gm_has seen version"
    using 2(2) by (auto simp: obind_eq_Ok split: option.splits if_splits)
  let ?m = "\<lparr>mgVersion = version, mgName = name, mgSQL = body\<rparr>"
  have rec: "load_entries entries (gm_put version name seen) (loaded @ [?m]) = Ok ms" using 2(2) b by simp
  have "version \<notin> mgVersion ` set loaded" using 2(3) b(3) by auto
  then have "distinct (map mgVersion ms) \<and> map mgName ms = map mgName (loaded @ [?m]) @ map fst entries \<and>
     (\<forall>m \<in> set ms. m \<in> set (loaded @ [?m]) \<or> parseVersion (mgName m) = Ok (mgVersion m) \<and> (mgName m, Some (mgSQL m)) \<in> set entries)"
    using 2(1) [OF b(1,3) rec] 2(3,4) by (auto simp: gm_has_def)
  then show ?case using b by auto
qed simp

lemma AllMigrations_sorted:
  assumes "AllMigrations glob = Ok ms"
  shows "sorted_wrt (<) (map mgVersion ms)"
proof -
  obtain es loaded where l: "load_entries es [] [] = Ok loaded" "ms = sort_key mgVersion loaded"
    using assms by (auto simp: AllMigrations_def obind_eq_Ok split: option.splits)
  have "distinct (map mgVersion loaded)" using load_entries_Ok [OF l(1)] by simp
  then have "distinct (map mgVersion ms)" unfolding l(2) by (simp add: distinct_map)
  moreover have "sorted (map mgVersion ms)" unfolding l(2) by simp
  ultimately show ?thesis by (simp add: strict_sorted_iff)
qed

text \<open>Loading gives every embedded file exactly once, with the version its name starts with, in
  strictly ascending order of the versions; it fails on two files of the same version.\<close>

theorem migrations_loaded:
  assumes "AllMigrations (Some entries) = Ok ms"
  shows "sorted_wrt (<) (map mgVersion ms) \<and> mset (map mgName ms) = mset (map fst entries) \<and>
    (\<forall>m \<in> set ms. parseVersion (mgName m) = Ok (mgVersion m) \<and> (mgName m, Some (mgSQL m)) \<in> set entries)"
proof -
  obtain loaded where l: "load_entries entries [] [] = Ok loaded" "ms = sort_key mgVersion loaded"
    using assms by (auto simp: AllMigrations_def obind_eq_Ok)
  note f = load_entries_Ok [OF l(1), simplified]
  have "mset (map mgName ms) = mset (map mgName loaded)" unfolding l(2) by (simp only: mset_map mset_sort)
  then show ?thesis using f AllMigrations_sorted [OF assms] unfolding l(2) by auto
qed

definition ex_entries :: "entry list" where
  "ex_entries = [(''001_init.sql'', Some ''a''), (''002_x.sql'', Some ''b'')]"

lemma ex_all: "AllMigrations (Some ex_entries) = Ok [\<lparr>mgVersion = 1, mgName = ''001_init.sql'', mgSQL = ''a''\<rparr>, \<lparr>mgVersion = 2, mgName = ''002_x.sql'', mgSQL = ''b''\<rparr>]"
  by (simp add: AllMigrations_def ex_entries_def parseVersion_def ParseInt_def ParseUint_def is_digit_def digit_val_def gm_has_def)

theorem migrations_loaded_witness:
  "parseVersion ''002_x.sql'' = Ok 2"
  using migrations_loaded [OF ex_all] by simp

subsection \<open>Exactly once\<close>

text \<open>
  The releases of the application: release \<open>n\<close> has the migrations up to version \<open>n\<close> of one
  growing list.  The versions are positive, as the numbering from \<open>001\<close> says.
\<close>

definition release :: "Migration list \<Rightarrow> int \<Rightarrow> Migration list" where
  "release ms n = filter (\<lambda>m. mgVersion m \<le> n) ms"

definition growing :: "Migration list \<Rightarrow> bool" where
  "growing ms \<longleftrightarrow> sorted_wrt (<) (map mgVersion ms) \<and> (\<forall>m \<in> set ms. 0 < mgVersion m)"

definition schema_inv :: "Migration list \<Rightarrow> pg_schema \<Rightarrow> bool" where
  "schema_inv ms db \<longleftrightarrow>
     (case scRow db of None \<Rightarrow> scApplied db = [] | Some v \<Rightarrow> 0 \<le> v \<and> scApplied db = filter (\<lambda>m. mgVersion m \<le> v) ms)"

lemma run_migrations_Ok:
  "runPostgresMigrations env ms db = (Ok u, db') \<Longrightarrow> db' = db\<lparr>scApplied := scApplied db @ ms\<rparr>"
proof (induction ms arbitrary: db)
  case (Cons m ms)
  then show ?case using Cons.IH [of "db\<lparr>scApplied := scApplied db @ [m]\<rparr>"] by (simp split: if_splits)
qed simp

lemma run_migrations_no_Panic: "fst (runPostgresMigrations env ms db) \<noteq> Panic"
  by (induction ms arbitrary: db) auto

lemma filter_split:
  assumes "sorted_wrt (<) (map mgVersion ms)" "a \<le> b"
  shows "filter (\<lambda>m. mgVersion m \<le> a) ms @ filter (\<lambda>m. a < mgVersion m \<and> mgVersion m \<le> b) ms = filter (\<lambda>m. mgVersion m \<le> b) ms"
  using assms
proof (induction ms)
  case (Cons m ms)
  show ?case
  proof (cases "mgVersion m \<le> a")
    case True
    then show ?thesis using Cons by auto
  next
    case False
    then have "filter (\<lambda>m. mgVersion m \<le> a) ms = []" using Cons.prems(1) by (auto simp: filter_empty_conv)
    then show ?thesis using Cons False by auto
  qed
qed simp

lemma release_latest:
  assumes "growing ms"
  shows "filter (\<lambda>m. mgVersion m \<le> latest_of (release ms n)) ms = release ms n" "0 \<le> latest_of (release ms n)"
    and "\<forall>m \<in> set (release ms n). mgVersion m \<le> latest_of (release ms n)"
proof -
  have s: "sorted (map mgVersion (release ms n))"
    using assms unfolding growing_def release_def
    by (auto simp: strict_sorted_iff intro: sorted_filter)
  have le: "\<forall>m \<in> set (release ms n). mgVersion m \<le> latest_of (release ms n)"
  proof
    fix m assume m: "m \<in> set (release ms n)"
    then obtain xs x where x: "release ms n = xs @ [x]" by (metis append_butlast_last_id empty_iff empty_set)
    then show "mgVersion m \<le> latest_of (release ms n)" using s m by (auto simp: latest_of_def sorted_append)
  qed
  have n: "release ms n \<noteq> [] \<Longrightarrow> latest_of (release ms n) \<le> n \<and> 0 < latest_of (release ms n)"
    using last_in_set [of "release ms n"] assms by (auto simp: latest_of_def release_def growing_def)
  show "0 \<le> latest_of (release ms n)" using n by (cases "release ms n = []") (auto simp: latest_of_def)
  show "\<forall>m \<in> set (release ms n). mgVersion m \<le> latest_of (release ms n)" by (rule le)
  show "filter (\<lambda>m. mgVersion m \<le> latest_of (release ms n)) ms = release ms n"
  proof (cases "release ms n = []")
    case True
    then have "latest_of (release ms n) = 0" by (simp add: latest_of_def)
    then show ?thesis using True assms by (auto simp: filter_empty_conv growing_def)
  next
    case False
    then show ?thesis using n le unfolding release_def by (intro filter_cong) (auto simp: release_def)
  qed
qed

lemma finish_cases:
  assumes "(case runPostgresMigrations env xs tx0 of (Ok _, tx) \<Rightarrow> commit_tx env tx db | (r, _) \<Rightarrow> (r, db)) = (r, db')"
  shows "db' = db \<and> r \<noteq> Ok () \<or> db' = tx0\<lparr>scApplied := scApplied tx0 @ xs\<rparr> \<and> meCommit env \<noteq> CommitFails"
proof -
  obtain x tx where x: "runPostgresMigrations env xs tx0 = (x, tx)" by (cases "runPostgresMigrations env xs tx0")
  show ?thesis
  proof (cases x)
    case (Ok u)
    then show ?thesis using assms x run_migrations_Ok [of env xs tx0 u tx] by (auto simp: commit_tx_def split: commit_fault.splits)
  qed (use assms x in auto)
qed

text \<open>What a transaction can do: nothing, bootstrap, confirm the version, or advance it.\<close>

lemma run_tx_cases:
  assumes "run_tx env xs db = (r, db')"
  shows "db' = db \<and> r \<noteq> Ok () \<or>
    scRow db = None \<and> db' = db\<lparr>scRow := Some (latest_of xs), scApplied := scApplied db @ xs\<rparr> \<and> meCommit env \<noteq> CommitFails \<or>
    scRow db = Some (latest_of xs) \<and> db' = db \<or>
    (\<exists>v. scRow db = Some v \<and> v < latest_of xs \<and> meCommit env \<noteq> CommitFails \<and>
       db' = db\<lparr>scRow := Some (latest_of xs), scApplied := scApplied db @ selectPostgresMigrations xs v (latest_of xs)\<rparr>)"
proof (cases "scRow db")
  case None
  show ?thesis
  proof (cases "meBootstrap env")
    case True
    then show ?thesis using assms by (auto simp: run_tx_def bootstrapSchemaVersion_def Let_def)
  next
    case False
    then have "(case runPostgresMigrations env xs (db\<lparr>scRow := Some (latest_of xs)\<rparr>) of
        (Ok _, tx) \<Rightarrow> commit_tx env tx db | (r, _) \<Rightarrow> (r, db)) = (r, db')"
      using assms None by (simp add: run_tx_def bootstrapSchemaVersion_def Let_def)
    from finish_cases [OF this] show ?thesis using None by auto
  qed
next
  case (Some v)
  consider "meBootstrap env \<or> meRead env \<or> v > latest_of xs \<or> v < latest_of xs \<and> meUpdate env"
    | "\<not> meBootstrap env" "\<not> meRead env" "v = latest_of xs"
    | "\<not> meBootstrap env" "\<not> meRead env" "v < latest_of xs" "\<not> meUpdate env" by fastforce
  then show ?thesis
  proof cases
    case 1
    then have "db' = db \<and> r \<noteq> Ok ()" using assms Some
      by (elim disjE) (auto simp: run_tx_def bootstrapSchemaVersion_def getSchemaVersionForUpdate_def Let_def split: if_splits)
    then show ?thesis by blast
  next
    case 2
    then show ?thesis using assms Some
      by (auto simp: run_tx_def bootstrapSchemaVersion_def getSchemaVersionForUpdate_def Let_def commit_tx_def split: commit_fault.splits)
  next
    case 3
    then have "(case runPostgresMigrations env (selectPostgresMigrations xs v (latest_of xs)) (db\<lparr>scRow := Some (latest_of xs)\<rparr>) of
        (Ok _, tx) \<Rightarrow> commit_tx env tx db | (r, _) \<Rightarrow> (r, db)) = (r, db')"
      using assms Some by (simp add: run_tx_def bootstrapSchemaVersion_def getSchemaVersionForUpdate_def Let_def)
    from finish_cases [OF this] show ?thesis using Some 3(3) by auto
  qed
qed

lemma finish_failed:
  assumes "(case runPostgresMigrations env xs tx0 of (Ok _, tx) \<Rightarrow> commit_tx env tx db | (r, _) \<Rightarrow> (r, db)) = (r, db')"
    and "r \<noteq> Ok ()" "meCommit env \<noteq> CommitUnknown"
  shows "db' = db"
  using assms by (auto simp: commit_tx_def split: prod.splits outcome.splits commit_fault.splits)

lemma run_tx_failed:
  assumes "run_tx env xs db = (r, db')" "r \<noteq> Ok ()" "meCommit env \<noteq> CommitUnknown"
  shows "db' = db"
  using assms finish_failed [OF _ assms(2,3)]
  by (auto simp: run_tx_def bootstrapSchemaVersion_def getSchemaVersionForUpdate_def commit_tx_def Let_def
      split: if_splits option.splits commit_fault.splits)

lemma run_tx_inv:
  assumes "growing ms" "schema_inv ms db" "run_tx env (release ms n) db = (r, db')"
  shows "schema_inv ms db' \<and> (r = Ok () \<longrightarrow> scRow db' = Some (latest_of (release ms n))) \<and>
    (scRow db' = scRow db \<and> scApplied db' = scApplied db \<or> scRow db' = Some (latest_of (release ms n)) \<and> meCommit env \<noteq> CommitFails) \<and>
    (\<forall>v. scRow db = Some v \<longrightarrow> (\<exists>v' \<ge> v. scRow db' = Some v'))"
  using run_tx_cases [OF assms(3)]
proof (elim disjE exE conjE)
  let ?l = "latest_of (release ms n)"
  note rl = release_latest [OF assms(1), of n]
  fix v
  assume v: "scRow db = Some v" "v < ?l" "meCommit env \<noteq> CommitFails"
    "db' = db\<lparr>scRow := Some ?l, scApplied := scApplied db @ selectPostgresMigrations (release ms n) v ?l\<rparr>"
  have "selectPostgresMigrations (release ms n) v ?l = filter (\<lambda>m. v < mgVersion m \<and> mgVersion m \<le> ?l) ms"
    unfolding selectPostgresMigrations_def release_def filter_filter
  proof (rule filter_cong [OF refl])
    fix m assume m: "m \<in> set ms"
    have "mgVersion m \<le> ?l \<Longrightarrow> m \<in> set (filter (\<lambda>m. mgVersion m \<le> ?l) ms)" using m by simp
    then have "mgVersion m \<le> ?l \<Longrightarrow> m \<in> set (release ms n)" unfolding rl(1) .
    then show "(mgVersion m \<le> n \<and> v < mgVersion m \<and> mgVersion m \<le> latest_of (filter (\<lambda>m. mgVersion m \<le> n) ms)) =
        (v < mgVersion m \<and> mgVersion m \<le> latest_of (filter (\<lambda>m. mgVersion m \<le> n) ms))"
      by (auto simp: release_def)
  qed
  then have "scApplied db' = release ms n"
    using assms(1,2) v(1,2,4) filter_split [of ms v ?l] rl(1) by (simp add: schema_inv_def growing_def)
  then show ?thesis using v rl by (auto simp: schema_inv_def)
next
  note rl = release_latest [OF assms(1), of n]
  assume "scRow db = None" "db' = db\<lparr>scRow := Some (latest_of (release ms n)), scApplied := scApplied db @ release ms n\<rparr>"
    "meCommit env \<noteq> CommitFails"
  then show ?thesis using assms(2) rl by (auto simp: schema_inv_def)
qed (use assms(2) in auto)

lemma RunMigration_release:
  assumes "AllMigrations glob = Ok (release ms n)" "growing ms" "schema_inv ms db" "RunMigration env glob db = (r, db')"
  shows "schema_inv ms db' \<and> (r = Ok () \<longrightarrow> scRow db' = Some (latest_of (release ms n))) \<and>
    (scRow db' = scRow db \<and> scApplied db' = scApplied db \<or> scRow db' = Some (latest_of (release ms n)) \<and> meCommit env \<noteq> CommitFails) \<and>
    (\<forall>v. scRow db = Some v \<longrightarrow> (\<exists>v' \<ge> v. scRow db' = Some v'))"
proof (cases "meEnsure env \<or> meBegin env")
  case True
  then have "r \<noteq> Ok () \<and> scRow db' = scRow db \<and> scApplied db' = scApplied db"
    using assms(1,4) by (auto simp: RunMigration_def ensureSchemaVersionTable_def split: if_splits)
  then show ?thesis using assms(3) by (cases "scRow db") (simp_all add: schema_inv_def)
next
  case False
  then have "run_tx env (release ms n) (db\<lparr>scTable := True\<rparr>) = (r, db')"
    using assms(1,4) by (simp add: RunMigration_def ensureSchemaVersionTable_def)
  moreover have "schema_inv ms (db\<lparr>scTable := True\<rparr>)" using assms(3) by (cases "scRow db") (simp_all add: schema_inv_def)
  ultimately show ?thesis using run_tx_inv [OF assms(2), of "db\<lparr>scTable := True\<rparr>" env n r db'] by simp
qed

text \<open>A start of the application: the release, its embedded files, and what goes wrong.\<close>

type_synonym start = "int \<times> entry list option \<times> mig_env"

definition start_all :: "start list \<Rightarrow> pg_schema \<Rightarrow> pg_schema" where
  "start_all starts db = fold (\<lambda>(n, glob, env) db. snd (RunMigration env glob db)) starts db"

abbreviation empty_db :: pg_schema where
  "empty_db \<equiv> \<lparr>scTable = False, scRow = None, scApplied = []\<rparr>"

lemma start_all_inv:
  "\<lbrakk>growing ms; \<forall>(n, glob, env) \<in> set starts. AllMigrations glob = Ok (release ms n); schema_inv ms db\<rbrakk> \<Longrightarrow> schema_inv ms (start_all starts db)"
proof (induction starts arbitrary: db)
  case (Cons st starts)
  obtain n glob env where st: "st = (n, glob, env)" by (cases st)
  have "schema_inv ms (snd (RunMigration env glob db))"
    using RunMigration_release [of glob ms n db env] Cons.prems st by (cases "RunMigration env glob db") auto
  then show ?case using Cons by (simp add: start_all_def st)
qed (simp add: start_all_def)

text \<open>C24: Whatever releases of the application start, in any order, however often and with whatever
  failures in between, every migration is committed at most once and in order: the database
  holds exactly the migrations up to its recorded version.  A further start never lowers the
  version; if it succeeds, the database is exactly at that release; and if it fails, the
  database is as before, unless the commit was carried out and only its answer was lost.\<close>

theorem migrations_exactly_once:
  assumes "growing ms" "\<forall>(n, glob, env) \<in> set starts. AllMigrations glob = Ok (release ms n)"
    and "db = start_all starts empty_db" "AllMigrations glob = Ok (release ms n)" "RunMigration env glob db = (r, db')"
  shows "scApplied db = (case scRow db of None \<Rightarrow> [] | Some v \<Rightarrow> filter (\<lambda>m. mgVersion m \<le> v) ms) \<and>
    (r = Ok () \<longrightarrow> scRow db' = Some (latest_of (release ms n)) \<and> scApplied db' = release ms n) \<and>
    (r \<noteq> Ok () \<and> meCommit env \<noteq> CommitUnknown \<longrightarrow> scRow db' = scRow db \<and> scApplied db' = scApplied db) \<and>
    (\<forall>v. scRow db = Some v \<longrightarrow> (\<exists>v' \<ge> v. scRow db' = Some v'))"
proof -
  have inv: "schema_inv ms db" unfolding assms(3) by (rule start_all_inv [OF assms(1,2)]) (simp add: schema_inv_def)
  note step = RunMigration_release [OF assms(4,1) inv assms(5)]
  have ok: "scApplied db' = release ms n" if "r = Ok ()"
    using step that release_latest(1) [OF assms(1), of n] by (auto simp: schema_inv_def)
  have "scRow db' = scRow db \<and> scApplied db' = scApplied db" if "r \<noteq> Ok ()" "meCommit env \<noteq> CommitUnknown"
  proof (cases "meEnsure env \<or> meBegin env")
    case True
    then show ?thesis using assms(4,5) by (auto simp: RunMigration_def ensureSchemaVersionTable_def split: if_splits)
  next
    case False
    then have "run_tx env (release ms n) (db\<lparr>scTable := True\<rparr>) = (r, db')"
      using assms(4,5) by (simp add: RunMigration_def ensureSchemaVersionTable_def)
    then have "db' = db\<lparr>scTable := True\<rparr>" by (rule run_tx_failed [OF _ that])
    then show ?thesis by simp
  qed
  then show ?thesis using inv step ok by (auto simp: schema_inv_def split: option.splits)
qed

definition no_fault :: mig_env where
  "no_fault = \<lparr>meEnsure = False, meBegin = False, meBootstrap = False, meRead = False, meUpdate = False,
     meExec = \<lambda>m. False, meCommit = CommitOk\<rparr>"

definition ex_ms :: "Migration list" where
  "ex_ms = [\<lparr>mgVersion = 1, mgName = ''001_init.sql'', mgSQL = ''a''\<rparr>, \<lparr>mgVersion = 2, mgName = ''002_x.sql'', mgSQL = ''b''\<rparr>]"

lemma ex_growing: "growing ex_ms" "AllMigrations (Some ex_entries) = Ok (release ex_ms 2)"
  by (simp_all add: growing_def ex_ms_def ex_all release_def)

theorem migrations_exactly_once_witness:
  "scApplied (snd (RunMigration no_fault (Some ex_entries) (start_all [(2, Some ex_entries, no_fault\<lparr>meCommit := CommitUnknown\<rparr>)] empty_db))) = ex_ms"
proof -
  let ?db = "start_all [(2, Some ex_entries, no_fault\<lparr>meCommit := CommitUnknown\<rparr>)] empty_db"
  have db: "?db = \<lparr>scTable = True, scRow = Some 2, scApplied = ex_ms\<rparr>"
    by (simp add: start_all_def RunMigration_def ex_growing(2) ensureSchemaVersionTable_def no_fault_def run_tx_def bootstrapSchemaVersion_def
        Let_def latest_of_def release_def ex_ms_def commit_tx_def)
  have "fst (RunMigration no_fault (Some ex_entries) ?db) = Ok ()"
    unfolding db by (simp add: RunMigration_def ex_growing(2) ensureSchemaVersionTable_def no_fault_def run_tx_def bootstrapSchemaVersion_def
        getSchemaVersionForUpdate_def Let_def latest_of_def release_def ex_ms_def commit_tx_def)
  then have "RunMigration no_fault (Some ex_entries) ?db = (Ok (), snd (RunMigration no_fault (Some ex_entries) ?db))"
    by (metis prod.collapse)
  from migrations_exactly_once [OF ex_growing(1) _ refl ex_growing(2) this] ex_growing(2) show ?thesis
    by (simp add: release_def ex_ms_def)
qed

text \<open>A container that starts finds the schema of its own release: whether it migrates on start
  or only verifies, it goes on only if exactly the migrations of its release are in the
  database, and verifying changes no data.\<close>

theorem startup_schema_current:
  assumes "growing ms" "\<forall>(n, glob, env) \<in> set starts. AllMigrations glob = Ok (release ms n)"
    and "db = start_all starts empty_db" "AllMigrations glob = Ok (release ms n)"
    and "HandleStartupMigration autoMigration env glob db = (Ok (), db')"
  shows "scApplied db' = release ms n \<and> (\<not> autoMigration \<longrightarrow> scApplied db' = scApplied db \<and> scRow db' = scRow db)"
proof -
  have inv: "schema_inv ms db" unfolding assms(3) by (rule start_all_inv [OF assms(1,2)]) (simp add: schema_inv_def)
  note rl = release_latest(1) [OF assms(1), of n]
  show ?thesis
  proof (cases autoMigration)
    case True
    then show ?thesis using RunMigration_release [OF assms(4,1) inv, of env "Ok ()" db'] assms(5) rl
      by (auto simp: HandleStartupMigration_def schema_inv_def)
  next
    case False
    then have "scRow db = Some (latest_of (release ms n)) \<and> db' = db\<lparr>scTable := True\<rparr>"
      using assms(4,5) by (auto simp: HandleStartupMigration_def VerifyMigration_def LatestVersion_def ensureSchemaVersionTable_def
          getSchemaVersion_def split: if_splits option.splits)
    then show ?thesis using inv rl by (simp add: schema_inv_def)
  qed
qed

theorem startup_schema_current_witness:
  "scApplied (snd (HandleStartupMigration True no_fault (Some ex_entries) empty_db)) = ex_ms"
proof -
  have "fst (HandleStartupMigration True no_fault (Some ex_entries) empty_db) = Ok ()"
    by (simp add: HandleStartupMigration_def RunMigration_def ex_growing(2) ensureSchemaVersionTable_def no_fault_def run_tx_def
        bootstrapSchemaVersion_def Let_def latest_of_def release_def ex_ms_def commit_tx_def)
  then have "HandleStartupMigration True no_fault (Some ex_entries) empty_db =
      (Ok (), snd (HandleStartupMigration True no_fault (Some ex_entries) empty_db))"
    by (metis prod.collapse)
  from startup_schema_current [OF ex_growing(1) _ _ ex_growing(2) this, of "[]"] show ?thesis
    by (simp add: start_all_def release_def ex_ms_def)
qed

end
