(* ===== verification/PubSub.thy ===== *)
theory PubSub
  imports Queue GoStr
begin

text \<open>
  The typed wrappers around the brokers and their adapters: \<open>pkg/pubsub\<close> with the Valkey and
  the JetStream adapter, and the wrapper of \<open>pkg/queue\<close>.  A message type is given by its
  \<open>Encode\<close> and \<open>Decode\<close> methods; the brokers are parameters: what a subscription receives, and
  which messages a JetStream stream stores.
\<close>

subsection \<open>Messages\<close>

record 'm serializable =
  nsEncode :: "'m \<Rightarrow> bytes"
  nsDecode :: "bytes \<Rightarrow> 'm option"

definition ns_ok :: "'m serializable \<Rightarrow> bool" where
  "ns_ok ns \<longleftrightarrow> (\<forall>m. nsDecode ns (nsEncode ns m) = Some m)"

definition handleConverter :: "'m serializable \<Rightarrow> bytes \<Rightarrow> ('m \<Rightarrow> 's \<Rightarrow> 's) \<Rightarrow> 's \<Rightarrow> 's" where
  "handleConverter ns message handleFn s = (case nsDecode ns message of None \<Rightarrow> s | Some msg \<Rightarrow> handleFn msg s)"

subsection \<open>Subscriptions\<close>

definition defaultMaxSubscribeRetries :: int where "defaultMaxSubscribeRetries = 3"

text \<open>
  The backoff computes in 64-bit integers; a shift by 64 or more gives 0, division rounds
  towards zero, and \<open>rand.Int63n\<close>, here the argument \<open>rnd\<close>, panics on a bound below 1.
\<close>

definition shl64 :: "nat \<Rightarrow> int" where
  "shl64 k = (if k \<ge> 64 then 0 else sgn64 (2 ^ k))"

definition half64 :: "int \<Rightarrow> int" where
  "half64 d = (if d < 0 then - ((- d) div 2) else d div 2)"

definition subscribeRetryBackoff :: "(int \<Rightarrow> int) \<Rightarrow> nat \<Rightarrow> (int, unit) outcome" where
  "subscribeRetryBackoff rnd attempt =
     (let d = min (sgn64 (500000000 * shl64 (attempt - 1))) (5 * second);
          n = half64 d + 1
      in if n \<le> 0 then Panic else Ok (half64 d + rnd n))"

text \<open>
  One run of \<open>Receive\<close>: the messages it hands over, whether it ended because the
  subscription was cancelled, the random source, and whether the cancellation comes during
  the backoff that follows.
\<close>

record recv_run =
  rcMessages :: "bytes list"
  rcCancelled :: bool
  rcRandom :: "int \<Rightarrow> int"
  rcWaitCancelled :: bool

datatype sub_end = SubReceiving | SubCancelled | SubDead | SubPanicked

text \<open>
  The goroutine of a subscription.  \<open>SubReceiving\<close>: it is in a further \<open>Receive\<close>; \<open>SubDead\<close>: it
  gave up and invoked \<open>CallbackFn\<close>; \<open>SubPanicked\<close>: a panic ended it, which is logged only.
\<close>

fun sub_loop :: "int \<Rightarrow> int \<Rightarrow> recv_run list \<Rightarrow> bytes list \<times> sub_end" where
  "sub_loop maxRetries attempt [] = ([], SubReceiving)"
| "sub_loop maxRetries attempt (r # rs) =
     (let delivered = filter (\<lambda>m. m \<noteq> []) (rcMessages r) in
      if rcCancelled r then (delivered, SubCancelled)
      else let attempt = attempt + 1 in
        if attempt \<ge> maxRetries then (delivered, SubDead)
        else case subscribeRetryBackoff (rcRandom r) (nat attempt) of
               Ok _ \<Rightarrow> if rcWaitCancelled r then (delivered, SubCancelled)
                       else apfst ((@) delivered) (sub_loop maxRetries attempt rs)
             | _ \<Rightarrow> (delivered, SubPanicked))"

definition va_Subscribe :: "int \<Rightarrow> recv_run list \<Rightarrow> bytes list \<times> sub_end" where
  "va_Subscribe maxSubscribeRetries rs =
     sub_loop (if maxSubscribeRetries \<le> 0 then defaultMaxSubscribeRetries else maxSubscribeRetries) 0 rs"

definition ps_Subscribe :: "'m serializable \<Rightarrow> int \<Rightarrow> recv_run list \<Rightarrow> ('m \<Rightarrow> 's \<Rightarrow> 's) \<Rightarrow> 's \<Rightarrow> 's \<times> sub_end" where
  "ps_Subscribe ns maxSubscribeRetries rs handler s =
     (case va_Subscribe maxSubscribeRetries rs of
        (delivered, e) \<Rightarrow> (fold (\<lambda>message. handleConverter ns message handler) delivered s, e))"

definition va_Publish :: "gostring \<Rightarrow> gostring \<Rightarrow> bytes \<Rightarrow> (gostring \<times> bytes) list \<Rightarrow> (gostring \<times> bytes) list" where
  "va_Publish prefix channel message published = published @ [(prefix @ channel, message)]"

definition ps_Publish :: "'m serializable \<Rightarrow> gostring \<Rightarrow> gostring \<Rightarrow> 'm \<Rightarrow> (gostring \<times> bytes) list \<Rightarrow> (gostring \<times> bytes) list" where
  "ps_Publish ns prefix channel message = va_Publish prefix channel (nsEncode ns message)"

subsection \<open>JetStream\<close>

record nats_msg =
  nmSubject :: gostring
  nmData :: bytes
  nmMsgId :: "gostring option"

text \<open>\<open>getId\<close> reads \<open>meta.id\<close> of a JSON document, \<open>None\<close> if it cannot be parsed.\<close>

definition callbackIDFrom :: "(bytes \<Rightarrow> gostring option) \<Rightarrow> bytes \<Rightarrow> gostring" where
  "callbackIDFrom getId payload = (case getId payload of None \<Rightarrow> [] | Some i \<Rightarrow> i)"

definition nats_message :: "(bytes \<Rightarrow> gostring option) \<Rightarrow> gostring \<Rightarrow> bytes \<Rightarrow> nats_msg" where
  "nats_message getId subject payload =
     (let i = callbackIDFrom getId payload in
      \<lparr>nmSubject = subject, nmData = payload, nmMsgId = (if i \<noteq> [] then Some i else None)\<rparr>)"

text \<open>
  \<open>accept msg stream\<close> is \<open>PublishMsg\<close>: the stream after an acknowledged publish, or \<open>None\<close> without
  an acknowledgement, with the stream then.
\<close>

definition nats_Publish ::
    "(nats_msg \<Rightarrow> 's \<Rightarrow> bool \<times> 's) \<Rightarrow> (bytes \<Rightarrow> gostring option) \<Rightarrow> gostring \<Rightarrow> bytes \<Rightarrow> 's \<Rightarrow> (unit, gostring) outcome \<times> 's" where
  "nats_Publish accept getId subject payload stream =
     (case accept (nats_message getId subject payload) stream of
        (True, stream) \<Rightarrow> (Ok (), stream)
      | (False, stream) \<Rightarrow> (Err (''natsjs: publish '' @ subject), stream))"

definition nats_New :: "bool \<Rightarrow> bool \<Rightarrow> bool \<Rightarrow> gostring \<Rightarrow> gostring \<Rightarrow> (gostring option, gostring) outcome" where
  "nats_New connects jsOk streamOk stream subjectPrefix =
     (if \<not> connects then Err ''natsjs: connect''
      else if \<not> jsOk then Err ''natsjs: jetstream''
      else if stream \<noteq> [] then
        (if subjectPrefix = [] then Err ''natsjs: Stream set without SubjectPrefix''
         else if \<not> streamOk then Err ''natsjs: ensure stream''
         else Ok (Some (subjectPrefix @ ''.>'')))
      else Ok None)"

subsection \<open>The queue wrapper\<close>

definition q_Publish :: "'m serializable \<Rightarrow> gostring \<Rightarrow> bool \<Rightarrow> gostring \<Rightarrow> 'm \<Rightarrow> vk_store \<Rightarrow> bool \<times> vk_store" where
  "q_Publish ns prefix ok channel message = vk_Publish prefix ok channel (nsEncode ns message)"

text \<open>An empty queue gives a nil slice to the decoder.\<close>

definition q_FetchOne :: "'m serializable \<Rightarrow> gostring \<Rightarrow> bool \<Rightarrow> gostring \<Rightarrow> vk_store \<Rightarrow> ('m, unit) outcome \<times> vk_store" where
  "q_FetchOne ns prefix ok channel s =
     (case vk_FetchOne prefix ok channel s of
        (Ok m, s) \<Rightarrow> ((case nsDecode ns (case m of None \<Rightarrow> [] | Some b \<Rightarrow> b) of None \<Rightarrow> Err () | Some msg \<Rightarrow> Ok msg), s)
      | (Err e, s) \<Rightarrow> (Err e, s)
      | (Panic, s) \<Rightarrow> (Panic, s))"

text \<open>The messages decoded so far are returned together with the error.\<close>

fun decode_all :: "'m serializable \<Rightarrow> bytes list \<Rightarrow> 'm list \<times> bool" where
  "decode_all ns [] = ([], True)"
| "decode_all ns (d # ds) =
     (case nsDecode ns d of
        None \<Rightarrow> ([], False)
      | Some msg \<Rightarrow> apfst ((#) msg) (decode_all ns ds))"

definition q_FetchMany :: "'m serializable \<Rightarrow> gostring \<Rightarrow> bool \<Rightarrow> gostring \<Rightarrow> nat \<Rightarrow> vk_store \<Rightarrow> ('m list \<times> bool) \<times> vk_store" where
  "q_FetchMany ns prefix ok channel maxItem s =
     (case vk_FetchMany prefix ok channel maxItem s of
        (Ok ds, s) \<Rightarrow> (decode_all ns ds, s)
      | (_, s) \<Rightarrow> (([], False), s))"

subsection \<open>Backoff\<close>

definition rnd_ok :: "(int \<Rightarrow> int) \<Rightarrow> bool" where
  "rnd_ok rnd \<longleftrightarrow> (\<forall>n > 0. 0 \<le> rnd n \<and> rnd n < n)"

lemma backoff_nominal:
  assumes "k \<le> 34"
  shows "sgn64 (500000000 * shl64 k) = 500000000 * 2 ^ k"
proof -
  have p: "(2 :: int) ^ k \<le> 2 ^ 34" by (rule power_increasing) (use assms in auto)
  have pos: "(0 :: int) < 2 ^ k" by simp
  have "shl64 k = sgn64 (2 ^ k)" using assms by (simp add: shl64_def)
  also have "\<dots> = 2 ^ k"
    by (rule sgn64_id, rule order_trans [OF _ less_imp_le [OF pos]], simp, use p in simp)
  finally have e: "shl64 k = 2 ^ k" .
  have "sgn64 (500000000 * 2 ^ k) = 500000000 * 2 ^ k"
    by (rule sgn64_id, rule order_trans [of _ 0], simp, use pos in simp, use p in simp)
  then show ?thesis by (simp add: e)
qed

lemma backoff_Ok:
  assumes "1 \<le> attempt" "attempt \<le> 35"
  defines "d \<equiv> min (500000000 * 2 ^ (attempt - 1)) (5 * second)"
  shows "subscribeRetryBackoff rnd attempt = Ok (d div 2 + rnd (d div 2 + 1)) \<and> 0 < d"
proof -
  have k: "attempt - 1 \<le> 34" using assms(2) by simp
  have "0 < d" unfolding d_def by (simp add: second_def)
  then show ?thesis unfolding subscribeRetryBackoff_def backoff_nominal [OF k] d_def [symmetric] Let_def half64_def by simp
qed

text \<open>Up to the 35th attempt the backoff is between half of its nominal value and all of it,
  where the nominal value doubles from half a second and is capped at five seconds.\<close>

theorem backoff_bounds:
  assumes "1 \<le> attempt" "attempt \<le> 35" "rnd_ok rnd"
  shows "\<exists>d. subscribeRetryBackoff rnd attempt = Ok d \<and>
    min (500000000 * 2 ^ (attempt - 1)) (5 * second) div 2 \<le> d \<and> d \<le> min (500000000 * 2 ^ (attempt - 1)) (5 * second)"
proof -
  let ?d = "min (500000000 * 2 ^ (attempt - 1)) (5 * second) :: int"
  note b = backoff_Ok [OF assms(1,2), of rnd]
  then have "0 \<le> rnd (?d div 2 + 1) \<and> rnd (?d div 2 + 1) < ?d div 2 + 1"
    using assms(3) unfolding rnd_ok_def by (metis add_pos_nonneg add.commute pos_imp_zdiv_nonneg_iff zero_less_numeral zero_less_one less_imp_le)
  then show ?thesis using b by (intro exI [of _ "?d div 2 + rnd (?d div 2 + 1)"]) linarith
qed

theorem backoff_bounds_witness: "\<exists>d. subscribeRetryBackoff (\<lambda>n. 0) 1 = Ok d \<and> 250000000 \<le> d \<and> d \<le> 500000000"
  using backoff_bounds [of 1 "\<lambda>n. 0"] by (simp add: rnd_ok_def second_def)

lemma backoff_overflow_aux: "subscribeRetryBackoff rnd 36 = Panic"
  by (simp add: subscribeRetryBackoff_def shl64_def sgn64_def half64_def second_def Let_def)

text \<open>The backoff of the 36th attempt overflows to a negative duration and panics, whatever
  the random source.\<close>

theorem backoff_overflow: "subscribeRetryBackoff rnd 36 = Panic"
  by (rule backoff_overflow_aux)

subsection \<open>Subscriptions over their life\<close>

abbreviation nonempty :: "bytes list \<Rightarrow> bytes list" where
  "nonempty ms \<equiv> filter (\<lambda>m. m \<noteq> []) ms"

definition uncancelled :: "recv_run list \<Rightarrow> bool" where
  "uncancelled rs \<longleftrightarrow> (\<forall>r \<in> set rs. \<not> rcCancelled r \<and> \<not> rcWaitCancelled r)"

lemma sub_loop_exact:
  assumes "uncancelled rs" "0 \<le> a" "a < m" "m \<le> 36"
  shows "sub_loop m a rs =
    (if int (length rs) < m - a then (concat (map (nonempty \<circ> rcMessages) rs), SubReceiving)
     else (concat (map (nonempty \<circ> rcMessages) (take (nat (m - a)) rs)), SubDead))"
  using assms
proof (induction rs arbitrary: a)
  case (Cons r rs)
  have r: "\<not> rcCancelled r" "\<not> rcWaitCancelled r" "uncancelled rs" using Cons.prems(1) by (auto simp: uncancelled_def)
  show ?case
  proof (cases "a + 1 \<ge> m")
    case True
    then have "nat (m - a) = 1" using Cons.prems by simp
    then show ?thesis using True r Cons.prems by simp
  next
    case False
    then have "1 \<le> nat (a + 1)" "nat (a + 1) \<le> 35" using Cons.prems by auto
    from backoff_Ok [OF this] obtain d where d: "subscribeRetryBackoff (rcRandom r) (nat (a + 1)) = Ok d" by blast
    have "nat (m - a) = Suc (nat (m - (a + 1)))" using False Cons.prems by linarith
    then show ?thesis using False r d Cons.IH [OF r(3), of "a + 1"] Cons.prems by (simp add: apfst_def map_prod_def)
  qed
qed simp

lemma sub_loop_alive:
  assumes "uncancelled rs" "0 \<le> a" "int (length rs) + a < m" "int (length rs) + a < 36"
  shows "sub_loop m a rs = (concat (map (nonempty \<circ> rcMessages) rs), SubReceiving)"
  using assms
proof (induction rs arbitrary: a)
  case (Cons r rs)
  have r: "\<not> rcCancelled r" "\<not> rcWaitCancelled r" "uncancelled rs" using Cons.prems(1) by (auto simp: uncancelled_def)
  have "1 \<le> nat (a + 1)" "nat (a + 1) \<le> 35" using Cons.prems by auto
  from backoff_Ok [OF this] obtain d where d: "subscribeRetryBackoff (rcRandom r) (nat (a + 1)) = Ok d" by blast
  show ?case using r d Cons.IH [OF r(3), of "a + 1"] Cons.prems by (simp add: apfst_def map_prod_def)
qed simp

text \<open>With a limit of at most 36 the drops are counted over the whole life of the subscription:
  it delivers every non-empty message in order while it has been dropped fewer times than the
  limit, and is given up at the limit, with the callback.  No stretch of successful
  reception starts the count again, although the comment at the limit speaks of consecutive
  failures.\<close>

theorem subscription_exact:
  assumes "uncancelled rs" "maxRetries \<le> 36"
    and "limit = (if maxRetries \<le> 0 then 3 else maxRetries)"
  shows "va_Subscribe maxRetries rs =
    (if int (length rs) < limit then (concat (map (nonempty \<circ> rcMessages) rs), SubReceiving)
     else (concat (map (nonempty \<circ> rcMessages) (take (nat limit) rs)), SubDead))"
  using sub_loop_exact [OF assms(1), of 0 limit] assms(2,3)
  by (simp add: va_Subscribe_def defaultMaxSubscribeRetries_def split: if_splits)

abbreviation ex_run :: recv_run where
  "ex_run \<equiv> \<lparr>rcMessages = [[1], [2]], rcCancelled = False, rcRandom = \<lambda>n. 0, rcWaitCancelled = False\<rparr>"

theorem subscription_exact_witness:
  "va_Subscribe 0 [ex_run, ex_run, ex_run] = ([[1], [2], [1], [2], [1], [2]], SubDead)"
  using subscription_exact [of "[ex_run, ex_run, ex_run]" 0 3] by (simp add: uncancelled_def numeral_eq_Suc)

text \<open>With a limit above 36 a subscription that was dropped 36 times ends silently: the
  backoff panics, the panic is only logged, and the callback that would restart the process
  is not invoked.\<close>

theorem subscription_silent_end:
  assumes "uncancelled rs" "length rs = 36" "36 < maxRetries"
  shows "snd (va_Subscribe maxRetries rs) = SubPanicked"
proof -
  have "\<lbrakk>uncancelled rs; 0 \<le> a; int (length rs) + a = 36; rs \<noteq> []\<rbrakk> \<Longrightarrow> snd (sub_loop maxRetries a rs) = SubPanicked" for a
  proof (induction rs arbitrary: a)
    case (Cons r rs)
    have r: "\<not> rcCancelled r" "\<not> rcWaitCancelled r" "uncancelled rs" using Cons.prems(1) by (auto simp: uncancelled_def)
    show ?case
    proof (cases "rs = []")
      case True
      then have "nat (a + 1) = 36" using Cons.prems by simp
      then show ?thesis using r Cons.prems assms(3) by (simp add: backoff_overflow_aux)
    next
      case False
      then have "1 \<le> nat (a + 1)" "nat (a + 1) \<le> 35" using Cons.prems by (cases rs; auto)+
      from backoff_Ok [OF this] obtain d where d: "subscribeRetryBackoff (rcRandom r) (nat (a + 1)) = Ok d" by blast
      then show ?thesis using r False Cons.IH [OF r(3), of "a + 1"] Cons.prems assms(3) by (cases rs) auto
    qed
  qed simp
  moreover have "rs \<noteq> []" using assms(2) by auto
  ultimately show ?thesis using assms by (simp add: va_Subscribe_def)
qed

theorem subscription_silent_end_witness: "snd (va_Subscribe 50 (replicate 36 ex_run)) = SubPanicked"
  by (rule subscription_silent_end) (auto simp: uncancelled_def)

text \<open>A codec for the examples: two messages, one byte each.\<close>

abbreviation ex_codec :: "bool serializable" where
  "ex_codec \<equiv> \<lparr>nsEncode = \<lambda>b. [if b then 1 else 2],
     nsDecode = \<lambda>d. if d = [1] then Some True else if d = [2] then Some False else None\<rparr>"

text \<open>C25: The messages a broker delivers reach the handler as the sender had them, in order, once each, over
  all connections of the subscription, as long as its connection to the broker was dropped fewer
  times than the configured limit (three if none is configured) and fewer than 36 times;
  after each drop it waits and receives again.  Decoding inverts encoding, no encoding is
  empty, and the subscription is not cancelled.\<close>

theorem subscription_typed:
  assumes "ns_ok ns" "\<forall>m. nsEncode ns m \<noteq> []" "uncancelled rs"
    and "limit = (if maxRetries \<le> 0 then 3 else maxRetries)" "int (length rs) < limit" "length rs < 36"
    and "map rcMessages rs = map (map (nsEncode ns)) mss"
  shows "ps_Subscribe ns maxRetries rs handler s = (fold handler (concat mss) s, SubReceiving)"
proof -
  have enc: "nonempty (map (nsEncode ns) ms) = map (nsEncode ns) ms" for ms using assms(2) by (simp add: filter_id_conv)
  have "concat (map (nonempty \<circ> rcMessages) rs) = concat (map nonempty (map rcMessages rs))" by (simp add: map_concat)
  also have "\<dots> = map (nsEncode ns) (concat mss)" unfolding assms(7) by (simp add: enc map_concat comp_def)
  finally have d: "va_Subscribe maxRetries rs = (map (nsEncode ns) (concat mss), SubReceiving)"
    using sub_loop_alive [OF assms(3), of 0 limit] assms(4-6)
    by (simp add: va_Subscribe_def defaultMaxSubscribeRetries_def split: if_splits)
  have "fold (\<lambda>message. handleConverter ns message handler) (map (nsEncode ns) ms) s = fold handler ms s" for ms s
    using assms(1) by (induction ms arbitrary: s) (simp_all add: handleConverter_def ns_ok_def)
  then show ?thesis by (simp add: ps_Subscribe_def d)
qed

theorem subscription_typed_witness:
  "ps_Subscribe ex_codec 0 [ex_run\<lparr>rcMessages := map (nsEncode ex_codec) [True, False]\<rparr>,
       ex_run\<lparr>rcMessages := map (nsEncode ex_codec) [True]\<rparr>] (\<lambda>m s. s @ [m]) [] =
     ([True, False, True], SubReceiving)"
  using subscription_typed [of ex_codec "[ex_run\<lparr>rcMessages := map (nsEncode ex_codec) [True, False]\<rparr>,
       ex_run\<lparr>rcMessages := map (nsEncode ex_codec) [True]\<rparr>]" 3 0
    "[[True, False], [True]]" "\<lambda>m s. s @ [m]" "[]"]
  by (simp add: uncancelled_def ns_ok_def)

subsection \<open>Typed queues\<close>

definition q_publish_all :: "'m serializable \<Rightarrow> gostring \<Rightarrow> gostring \<Rightarrow> 'm list \<Rightarrow> vk_store \<Rightarrow> vk_store" where
  "q_publish_all ns prefix channel ms s = fold (\<lambda>m s. snd (q_Publish ns prefix True channel m s)) ms s"

lemma q_publish_all_content:
  "vk_list (q_publish_all ns prefix channel ms s) (prefix @ channel) = vk_list s (prefix @ channel) @ map (nsEncode ns) ms"
  by (induction ms arbitrary: s) (simp_all add: q_publish_all_def q_Publish_def vkq.publish_content)

lemma decode_all_encode: "ns_ok ns \<Longrightarrow> decode_all ns (map (nsEncode ns) ms) = (ms, True)"
  by (induction ms) (simp_all add: ns_ok_def)

lemma decode_all_stops:
  "ns_ok ns \<Longrightarrow> nsDecode ns d = None \<Longrightarrow> decode_all ns (map (nsEncode ns) ms @ d # ds) = (ms, False)"
  by (induction ms) (simp_all add: ns_ok_def)

lemma q_FetchMany_ok:
  "q_FetchMany ns prefix True channel n s =
     (decode_all ns (take n (vk_list s (prefix @ channel))), snd (vk_FetchMany prefix True channel n s))"
  unfolding q_FetchMany_def by (subst vkq.fetch_ok) simp

text \<open>What is published to an empty queue is fetched as it was published, in order, and what
  was not asked for stays.\<close>

theorem queue_typed_fifo:
  assumes "ns_ok ns" "vk_list s (prefix @ channel) = []"
  shows "fst (q_FetchMany ns prefix True channel n (q_publish_all ns prefix channel ms s)) = (take n ms, True) \<and>
         vk_list (snd (q_FetchMany ns prefix True channel n (q_publish_all ns prefix channel ms s))) (prefix @ channel) =
           map (nsEncode ns) (drop n ms)"
  using assms by (simp add: q_FetchMany_ok q_publish_all_content vkq.fetch_content take_map drop_map decode_all_encode)

theorem queue_typed_fifo_witness:
  "fst (q_FetchMany ex_codec ''p:'' True ''c'' 2 (q_publish_all ex_codec ''p:'' ''c'' [True, False, True] [])) = ([True, False], True)"
  using queue_typed_fifo [of ex_codec "[]" "''p:''" "''c''" 2 "[True, False, True]"]
  by (simp add: ns_ok_def vk_list_def numeral_eq_Suc)

text \<open>One message that cannot be decoded costs the batch the messages after it: they were taken
  from the queue together with it, and only those before it are returned.\<close>

theorem queue_decode_loss:
  assumes "ns_ok ns" "nsDecode ns bad = None"
    and "vk_list s (prefix @ channel) = map (nsEncode ns) ms @ bad # map (nsEncode ns) ms'"
    and "n = length ms + 1 + length ms'"
  shows "fst (q_FetchMany ns prefix True channel n s) = (ms, False) \<and>
         vk_list (snd (q_FetchMany ns prefix True channel n s)) (prefix @ channel) = []"
  using assms by (simp add: q_FetchMany_ok vkq.fetch_content decode_all_stops)

theorem queue_decode_loss_witness:
  "fst (q_FetchMany ex_codec ''p:'' True ''c'' 3 [(''p:c'', [[1], [9], [2]])]) = ([True], False) \<and>
   vk_list (snd (q_FetchMany ex_codec ''p:'' True ''c'' 3 [(''p:c'', [[1], [9], [2]])])) ''p:c'' = []"
  using queue_decode_loss [of ex_codec "[9]" "[(''p:c'', [[1], [9], [2]])]" "''p:''" "''c''" "[True]" "[False]" 3]
  by (simp add: ns_ok_def vk_list_def gm_get_def)

subsection \<open>Exactly once through JetStream\<close>

text \<open>
  What the code relies on of \<open>PublishMsg\<close>: a stream appends the message or leaves itself
  unchanged, and it does the latter for a message whose \<open>Nats-Msg-Id\<close> it has seen.
\<close>

definition msg_ids :: "nats_msg list \<Rightarrow> gostring list" where
  "msg_ids st = map (the \<circ> nmMsgId) (filter (\<lambda>m. nmMsgId m \<noteq> None) st)"

definition stream_dedupes :: "(nats_msg \<Rightarrow> nats_msg list \<Rightarrow> bool \<times> nats_msg list) \<Rightarrow> bool" where
  "stream_dedupes accept \<longleftrightarrow>
     (\<forall>m st. snd (accept m st) = st \<or>
             snd (accept m st) = st @ [m] \<and> (\<forall>i. nmMsgId m = Some i \<longrightarrow> i \<notin> set (msg_ids st)))"

definition nats_publish_all ::
    "(nats_msg \<Rightarrow> nats_msg list \<Rightarrow> bool \<times> nats_msg list) \<Rightarrow> (bytes \<Rightarrow> gostring option) \<Rightarrow> (gostring \<times> bytes) list \<Rightarrow> nats_msg list \<Rightarrow> nats_msg list" where
  "nats_publish_all accept getId ps st = fold (\<lambda>(subject, payload) st. snd (nats_Publish accept getId subject payload st)) ps st"

lemma nats_Publish_stream: "snd (nats_Publish accept getId subject payload st) = snd (accept (nats_message getId subject payload) st)"
  by (cases "accept (nats_message getId subject payload) st") (auto simp: nats_Publish_def split: bool.splits)

text \<open>However often callbacks are published again, in any order and with any acknowledgements
  lost, the stream holds at most one message for each callback id, and every message it
  holds is one that was published, under its subject and with its own id.\<close>

theorem nats_stored_once:
  assumes "stream_dedupes accept"
  shows "distinct (msg_ids (nats_publish_all accept getId ps [])) \<and>
         set (nats_publish_all accept getId ps []) \<subseteq> (\<lambda>(subject, payload). nats_message getId subject payload) ` set ps"
proof -
  let ?m = "\<lambda>(subject, payload). nats_message getId subject payload"
  have "distinct (msg_ids st) \<Longrightarrow> distinct (msg_ids (nats_publish_all accept getId ps st)) \<and>
        set (nats_publish_all accept getId ps st) \<subseteq> set st \<union> ?m ` set ps" for st
  proof (induction ps arbitrary: st)
    case (Cons p ps)
    obtain subject payload where p: "p = (subject, payload)" by (cases p)
    let ?s = "snd (accept (nats_message getId subject payload) st)"
    from assms have step: "?s = st \<or> ?s = st @ [nats_message getId subject payload] \<and>
        (\<forall>i. nmMsgId (nats_message getId subject payload) = Some i \<longrightarrow> i \<notin> set (msg_ids st))"
      unfolding stream_dedupes_def by blast
    then have "distinct (msg_ids ?s)" using Cons.prems by (auto simp: msg_ids_def)
    moreover have "set ?s \<subseteq> set st \<union> {nats_message getId subject payload}" using step by auto
    moreover have "nats_publish_all accept getId (p # ps) st = nats_publish_all accept getId ps ?s"
      by (simp add: nats_publish_all_def p nats_Publish_stream)
    ultimately show ?case using Cons.IH [of ?s] p by auto
  qed (simp add: nats_publish_all_def)
  from this [of "[]"] show ?thesis by (simp add: msg_ids_def)
qed

definition ex_jetstream :: "nats_msg \<Rightarrow> nats_msg list \<Rightarrow> bool \<times> nats_msg list" where
  "ex_jetstream m st = (True, case nmMsgId m of None \<Rightarrow> st @ [m] | Some i \<Rightarrow> if i \<in> set (msg_ids st) then st else st @ [m])"

theorem nats_stored_once_witness:
  "distinct (msg_ids (nats_publish_all ex_jetstream (\<lambda>b. Some ''id'') [(''s'', [1]), (''s'', [1])] []))"
proof -
  have "stream_dedupes ex_jetstream" by (auto simp: stream_dedupes_def ex_jetstream_def split: option.splits)
  from nats_stored_once [OF this] show ?thesis by blast
qed

end
