(* ===== verification/Lifecycle.thy ===== *)
theory Lifecycle
  imports Sessions WorkerPool "HOL-Library.Multiset"
begin

text \<open>
  The life of the process: the health flag (\<open>provider/healthy-provider\<close>), the collected tasks
  (\<open>provider/fn-collector\<close>), the interval tasks and the shutdown of the module
  (\<open>core/delivery/module/0.0.new.go\<close>) with the clean-up tasks that its parts register, and the
  file descriptor limit at start-up (\<open>pkg/runtimetune\<close>).
\<close>

subsection \<open>Health\<close>

record healthyHistory =
  hhTimestamp :: int
  hhIsHealthy :: bool
  hhReason :: gostring

record healthy =
  hlIsHealthy :: bool
  hlHistory :: "healthyHistory list"

definition NewHealthy :: healthy where
  "NewHealthy = \<lparr>hlIsHealthy = False, hlHistory = []\<rparr>"

definition hl_SetHealthy :: "int \<Rightarrow> gostring \<Rightarrow> healthy \<Rightarrow> healthy" where
  "hl_SetHealthy now reason h =
     (if \<not> hlIsHealthy h
      then h\<lparr>hlIsHealthy := True,
             hlHistory := hlHistory h @ [\<lparr>hhTimestamp = now, hhIsHealthy = True, hhReason = reason\<rparr>]\<rparr>
      else h)"

definition hl_SetUnhealthy :: "int \<Rightarrow> gostring \<Rightarrow> healthy \<Rightarrow> healthy" where
  "hl_SetUnhealthy now reason h =
     (if hlIsHealthy h
      then h\<lparr>hlIsHealthy := False,
             hlHistory := hlHistory h @ [\<lparr>hhTimestamp = now, hhIsHealthy = False, hhReason = reason\<rparr>]\<rparr>
      else h)"

datatype health_op = OpHealthy int gostring | OpUnhealthy int gostring

primrec health_apply :: "health_op \<Rightarrow> healthy \<Rightarrow> healthy" where
  "health_apply (OpHealthy now reason) = hl_SetHealthy now reason"
| "health_apply (OpUnhealthy now reason) = hl_SetUnhealthy now reason"

text \<open>The threshold actions of the worker pool drive the flag.\<close>

definition pool_health :: "int \<Rightarrow> bool \<times> bool \<Rightarrow> healthy \<Rightarrow> healthy" where
  "pool_health now fires h =
     (let h = (if fst fires then hl_SetUnhealthy now ''Worker pool is over upper threshold'' h else h)
      in if snd fires then hl_SetHealthy now ''Worker pool is below lower threshold'' h else h)"

subsection \<open>Collected tasks\<close>

record 'f fnItem =
  fiPriority :: int
  fiFn :: 'f

definition FnPriorityEarlyest :: int where "FnPriorityEarlyest = -9999"
definition FnPriorityNormal :: int where "FnPriorityNormal = 0"
definition FnPriorityLate :: int where "FnPriorityLate = 100"
definition FnPriorityLatest :: int where "FnPriorityLatest = 9999"

definition RegTask :: "'f \<Rightarrow> int \<Rightarrow> 'f fnItem list \<Rightarrow> 'f fnItem list" where
  "RegTask doStuff priority s = s @ [\<lparr>fiPriority = priority, fiFn = doStuff\<rparr>]"

text \<open>
  \<open>sort.Slice\<close> is not stable: \<open>srt\<close> is any function that orders the items by their priority.
\<close>

definition sort_slice :: "('f fnItem list \<Rightarrow> 'f fnItem list) \<Rightarrow> bool" where
  "sort_slice srt \<longleftrightarrow> (\<forall>xs. mset (srt xs) = mset xs \<and> sorted (map fiPriority (srt xs)))"

definition Get :: "('f fnItem list \<Rightarrow> 'f fnItem list) \<Rightarrow> 'f fnItem list \<Rightarrow> 'f list \<times> 'f fnItem list" where
  "Get srt s = (let s = srt s in (map fiFn s, s))"

fun run_fns :: "('s \<Rightarrow> ('s, unit) outcome) list \<Rightarrow> 's \<Rightarrow> ('s, unit) outcome" where
  "run_fns [] s = Ok s"
| "run_fns (fn # fns) s = obind (fn s) (run_fns fns)"

subsection \<open>Module\<close>

text \<open>
  The parts of the process that the clean-up tasks stop: the container with its shared tables,
  the subscriptions, the two tickers with their \<open>done\<close> channels and the worker pool.  \<open>mdRun\<close>
  logs the tasks as they run.  The shutdown of the metrics server and the closing of the
  telemetry, pub/sub, queue and cache clients act outside this state.
\<close>

datatype cleanup = StopIntervalTasks | StopPingLoop | UnsubscribeChannels | MediatorShutdown | HubShutdown
  | MetricsShutdown | OtelShutdown | PubsubFlush | QueueClose | CacheFlush | PoolClose | CheckTransferring

record module =
  mdHealthy :: healthy
  mdWorld :: world
  mdSubscribed :: bool
  mdIntervalDone :: bool
  mdPingDone :: bool
  mdIntervals :: "nat fnItem list"
  mdPool :: "nat list pool"
  mdTransferring :: "(gostring \<times> gostring) list"
  mdReport :: "(gostring \<times> gostring) list"
  mdRun :: "cleanup list"

definition run_task :: "nenv \<Rightarrow> cleanup \<Rightarrow> module \<Rightarrow> (module, unit) outcome" where
  "run_task env c m =
     (case c of
        StopIntervalTasks \<Rightarrow> if mdIntervalDone m then Panic else Ok (m\<lparr>mdIntervalDone := True\<rparr>)
      | StopPingLoop \<Rightarrow> if mdPingDone m then Panic else Ok (m\<lparr>mdPingDone := True\<rparr>)
      | UnsubscribeChannels \<Rightarrow> Ok (m\<lparr>mdSubscribed := False\<rparr>)
      | MediatorShutdown \<Rightarrow>
          (case Mediator_Shutdown env (mdWorld m) of
             (Ok transferring, w) \<Rightarrow> Ok (m\<lparr>mdWorld := w, mdTransferring := transferring\<rparr>)
           | _ \<Rightarrow> Panic)
      | HubShutdown \<Rightarrow> Ok (m\<lparr>mdWorld := upd_node (\<lambda>n. n\<lparr>ndHub := Hub_Shutdown (ndHub n)\<rparr>) (mdWorld m)\<rparr>)
      | PoolClose \<Rightarrow> obind (Pool_Close (mdPool m)) (\<lambda>p. Ok (m\<lparr>mdPool := p\<rparr>))
      | CheckTransferring \<Rightarrow> Ok (m\<lparr>mdReport := checkTransferingConns env (mdTransferring m) (mdWorld m)\<rparr>)
      | _ \<Rightarrow> Ok m)"

definition run_cleanup :: "nenv \<Rightarrow> cleanup \<Rightarrow> module \<Rightarrow> (module, unit) outcome" where
  "run_cleanup env c m = obind (run_task env c m) (\<lambda>m. Ok (m\<lparr>mdRun := mdRun m @ [c]\<rparr>))"

text \<open>What the constructors register, each for the part that it builds.\<close>

definition cleanup_priority :: "cleanup \<Rightarrow> int" where
  "cleanup_priority c =
     (if c \<in> {StopIntervalTasks, StopPingLoop, UnsubscribeChannels} then FnPriorityEarlyest
      else if c = PoolClose then FnPriorityLate
      else if c = CheckTransferring then FnPriorityLatest
      else FnPriorityNormal)"

definition all_cleanups :: "cleanup list" where
  "all_cleanups = [StopIntervalTasks, StopPingLoop, UnsubscribeChannels, MediatorShutdown, HubShutdown,
     MetricsShutdown, OtelShutdown, PubsubFlush, QueueClose, CacheFlush, PoolClose, CheckTransferring]"

definition register_cleanups :: "cleanup list \<Rightarrow> cleanup fnItem list" where
  "register_cleanups cs = fold (\<lambda>c. RegTask c (cleanup_priority c)) cs []"

definition Module_Shutdown ::
    "(cleanup fnItem list \<Rightarrow> cleanup fnItem list) \<Rightarrow> nenv \<Rightarrow> int \<Rightarrow> cleanup fnItem list \<Rightarrow> module \<Rightarrow> (module, unit) outcome" where
  "Module_Shutdown srt env now items m =
     (let m = m\<lparr>mdHealthy := hl_SetUnhealthy now ''Shutting down'' (mdHealthy m)\<rparr>
      in run_fns (map (run_cleanup env) (fst (Get srt items))) m)"

text \<open>One tick of the interval loop, until its channel is closed.\<close>

definition interval_tick ::
    "(nat fnItem list \<Rightarrow> nat fnItem list) \<Rightarrow> bool \<Rightarrow> module \<Rightarrow> (module, unit) outcome" where
  "interval_tick srt waiting m =
     (if mdIntervalDone m then Ok m
      else case Get srt (mdIntervals m) of
             (fns, items) \<Rightarrow>
               obind (Submit waiting fns (mdPool m)) (\<lambda>(_, p). Ok (m\<lparr>mdIntervals := items, mdPool := p\<rparr>)))"

subsection \<open>File descriptors\<close>

definition practicalFDCeiling :: nat where "practicalFDCeiling = 2 ^ 20"

text \<open>
  The limits of the process are the pair of soft and hard limit; \<open>allowed\<close> says which soft limit
  the kernel accepts, \<open>None\<close> stands for a limit that cannot be read.
\<close>

definition setFDSoftLimit :: "(nat \<Rightarrow> bool) \<Rightarrow> nat \<Rightarrow> nat \<Rightarrow> nat \<times> nat \<Rightarrow> bool \<times> nat \<times> nat" where
  "setFDSoftLimit allowed want hard limits =
     (if want \<le> hard \<and> hard \<le> snd limits \<and> allowed want then (True, want, hard) else (False, limits))"

definition raiseSoftLimit :: "(nat \<Rightarrow> bool) \<Rightarrow> nat \<Rightarrow> nat \<Rightarrow> nat \<times> nat \<Rightarrow> (nat, unit) outcome \<times> nat \<times> nat" where
  "raiseSoftLimit allowed soft hard limits =
     (case setFDSoftLimit allowed hard hard limits of
        (True, limits) \<Rightarrow> (Ok hard, limits)
      | (False, limits) \<Rightarrow>
          let want = min hard practicalFDCeiling in
          if want \<le> soft then (Err (), limits)
          else case setFDSoftLimit allowed want hard limits of
                 (False, limits) \<Rightarrow> (Err (), limits)
               | (True, limits) \<Rightarrow> (Ok want, limits))"

record tune_result =
  trGOMAXPROCS :: nat
  trNumCPU :: nat
  trFDSoft :: nat
  trFDHard :: nat

definition tune_Apply :: "nat \<Rightarrow> nat \<Rightarrow> bool \<Rightarrow> (nat \<Rightarrow> bool) \<Rightarrow> nat \<times> nat \<Rightarrow> tune_result \<times> nat \<times> nat" where
  "tune_Apply numCPU gomaxprocs readable allowed limits =
     (let res = \<lparr>trGOMAXPROCS = gomaxprocs, trNumCPU = numCPU, trFDSoft = 0, trFDHard = 0\<rparr> in
      if \<not> readable then (res, limits)
      else case limits of (soft, hard) \<Rightarrow>
        case (if soft < hard
              then case raiseSoftLimit allowed soft hard limits of
                     (Ok newSoft, limits) \<Rightarrow> (newSoft, limits)
                   | (_, limits) \<Rightarrow> (soft, limits)
              else (soft, limits)) of
          (soft, limits) \<Rightarrow> (res\<lparr>trFDSoft := soft, trFDHard := hard\<rparr>, limits))"

subsection \<open>Properties of the health flag\<close>

fun alternates :: "bool \<Rightarrow> bool list \<Rightarrow> bool" where
  "alternates b [] = True"
| "alternates b (x # xs) = (x \<noteq> b \<and> alternates x xs)"

lemma alternates_snoc: "alternates b (xs @ [x]) \<longleftrightarrow> alternates b xs \<and> x \<noteq> (if xs = [] then b else last xs)"
  by (induction xs arbitrary: b) auto

definition healthy_inv :: "healthy \<Rightarrow> bool" where
  "healthy_inv h \<longleftrightarrow> alternates False (map hhIsHealthy (hlHistory h)) \<and>
     hlIsHealthy h = (hlHistory h \<noteq> [] \<and> hhIsHealthy (last (hlHistory h)))"

lemma healthy_inv_apply: "healthy_inv h \<Longrightarrow> healthy_inv (health_apply op h)"
  by (cases op) (auto simp: healthy_inv_def hl_SetHealthy_def hl_SetUnhealthy_def alternates_snoc last_map)

text \<open>After any sequence of reports the history tells the whole story: its entries alternate,
  beginning with a healthy one, none is repeated, and the flag is the value of the last one.\<close>

theorem health_history_exact:
  "alternates False (map hhIsHealthy (hlHistory (fold health_apply ops NewHealthy))) \<and>
   hlIsHealthy (fold health_apply ops NewHealthy) =
     (hlHistory (fold health_apply ops NewHealthy) \<noteq> [] \<and> hhIsHealthy (last (hlHistory (fold health_apply ops NewHealthy))))"
proof -
  have "healthy_inv h \<Longrightarrow> healthy_inv (fold health_apply ops h)" for h
    by (induction ops arbitrary: h) (simp_all add: healthy_inv_apply)
  from this [of NewHealthy] show ?thesis by (simp add: healthy_inv_def NewHealthy_def)
qed

subsection \<open>Properties of the shutdown\<close>

lemma Get_items:
  assumes "sort_slice srt"
  shows "mset (fst (Get srt s)) = image_mset fiFn (mset s)" "sorted (map fiPriority (snd (Get srt s)))"
    "fst (Get srt s) = map fiFn (snd (Get srt s))" "set (snd (Get srt s)) = set s"
proof -
  have e: "mset (srt s) = mset s" using assms by (simp add: sort_slice_def)
  show "mset (fst (Get srt s)) = image_mset fiFn (mset s)" "set (snd (Get srt s)) = set s"
    by (simp_all add: Get_def Let_def e mset_eq_setD [OF e])
qed (use assms in \<open>simp_all add: Get_def Let_def sort_slice_def\<close>)

lemma register_cleanups_map: "register_cleanups cs = map (\<lambda>c. \<lparr>fiPriority = cleanup_priority c, fiFn = c\<rparr>) cs"
proof -
  have "fold (\<lambda>c. RegTask c (cleanup_priority c)) cs s = s @ map (\<lambda>c. \<lparr>fiPriority = cleanup_priority c, fiFn = c\<rparr>) cs" for s
    by (induction cs arbitrary: s) (simp_all add: RegTask_def)
  then show ?thesis by (simp add: register_cleanups_def)
qed

lemma cleanup_order:
  assumes "sort_slice srt" "mset cs = mset all_cleanups" "run = fst (Get srt (register_cleanups cs))"
  shows "mset run = mset all_cleanups" "distinct run" "sorted (map cleanup_priority run)"
proof -
  show m: "mset run = mset all_cleanups"
    unfolding assms(3) Get_items(1) [OF assms(1)] register_cleanups_map assms(2) [symmetric]
    by (simp add: multiset.map_comp comp_def)
  have "distinct all_cleanups" by (simp add: all_cleanups_def)
  then show "distinct run" using mset_eq_imp_distinct_iff [OF m] by simp
  let ?items = "snd (Get srt (register_cleanups cs))"
  have "\<forall>it \<in> set ?items. fiPriority it = cleanup_priority (fiFn it)"
    unfolding Get_items(4) [OF assms(1)] register_cleanups_map by auto
  then have "map fiPriority ?items = map (cleanup_priority \<circ> fiFn) ?items" by simp
  then have "map cleanup_priority run = map fiPriority ?items"
    unfolding assms(3) Get_items(3) [OF assms(1)] by (simp only: map_map)
  then show "sorted (map cleanup_priority run)" using Get_items(2) [OF assms(1)] by simp
qed

text \<open>What is stopped, and what a task other than the mediator's leaves alone.\<close>

definition stopped :: "module \<Rightarrow> cleanup \<Rightarrow> bool" where
  "stopped m c =
     (case c of StopIntervalTasks \<Rightarrow> mdIntervalDone m | StopPingLoop \<Rightarrow> mdPingDone m
      | UnsubscribeChannels \<Rightarrow> \<not> mdSubscribed m | PoolClose \<Rightarrow> wpDone (mdPool m) \<or> wpClosed (mdPool m) \<or> wpChanClosed (mdPool m) | _ \<Rightarrow> False)"

definition stoppable :: "cleanup \<Rightarrow> bool" where
  "stoppable c = (c \<in> {StopIntervalTasks, StopPingLoop, UnsubscribeChannels, PoolClose})"

definition pool_flags :: "'task pool \<Rightarrow> bool" where
  "pool_flags p \<longleftrightarrow> wpDone p = wpClosed p \<and> wpChanClosed p = wpClosed p"

definition same_sessions :: "module \<Rightarrow> module \<Rightarrow> bool" where
  "same_sessions m m' \<longleftrightarrow>
     (let n = wdNode (mdWorld m); n' = wdNode (mdWorld m')
      in ndConns n' = ndConns n \<and> ndAck n' = ndAck n \<and> ndClosed n' = ndClosed n \<and>
         wdActive (mdWorld m') = wdActive (mdWorld m) \<and> mdHealthy m' = mdHealthy m \<and>
         (pool_flags (mdPool m) \<longrightarrow> pool_flags (mdPool m')))"

lemma run_cleanup_other:
  assumes "c \<noteq> MediatorShutdown" "stoppable c \<longrightarrow> \<not> stopped m c"
  shows "\<exists>m'. run_cleanup env c m = Ok m' \<and> same_sessions m m' \<and> mdRun m' = mdRun m @ [c] \<and>
           (\<forall>d. stopped m' d = (stopped m d \<or> d = c \<and> stoppable c))"
  using assms
  by (cases c) (auto simp: run_cleanup_def run_task_def same_sessions_def stopped_def stoppable_def Pool_Close_def close_done_def
      close_queue_def Let_def pool_flags_def upd_node_def split: cleanup.splits)

lemma run_cleanups_other:
  assumes "MediatorShutdown \<notin> set cs" "distinct cs" "\<forall>c \<in> set cs. stoppable c \<longrightarrow> \<not> stopped m c"
  shows "\<exists>m'. run_fns (map (run_cleanup env) cs) m = Ok m' \<and> same_sessions m m' \<and> mdRun m' = mdRun m @ cs \<and>
           (\<forall>d. stopped m' d = (stopped m d \<or> d \<in> set cs \<and> stoppable d))"
  using assms
proof (induction cs arbitrary: m)
  case (Cons c cs)
  obtain m1 where m1: "run_cleanup env c m = Ok m1" "same_sessions m m1" "mdRun m1 = mdRun m @ [c]"
    "\<forall>d. stopped m1 d = (stopped m d \<or> d = c \<and> stoppable c)"
    using run_cleanup_other [of c m env] Cons.prems(1,3) unfolding list.set by blast
  have fresh: "\<forall>d \<in> set cs. stoppable d \<longrightarrow> \<not> stopped m1 d" using Cons.prems(2,3) m1(4) by auto
  obtain m2 where m2: "run_fns (map (run_cleanup env) cs) m1 = Ok m2" "same_sessions m1 m2" "mdRun m2 = mdRun m1 @ cs"
    "\<forall>d. stopped m2 d = (stopped m1 d \<or> d \<in> set cs \<and> stoppable d)"
    using Cons.IH [OF _ _ fresh] Cons.prems(1,2) unfolding list.set distinct.simps by blast
  have "same_sessions m m2" using m1(2) m2(2) by (simp add: same_sessions_def Let_def)
  moreover have "\<forall>d. stopped m2 d = (stopped m d \<or> d \<in> set (c # cs) \<and> stoppable d)" unfolding m2(4) [rule_format] m1(4) [rule_format] by auto
  ultimately show ?case using m1(1,3) m2(1,3) by simp
qed (simp add: same_sessions_def)

lemma run_fns_append: "run_fns (fs @ gs) s = obind (run_fns fs s) (run_fns gs)"
proof (induction fs arbitrary: s)
  case (Cons f fs)
  show ?case by (cases "f s") (simp_all add: Cons.IH)
qed simp

text \<open>A module in operation: nothing is stopped and its container is consistent.\<close>

definition operating :: "module \<Rightarrow> bool" where
  "operating m \<longleftrightarrow>
     (let n = wdNode (mdWorld m) in
      mdRun m = [] \<and> (\<forall>c. \<not> stopped m c) \<and> cm_inv (ndConns n) \<and> (\<exists>cl. ack_inv (Some (ndAck n, cl))) \<and>
      distinct (map wcId (GetAllConnections (ndConns n))) \<and>
      (\<forall>c \<in> set (GetAllConnections (ndConns n)). wcId c \<notin> set (ndClosed n)))"

lemma run_all_cleanups:
  assumes "distinct run" "set run = set all_cleanups" "no_faults env" "operating m"
  shows "\<exists>m'. run_fns (map (run_cleanup env) run) m = Ok m' \<and> mdRun m' = run \<and>
    (\<forall>c. stoppable c \<longrightarrow> stopped m' c) \<and> pool_flags (mdPool m') \<and> mdHealthy m' = mdHealthy m \<and>
    GetAllConnections (ndConns (wdNode (mdWorld m'))) = [] \<and> pending (ndAck (wdNode (mdWorld m'))) = [] \<and>
    (\<forall>u i. u \<noteq> [] \<longrightarrow> ac_row (wdActive (mdWorld m')) u i =
      (if cm_abs (ndConns (wdNode (mdWorld m))) (u, i) \<noteq> None
       then map_option transferred (ac_row (wdActive (mdWorld m)) u i) else ac_row (wdActive (mdWorld m)) u i))"
proof -
  have "MediatorShutdown \<in> set run" by (simp add: assms(2) all_cleanups_def)
  then obtain before after where split: "run = before @ MediatorShutdown # after" by (meson split_list)
  have parts: "MediatorShutdown \<notin> set before" "MediatorShutdown \<notin> set after" "distinct before" "distinct after"
    "set before \<inter> set after = {}"
    using assms(1) unfolding split by auto
  have all: "c \<in> set before \<or> c \<in> set after" if "stoppable c" for c
    using that assms(2) unfolding split by (cases c) (auto simp: stoppable_def all_cleanups_def)
  have fresh: "\<not> stopped m c" for c using assms(4) by (simp add: operating_def Let_def)
  obtain m1 where m1: "run_fns (map (run_cleanup env) before) m = Ok m1" "same_sessions m m1" "mdRun m1 = mdRun m @ before"
    "\<forall>d. stopped m1 d = (stopped m d \<or> d \<in> set before \<and> stoppable d)"
    using run_cleanups_other [OF parts(1,3), of m env] fresh by blast
  have w1: "ndConns (wdNode (mdWorld m1)) = ndConns (wdNode (mdWorld m))" "ndAck (wdNode (mdWorld m1)) = ndAck (wdNode (mdWorld m))"
    "ndClosed (wdNode (mdWorld m1)) = ndClosed (wdNode (mdWorld m))" "wdActive (mdWorld m1) = wdActive (mdWorld m)"
    "mdHealthy m1 = mdHealthy m"
    using m1(2) by (simp_all add: same_sessions_def Let_def)
  from assms(4) obtain cl where op: "cm_inv (ndConns (wdNode (mdWorld m1)))" "ack_inv (Some (ndAck (wdNode (mdWorld m1)), cl))"
    "distinct (map wcId (GetAllConnections (ndConns (wdNode (mdWorld m1)))))"
    "\<forall>c \<in> set (GetAllConnections (ndConns (wdNode (mdWorld m1)))). wcId c \<notin> set (ndClosed (wdNode (mdWorld m1)))"
    unfolding operating_def Let_def w1 by blast
  obtain l a where la: "pending a = []" "Mediator_Shutdown env (mdWorld m1) = (Ok l, shut_down env a (mdWorld m1))"
    using Mediator_Shutdown_Ok [OF op(2)] by blast
  define m2 where "m2 = m1\<lparr>mdWorld := shut_down env a (mdWorld m1), mdTransferring := l, mdRun := mdRun m1 @ [MediatorShutdown]\<rparr>"
  have r2: "run_cleanup env MediatorShutdown m1 = Ok m2" by (simp add: run_cleanup_def run_task_def la m2_def)
  have st: "stopped m2 c = stopped m1 c" for c by (simp add: stopped_def m2_def split: cleanup.split)
  have "\<forall>c \<in> set after. stoppable c \<longrightarrow> \<not> stopped m2 c" using parts(5) fresh by (auto simp: st m1(4))
  from run_cleanups_other [OF parts(2,4) this, of env] obtain m3 where m3:
    "run_fns (map (run_cleanup env) after) m2 = Ok m3" "same_sessions m2 m3" "mdRun m3 = mdRun m2 @ after"
    "\<forall>d. stopped m3 d = (stopped m2 d \<or> d \<in> set after \<and> stoppable d)" by blast
  have "run_fns (map (run_cleanup env) run) m = Ok m3"
    unfolding split map_append list.map run_fns_append m1(1) by (simp add: r2 m3(1))
  moreover have "mdRun m3 = run" using m1(3) m3(3) assms(4) by (simp add: m2_def split operating_def Let_def)
  moreover have "\<forall>c. stoppable c \<longrightarrow> stopped m3 c" using all by (auto simp: m3(4) st m1(4))
  moreover have w3: "ndConns (wdNode (mdWorld m3)) = ndConns (wdNode (mdWorld m2))"
    "ndAck (wdNode (mdWorld m3)) = ndAck (wdNode (mdWorld m2))" "wdActive (mdWorld m3) = wdActive (mdWorld m2)"
    "mdHealthy m3 = mdHealthy m"
    using m3(2) w1(5) by (simp_all add: same_sessions_def Let_def m2_def)
  moreover have "pool_flags (mdPool m)" using fresh [of PoolClose] by (simp add: stopped_def pool_flags_def)
  then have "pool_flags (mdPool m3)" using m1(2) m3(2) by (simp add: same_sessions_def Let_def m2_def)
  moreover note shut_down_effect [OF assms(3) op(1,3,4), where a = a]
  ultimately show ?thesis using la(1) by (simp add: m2_def w1)
qed

text \<open>However the parts of the module are constructed, and whichever order the sorting chooses among
  tasks of equal priority, a shutdown runs every clean-up task exactly once: the tickers and
  subscriptions stop first, the sessions are handed over next, then the worker pool is
  closed, and the report comes last.  Afterwards the module is unhealthy, no connection and
  no pending acknowledgement is left, and exactly the user sessions that were connected are
  marked as transferring in the shared table.\<close>

theorem module_shutdown_complete:
  assumes "sort_slice srt" "mset cs = mset all_cleanups" "no_faults env" "operating m"
  shows "\<exists>m'. Module_Shutdown srt env now (register_cleanups cs) m = Ok m' \<and>
    mset (mdRun m') = mset all_cleanups \<and> sorted (map cleanup_priority (mdRun m')) \<and>
    \<not> hlIsHealthy (mdHealthy m') \<and> mdIntervalDone m' \<and> mdPingDone m' \<and> \<not> mdSubscribed m' \<and> wpClosed (mdPool m') \<and>
    GetAllConnections (ndConns (wdNode (mdWorld m'))) = [] \<and> pending (ndAck (wdNode (mdWorld m'))) = [] \<and>
    (\<forall>u i. u \<noteq> [] \<longrightarrow> ac_row (wdActive (mdWorld m')) u i =
      (if cm_abs (ndConns (wdNode (mdWorld m))) (u, i) \<noteq> None
       then map_option (\<lambda>r. r\<lparr>acStatus := WsStatusTransferring, acHolderID := []\<rparr>) (ac_row (wdActive (mdWorld m)) u i)
       else ac_row (wdActive (mdWorld m)) u i))"
proof -
  let ?run = "fst (Get srt (register_cleanups cs))"
  let ?m = "m\<lparr>mdHealthy := hl_SetUnhealthy now ''Shutting down'' (mdHealthy m)\<rparr>"
  note order = cleanup_order [OF assms(1,2) refl]
  have "stopped ?m c = stopped m c" for c by (cases c) (simp_all add: stopped_def)
  then have "operating ?m" using assms(4) by (simp add: operating_def Let_def)
  from run_all_cleanups [OF order(2) mset_eq_setD [OF order(1)] assms(3) this]
  obtain m' where m': "run_fns (map (run_cleanup env) ?run) ?m = Ok m'" "mdRun m' = ?run" "\<forall>c. stoppable c \<longrightarrow> stopped m' c"
    "pool_flags (mdPool m')" "mdHealthy m' = mdHealthy ?m" and rest: "GetAllConnections (ndConns (wdNode (mdWorld m'))) = []"
    "pending (ndAck (wdNode (mdWorld m'))) = []"
    "\<forall>u i. u \<noteq> [] \<longrightarrow> ac_row (wdActive (mdWorld m')) u i =
      (if cm_abs (ndConns (wdNode (mdWorld ?m))) (u, i) \<noteq> None
       then map_option transferred (ac_row (wdActive (mdWorld ?m)) u i) else ac_row (wdActive (mdWorld ?m)) u i)"
    by blast
  have "\<not> hlIsHealthy (mdHealthy m')" by (simp add: m'(5) hl_SetUnhealthy_def)
  moreover have "mdIntervalDone m' \<and> mdPingDone m' \<and> \<not> mdSubscribed m' \<and> wpClosed (mdPool m')"
    using m'(3) [THEN spec, of StopIntervalTasks] m'(3) [THEN spec, of StopPingLoop]
      m'(3) [THEN spec, of UnsubscribeChannels] m'(3) [THEN spec, of PoolClose]
      m'(4) by (auto simp: stoppable_def stopped_def pool_flags_def)
  moreover have "Module_Shutdown srt env now (register_cleanups cs) m = Ok m'" by (simp add: Module_Shutdown_def Let_def m'(1))
  ultimately show ?thesis using order(1,3) m'(2) rest by (simp add: transferred_def [abs_def])
qed

definition ex_module :: module where
  "ex_module = \<lparr>mdHealthy = NewHealthy, mdWorld = ex_holder, mdSubscribed = True, mdIntervalDone = False, mdPingDone = False,
     mdIntervals = [], mdPool = NewPool 1 1, mdTransferring = [], mdReport = [], mdRun = []\<rparr>"

lemma ex_module_operating: "operating ex_module"
proof -
  have "GetAllConnections (AddConnection (ex_conn 1 ''u'' ''i'') NewConnectionMap) = [ex_conn 1 ''u'' ''i'']"
    by (simp add: GetAllConnections_def AddConnection_def NewConnectionMap_def ex_conn_def IsAnonymous_def
        gm_put_def gm_get_def gm_vals_def Let_def)
  moreover have "\<exists>cl. ack_inv (Some (NewAckManager, cl))"
    by (intro exI [of _ "[]"]) (simp add: ack_inv_def NewAckManager_def gm_vals_def)
  moreover have "\<not> stopped ex_module c" for c by (cases c) (simp_all add: stopped_def ex_module_def NewPool_def)
  ultimately show ?thesis
    by (simp add: operating_def ex_module_def ex_holder_def upd_node_def ex_nworld_def ex_node_def cm_inv_Add cm_inv_New)
qed

lemma sort_key_slice: "sort_slice (sort_key fiPriority)"
  by (simp add: sort_slice_def)

theorem module_shutdown_complete_witness:
  "\<exists>m'. Module_Shutdown (sort_key fiPriority) (ex_nenv 10 (single_codec (AckResolvedParams []))) 5
      (register_cleanups (rev all_cleanups)) ex_module = Ok m' \<and> GetAllConnections (ndConns (wdNode (mdWorld m'))) = []"
  using module_shutdown_complete [OF sort_key_slice, of "rev all_cleanups" "ex_nenv 10 (single_codec (AckResolvedParams []))" ex_module 5]
    ex_module_operating by auto

lemma run_cleanup_done:
  assumes "mdIntervalDone m"
  shows "run_cleanup env c m = Panic \<or> (\<exists>m'. c \<noteq> StopIntervalTasks \<and> run_cleanup env c m = Ok m' \<and> mdIntervalDone m')"
  using assms
  by (cases c) (auto simp: run_cleanup_def run_task_def Pool_Close_def close_done_def close_queue_def Let_def
      split: prod.splits outcome.splits)

lemma run_done: "\<lbrakk>mdIntervalDone m; StopIntervalTasks \<in> set cs\<rbrakk> \<Longrightarrow> run_fns (map (run_cleanup env) cs) m = Panic"
proof (induction cs arbitrary: m)
  case (Cons c cs)
  then show ?case using run_cleanup_done [of m env c] by auto
qed simp

text \<open>Once the interval tasks are stopped, which every shutdown does, another shutdown panics,
  because the stop function closes its channel again.\<close>

theorem second_shutdown_panics:
  assumes "sort_slice srt" "mset cs = mset all_cleanups" "mdIntervalDone m"
  shows "Module_Shutdown srt env now (register_cleanups cs) m = Panic"
proof -
  have "StopIntervalTasks \<in> set (fst (Get srt (register_cleanups cs)))"
    using mset_eq_setD [OF cleanup_order(1) [OF assms(1,2) refl]] by (simp add: all_cleanups_def)
  from run_done [OF _ this] assms(3) show ?thesis by (simp add: Module_Shutdown_def Let_def)
qed

theorem second_shutdown_panics_witness:
  "Module_Shutdown (sort_key fiPriority) (ex_nenv 10 (single_codec (AckResolvedParams []))) 5
     (register_cleanups all_cleanups) (ex_module\<lparr>mdIntervalDone := True\<rparr>) = Panic"
  by (rule second_shutdown_panics) (simp_all add: sort_key_slice)

text \<open>A container that is shutting down can report itself healthy again: if its queue was not
  below the lower threshold when the shutdown began, the first tick of the queue monitor that
  finds it drained, long before the pool is closed, runs the action of the lower threshold.\<close>

theorem healthy_while_shutting_down:
  assumes "int before \<ge> lower" "int after < lower" "lower \<le> upper"
    and "monitor_tick upper lower before flags = (fires, flags')" "monitor_tick upper lower after flags' = (fires', flags'')"
  shows "hlIsHealthy (pool_health now fires' (hl_SetUnhealthy now' ''Shutting down'' h))"
proof -
  have "flags' = (int before > upper, False)" "fires' = (False, True)"
    using assms by (auto simp: monitor_tick_def Let_def split: prod.splits)
  then show ?thesis by (simp add: pool_health_def hl_SetHealthy_def Let_def)
qed

theorem healthy_while_shutting_down_witness:
  "hlIsHealthy (pool_health 2 (False, True) (hl_SetUnhealthy 1 ''Shutting down'' NewHealthy))"
  using healthy_while_shutting_down [of 3 5 0 9 "(False, False)" "(False, False)" "(False, False)" "(False, True)" "(False, True)" 2 1 NewHealthy]
  by (simp add: monitor_tick_def)

subsection \<open>Interval tasks\<close>

text \<open>Every tick hands all registered tasks, each once and in the order of their priorities, to the
  worker pool as one task, or the pool refuses them all; after the stop no tick does anything.
  No tick panics on a pool whose task channel is closed, since the pool is then marked closed.\<close>

theorem interval_tick_exact:
  assumes "sort_slice srt" "wpChanClosed (mdPool m) \<longrightarrow> wpClosed (mdPool m)"
  shows "\<exists>m'. interval_tick srt waiting m = Ok m' \<and>
    (if mdIntervalDone m then m' = m
     else \<exists>items. mset items = mset (mdIntervals m) \<and> sorted (map fiPriority items) \<and> mdIntervals m' = items \<and>
           (wpAccepted (mdPool m') = wpAccepted (mdPool m) @ [map fiFn items] \<and> \<not> wpClosed (mdPool m) \<or>
            wpAccepted (mdPool m') = wpAccepted (mdPool m) \<and> wpDropped (mdPool m') = wpDropped (mdPool m) + 1 \<and>
            (wpClosed (mdPool m) \<or> wpCap (mdPool m) \<le> length (wpQueue (mdPool m)))))"
  using assms by (auto simp: interval_tick_def Get_def Let_def sort_slice_def Submit_def chan_send_def)

theorem interval_tick_exact_witness:
  "\<exists>m'. interval_tick (sort_key fiPriority) True ex_module = Ok m' \<and> mdIntervals m' = []"
  using interval_tick_exact [OF sort_key_slice, of ex_module True]
  by (auto simp: ex_module_def NewPool_def)

subsection \<open>Tuning\<close>

text \<open>The reported limits are those in effect: the soft limit is never lowered, never above the hard
  limit, and reaches it unless the kernel refuses; a refused limit leaves the process as it was.\<close>

theorem tune_reports_effective:
  assumes "tune_Apply numCPU gomaxprocs True allowed (soft, hard) = (res, soft', hard')" "soft \<le> hard"
  shows "trFDSoft res = soft' \<and> trFDHard res = hard' \<and> hard' = hard \<and> soft \<le> soft' \<and> soft' \<le> hard \<and>
         (allowed hard \<longrightarrow> soft' = hard) \<and>
         (\<not> allowed hard \<and> allowed practicalFDCeiling \<and> practicalFDCeiling \<le> hard \<longrightarrow> soft' = max soft practicalFDCeiling)"
  using assms
  by (auto simp: tune_Apply_def raiseSoftLimit_def setFDSoftLimit_def Let_def max_def split: if_splits outcome.splits prod.splits)

theorem tune_reports_effective_witness:
  "fst (snd (tune_Apply 8 2 True (\<lambda>n. n \<le> 2000000) (1024, 4000000))) = 1048576"
  using tune_reports_effective [of 8 2 "\<lambda>n. n \<le> 2000000" 1024 4000000]
  by (cases "tune_Apply 8 2 True (\<lambda>n. n \<le> 2000000) (1024, 4000000)") (simp add: practicalFDCeiling_def)

end
