(* ===== verification/Spec2Isabelle.thy ===== *)
theory Spec2Isabelle
  imports Wire Message Auth ConnManager RateLimiter AckManager Aerror Repo DdbBatch PendingRepo
    WorkerPool MsgHub Gobwas ClientMsg Broadcast EventTrigger Queue Node Mediator Routing
    Delivery Sessions Tokens IpLimiter Endpoints Monitoring Config
    Webhook AsyncCallbacks ServerConfig RestApi ServerFns DdbActive Metrics Migrations PubSub Lifecycle
begin

text \<open>
  Verification of the pipewave server, a Go library that keeps websocket and long-polling
  sessions of many clients on many containers and delivers messages to them.

  \<^bold>\<open>The program.\<close>  A client obtains a connection token, opens a websocket with it or polls over
  HTTP, and is registered at one container under its session, a user id and an instance id
  (anonymous clients have an instance id only).  The containers share a database (which
  container holds which session; messages buffered for sessions that are away), a cache, a
  queue server and a pub/sub service.  A service call at any container looks a session up in
  the database, delivers locally, publishes a message to the container that holds the
  session, or buffers the message.  When a connection closes, its session is parked for a
  while at its container; when it comes back anywhere, the buffered messages are delivered.
  Around this core stand the application hooks, the configuration, and a stand-alone server
  with an administration API and callbacks over webhooks.

  \<^bold>\<open>Conventions.\<close>  A Go function that returns an error or may panic is a function to
  \<open>outcome\<close> (\<open>Ok\<close>, \<open>Err\<close>, \<open>Panic\<close>); state is passed explicitly as records.  Times and
  durations are integers in nanoseconds, \<open>int\<close> values are integers with the wrap-around
  written out where the code can overflow.  Go maps are association lists with distinct keys
  (\<open>gomap\<close>).  Code outside the repository (the msgpack and JSON codecs, database and queue
  servers, token parsing, regular expressions, signatures, HTTP) is an argument of the
  definitions, mostly a field of an environment record; what a theorem needs of it is a named
  predicate among its hypotheses.  The clock, fresh identifiers, the faults of a
  request and the answers of peers are such arguments too, so theorems hold for every value
  of them.  Code that runs concurrently is a step relation, with the invariants proved through the
  locale \<open>step_invariant\<close>.  Its steps are the critical sections of the source, or the single
  loads, stores and deletes where it has no lock (slots, de-duplication); only the container in
  \<open>Sessions\<close>, which puts all components together, takes whole operations as steps.

  \<^bold>\<open>The theories and the code they model\<close> (paths under \<open>src/\<close>; \<open>ws\<close> is \<open>core/service/websocket\<close>):

  \<^item> \<open>Prelude\<close>, \<open>GoStr\<close>: outcomes, bytes, slices, maps, steps; the string functions of Go.
  \<^item> \<open>Wire\<close> (\<open>ws/wire\<close>), \<open>Message\<close> (\<open>ws/0.message_type.go\<close>, \<open>ws/6.helper.go\<close>), \<open>Auth\<close>
    (\<open>export/types/auth.go\<close>, \<open>core/domain/value-object\<close>): the envelope, messages, identities.
    Decoding inverts encoding and never panics on any bytes.
  \<^item> \<open>ConnManager\<close> (\<open>ws/connection-manager\<close>), \<open>RateLimiter\<close> (\<open>ws/rate-limiter\<close>), \<open>AckManager\<close>
    (\<open>ws/ack-manager\<close>), \<open>EventTrigger\<close> (\<open>ws/ws-event-trigger\<close>): the registries of a
    container.  The nested connection maps implement one map (locale \<open>conn_store\<close>); no
    interleaving of the acknowledgement manager closes a channel twice.
  \<^item> \<open>Aerror\<close> (\<open>shared/aerror\<close>): error codes and their HTTP status.
  \<^item> \<open>Repo\<close> (\<open>core/repository/impl-postgres\<close>), \<open>DdbBatch\<close> (\<open>pkg/dynamodb\<close>), \<open>PendingRepo\<close>
    (\<open>pending_message\<close> of both back ends): tables as row lists, statements as row updates with
    faults.  Both stores of buffered messages satisfy the locale \<open>pending_store\<close>; batched writes
    end within their depth (locale \<open>batch_writer\<close>).
  \<^item> \<open>DdbActive\<close> (\<open>active_conn\<close> and \<open>user\<close> of \<open>core/repository/impl-dynamodb\<close>), \<open>Migrations\<close>
    (\<open>provider/postgres/migration.go\<close>): the DynamoDB tables simulate the Postgres ones and keep
    their attribute types; every migration is applied once whatever interrupts a start.
  \<^item> \<open>WorkerPool\<close> (\<open>pkg/worker-pool\<close>), \<open>MsgHub\<close> (\<open>ws/msg-hub\<close>), \<open>Queue\<close> (\<open>pkg/queue\<close>), \<open>Cache\<close>
    (\<open>pkg/cache\<close>, \<open>provider/cache-provider\<close>): no send on a closed channel, order and
    capacity of the pool in every interleaving with its \<open>Close\<close>, expiry timers that remove exactly their own registration, no lost message on
    consumption, values read back as they were stored.
  \<^item> \<open>PubSub\<close> (\<open>pkg/pubsub\<close>, the wrapper of \<open>pkg/queue\<close>), \<open>Metrics\<close> (\<open>pkg/metrics\<close>,
    \<open>provider/metrics-provider\<close>): what a subscription hands to its handler and when it gives up,
    typed queues, bounded label sets.
  \<^item> \<open>Gobwas\<close> (\<open>ws/server/gobwas\<close>), \<open>ClientMsg\<close> (\<open>ws/client-msg-handler\<close>): connection slots, the
    close protocol, frames, the detection of silent peers; what the handler answers to a client
    message, and a de-duplicator that drops nothing but repetitions.
  \<^item> \<open>Broadcast\<close> (\<open>ws/broadcast\<close>), \<open>Node\<close> (\<open>ws/broadcast-msg-handler\<close> and the close callback of
    \<open>ws/mediator/delivery/0.new.go\<close>), \<open>Mediator\<close> (\<open>ws/mediator/service\<close>), \<open>Routing\<close>: a container
    and its shared tables, the services, which containers a message reaches, and an acknowledged
    send from the asking container over the holder and the client back.
  \<^item> \<open>Delivery\<close> (the new-connection callback), \<open>Sessions\<close>: sessions across containers: no loss
    over a reconnect or a graceful shutdown, and limiters for connected owners (a
    client message that is handled after its connection closed may leave one behind).
  \<^item> \<open>Tokens\<close> (\<open>ws/exchange-token\<close>, \<open>ws/mediator/delivery/anon_instance.go\<close>), \<open>IpLimiter\<close>,
    \<open>Endpoints\<close> (\<open>ws/mediator/delivery\<close>): tokens are accepted once, anonymous ids are authentic,
    the endpoints have no effect without credentials, polls lose and reorder nothing.
  \<^item> \<open>Monitoring\<close> (\<open>core/service/business\<close>), \<open>Config\<close> (\<open>export/types\<close>), \<open>ServerConfig\<close>
    (\<open>server/config\<close>): counts, defaults and validation.
  \<^item> \<open>Webhook\<close>, \<open>AsyncCallbacks\<close> (\<open>server/webhook\<close>, \<open>server/callback\<close>), \<open>ServerFns\<close> (\<open>server/fns\<close>,
    \<open>server/authn\<close>), \<open>RestApi\<close> (\<open>server/restapi\<close>): signed callbacks with retries and a breaker,
    asynchronous events accounted for one by one, hooks that fail closed, an API that needs a key.
  \<^item> \<open>Lifecycle\<close> (\<open>provider/healthy-provider\<close>, \<open>provider/fn-collector\<close>,
    \<open>core/delivery/module/0.0.new.go\<close>, \<open>pkg/runtimetune\<close>): the health flag, the interval tasks, the
    clean-up tasks of a shutdown in the order of their priorities, the descriptor limit.

  \<^bold>\<open>Bounds and fuel.\<close>  No definition has a fuel argument of its own: loops are structural or have a
  termination measure.  Loops the code bounds itself keep its bound as data (five attempts
  to save a message, the depth of a batched write, \<open>retryMax\<close> of a callback).  Loops that
  only end with the process (tickers, worker and dispatcher loops) are modelled by one
  iteration, as a step.

  \<^bold>\<open>Not modelled.\<close>  Dependency wiring, process start-up and signals, the set-up of
  database, cache and telemetry clients, logging, tracing and metrics export, the epoll
  registration and the HTTP upgrade of a websocket, generated code and the generators under \<open>tools\<close>,
  and the examples: they are input and output, or calls to packages that are not part of the
  repository, without a decision of their own to verify.
\<close>

end
